(* ===== verification/Prelude.thy ===== *)
theory Prelude
  imports Main "HOL-Library.List_Lexorder" "HOL-Library.Char_ord"
begin

text \<open>
  What every component shares: the Python values the gateway code computes with (strings and
  their truthiness, timestamps with and without a time zone, decoded JSON), the exceptions it
  raises, tables as lists of rows, and the contracts (locales) that several components meet.

  \<^item> An operation that may raise and that writes through a database session is a function
    from the state to a pair: the result, \<open>Inl\<close> an exception or \<open>Inr\<close> a value, and the state
    the session holds afterwards. An exception does not undo writes that were made before it.
  \<^item> Strings are lists of 8-bit characters; the identifiers of the program are ASCII.
  \<^item> A clock reading (\<open>_now()\<close>) and a generated row id (\<open>new_uuid\<close>) are arguments.
\<close>

named_theorems row_simps \<open>how a table update shows in a lookup\<close>
named_theorems guard_dests \<open>what a successful guard lets a proof use\<close>

section \<open>Exceptions\<close>

text \<open>The exceptions of the modelled modules, with the machine readable code they carry.\<close>

datatype pyexc =
    ExecutionStoreError string
  | WorkClaimError string
  | LeaseError string
  | BindingError string
  | AdoptionRefusedError string
  | ManifestError string
  | PolicyRejectedError string
  | CycleBlockedError string
  | EvaluationVersionError string
  | EvaluationAcceptanceError string
  | SharedAppendError string
  | GenesisRefusedError
  | ProposalRejectedError
  | TenantMismatchError
  | NonApprovalSupersedeError
  | PolicyNotAcceptableError
  | ExpiredExecutionPolicyError
  | DraftFlowConflictError
  | WindowRenewalError
  | HTTPException nat
  | IndexError
  | ValueError
  | TypeError
  | AttributeError
  | KeyError
  | RuntimeError
  | UnboundLocalError
  | MultipleResultsFound
  | IntegrityError

text \<open>\<open>except ValueError\<close>, which also catches the subclasses.\<close>

fun is_value_error :: "pyexc \<Rightarrow> bool" where
  "is_value_error ValueError = True"
| "is_value_error (EvaluationVersionError _) = True"
| "is_value_error (EvaluationAcceptanceError _) = True"
| "is_value_error (SharedAppendError _) = True"
| "is_value_error (PolicyRejectedError _) = True"
| "is_value_error WindowRenewalError = True"
| "is_value_error _ = False"

type_synonym ('s, 'a) op = "'s \<Rightarrow> (pyexc + 'a) \<times> 's"

text \<open>\<open>begin_nested\<close>: an exception restores what the block found.\<close>

definition nested :: "('s, 'a) op \<Rightarrow> ('s, 'a) op" where
  "nested f d = (case f d of (Inl e, _) \<Rightarrow> (Inl e, d) | (Inr x, d1) \<Rightarrow> (Inr x, d1))"

text \<open>The next step of a computation that reads and may raise.\<close>

fun and_then :: "pyexc + 'a \<Rightarrow> ('a \<Rightarrow> pyexc + 'b) \<Rightarrow> pyexc + 'b" where
  "and_then (Inl e) f = Inl e"
| "and_then (Inr x) f = f x"

lemma and_then_cong [cong]: "x = y \<Longrightarrow> (\<And>v. y = Inr v \<Longrightarrow> f v = g v) \<Longrightarrow> and_then x f = and_then y g"
  by (cases y) auto

lemma and_then_Inr: "and_then x f = Inr y \<longleftrightarrow> (\<exists>v. x = Inr v \<and> f v = Inr y)"
  by (cases x) auto

section \<open>Strings\<close>

text \<open>\<open>str.isspace\<close> on the first 256 code points.\<close>

definition py_space :: "char \<Rightarrow> bool" where
  "py_space c \<longleftrightarrow> (let n = (of_char c :: nat) in (9 \<le> n \<and> n \<le> 13) \<or> (28 \<le> n \<and> n \<le> 32) \<or> n = 133 \<or> n = 160)"

definition strip :: "string \<Rightarrow> string" where
  "strip s = rev (dropWhile py_space (rev (dropWhile py_space s)))"

text \<open>\<open>not str(x or "").strip()\<close> for a value that is a string or None.\<close>

definition blank :: "string \<Rightarrow> bool" where
  "blank s \<longleftrightarrow> strip s = []"

fun blank_opt :: "string option \<Rightarrow> bool" where
  "blank_opt None = True"
| "blank_opt (Some s) = blank s"

text \<open>Truthiness of an optional string: None and the empty string are false.\<close>

fun truthy :: "string option \<Rightarrow> bool" where
  "truthy None = False"
| "truthy (Some s) = (s \<noteq> [])"

text \<open>\<open>x or None\<close> for an optional string.\<close>

definition or_none :: "string option \<Rightarrow> string option" where
  "or_none x = (if truthy x then x else None)"

text \<open>\<open>x or d\<close> for an optional string.\<close>

definition or_else :: "string option \<Rightarrow> string \<Rightarrow> string" where
  "or_else x d = (case x of Some s \<Rightarrow> (if s \<noteq> [] then s else d) | None \<Rightarrow> d)"

lemma dropWhile_all: "dropWhile P xs = [] \<longleftrightarrow> (\<forall>x \<in> set xs. P x)"
  by (induction xs) auto

lemma blank_iff: "blank s \<longleftrightarrow> (\<forall>c \<in> set s. py_space c)"
proof -
  have "blank s \<longleftrightarrow> (\<forall>c \<in> set (dropWhile py_space s). py_space c)"
    by (simp add: blank_def strip_def dropWhile_all)
  also have "\<dots> \<longleftrightarrow> (\<forall>c \<in> set s. py_space c)"
    by (induction s) auto
  finally show ?thesis .
qed

lemma blank_Nil [simp]: "blank []"
  by (simp add: blank_iff)

lemma not_blank_nonempty [guard_dests]: "\<not> blank s \<Longrightarrow> s \<noteq> []"
  by auto

lemma blank_strip [simp]: "blank (strip s) \<longleftrightarrow> blank s"
proof
  assume "blank (strip s)"
  show "blank s"
  proof (rule ccontr)
    assume "\<not> blank s"
    then have "strip s \<noteq> []" by (simp add: blank_def)
    moreover have "\<not> py_space (last (strip s))"
      using \<open>strip s \<noteq> []\<close> hd_dropWhile [of py_space "rev (dropWhile py_space s)"]
      by (simp add: strip_def last_rev)
    ultimately show False
      using \<open>blank (strip s)\<close> last_in_set by (auto simp: blank_iff)
  qed
next
  assume "blank s"
  then have "strip s = []" by (simp add: blank_def)
  then show "blank (strip s)" by simp
qed

lemma or_none_eq_None: "or_none x = None \<longleftrightarrow> \<not> truthy x"
  by (cases x) (auto simp: or_none_def)

text \<open>
  A value in an integer field before it is validated: Python's \<open>bool\<close> is an \<open>int\<close>, which the
  constructors exclude, and anything else is no integer at all.
\<close>

datatype pynum = PyInt int | PyBool bool | PyOther

text \<open>\<open>isinstance(x, bool) or not isinstance(x, int) or x < lo\<close> does not hold.\<close>

fun int_at_least :: "int \<Rightarrow> pynum \<Rightarrow> bool" where
  "int_at_least lo (PyInt n) = (lo \<le> n)"
| "int_at_least lo _ = False"

fun the_int :: "pynum \<Rightarrow> int" where
  "the_int (PyInt n) = n"
| "the_int (PyBool b) = (if b then 1 else 0)"
| "the_int PyOther = 0"

lemma int_at_leastE: "int_at_least lo x \<Longrightarrow> \<exists>n. x = PyInt n \<and> lo \<le> n"
  by (cases x) auto

definition digit :: "char \<Rightarrow> bool" where
  "digit c \<longleftrightarrow> CHR ''0'' \<le> c \<and> c \<le> CHR ''9''"

text \<open>\<open>int(text)\<close>: optional surrounding space, sign, digits with single underscores.\<close>

fun digits_value :: "bool \<Rightarrow> int \<Rightarrow> string \<Rightarrow> int option" where
  "digits_value seen acc [] = (if seen then Some acc else None)"
| "digits_value seen acc (c # cs) =
     (if digit c then digits_value True (acc * 10 + int (of_char c) - 48) cs
      else if c = CHR ''_'' \<and> seen \<and> cs \<noteq> [] \<and> digit (hd cs) then digits_value False acc cs else None)"

definition py_int :: "string \<Rightarrow> int option" where
  "py_int s = (case strip s of [] \<Rightarrow> None
     | c # cs \<Rightarrow> if c = CHR ''-'' then map_option uminus (digits_value False 0 cs)
                 else if c = CHR ''+'' then digits_value False 0 cs else digits_value False 0 (c # cs))"

section \<open>Timestamps\<close>

text \<open>
  A \<open>datetime\<close> is an instant, counted in microseconds of UTC, that either carries its time
  zone or has lost it in a driver that drops the offset (SQLite); every writer of the modelled
  columns writes UTC. Values with and without a zone are never equal in Python.
\<close>

datatype pydt = Aware (stamp: int) | Naive (stamp: int)

fun tz_aware :: "pydt \<Rightarrow> bool" where
  "tz_aware (Aware t) = True"
| "tz_aware (Naive t) = False"

text \<open>\<open>_as_aware\<close>: the same helper in three modules.\<close>

fun as_aware :: "pydt option \<Rightarrow> pydt option" where
  "as_aware None = None"
| "as_aware (Some (Aware t)) = Some (Aware t)"
| "as_aware (Some (Naive t)) = Some (Aware t)"

text \<open>\<open>moment + timedelta(seconds=n)\<close>.\<close>

fun plus_seconds :: "pydt \<Rightarrow> int \<Rightarrow> pydt" where
  "plus_seconds (Aware t) n = Aware (t + n * 1000000)"
| "plus_seconds (Naive t) n = Naive (t + n * 1000000)"

text \<open>\<open>expiry and expiry <= now\<close> for a stored, possibly absent expiry.\<close>

fun lapsed_by :: "pydt option \<Rightarrow> pydt \<Rightarrow> bool" where
  "lapsed_by None now = False"
| "lapsed_by (Some e) now = (stamp e \<le> stamp now)"

lemma as_aware_aware [simp]: "as_aware x = Some d \<Longrightarrow> tz_aware d"
  by (cases x rule: as_aware.cases) auto

lemma as_aware_idem [simp]: "as_aware (as_aware x) = as_aware x"
  by (cases x rule: as_aware.cases) auto

lemma as_aware_None [simp]: "as_aware x = None \<longleftrightarrow> x = None"
  by (cases x rule: as_aware.cases) auto

lemma stamp_plus [simp]: "stamp (plus_seconds d n) = stamp d + n * 1000000"
  by (cases d) auto

lemma lapsed_as_aware [simp]: "lapsed_by (as_aware x) now = lapsed_by x now"
  by (cases x rule: as_aware.cases) auto

section \<open>Decoded JSON\<close>

text \<open>
  A decoded JSON value; objects keep the order of their keys. A text column that holds JSON is
  its raw text together with what \<open>json.loads\<close> makes of it, None where it raises.
\<close>

datatype json =
    JNull | JBool bool | JInt int | JStr string | JArr "json list" | JObj "(string \<times> json) list"

record jtext =
  raw_text :: string
  decoded :: "json option"

text \<open>\<open>d.get(key)\<close>: None for a missing key; only a dict has \<open>get\<close>.\<close>

fun jfields :: "json \<Rightarrow> (string \<times> json) list option" where
  "jfields (JObj fs) = Some fs"
| "jfields _ = None"

definition jget :: "(string \<times> json) list \<Rightarrow> string \<Rightarrow> json" where
  "jget fs k = (case map_of fs k of Some v \<Rightarrow> v | None \<Rightarrow> JNull)"

text \<open>Truthiness of a decoded value.\<close>

fun jtruthy :: "json \<Rightarrow> bool" where
  "jtruthy JNull = False"
| "jtruthy (JBool b) = b"
| "jtruthy (JInt n) = (n \<noteq> 0)"
| "jtruthy (JStr s) = (s \<noteq> [])"
| "jtruthy (JArr xs) = (xs \<noteq> [])"
| "jtruthy (JObj fs) = (fs \<noteq> [])"

text \<open>An optional string as the JSON value Python compares it with.\<close>

fun jopt :: "string option \<Rightarrow> json" where
  "jopt None = JNull"
| "jopt (Some s) = JStr s"

text \<open>\<open>d[key] = v\<close>: in place when the key is there, at the end otherwise.\<close>

fun dict_set :: "string \<Rightarrow> 'v \<Rightarrow> (string \<times> 'v) list \<Rightarrow> (string \<times> 'v) list" where
  "dict_set k v [] = [(k, v)]"
| "dict_set k v ((k', v') # fs) = (if k' = k then (k, v) # fs else (k', v') # dict_set k v fs)"

lemma map_of_dict_set [simp]: "map_of (dict_set k v fs) = (map_of fs)(k \<mapsto> v)"
  by (induction k v fs rule: dict_set.induct) auto

text \<open>\<open>dict(pairs)\<close>.\<close>

definition dict_of :: "(string \<times> 'v) list \<Rightarrow> (string \<times> 'v) list" where
  "dict_of ps = foldl (\<lambda>d p. dict_set (fst p) (snd p) d) [] ps"

text \<open>Decimal and two-digit hexadecimal numerals.\<close>

fun nat_text :: "nat \<Rightarrow> string" where
  "nat_text n = (if n < 10 then [''0123456789'' ! n] else nat_text (n div 10) @ [''0123456789'' ! (n mod 10)])"

declare nat_text.simps [simp del]

definition int_text :: "int \<Rightarrow> string" where
  "int_text i = (if i < 0 then ''-'' @ nat_text (nat (- i)) else nat_text (nat i))"

definition hex2 :: "nat \<Rightarrow> string" where
  "hex2 n = [''0123456789abcdef'' ! (n div 16 mod 16), ''0123456789abcdef'' ! (n mod 16)]"

fun joined :: "string \<Rightarrow> string list \<Rightarrow> string" where
  "joined sep [] = []"
| "joined sep [s] = s"
| "joined sep (s # ss) = s @ sep @ joined sep ss"

text \<open>\<open>json.dumps\<close> with its default separators and \<open>ensure_ascii\<close>; the keys in the order given.\<close>

definition dumps_char :: "char \<Rightarrow> string" where
  "dumps_char c = (let n = (of_char c :: nat) in
     if n = 34 then [CHR 0x5C, CHR 0x22] else if n = 92 then [CHR 0x5C, CHR 0x5C]
     else if n = 10 then CHR 0x5C # ''n'' else if n = 13 then CHR 0x5C # ''r''
     else if n = 9 then CHR 0x5C # ''t'' else if n = 12 then CHR 0x5C # ''f''
     else if n = 8 then CHR 0x5C # ''b''
     else if 32 \<le> n \<and> n \<le> 126 then [c] else CHR 0x5C # ''u00'' @ hex2 n)"

definition dumps_string :: "string \<Rightarrow> string" where
  "dumps_string s = CHR 0x22 # concat (map dumps_char s) @ [CHR 0x22]"

primrec dumps :: "json \<Rightarrow> string" where
  "dumps JNull = ''null''"
| "dumps (JBool b) = (if b then ''true'' else ''false'')"
| "dumps (JInt n) = int_text n"
| "dumps (JStr s) = dumps_string s"
| "dumps (JArr xs) = ''['' @ joined '', '' (map dumps xs) @ '']''"
| "dumps (JObj fs) = ''{'' @ joined '', ''
     (map (\<lambda>p. dumps_string (fst p) @ '': '' @ snd p) (map (map_prod id dumps) fs)) @ ''}''"

text \<open>A column written by \<open>json.dumps\<close>; \<open>json.loads\<close> reads the value back.\<close>

definition dumped :: "json \<Rightarrow> jtext" where
  "dumped j = \<lparr>raw_text = dumps j, decoded = Some j\<rparr>"

text \<open>\<open>str(x)\<close> of a decoded value: strings as they are, everything else by its \<open>repr\<close>.\<close>

definition repr_string :: "string \<Rightarrow> string" where
  "repr_string s =
     (let q = (if CHR 0x27 \<in> set s \<and> CHR 0x22 \<notin> set s then CHR 0x22 else CHR 0x27) in
      q # concat (map (\<lambda>c. let n = (of_char c :: nat) in
        if c = q \<or> n = 92 then [CHR 0x5C, c] else if n = 10 then CHR 0x5C # ''n''
        else if n = 13 then CHR 0x5C # ''r'' else if n = 9 then CHR 0x5C # ''t''
        else if n < 32 \<or> (127 \<le> n \<and> n \<le> 160) \<or> n = 173 then CHR 0x5C # ''x'' @ hex2 n
        else [c]) s) @ [q])"

primrec py_repr :: "json \<Rightarrow> string" where
  "py_repr JNull = ''None''"
| "py_repr (JBool b) = (if b then ''True'' else ''False'')"
| "py_repr (JInt n) = int_text n"
| "py_repr (JStr s) = repr_string s"
| "py_repr (JArr xs) = ''['' @ joined '', '' (map py_repr xs) @ '']''"
| "py_repr (JObj fs) = ''{'' @ joined '', ''
     (map (\<lambda>p. repr_string (fst p) @ '': '' @ snd p) (map (map_prod id py_repr) fs)) @ ''}''"

fun py_str :: "json \<Rightarrow> string" where
  "py_str (JStr s) = s"
| "py_str j = py_repr j"

lemma dumps_nonempty [simp]: "dumps j \<noteq> []"
  by (cases j) (auto simp: dumps_string_def int_text_def nat_text.simps)

section \<open>Tables\<close>

text \<open>
  A table is the list of its rows. A select by a primary key or by the columns of a unique
  index matches at most one row, so \<open>scalar_one_or_none\<close> is the first match (\<open>find\<close>); the
  uniqueness itself is an invariant (\<open>unique_on\<close>) that the components keep.
\<close>

definition update_where :: "('r \<Rightarrow> bool) \<Rightarrow> ('r \<Rightarrow> 'r) \<Rightarrow> 'r list \<Rightarrow> 'r list" where
  "update_where P f rows = map (\<lambda>r. if P r then f r else r) rows"

definition unique_on :: "('r \<Rightarrow> 'k) \<Rightarrow> 'r list \<Rightarrow> bool" where
  "unique_on key rows \<longleftrightarrow> distinct (map key rows)"

lemma find_SomeD [guard_dests]: "find P xs = Some x \<Longrightarrow> x \<in> set xs \<and> P x"
  by (induction xs) (auto split: if_splits)

lemma find_None_iff': "find P xs = None \<longleftrightarrow> (\<forall>x \<in> set xs. \<not> P x)"
  by (induction xs) auto

lemma find_append: "find P (xs @ ys) = (case find P xs of None \<Rightarrow> find P ys | Some x \<Rightarrow> Some x)"
  by (induction xs) auto

lemma unique_onD: "unique_on key rows \<Longrightarrow> r \<in> set rows \<Longrightarrow> r' \<in> set rows \<Longrightarrow> key r = key r' \<Longrightarrow> r = r'"
  by (auto simp: unique_on_def distinct_map inj_on_def)

lemma unique_on_append [simp]:
  "unique_on key (rows @ [r]) \<longleftrightarrow> unique_on key rows \<and> key r \<notin> key ` set rows"
  by (auto simp: unique_on_def)

lemma unique_on_update:
  assumes "\<And>r. key (f r) = key r"
  shows "unique_on key (update_where P f rows) \<longleftrightarrow> unique_on key rows"
proof -
  have "map key (update_where P f rows) = map key rows"
    by (simp add: update_where_def assms)
  then show ?thesis by (simp add: unique_on_def)
qed

lemma find_unique:
  assumes "unique_on key rows" "r \<in> set rows" "\<And>x. P x \<longleftrightarrow> key x = key r"
  shows "find P rows = Some r"
proof -
  have "\<exists>x. find P rows = Some x"
    using assms(2,3) find_None_iff' [of P rows] by (cases "find P rows") auto
  then obtain x where x: "find P rows = Some x" ..
  with find_SomeD [OF x] assms have "x = r" by (metis unique_onD)
  with x show ?thesis by simp
qed

lemma set_update_where [row_simps]:
  "set (update_where P f rows) = {f r | r. r \<in> set rows \<and> P r} \<union> {r \<in> set rows. \<not> P r}"
  by (auto simp: update_where_def image_iff)

lemma find_unique_mem:
  assumes "unique_on key rows" "r \<in> set rows" "P r" "\<And>x. P x \<Longrightarrow> key x = key r"
  shows "find P rows = Some r"
proof (cases "find P rows")
  case None
  then show ?thesis using assms(2,3) by (simp add: find_None_iff')
next
  case (Some x)
  with find_SomeD [OF Some] assms have "x = r" by (metis unique_onD)
  with Some show ?thesis by simp
qed

lemma find_update_where [row_simps]:
  assumes "\<And>r. Q (f r) \<longleftrightarrow> Q r"
  shows "find Q (update_where P f rows)
       = map_option (\<lambda>r. if P r then f r else r) (find Q rows)"
  using assms by (induction rows) (auto simp: update_where_def)

lemma update_where_cong:
  "(\<And>r. r \<in> set rows \<Longrightarrow> P r \<Longrightarrow> f r = g r) \<Longrightarrow> update_where P f rows = update_where P g rows"
  by (simp add: update_where_def)

lemma update_where_id: "(\<And>r. r \<in> set rows \<Longrightarrow> P r \<Longrightarrow> f r = r) \<Longrightarrow> update_where P f rows = rows"
  by (simp add: update_where_def map_idI)

lemma length_update_where [simp]: "length (update_where P f rows) = length rows"
  by (simp add: update_where_def)

section \<open>Enumerations stored as text\<close>

text \<open>
  A \<open>StrEnum\<close> is stored by its value and read back by its constructor, which raises on a
  value it does not know. \<open>enum_of\<close> is the constructor over the list of members.
\<close>

definition enum_of :: "('e \<Rightarrow> string) \<Rightarrow> 'e list \<Rightarrow> string \<Rightarrow> 'e option" where
  "enum_of val members s = find (\<lambda>e. val e = s) members"

locale text_enum =
  fixes val :: "'e \<Rightarrow> string" and members :: "'e list"
  assumes all_members: "e \<in> set members"
    and distinct_values: "distinct (map val members)"
begin

lemma val_inject: "val a = val b \<longleftrightarrow> a = b"
  using all_members distinct_values by (auto simp: distinct_map inj_on_def)

lemma parse_val: "enum_of val members (val e) = Some e"
proof -
  have "unique_on val members" using distinct_values by (simp add: unique_on_def)
  then show ?thesis
    unfolding enum_of_def by (rule find_unique) (auto simp: all_members)
qed

lemma parse_iff: "enum_of val members s = Some e \<longleftrightarrow> s = val e"
  using find_SomeD [of "\<lambda>e. val e = s" members e] parse_val
  by (auto simp: enum_of_def)

lemma parse_None: "enum_of val members s = None \<longleftrightarrow> s \<notin> range val"
  by (auto simp: enum_of_def find_None_iff' all_members image_iff)

end

section \<open>Step systems\<close>

text \<open>
  A component whose operations are the steps of a relation: a property that every step keeps
  holds along every run, what every step only extends is only extended, and a counter that no
  step lowers is never lowered.
\<close>

locale step_invariant =
  fixes step :: "'s \<Rightarrow> 's \<Rightarrow> bool" and inv :: "'s \<Rightarrow> bool"
  assumes step_inv: "step s t \<Longrightarrow> inv s \<Longrightarrow> inv t"
begin

lemma run_inv: "step\<^sup>*\<^sup>* s t \<Longrightarrow> inv s \<Longrightarrow> inv t"
  by (induction rule: rtranclp_induct) (auto intro: step_inv)

end

locale growing = step_invariant +
  fixes grows :: "'s \<Rightarrow> 's \<Rightarrow> bool"
  assumes grows_refl: "grows s s"
    and grows_trans: "grows s t \<Longrightarrow> grows t u \<Longrightarrow> grows s u"
    and step_grows: "step s t \<Longrightarrow> inv s \<Longrightarrow> grows s t"
begin

lemma run_grows:
  assumes "step\<^sup>*\<^sup>* s t" "inv s"
  shows "grows s t"
  using assms(1)
proof (induction rule: rtranclp_induct)
  case base
  show ?case by (rule grows_refl)
next
  case (step u t)
  have "inv u" using run_inv [OF step.hyps(1) assms(2)] .
  with step.hyps(2) have "grows u t" by (rule step_grows)
  with step.IH show ?case by (rule grows_trans)
qed

end

locale monotone_counter = step_invariant +
  fixes counter :: "'s \<Rightarrow> 'k \<Rightarrow> int option"
  assumes step_counter:
    "step s t \<Longrightarrow> inv s \<Longrightarrow> counter s k = Some m \<Longrightarrow> \<exists>n. counter t k = Some n \<and> m \<le> n"
begin

lemma run_counter:
  assumes "step\<^sup>*\<^sup>* s t" "inv s" "counter s k = Some m"
  shows "\<exists>n. counter t k = Some n \<and> m \<le> n"
  using assms(1)
proof (induction rule: rtranclp_induct)
  case base
  with assms(3) show ?case by blast
next
  case (step u t)
  then obtain n where "counter u k = Some n" "m \<le> n" by blast
  moreover have "inv u" using run_inv step.hyps(1) assms(2) by blast
  ultimately show ?case using step_counter [OF step.hyps(2)] by fastforce
qed

text \<open>A generation that has been passed is passed for good.\<close>

lemma superseded_stays:
  assumes "step\<^sup>*\<^sup>* s t" "inv s" "counter s k = Some m" "g < m"
  shows "\<exists>n. counter t k = Some n \<and> g < n"
  using run_counter [OF assms(1-3)] assms(4) by fastforce

end

end
