(* ===== verification/Node_State.thy ===== *)
theory Node_State
  imports Prelude
begin

text \<open>
  The node states of the orchestration graph, the declared transition table and the one guarded
  entry point \<open>transition\<close> (\<open>orchestration/state.py\<close>). The lemmas show which states the engine
  can never leave on its own, that a human gate is never skipped by it, and that its own moves
  end after a bounded number of steps.
\<close>

section \<open>Vocabulary\<close>

datatype node_state =
    PENDING | READY | RUNNING | AWAITING_MERGE | AWAITING_GATE | PASSED | WAIVED
  | REJECTED_AT_GATE | FAILED | HALTED | SUPERSEDED

datatype actor_kind = HUMAN | SERVICE

fun node_state_value :: "node_state \<Rightarrow> string" where
  "node_state_value PENDING = ''pending''"
| "node_state_value READY = ''ready''"
| "node_state_value RUNNING = ''running''"
| "node_state_value AWAITING_MERGE = ''awaiting_merge''"
| "node_state_value AWAITING_GATE = ''awaiting_gate''"
| "node_state_value PASSED = ''passed''"
| "node_state_value WAIVED = ''waived''"
| "node_state_value REJECTED_AT_GATE = ''rejected_at_gate''"
| "node_state_value FAILED = ''failed''"
| "node_state_value HALTED = ''halted''"
| "node_state_value SUPERSEDED = ''superseded''"

fun actor_kind_value :: "actor_kind \<Rightarrow> string" where
  "actor_kind_value HUMAN = ''human''"
| "actor_kind_value SERVICE = ''service''"

text \<open>Both enumerations are finite types of the library's class, in the order of the source.\<close>

instantiation node_state :: enum
begin

definition enum_node_state :: "node_state list" where
  "enum_node_state = [PENDING, READY, RUNNING, AWAITING_MERGE, AWAITING_GATE, PASSED, WAIVED,
     REJECTED_AT_GATE, FAILED, HALTED, SUPERSEDED]"

definition enum_all_node_state :: "(node_state \<Rightarrow> bool) \<Rightarrow> bool" where
  "enum_all_node_state P \<longleftrightarrow> list_all P enum_class.enum"

definition enum_ex_node_state :: "(node_state \<Rightarrow> bool) \<Rightarrow> bool" where
  "enum_ex_node_state P \<longleftrightarrow> list_ex P enum_class.enum"

instance
proof
  show univ: "(UNIV :: node_state set) = set enum_class.enum"
  proof (rule set_eqI)
    fix x :: node_state
    show "x \<in> UNIV \<longleftrightarrow> x \<in> set enum_class.enum" by (cases x) (simp_all add: enum_node_state_def)
  qed
  show "distinct (enum_class.enum :: node_state list)" by (simp add: enum_node_state_def)
  show "enum_class.enum_all P \<longleftrightarrow> Ball UNIV P" for P :: "node_state \<Rightarrow> bool"
    by (simp only: enum_all_node_state_def list_all_iff univ)
  show "enum_class.enum_ex P \<longleftrightarrow> Bex UNIV P" for P :: "node_state \<Rightarrow> bool"
    by (simp only: enum_ex_node_state_def list_ex_iff univ)
qed

end

instantiation actor_kind :: enum
begin

definition enum_actor_kind :: "actor_kind list" where
  "enum_actor_kind = [HUMAN, SERVICE]"

definition enum_all_actor_kind :: "(actor_kind \<Rightarrow> bool) \<Rightarrow> bool" where
  "enum_all_actor_kind P \<longleftrightarrow> list_all P enum_class.enum"

definition enum_ex_actor_kind :: "(actor_kind \<Rightarrow> bool) \<Rightarrow> bool" where
  "enum_ex_actor_kind P \<longleftrightarrow> list_ex P enum_class.enum"

instance
proof
  show univ: "(UNIV :: actor_kind set) = set enum_class.enum"
  proof (rule set_eqI)
    fix x :: actor_kind
    show "x \<in> UNIV \<longleftrightarrow> x \<in> set enum_class.enum" by (cases x) (simp_all add: enum_actor_kind_def)
  qed
  show "distinct (enum_class.enum :: actor_kind list)" by (simp add: enum_actor_kind_def)
  show "enum_class.enum_all P \<longleftrightarrow> Ball UNIV P" for P :: "actor_kind \<Rightarrow> bool"
    by (simp only: enum_all_actor_kind_def list_all_iff univ)
  show "enum_class.enum_ex P \<longleftrightarrow> Bex UNIV P" for P :: "actor_kind \<Rightarrow> bool"
    by (simp only: enum_ex_actor_kind_def list_ex_iff univ)
qed

end

definition parse_node_state :: "string \<Rightarrow> node_state option" where
  "parse_node_state s = enum_of node_state_value Enum.enum s"

definition parse_actor_kind :: "string \<Rightarrow> actor_kind option" where
  "parse_actor_kind s = enum_of actor_kind_value Enum.enum s"

interpretation node_text: text_enum node_state_value Enum.enum
proof
  show "e \<in> set Enum.enum" for e :: node_state by (simp flip: UNIV_enum)
  show "distinct (map node_state_value Enum.enum)" by (simp add: enum_node_state_def)
qed

interpretation actor_text: text_enum actor_kind_value Enum.enum
proof
  show "e \<in> set Enum.enum" for e :: actor_kind by (simp flip: UNIV_enum)
  show "distinct (map actor_kind_value Enum.enum)" by (simp add: enum_actor_kind_def)
qed

section \<open>The transition table\<close>

abbreviation engine_or_human :: "actor_kind list" where
  "engine_or_human \<equiv> [SERVICE, HUMAN]"

abbreviation human_only :: "actor_kind list" where
  "human_only \<equiv> [HUMAN]"

text \<open>\<open>LEGAL_TRANSITIONS\<close>: the successors of each state with the actors that may make the move.\<close>

fun legal_transitions :: "node_state \<Rightarrow> (node_state \<times> actor_kind list) list" where
  "legal_transitions PENDING =
     [(WAIVED, human_only), (AWAITING_MERGE, human_only), (READY, engine_or_human),
      (SUPERSEDED, engine_or_human)]"
| "legal_transitions READY =
     [(WAIVED, human_only), (AWAITING_MERGE, human_only), (RUNNING, engine_or_human),
      (SUPERSEDED, engine_or_human)]"
| "legal_transitions RUNNING =
     [(AWAITING_MERGE, engine_or_human), (AWAITING_GATE, engine_or_human),
      (PASSED, engine_or_human), (FAILED, engine_or_human), (HALTED, engine_or_human),
      (SUPERSEDED, engine_or_human)]"
| "legal_transitions AWAITING_MERGE =
     [(READY, human_only), (PASSED, engine_or_human), (FAILED, engine_or_human),
      (SUPERSEDED, engine_or_human)]"
| "legal_transitions AWAITING_GATE =
     [(PASSED, human_only), (REJECTED_AT_GATE, human_only), (HALTED, engine_or_human),
      (SUPERSEDED, engine_or_human)]"
| "legal_transitions WAIVED = [(SUPERSEDED, human_only)]"
| "legal_transitions PASSED = [(SUPERSEDED, human_only)]"
| "legal_transitions REJECTED_AT_GATE = [(READY, human_only)]"
| "legal_transitions FAILED =
     [(SUPERSEDED, human_only), (READY, human_only), (RUNNING, human_only)]"
| "legal_transitions HALTED = [(READY, human_only)]"
| "legal_transitions SUPERSEDED = []"

text \<open>\<open>TERMINAL_STATES\<close> is computed from the table: no successor is reachable by a service.\<close>

definition terminal_states :: "node_state list" where
  "terminal_states =
     filter (\<lambda>s. \<not> list_ex (\<lambda>(_, actors). SERVICE \<in> set actors) (legal_transitions s)) Enum.enum"

section \<open>The guard\<close>

text \<open>The sentences a refused attempt carries.\<close>

definition quoted :: "string \<Rightarrow> string" where
  "quoted s = [CHR 0x27] @ s @ [CHR 0x27]"

definition no_transition_text :: "node_state \<Rightarrow> node_state \<Rightarrow> string" where
  "no_transition_text fr to =
     ''no legal transition from '' @ quoted (node_state_value fr) @ '' to ''
       @ quoted (node_state_value to)"

text \<open>\<open>", ".join(sorted(actor.value for actor in permitted_actors))\<close>.\<close>

definition allowed_names :: "actor_kind list \<Rightarrow> string" where
  "allowed_names permitted =
     (if HUMAN \<in> set permitted
      then (if SERVICE \<in> set permitted then ''human, service'' else ''human'')
      else (if SERVICE \<in> set permitted then ''service'' else []))"

definition wrong_actor_text :: "node_state \<Rightarrow> node_state \<Rightarrow> actor_kind list \<Rightarrow> actor_kind \<Rightarrow> string" where
  "wrong_actor_text fr to permitted k =
     ''transition from '' @ quoted (node_state_value fr) @ '' to '' @ quoted (node_state_value to)
       @ '' requires actor_kind in ('' @ allowed_names permitted @ ''); got ''
       @ quoted (actor_kind_value k)"

record transition_result =
  allowed :: bool
  from_state :: node_state
  to_state :: node_state
  actor :: actor_kind
  tr_reason :: string
  new_state :: "node_state option"
  rejection_reason :: "string option"

text \<open>The internal proofs a caller may present; each is a keyword argument of \<open>transition\<close>.\<close>

record transition_proofs =
  stalled_review_authorized :: bool
  developer_retry_authorized :: bool
  operations_retry_authorized :: bool
  external_completion_authorized :: bool

definition no_proofs :: transition_proofs where
  "no_proofs = \<lparr>stalled_review_authorized = False, developer_retry_authorized = False,
     operations_retry_authorized = False, external_completion_authorized = False\<rparr>"

text \<open>
  The permitted actors after the external completion exception, and, for a legal pair, after
  the two recovery exceptions; \<open>None\<close> is a pair without a legal transition.
\<close>

definition table_actors ::
    "transition_proofs \<Rightarrow> node_state \<Rightarrow> node_state \<Rightarrow> actor_kind \<Rightarrow> actor_kind list option" where
  "table_actors pf fr to k =
     (if external_completion_authorized pf \<and> k = HUMAN \<and> fr \<in> {READY, FAILED} \<and> to = PASSED
      then Some human_only
      else map_of (legal_transitions fr) to)"

definition recovered_actors ::
    "transition_proofs \<Rightarrow> node_state \<Rightarrow> node_state \<Rightarrow> actor_kind \<Rightarrow> actor_kind list \<Rightarrow> actor_kind list" where
  "recovered_actors pf fr to k permitted =
     (let permitted' =
        (if stalled_review_authorized pf \<and> k = SERVICE \<and> fr = FAILED \<and> to = RUNNING
         then engine_or_human else permitted)
      in if (developer_retry_authorized pf \<or> operations_retry_authorized pf)
            \<and> k = SERVICE \<and> fr = FAILED \<and> to = READY
         then engine_or_human else permitted')"

definition transition ::
    "transition_proofs \<Rightarrow> node_state \<Rightarrow> node_state \<Rightarrow> actor_kind \<Rightarrow> string \<Rightarrow> transition_result" where
  "transition pf fr to k reason =
     (case table_actors pf fr to k of
        None \<Rightarrow> \<lparr>allowed = False, from_state = fr, to_state = to, actor = k, tr_reason = reason,
                  new_state = None, rejection_reason = Some (no_transition_text fr to)\<rparr>
      | Some permitted \<Rightarrow>
          let permitted' = recovered_actors pf fr to k permitted in
          if k \<notin> set permitted'
          then \<lparr>allowed = False, from_state = fr, to_state = to, actor = k, tr_reason = reason,
                 new_state = None, rejection_reason = Some (wrong_actor_text fr to permitted' k)\<rparr>
          else \<lparr>allowed = True, from_state = fr, to_state = to, actor = k, tr_reason = reason,
                 new_state = Some to, rejection_reason = None\<rparr>)"

text \<open>
  The entry point takes the raw values a caller has and coerces them first; a value that is not
  a declared member (\<open>rejected\<close>, \<open>skipped\<close>) raises \<open>ValueError\<close>.
\<close>

definition transition_raw ::
    "transition_proofs \<Rightarrow> string \<Rightarrow> string \<Rightarrow> string \<Rightarrow> string \<Rightarrow> pyexc + transition_result" where
  "transition_raw pf fr to k reason =
     (case (parse_node_state fr, parse_node_state to, parse_actor_kind k) of
        (Some f, Some t, Some a) \<Rightarrow> Inr (transition pf f t a reason)
      | _ \<Rightarrow> Inl ValueError)"

section \<open>What the guard lets through\<close>

lemma set_terminal_states [simp]:
  "set terminal_states = {PASSED, WAIVED, REJECTED_AT_GATE, FAILED, HALTED, SUPERSEDED}"
  by (auto simp: terminal_states_def enum_node_state_def)

lemma transition_cases:
  "allowed (transition pf fr to k r) \<longleftrightarrow>
     (\<exists>permitted. table_actors pf fr to k = Some permitted
        \<and> k \<in> set (recovered_actors pf fr to k permitted))"
  by (auto simp: transition_def Let_def split: option.splits)

lemmas transition_unfold = transition_cases table_actors_def recovered_actors_def Let_def

text \<open>
  A value that is not a declared node state or actor kind raises \<open>ValueError\<close> before
  anything is decided; a declared one is read back as the member it is stored for, and the
  outcome is never both allowed and rejected: an allowed attempt carries the requested state
  and no rejection reason, a refused one carries no state and a non-empty reason.
\<close>

theorem transition_raw_outcome:
  "case transition_raw pf fr to k reason of
     Inl e \<Rightarrow> e = ValueError \<and>
       (fr \<notin> range node_state_value \<or> to \<notin> range node_state_value \<or> k \<notin> range actor_kind_value)
   | Inr res \<Rightarrow>
       fr = node_state_value (from_state res) \<and> to = node_state_value (to_state res)
       \<and> k = actor_kind_value (actor res) \<and> tr_reason res = reason
       \<and> (if allowed res then new_state res = Some (to_state res) \<and> rejection_reason res = None
          else new_state res = None \<and> (\<exists>why. rejection_reason res = Some why \<and> why \<noteq> []))"
  by (auto simp: transition_raw_def transition_def Let_def parse_node_state_def
        parse_actor_kind_def node_text.parse_iff actor_text.parse_iff node_text.parse_None
        actor_text.parse_None no_transition_text_def wrong_actor_text_def
      split: option.splits)

text \<open>
  The states that end a node's life for the engine, computed from the table, are exactly
  passed, waived, rejected at the gate, failed, halted and superseded; the engine leaves one of
  them only from a failed node, to running with a verified stalled review or to ready with a
  verified developer or operations retry.
\<close>

theorem engine_leaves_terminal_only_by_recovery:
  "if fr \<in> set terminal_states
   then fr \<in> {PASSED, WAIVED, REJECTED_AT_GATE, FAILED, HALTED, SUPERSEDED} \<and>
     (allowed (transition pf fr to SERVICE r) \<longleftrightarrow>
       fr = FAILED \<and> (to = RUNNING \<and> stalled_review_authorized pf
         \<or> to = READY \<and> (developer_retry_authorized pf \<or> operations_retry_authorized pf)))
   else fr \<in> {PENDING, READY, RUNNING, AWAITING_MERGE, AWAITING_GATE}"
  by (cases fr; simp) (cases to; auto simp: transition_unfold)+

text \<open>
  Whatever proofs are presented, a halted node moves only to ready and only by a human, and
  a superseded node never moves again.
\<close>

theorem halted_and_superseded_moves:
  "(allowed (transition pf HALTED to k r) \<longleftrightarrow> to = READY \<and> k = HUMAN)
   \<and> \<not> allowed (transition pf SUPERSEDED to k r)"
  by (cases to; cases k) (auto simp: transition_unfold)

section \<open>Runs of the engine\<close>

text \<open>
  Runs of moves of a service actor under whatever proofs each move presents: the number of moves and,
  of those, of the recoveries, which the actor could not have made without a proof.
\<close>

inductive engine_moves :: "nat \<Rightarrow> nat \<Rightarrow> node_state \<Rightarrow> node_state \<Rightarrow> bool" where
  stay: "engine_moves 0 0 s s"
| move: "engine_moves n k s t \<Longrightarrow> allowed (transition pf t u SERVICE r)
    \<Longrightarrow> engine_moves (Suc n) (k + of_bool (\<not> allowed (transition no_proofs t u SERVICE r))) s u"

inductive_cases engine_movesE: "engine_moves n k s t"

fun engine_rank :: "node_state \<Rightarrow> nat" where
  "engine_rank PENDING = 4"
| "engine_rank READY = 3"
| "engine_rank RUNNING = 2"
| "engine_rank AWAITING_MERGE = 1"
| "engine_rank AWAITING_GATE = 1"
| "engine_rank _ = 0"

lemma engine_step_rank:
  "allowed (transition no_proofs t u SERVICE r) \<Longrightarrow> engine_rank u < engine_rank t"
  by (cases t; cases u) (auto simp: transition_unfold no_proofs_def)

lemma engine_step_recovery:
  "allowed (transition pf t u SERVICE r) \<Longrightarrow> \<not> allowed (transition no_proofs t u SERVICE r)
   \<Longrightarrow> t = FAILED \<and> u \<in> {READY, RUNNING}"
  by (cases t; cases u) (auto simp: transition_unfold no_proofs_def split: if_splits)

lemma engine_step_gate:
  "allowed (transition pf t u SERVICE r) \<Longrightarrow> t \<in> {AWAITING_GATE, HALTED, SUPERSEDED}
   \<Longrightarrow> u \<in> {HALTED, SUPERSEDED}"
  by (cases t; cases u) (auto simp: transition_unfold)

lemma engine_moves_rank: "engine_moves n k s t \<Longrightarrow> n + engine_rank t \<le> engine_rank s + 4 * k"
proof (induction rule: engine_moves.induct)
  case (stay s)
  then show ?case by simp
next
  case (move n k s t pf u r)
  show ?case
  proof (cases "allowed (transition no_proofs t u SERVICE r)")
    case True
    then show ?thesis using engine_step_rank [OF True] move.IH by simp
  next
    case False
    then have "t = FAILED \<and> u \<in> {READY, RUNNING}" using engine_step_recovery move.hyps(2) by blast
    then have "engine_rank u \<le> 3" by auto
    then show ?thesis using False move.IH by simp
  qed
qed

text \<open>
  C40: The engine never works on a node forever. In a run of moves by a service actor, under whatever
  proofs each move presents, the number of moves is at most the rank of the first state, which is at
  most four, and four more for every recovery, a move that only a proof of a stalled review or of an
  authorised retry allowed; without a recovery it returns to a state only by not moving at all.
\<close>

theorem engine_runs_bounded:
  assumes "engine_moves n k s t"
  shows "n \<le> engine_rank s + 4 * k \<and> engine_rank s \<le> 4 \<and> (k = 0 \<longrightarrow> (n = 0 \<longleftrightarrow> t = s))"
proof -
  have le: "n + engine_rank t \<le> engine_rank s + 4 * k" using engine_moves_rank assms .
  moreover have "engine_rank s \<le> 4" by (cases s) auto
  moreover have "n = 0 \<Longrightarrow> t = s" using assms by (auto elim: engine_movesE)
  ultimately show ?thesis by auto
qed

text \<open>
  No gate is skipped by the engine: once a node waits at a gate, every run of engine moves, whatever
  proofs they present, leaves it waiting, halted or superseded; passing needs a human move.
\<close>

theorem engine_never_passes_a_gate:
  assumes "engine_moves n k AWAITING_GATE t"
  shows "t \<in> {AWAITING_GATE, HALTED, SUPERSEDED}"
  using assms
proof (induction n k "AWAITING_GATE" t rule: engine_moves.induct)
  case stay
  then show ?case by simp
next
  case (move n k t pf u r)
  then show ?case using engine_step_gate [OF move.hyps(3)] by blast
qed

section \<open>Witnesses\<close>

definition retry_proof :: transition_proofs where
  "retry_proof = no_proofs\<lparr>developer_retry_authorized := True\<rparr>"

lemma engine_moves_example:
  "engine_moves 3 1 RUNNING RUNNING" "engine_moves 1 0 AWAITING_GATE HALTED"
proof -
  have a: "engine_moves (Suc 0) 0 RUNNING FAILED"
    using engine_moves.move [OF engine_moves.stay, of no_proofs RUNNING FAILED "[]"] by (simp add: transition_unfold no_proofs_def)
  have b: "engine_moves (Suc (Suc 0)) 1 RUNNING READY"
    using engine_moves.move [OF a, of retry_proof READY "[]"] by (simp add: transition_unfold no_proofs_def retry_proof_def)
  have "engine_moves (Suc (Suc (Suc 0))) 1 RUNNING RUNNING"
    using engine_moves.move [OF b, of no_proofs RUNNING "[]"] by (simp add: transition_unfold no_proofs_def)
  then show "engine_moves 3 1 RUNNING RUNNING" by (simp add: numeral_3_eq_3)
  have "engine_moves (Suc 0) 0 AWAITING_GATE HALTED"
    using engine_moves.move [OF engine_moves.stay, of no_proofs AWAITING_GATE HALTED "[]"]
    by (simp add: transition_unfold no_proofs_def)
  then show "engine_moves 1 0 AWAITING_GATE HALTED" by simp
qed

theorem engine_runs_bounded_witness:
  "engine_moves 3 1 RUNNING RUNNING \<and> (3::nat) \<le> engine_rank RUNNING + 4 * 1"
  using engine_moves_example(1) engine_runs_bounded [OF engine_moves_example(1)] by simp

theorem engine_never_passes_a_gate_witness:
  "engine_moves 1 0 AWAITING_GATE HALTED \<and> HALTED \<in> {AWAITING_GATE, HALTED, SUPERSEDED}"
  using engine_moves_example(2) engine_never_passes_a_gate [OF engine_moves_example(2)] by simp

end
