(* ===== verification/Execution_State.thy ===== *)
theory Execution_State
  imports Prelude
begin

text \<open>
  The vocabulary and the typed values of the execution ledger
  (\<open>orchestration/execution_state.py\<close>): the enumerations with their stored values, the frozen
  dataclasses the store accepts and returns, and the validation each constructor performs.
\<close>

section \<open>Enumerations\<close>

datatype execution_phase =
    ADMITTED | PREPARING | DELIVERING | SUBMITTING | AWAITING_REVIEW | REPAIRING | MERGE_READY
  | DEPLOYMENT_PENDING | AWAITING_RUNTIME_VERIFICATION | EVALUATION_PENDING | SETTLING
  | PhCONCLUDED

datatype execution_status = RUNNABLE | AWAITING_EXTERNAL | BLOCKED | CONCLUDED | StSUPERSEDED

datatype block_code =
    HUMAN_GATE_REQUIRED | HUMAN_INPUT_REQUIRED | HUMAN_REFUSED | DEPENDENCY_UNSATISFIED
  | AUTHORITY_UNVERIFIABLE | CREDENTIAL_UNAVAILABLE | BUDGET_EXHAUSTED | ATTEMPTS_EXHAUSTED
  | REVIEW_BOOTSTRAP_FAILING | PROVIDER_UNAVAILABLE | OWNERSHIP_LOST

datatype action_status = PREPARED | DISPATCHED | SUCCEEDED | AcFAILED | UNKNOWN

datatype observed_outcome = ObSUCCEEDED | ObFAILED | INDETERMINATE

datatype outcome_kind = APPLIED | STALE | CONFLICT | OkBLOCKED

fun phase_value :: "execution_phase \<Rightarrow> string" where
  "phase_value ADMITTED = ''admitted''"
| "phase_value PREPARING = ''preparing''"
| "phase_value DELIVERING = ''delivering''"
| "phase_value SUBMITTING = ''submitting''"
| "phase_value AWAITING_REVIEW = ''awaiting_review''"
| "phase_value REPAIRING = ''repairing''"
| "phase_value MERGE_READY = ''merge_ready''"
| "phase_value DEPLOYMENT_PENDING = ''deployment_pending''"
| "phase_value AWAITING_RUNTIME_VERIFICATION = ''awaiting_runtime_verification''"
| "phase_value EVALUATION_PENDING = ''evaluation_pending''"
| "phase_value SETTLING = ''settling''"
| "phase_value PhCONCLUDED = ''concluded''"

fun status_value :: "execution_status \<Rightarrow> string" where
  "status_value RUNNABLE = ''runnable''"
| "status_value AWAITING_EXTERNAL = ''awaiting_external''"
| "status_value BLOCKED = ''blocked''"
| "status_value CONCLUDED = ''concluded''"
| "status_value StSUPERSEDED = ''superseded''"

fun block_code_value :: "block_code \<Rightarrow> string" where
  "block_code_value HUMAN_GATE_REQUIRED = ''human_gate_required''"
| "block_code_value HUMAN_INPUT_REQUIRED = ''human_input_required''"
| "block_code_value HUMAN_REFUSED = ''human_refused''"
| "block_code_value DEPENDENCY_UNSATISFIED = ''dependency_unsatisfied''"
| "block_code_value AUTHORITY_UNVERIFIABLE = ''authority_unverifiable''"
| "block_code_value CREDENTIAL_UNAVAILABLE = ''credential_unavailable''"
| "block_code_value BUDGET_EXHAUSTED = ''budget_exhausted''"
| "block_code_value ATTEMPTS_EXHAUSTED = ''attempts_exhausted''"
| "block_code_value REVIEW_BOOTSTRAP_FAILING = ''review_bootstrap_failing''"
| "block_code_value PROVIDER_UNAVAILABLE = ''provider_unavailable''"
| "block_code_value OWNERSHIP_LOST = ''ownership_lost''"

fun action_status_value :: "action_status \<Rightarrow> string" where
  "action_status_value PREPARED = ''prepared''"
| "action_status_value DISPATCHED = ''dispatched''"
| "action_status_value SUCCEEDED = ''succeeded''"
| "action_status_value AcFAILED = ''failed''"
| "action_status_value UNKNOWN = ''unknown''"

definition phases :: "execution_phase list" where
  "phases = [ADMITTED, PREPARING, DELIVERING, SUBMITTING, AWAITING_REVIEW, REPAIRING, MERGE_READY,
     DEPLOYMENT_PENDING, AWAITING_RUNTIME_VERIFICATION, EVALUATION_PENDING, SETTLING, PhCONCLUDED]"

definition statuses :: "execution_status list" where
  "statuses = [RUNNABLE, AWAITING_EXTERNAL, BLOCKED, CONCLUDED, StSUPERSEDED]"

definition block_codes :: "block_code list" where
  "block_codes = [HUMAN_GATE_REQUIRED, HUMAN_INPUT_REQUIRED, HUMAN_REFUSED, DEPENDENCY_UNSATISFIED,
     AUTHORITY_UNVERIFIABLE, CREDENTIAL_UNAVAILABLE, BUDGET_EXHAUSTED, ATTEMPTS_EXHAUSTED,
     REVIEW_BOOTSTRAP_FAILING, PROVIDER_UNAVAILABLE, OWNERSHIP_LOST]"

definition action_statuses :: "action_status list" where
  "action_statuses = [PREPARED, DISPATCHED, SUCCEEDED, AcFAILED, UNKNOWN]"

interpretation phase_text: text_enum phase_value phases
proof
  show "e \<in> set phases" for e by (cases e) (simp_all add: phases_def)
  show "distinct (map phase_value phases)" by (simp add: phases_def)
qed

interpretation status_text: text_enum status_value statuses
proof
  show "e \<in> set statuses" for e by (cases e) (simp_all add: statuses_def)
  show "distinct (map status_value statuses)" by (simp add: statuses_def)
qed

interpretation block_text: text_enum block_code_value block_codes
proof
  show "e \<in> set block_codes" for e by (cases e) (simp_all add: block_codes_def)
  show "distinct (map block_code_value block_codes)" by (simp add: block_codes_def)
qed

interpretation action_text: text_enum action_status_value action_statuses
proof
  show "e \<in> set action_statuses" for e by (cases e) (simp_all add: action_statuses_def)
  show "distinct (map action_status_value action_statuses)" by (simp add: action_statuses_def)
qed

abbreviation parse_phase :: "string \<Rightarrow> execution_phase option" where
  "parse_phase \<equiv> enum_of phase_value phases"

abbreviation parse_status :: "string \<Rightarrow> execution_status option" where
  "parse_status \<equiv> enum_of status_value statuses"

abbreviation parse_block_code :: "string \<Rightarrow> block_code option" where
  "parse_block_code \<equiv> enum_of block_code_value block_codes"

abbreviation parse_action_status :: "string \<Rightarrow> action_status option" where
  "parse_action_status \<equiv> enum_of action_status_value action_statuses"

lemmas enum_text_simps [simp] =
  phase_text.parse_val status_text.parse_val block_text.parse_val action_text.parse_val
  phase_text.val_inject status_text.val_inject block_text.val_inject action_text.val_inject

text \<open>\<open>TERMINAL_EXECUTION_STATUSES\<close> and \<open>UNRESOLVED_ACTION_STATUSES\<close>.\<close>

definition terminal_execution_statuses :: "execution_status list" where
  "terminal_execution_statuses = [CONCLUDED, StSUPERSEDED]"

definition unresolved_action_statuses :: "action_status list" where
  "unresolved_action_statuses = [PREPARED, DISPATCHED, UNKNOWN]"

section \<open>Inputs of the store\<close>

record execution_identity =
  id_org :: string
  id_node :: string
  id_cycle :: int
  id_plan_version :: int
  id_claim :: string
  id_generation :: int

text \<open>\<open>ExecutionIdentity(...)\<close> with the checks of its \<open>__post_init__\<close>, in their order.\<close>

definition make_identity ::
    "string option \<Rightarrow> string option \<Rightarrow> pynum \<Rightarrow> pynum \<Rightarrow> string option \<Rightarrow> pynum
     \<Rightarrow> pyexc + execution_identity" where
  "make_identity org node cycle plan claim gen =
     (if blank_opt org then Inl (ExecutionStoreError ''invalid_identity'')
      else if blank_opt node then Inl (ExecutionStoreError ''invalid_identity'')
      else if \<not> int_at_least 1 cycle then Inl (ExecutionStoreError ''invalid_identity'')
      else if \<not> int_at_least 0 plan then Inl (ExecutionStoreError ''invalid_identity'')
      else if blank_opt claim then Inl (ExecutionStoreError ''invalid_identity'')
      else if \<not> int_at_least 1 gen then Inl (ExecutionStoreError ''invalid_identity'')
      else Inr \<lparr>id_org = the org, id_node = the node, id_cycle = the_int cycle,
                id_plan_version = the_int plan, id_claim = the claim, id_generation = the_int gen\<rparr>)"

record action_intent =
  in_key :: string
  in_kind :: string
  in_artifact :: "string option"
  in_detail :: "(string \<times> string) list"

definition make_intent ::
    "string option \<Rightarrow> string option \<Rightarrow> string option \<Rightarrow> (string \<times> string) list \<Rightarrow> pyexc + action_intent" where
  "make_intent key kind artifact detail =
     (if blank_opt key then Inl (ExecutionStoreError ''invalid_action'')
      else if blank_opt kind then Inl (ExecutionStoreError ''invalid_action'')
      else Inr \<lparr>in_key = the key, in_kind = the kind, in_artifact = artifact, in_detail = detail\<rparr>)"

record observation =
  ob_key :: string
  ob_outcome :: observed_outcome
  ob_receipt :: "string option"
  ob_detail :: "string option"

definition make_observation ::
    "string option \<Rightarrow> observed_outcome \<Rightarrow> string option \<Rightarrow> string option \<Rightarrow> pyexc + observation" where
  "make_observation key outcome receipt detail =
     (if blank_opt key then Inl (ExecutionStoreError ''invalid_observation'')
      else Inr \<lparr>ob_key = the key, ob_outcome = outcome, ob_receipt = receipt, ob_detail = detail\<rparr>)"

record block_record =
  bl_code :: block_code
  bl_owner :: string
  bl_required :: string
  bl_gates :: "string list"
  bl_progressed :: "pydt option"
  bl_detail :: "string option"

definition make_block ::
    "block_code \<Rightarrow> string option \<Rightarrow> string option \<Rightarrow> string list \<Rightarrow> pydt option \<Rightarrow> string option
     \<Rightarrow> pyexc + block_record" where
  "make_block code owner required gates progressed detail =
     (if blank_opt owner then Inl (ExecutionStoreError ''invalid_block'')
      else if blank_opt required then Inl (ExecutionStoreError ''invalid_block'')
      else Inr \<lparr>bl_code = code, bl_owner = the owner, bl_required = the required, bl_gates = gates,
                bl_progressed = progressed, bl_detail = detail\<rparr>)"

record phase_advance =
  ad_phase :: execution_phase
  ad_status :: execution_status
  ad_revision :: int
  ad_next_check :: "pydt option"
  ad_consume :: bool
  ad_deadline :: "pydt option"
  ad_note :: "string option"

definition make_advance ::
    "execution_phase \<Rightarrow> execution_status \<Rightarrow> pynum \<Rightarrow> pydt option \<Rightarrow> bool \<Rightarrow> pydt option \<Rightarrow> string option
     \<Rightarrow> pyexc + phase_advance" where
  "make_advance phase status revision next_check consume deadline note =
     (if \<not> int_at_least 1 revision then Inl (ExecutionStoreError ''invalid_advance'')
      else Inr \<lparr>ad_phase = phase, ad_status = status, ad_revision = the_int revision,
                ad_next_check = next_check, ad_consume = consume, ad_deadline = deadline,
                ad_note = note\<rparr>)"

section \<open>Records the store returns\<close>

record action_record =
  ar_id :: string
  ar_org :: string
  ar_execution :: string
  ar_key :: string
  ar_kind :: string
  ar_status :: action_status
  ar_attempt :: int
  ar_artifact :: "string option"
  ar_receipt :: "string option"
  ar_detail :: "(string \<times> json) list"
  ar_created :: "pydt option"
  ar_observed :: "pydt option"

definition resolved :: "action_record \<Rightarrow> bool" where
  "resolved a \<longleftrightarrow> ar_status a \<notin> set unresolved_action_statuses"

record execution_record =
  er_id :: string
  er_org :: string
  er_flow :: string
  er_node :: string
  er_cycle :: int
  er_phase :: execution_phase
  er_status :: execution_status
  er_revision :: int
  er_plan_version :: int
  er_claim :: string
  er_generation :: int
  er_attempts :: int
  er_next_check :: "pydt option"
  er_deadline :: "pydt option"
  er_progressed :: "pydt option"
  er_note :: "string option"
  er_block :: "block_record option"
  er_pending_key :: "string option"
  er_notification :: "string option"
  er_handoff :: "string option"
  er_created :: "pydt option"

definition runnable :: "execution_record \<Rightarrow> bool" where
  "runnable e \<longleftrightarrow> er_status e = RUNNABLE"

record execution_outcome =
  oc_kind :: outcome_kind
  oc_record :: "execution_record option"
  oc_action :: "action_record option"
  oc_reason :: "string option"

definition applied :: "execution_outcome \<Rightarrow> bool" where
  "applied o' \<longleftrightarrow> oc_kind o' = APPLIED"

section \<open>What the constructors guarantee\<close>

text \<open>
  An execution identity exists exactly for a named tenant, node and claim, a cycle and a
  generation that are integers (and no booleans) from 1, and a plan version that is one from 0;
  every other input raises \<open>invalid_identity\<close>. In particular a boolean generation never
  switches the ownership fence off.
\<close>

theorem make_identity_outcome:
  "case make_identity org node cycle plan claim gen of
     Inr i \<Rightarrow> org = Some (id_org i) \<and> node = Some (id_node i) \<and> claim = Some (id_claim i)
       \<and> \<not> blank (id_org i) \<and> \<not> blank (id_node i) \<and> \<not> blank (id_claim i)
       \<and> cycle = PyInt (id_cycle i) \<and> 1 \<le> id_cycle i
       \<and> plan = PyInt (id_plan_version i) \<and> 0 \<le> id_plan_version i
       \<and> gen = PyInt (id_generation i) \<and> 1 \<le> id_generation i
   | Inl e \<Rightarrow> e = ExecutionStoreError ''invalid_identity''
       \<and> \<not> (\<not> blank_opt org \<and> \<not> blank_opt node \<and> \<not> blank_opt claim \<and> cycle \<in> PyInt ` {1..}
           \<and> plan \<in> PyInt ` {0..} \<and> gen \<in> PyInt ` {1..})"
proof -
  have ints: "x \<in> PyInt ` {lo..} \<longleftrightarrow> int_at_least lo x" for lo x
    by (cases x) auto
  have opts: "\<not> blank_opt x \<longleftrightarrow> (\<exists>s. x = Some s \<and> \<not> blank s)" for x
    by (cases x) auto
  show ?thesis
    unfolding ints
    by (auto simp: make_identity_def dest!: int_at_leastE simp: opts)
qed

end
