(* ===== verification/Tables.thy ===== *)
theory Tables
  imports Prelude
begin

text \<open>
  The rows of the orchestration store (\<open>orchestration/models.py\<close>), with the columns the
  modelled code reads or writes, and the database state as one table of each. Enumerations are
  stored as text. \<open>created_at\<close> and \<open>updated_at\<close> stamps that only the object mapper writes are
  kept where the code returns them (\<open>created_at\<close> of executions and actions).
\<close>

record flow_row =
  fl_id :: string
  fl_org :: string
  fl_slug :: string
  fl_state :: string
  fl_paused :: bool
  fl_archived :: "pydt option"
  fl_title :: string
  fl_product :: "string option"
  fl_origin :: json
  fl_trackers :: json

record node_row =
  nd_id :: string
  nd_org :: string
  nd_flow :: string
  nd_epic :: string
  nd_wave :: string
  nd_ref :: string
  nd_kind :: string
  nd_state :: string
  nd_title :: string
  nd_issue :: "string option"
  nd_attempts :: int
  nd_lineage :: "string option list option"
  nd_labels :: "(string \<times> string) list"
  nd_repository :: "string option"
  nd_repository_id :: "int option"
  nd_installation :: "int option"

record edge_row =
  ed_id :: string
  ed_org :: string
  ed_flow :: string
  ed_from :: string
  ed_to :: string

record plan_row =
  pl_id :: string
  pl_org :: string
  pl_flow :: string
  pl_version :: int
  pl_document :: json
  pl_hash :: string
  pl_decision :: "string option"
  pl_superseded :: "pydt option"

record decision_row =
  dc_id :: string
  dc_org :: string
  dc_flow :: string
  dc_node :: "string option"
  dc_kind :: string
  dc_actor_id :: string
  dc_actor_role :: string
  dc_actor_kind :: string
  dc_reason :: "jtext option"
  dc_rejection :: "string option"
  dc_from :: "string option"
  dc_to :: "string option"
  dc_created :: pydt

record claim_row =
  cl_id :: string
  cl_org :: string
  cl_repo :: int
  cl_issue :: int
  cl_owner_kind :: string
  cl_owner_ref :: string
  cl_state :: string
  cl_generation :: int
  cl_run :: "string option"
  cl_event :: "string option"
  cl_claimed_at :: pydt
  cl_heartbeat :: "pydt option"
  cl_lease :: "pydt option"
  cl_release_reason :: "string option"
  cl_released_at :: "pydt option"

record binding_row =
  pb_id :: string
  pb_org :: string
  pb_flow :: string
  pb_node :: string
  pb_attempt :: int
  pb_run :: "string option"
  pb_repo_id :: int
  pb_pr_node :: string
  pb_repo :: string
  pb_pr_number :: int
  pb_installation :: int
  pb_head_sha :: string
  pb_revision :: int
  pb_scope :: "jtext option"
  pb_role :: string
  pb_state :: string
  pb_registered_by :: string
  pb_registered_kind :: string
  pb_recovery :: "string option"
  pb_superseded :: "string option"

record execution_row =
  ex_id :: string
  ex_org :: string
  ex_flow :: string
  ex_node :: string
  ex_cycle :: int
  ex_phase :: string
  ex_status :: string
  ex_revision :: int
  ex_plan_version :: int
  ex_claim :: string
  ex_generation :: int
  ex_attempts :: int
  ex_next_check :: "pydt option"
  ex_deadline :: "pydt option"
  ex_progressed :: "pydt option"
  ex_note :: "string option"
  ex_block_code :: "string option"
  ex_block_owner :: "string option"
  ex_block_required :: "string option"
  ex_block_gates :: "jtext option"
  ex_block_detail :: "string option"
  ex_pending_key :: "string option"
  ex_notification :: "string option"
  ex_handoff :: "string option"
  ex_created :: "pydt option"

record action_row =
  ac_id :: string
  ac_org :: string
  ac_execution :: string
  ac_key :: string
  ac_kind :: string
  ac_status :: string
  ac_attempt :: int
  ac_artifact :: "string option"
  ac_receipt :: "string option"
  ac_detail :: "(string \<times> json) list option"
  ac_created :: "pydt option"
  ac_observed :: "pydt option"

record db =
  flows :: "flow_row list"
  nodes :: "node_row list"
  edges :: "edge_row list"
  plans :: "plan_row list"
  decisions :: "decision_row list"
  claims :: "claim_row list"
  bindings :: "binding_row list"
  executions :: "execution_row list"
  actions :: "action_row list"

section \<open>Reads by primary key\<close>

definition get_flow :: "db \<Rightarrow> string \<Rightarrow> flow_row option" where
  "get_flow d i = find (\<lambda>r. fl_id r = i) (flows d)"

definition get_node :: "db \<Rightarrow> string \<Rightarrow> node_row option" where
  "get_node d i = find (\<lambda>r. nd_id r = i) (nodes d)"

definition get_plan :: "db \<Rightarrow> string \<Rightarrow> plan_row option" where
  "get_plan d i = find (\<lambda>r. pl_id r = i) (plans d)"

definition get_decision :: "db \<Rightarrow> string \<Rightarrow> decision_row option" where
  "get_decision d i = find (\<lambda>r. dc_id r = i) (decisions d)"

definition get_claim :: "db \<Rightarrow> string \<Rightarrow> string \<Rightarrow> claim_row option" where
  "get_claim d org i = find (\<lambda>r. cl_org r = org \<and> cl_id r = i) (claims d)"

text \<open>Writes through a loaded row reach exactly the row with its primary key.\<close>

definition put_claim :: "claim_row \<Rightarrow> db \<Rightarrow> db" where
  "put_claim r d = d\<lparr>claims := update_where (\<lambda>x. cl_id x = cl_id r) (\<lambda>_. r) (claims d)\<rparr>"

definition put_execution :: "execution_row \<Rightarrow> db \<Rightarrow> db" where
  "put_execution r d = d\<lparr>executions := update_where (\<lambda>x. ex_id x = ex_id r) (\<lambda>_. r) (executions d)\<rparr>"

definition put_action :: "action_row \<Rightarrow> db \<Rightarrow> db" where
  "put_action r d = d\<lparr>actions := update_where (\<lambda>x. ac_id x = ac_id r) (\<lambda>_. r) (actions d)\<rparr>"

section \<open>The database's own constraints\<close>

text \<open>The unique indexes of the tables the modelled code writes.\<close>

definition claim_key :: "claim_row \<Rightarrow> string \<times> int \<times> int" where
  "claim_key r = (cl_org r, cl_repo r, cl_issue r)"

definition execution_key :: "execution_row \<Rightarrow> string \<times> string \<times> int" where
  "execution_key r = (ex_org r, ex_node r, ex_cycle r)"

definition action_key :: "action_row \<Rightarrow> string \<times> string \<times> string" where
  "action_key r = (ac_org r, ac_execution r, ac_key r)"

definition ledger_keys :: "db \<Rightarrow> bool" where
  "ledger_keys d \<longleftrightarrow> unique_on ex_id (executions d) \<and> unique_on execution_key (executions d)
     \<and> unique_on ac_id (actions d) \<and> unique_on action_key (actions d)"

definition claim_keys :: "db \<Rightarrow> bool" where
  "claim_keys d \<longleftrightarrow> unique_on cl_id (claims d) \<and> unique_on claim_key (claims d)"

lemma put_claim_simps [simp]:
  "flows (put_claim r d) = flows d" "nodes (put_claim r d) = nodes d" "edges (put_claim r d) = edges d"
  "plans (put_claim r d) = plans d" "decisions (put_claim r d) = decisions d"
  "bindings (put_claim r d) = bindings d" "executions (put_claim r d) = executions d"
  "actions (put_claim r d) = actions d"
  by (simp_all add: put_claim_def)

lemma put_execution_simps [simp]:
  "flows (put_execution r d) = flows d" "nodes (put_execution r d) = nodes d" "edges (put_execution r d) = edges d"
  "plans (put_execution r d) = plans d" "decisions (put_execution r d) = decisions d"
  "bindings (put_execution r d) = bindings d" "claims (put_execution r d) = claims d"
  "actions (put_execution r d) = actions d"
  by (simp_all add: put_execution_def)

lemma put_action_simps [simp]:
  "flows (put_action r d) = flows d" "nodes (put_action r d) = nodes d" "edges (put_action r d) = edges d"
  "plans (put_action r d) = plans d" "decisions (put_action r d) = decisions d"
  "bindings (put_action r d) = bindings d" "claims (put_action r d) = claims d"
  "executions (put_action r d) = executions d"
  by (simp_all add: put_action_def)

text \<open>
  Replacing a row by one with the same keys keeps every unique index; the row is then found
  under its keys, and every other row is what it was.
\<close>

lemma unique_on_put:
  assumes "unique_on pk rows" "unique_on key rows" "old \<in> set rows" "pk new = pk old" "key new = key old"
  shows "unique_on pk (update_where (\<lambda>x. pk x = pk new) (\<lambda>_. new) rows)"
    and "unique_on key (update_where (\<lambda>x. pk x = pk new) (\<lambda>_. new) rows)"
proof -
  have only: "x = old" if "x \<in> set rows" "pk x = pk new" for x
    using unique_onD [OF assms(1) that(1) assms(3)] that(2) assms(4) by simp
  have "map pk (update_where (\<lambda>x. pk x = pk new) (\<lambda>_. new) rows) = map pk rows"
    by (auto simp: update_where_def)
  then show "unique_on pk (update_where (\<lambda>x. pk x = pk new) (\<lambda>_. new) rows)"
    using assms(1) by (simp add: unique_on_def)
  have "map key (update_where (\<lambda>x. pk x = pk new) (\<lambda>_. new) rows) = map key rows"
    using only assms(5) by (auto simp: update_where_def)
  then show "unique_on key (update_where (\<lambda>x. pk x = pk new) (\<lambda>_. new) rows)"
    using assms(2) by (simp add: unique_on_def)
qed

lemma mem_put:
  assumes "x \<in> set (update_where (\<lambda>x. pk x = pk new) (\<lambda>_. new) rows)"
  shows "x = new \<or> (x \<in> set rows \<and> pk x \<noteq> pk new)"
  using assms by (auto simp: set_update_where)

lemma mem_putI:
  assumes "x \<in> set rows" "pk x \<noteq> pk new"
  shows "x \<in> set (update_where (\<lambda>x. pk x = pk new) (\<lambda>_. new) rows)"
  using assms by (auto simp: set_update_where)

lemma mem_put_new:
  assumes "old \<in> set rows" "pk old = pk new"
  shows "new \<in> set (update_where (\<lambda>x. pk x = pk new) (\<lambda>_. new) rows)"
  using assms by (auto simp: set_update_where)

end
