(* ===== verification/Graph_Address.thy ===== *)
theory Graph_Address
  imports Main "HOL-Library.List_Lexorder" "HOL-Library.Char_ord"
begin

text \<open>
  The graph address grammar \<open>flow/epic/wave/node\<close> (\<open>orchestration/address.py\<close>): the pattern of a
  segment, the pattern of an address and \<open>split_address\<close>, with the round trip between an address
  and its four parts.
\<close>

section \<open>The grammar\<close>

definition alnum :: "char \<Rightarrow> bool" where
  "alnum c \<longleftrightarrow> (CHR ''0'' \<le> c \<and> c \<le> CHR ''9'') \<or> (CHR ''A'' \<le> c \<and> c \<le> CHR ''Z'')
     \<or> (CHR ''a'' \<le> c \<and> c \<le> CHR ''z'')"

definition segment :: "string \<Rightarrow> bool" where
  "segment s = (case s of [] \<Rightarrow> False
     | c # cs \<Rightarrow> alnum c \<and> list_all (\<lambda>x. alnum x \<or> x \<in> {CHR ''.'', CHR ''_'', CHR ''-''}) cs)"

fun split_on :: "char \<Rightarrow> string \<Rightarrow> string list" where
  "split_on c [] = [[]]"
| "split_on c (x # xs) =
     (if x = c then [] # split_on c xs
      else (case split_on c xs of [] \<Rightarrow> [[x]] | s # ss \<Rightarrow> (x # s) # ss))"

text \<open>
  The pattern is matched with \<open>re.match\<close> and ends in \<open>$\<close>, which also matches before one final
  newline; the split is on the text as given.
\<close>

definition drop_final_newline :: "string \<Rightarrow> string" where
  "drop_final_newline s = (if s \<noteq> [] \<and> last s = CHR 0x0A then butlast s else s)"

definition address_matches :: "string \<Rightarrow> bool" where
  "address_matches a =
     (let ss = split_on (CHR ''/'') (drop_final_newline a) in length ss = 4 \<and> list_all segment ss)"

definition split_address :: "string \<Rightarrow> (string \<times> string \<times> string \<times> string) option" where
  "split_address a =
     (if \<not> address_matches a then None
      else case split_on (CHR ''/'') a of [f, e, w, n] \<Rightarrow> Some (f, e, w, n) | _ \<Rightarrow> None)"

section \<open>Splitting\<close>

lemma length_split_on: "length (split_on c s) = Suc (count_list s c)"
  by (induction s) (auto split: list.splits)

lemma split_on_append: "split_on c (a @ c # b) = split_on c a @ split_on c b"
proof (induction a)
  case Nil
  then show ?case by simp
next
  case (Cons x a)
  then show ?case
    using length_split_on [of c a] by (cases "split_on c a") auto
qed

lemma split_on_none: "count_list s c = 0 \<Longrightarrow> split_on c s = [s]"
  by (induction s) (auto split: if_splits)

lemma count_drop_final_newline:
  "count_list (drop_final_newline s) (CHR ''/'') = count_list s (CHR ''/'')"
proof (cases "s \<noteq> [] \<and> last s = CHR 0x0A")
  case True
  then have "s = butlast s @ [CHR 0x0A]" by (metis append_butlast_last_id)
  then have "count_list s (CHR ''/'') = count_list (butlast s @ [CHR 0x0A]) (CHR ''/'')" by simp
  also have "\<dots> = count_list (butlast s) (CHR ''/'')" by simp
  finally show ?thesis using True by (simp add: drop_final_newline_def)
next
  case False
  then have "drop_final_newline s = s" unfolding drop_final_newline_def by (simp only: if_False)
  then show ?thesis by simp
qed

lemma split_on_joins: "split_on c s = p # ps \<Longrightarrow> s = p @ concat (map ((#) c) ps)"
proof (induction s arbitrary: p ps)
  case (Cons x s)
  show ?case
  proof (cases "split_on c s")
    case Nil
    then show ?thesis using length_split_on [of c s] by simp
  next
    case q: (Cons q qs)
    from Cons.IH [OF q] have s: "s = q @ concat (map ((#) c) qs)" .
    show ?thesis
    proof (cases "x = c")
      case True
      then have "p = []" "ps = q # qs" using Cons.prems q by auto
      then show ?thesis using s True by simp
    next
      case False
      then have "p = x # q" "ps = qs" using Cons.prems q by auto
      then show ?thesis using s by simp
    qed
  qed
qed simp

lemma split_on_free: "p \<in> set (split_on c s) \<Longrightarrow> c \<notin> set p"
  by (induction s arbitrary: p) (auto split: if_splits list.splits)

lemma split_four:
  assumes "c \<notin> set f" "c \<notin> set e" "c \<notin> set w" "c \<notin> set n"
  shows "split_on c (f @ c # e @ c # w @ c # n) = [f, e, w, n]"
  using assms by (simp add: split_on_append split_on_none count_list_0_iff)

lemma segment_chars: "segment s \<Longrightarrow> s \<noteq> [] \<and> CHR ''/'' \<notin> set s \<and> CHR 0x0A \<notin> set s"
  by (cases s) (auto simp: segment_def alnum_def list_all_iff less_eq_char_def)

lemma drop_no_newline: "CHR 0x0A \<notin> set s \<Longrightarrow> drop_final_newline s = s"
  using last_in_set [of s] unfolding drop_final_newline_def by metis

lemma drop_newline: "drop_final_newline (s @ [CHR 0x0A]) = s"
  by (simp add: drop_final_newline_def)

text \<open>The last part of an address: a segment, or a segment and one newline.\<close>

definition last_part :: "string \<Rightarrow> bool" where
  "last_part n \<longleftrightarrow> segment n \<or> (\<exists>m. segment m \<and> n = m @ [CHR 0x0A])"

lemma last_part_code [code]: "last_part n \<longleftrightarrow> segment (drop_final_newline n)"
proof
  assume "last_part n"
  then show "segment (drop_final_newline n)"
    using segment_chars drop_no_newline drop_newline by (auto simp: last_part_def)
next
  assume seg: "segment (drop_final_newline n)"
  show "last_part n"
  proof (cases "n \<noteq> [] \<and> last n = CHR 0x0A")
    case True
    then have "n = butlast n @ [CHR 0x0A]" by (metis append_butlast_last_id)
    then show ?thesis using seg True unfolding last_part_def drop_final_newline_def by metis
  next
    case False
    then show ?thesis using seg unfolding last_part_def drop_final_newline_def by metis
  qed
qed

lemma split_address_iff:
  "split_address a = Some (f, e, w, n) \<longleftrightarrow>
     a = f @ ''/'' @ e @ ''/'' @ w @ ''/'' @ n \<and> segment f \<and> segment e \<and> segment w \<and> last_part n"
proof
  assume split: "split_address a = Some (f, e, w, n)"
  then have m: "address_matches a" and parts: "split_on (CHR ''/'') a = [f, e, w, n]"
    by (auto simp: split_address_def split: if_splits list.splits)
  have a: "a = f @ ''/'' @ e @ ''/'' @ w @ ''/'' @ n" using split_on_joins [OF parts] by simp
  have free: "CHR ''/'' \<notin> set f" "CHR ''/'' \<notin> set e" "CHR ''/'' \<notin> set w" "CHR ''/'' \<notin> set n"
    using split_on_free [of _ "CHR ''/''" a] parts by auto
  have "drop_final_newline a = f @ ''/'' @ e @ ''/'' @ w @ ''/'' @ drop_final_newline n"
    unfolding a by (auto simp: drop_final_newline_def butlast_append)
  moreover have "CHR ''/'' \<notin> set (drop_final_newline n)"
    using free(4) in_set_butlastD [of _ n] unfolding drop_final_newline_def by metis
  ultimately have "split_on (CHR ''/'') (drop_final_newline a) = [f, e, w, drop_final_newline n]"
    using split_four [OF free(1-3)] by simp
  then have "segment f \<and> segment e \<and> segment w \<and> segment (drop_final_newline n)"
    using m by (simp add: address_matches_def)
  with a show "a = f @ ''/'' @ e @ ''/'' @ w @ ''/'' @ n \<and> segment f \<and> segment e \<and> segment w \<and> last_part n"
    by (simp add: last_part_code)
next
  assume r: "a = f @ ''/'' @ e @ ''/'' @ w @ ''/'' @ n \<and> segment f \<and> segment e \<and> segment w \<and> last_part n"
  then have seg: "segment f" "segment e" "segment w" "segment (drop_final_newline n)"
    by (simp_all add: last_part_code)
  have n: "CHR ''/'' \<notin> set n" using r segment_chars by (auto simp: last_part_def)
  have "n \<noteq> []" using r segment_chars by (auto simp: last_part_def)
  then have "drop_final_newline a = f @ ''/'' @ e @ ''/'' @ w @ ''/'' @ drop_final_newline n"
    using r by (auto simp: drop_final_newline_def butlast_append)
  then have "address_matches a"
    using seg segment_chars split_four [of "CHR ''/''" f e w "drop_final_newline n"]
    by (simp add: address_matches_def)
  moreover have "split_on (CHR ''/'') a = [f, e, w, n]"
    using r n seg segment_chars split_four [of "CHR ''/''" f e w n] by simp
  ultimately show "split_address a = Some (f, e, w, n)" by (simp add: split_address_def)
qed

lemma matches_split: "address_matches a \<Longrightarrow> \<exists>f e w n. split_address a = Some (f, e, w, n)"
proof -
  assume m: "address_matches a"
  then have "length (split_on (CHR ''/'') a) = 4"
    using length_split_on [of "CHR ''/''" a] length_split_on [of "CHR ''/''" "drop_final_newline a"]
      count_drop_final_newline [of a] by (simp add: address_matches_def Let_def)
  then obtain f e w n where "split_on (CHR ''/'') a = [f, e, w, n]"
    by (auto simp: numeral_eq_Suc length_Suc_conv)
  with m show ?thesis by (simp add: split_address_def)
qed

text \<open>
  C34: An address and its parts determine each other. \<open>split_address\<close> succeeds exactly on the
  texts \<open>flow/epic/wave/node\<close> whose parts are segments, and returns those parts; the one text
  beyond the grammar it accepts is such an address followed by a newline, whose node part then
  keeps the newline.
\<close>

theorem address_roundtrip:
  "split_address a = Some (f, e, w, n) \<longleftrightarrow>
     a = f @ ''/'' @ e @ ''/'' @ w @ ''/'' @ n \<and> segment f \<and> segment e \<and> segment w \<and> last_part n"
  by (rule split_address_iff)

text \<open>A composed address has the parts it was composed from.\<close>

lemma split_composed:
  assumes "split_address (a @ ''/'' @ b @ ''/'' @ c @ ''/'' @ d) = Some (f, e, w, n)"
  shows "f = a \<and> e = b \<and> w = c \<and> n = d"
proof -
  let ?s = "a @ ''/'' @ b @ ''/'' @ c @ ''/'' @ d"
  let ?k = "\<lambda>x. count_list x (CHR ''/'')"
  have "address_matches ?s" using assms by (auto simp: split_address_def split: if_splits)
  then have "?k ?s = 3"
    using length_split_on [of "CHR ''/''" "drop_final_newline ?s"] count_drop_final_newline [of ?s]
    by (simp add: address_matches_def Let_def)
  then have "?k a = 0" "?k b = 0" "?k c = 0" "?k d = 0" by simp_all
  then have "split_on (CHR ''/'') ?s = [a, b, c, d]"
    by (simp add: split_on_append split_on_none)
  with assms show ?thesis by (simp add: split_address_def split: if_splits)
qed

end
