(* ===== verification/Plan_Lineage.thy ===== *)
theory Plan_Lineage
  imports Tables Graph_Address
begin

text \<open>
  Which earlier accepted plan still authorizes a node's work after later human amendments
  (\<open>orchestration/plan_lineage.py\<close>, with
  \<open>amend._execution_definition\<close>). \<open>digest\<close>, the SHA-256 of the canonical dump of a document,
  is a parameter. The lemmas show that a lineage stays in its tenant and flow, ends at exactly
  the version asked for, and never crosses a change of the node's prerequisites.
\<close>

type_synonym digest = "json \<Rightarrow> string"
type_synonym fields = "(string \<times> json) list"

section \<open>Python's view of decoded JSON\<close>

text \<open>
  Equality of decoded values: dictionaries regardless of key order, and \<open>True == 1\<close>. It is
  equality of normal forms. Values are nulls, booleans, integers, strings, lists and dicts.
\<close>

primrec jnorm :: "json \<Rightarrow> json" where
  "jnorm JNull = JNull"
| "jnorm (JBool b) = JInt (if b then 1 else 0)"
| "jnorm (JInt n) = JInt n"
| "jnorm (JStr s) = JStr s"
| "jnorm (JArr xs) = JArr (map jnorm xs)"
| "jnorm (JObj fs) = JObj (sort_key fst (map (map_prod id jnorm) fs))"

definition jeq :: "json \<Rightarrow> json \<Rightarrow> bool" where
  "jeq a b \<longleftrightarrow> jnorm a = jnorm b"

text \<open>Lists and dicts are unhashable; iterating a string gives characters, a dict its keys.\<close>

fun hashable :: "json \<Rightarrow> bool" where
  "hashable (JArr xs) = False"
| "hashable (JObj fs) = False"
| "hashable _ = True"

fun iter_json :: "json \<Rightarrow> json list option" where
  "iter_json (JArr xs) = Some xs"
| "iter_json (JStr s) = Some (map (\<lambda>c. JStr [c]) s)"
| "iter_json (JObj fs) = Some (map (JStr \<circ> fst) fs)"
| "iter_json _ = None"

text \<open>\<open>those\<close> over a function that may raise.\<close>

fun traverse :: "('a \<Rightarrow> 'b option) \<Rightarrow> 'a list \<Rightarrow> 'b list option" where
  "traverse f [] = Some []"
| "traverse f (x # xs) =
     (case f x of None \<Rightarrow> None
      | Some y \<Rightarrow> (case traverse f xs of None \<Rightarrow> None | Some ys \<Rightarrow> Some (y # ys)))"

text \<open>\<open>d[key]\<close>: raises on a missing key and on anything that is not a dict.\<close>

definition jindex :: "json \<Rightarrow> string \<Rightarrow> json option" where
  "jindex j k = (case jfields j of None \<Rightarrow> None | Some fs \<Rightarrow> map_of fs k)"

text \<open>\<open>wave(address)\<close>: the two middle segments; \<open>None\<close> where \<open>split_address\<close> raises.\<close>

definition wave :: "json \<Rightarrow> json list option" where
  "wave a = (case a of
       JStr s \<Rightarrow> (case split_address s of None \<Rightarrow> None | Some (_, e, w, _) \<Rightarrow> Some [JStr e, JStr w])
     | _ \<Rightarrow> None)"

section \<open>Edges and execution definitions of a plan document\<close>

text \<open>\<open>edge_set(document)\<close> as the list of its elements; None where the comprehension raises.\<close>

definition edge_pair :: "json \<Rightarrow> (json \<times> json) option" where
  "edge_pair e = (case (jindex e ''from_address'', jindex e ''to_address'') of
       (Some a, Some b) \<Rightarrow> (if hashable a \<and> hashable b then Some (jnorm a, jnorm b) else None)
     | _ \<Rightarrow> None)"

definition edge_set :: "json \<Rightarrow> (json \<times> json) list option" where
  "edge_set document =
     (case jindex document ''edges'' of None \<Rightarrow> None
      | Some es \<Rightarrow> (case iter_json es of None \<Rightarrow> None | Some xs \<Rightarrow> traverse edge_pair xs))"

text \<open>
  \<open>sorted(set(document.get(key) or []))\<close> up to order and multiplicity: None where a member is
  unhashable or the members cannot be ordered.
\<close>

fun json_str :: "json \<Rightarrow> bool" where
  "json_str (JStr _) = True"
| "json_str _ = False"

fun json_num :: "json \<Rightarrow> bool" where
  "json_num (JInt _) = True"
| "json_num (JBool _) = True"
| "json_num _ = False"

definition sorted_set :: "json \<Rightarrow> json set option" where
  "sorted_set j =
     (if \<not> jtruthy j then Some {}
      else case iter_json j of None \<Rightarrow> None
           | Some xs \<Rightarrow>
               if \<not> list_all hashable xs then None
               else let ys = remdups (map jnorm xs) in
                 if length ys \<le> 1 \<or> list_all json_str ys \<or> list_all json_num ys
                 then Some (set ys) else None)"

definition input_source :: "json \<Rightarrow> string option" where
  "input_source item = (case jindex item ''source'' of Some (JStr s) \<Rightarrow> Some (strip s) | _ \<Rightarrow> None)"

definition input_sources :: "json \<Rightarrow> string set option" where
  "input_sources j =
     (if \<not> jtruthy j then Some {}
      else case iter_json j of None \<Rightarrow> None
           | Some xs \<Rightarrow> map_option set (traverse input_source xs))"

text \<open>\<open>_execution_definition\<close>: the compared parts of a node's document.\<close>

definition definition_keys :: "string list" where
  "definition_keys = [''repository_identity'', ''provider_repository_id'', ''repository_connection'',
     ''execution_owner'', ''execution_adapter'', ''executor'', ''evaluation'', ''delivery_mode'']"

definition execution_definition ::
    "fields \<Rightarrow> (json list \<times> json set \<times> json set \<times> string set) option" where
  "execution_definition doc =
     (case (sorted_set (jget doc ''criteria''), sorted_set (jget doc ''evidence_expectations''),
            input_sources (jget doc ''required_inputs'')) of
        (Some cr, Some ev, Some inp) \<Rightarrow> Some (map (\<lambda>k. jnorm (jget doc k)) definition_keys, cr, ev, inp)
      | _ \<Rightarrow> None)"

definition node_address :: "flow_row \<Rightarrow> node_row \<Rightarrow> string" where
  "node_address fl nd = fl_slug fl @ ''/'' @ nd_epic nd @ ''/'' @ nd_wave nd @ ''/'' @ nd_ref nd"

text \<open>The document entries with a given address; None where an entry is no dict.\<close>

definition address_of :: "json \<Rightarrow> (json \<times> fields) option" where
  "address_of item = (case jfields item of None \<Rightarrow> None | Some fs \<Rightarrow> Some (jget fs ''address'', fs))"

definition entries_at :: "json \<Rightarrow> string \<Rightarrow> fields list option" where
  "entries_at document addr =
     (case jfields document of None \<Rightarrow> None
      | Some fs \<Rightarrow>
          (case (case map_of fs ''nodes'' of None \<Rightarrow> Some [] | Some ns \<Rightarrow> iter_json ns) of
             None \<Rightarrow> None
           | Some items \<Rightarrow>
               (case traverse address_of items of None \<Rightarrow> None
                | Some xs \<Rightarrow> Some (map snd (filter (\<lambda>(a, _). a = JStr addr) xs)))))"

definition sources_of :: "(json \<times> json) list \<Rightarrow> string \<Rightarrow> json set" where
  "sources_of es addr = set (map fst (filter (\<lambda>e. snd e = JStr addr) es))"

lemma sources_of_iff: "a \<in> sources_of es addr \<longleftrightarrow> (a, JStr addr) \<in> set es"
  by (force simp: sources_of_def)

section \<open>One hop\<close>

text \<open>\<open>_node_preserving_hop\<close>: an ordinary human amendment that left this node untouched.\<close>

definition node_preserving_hop :: "db \<Rightarrow> plan_row \<Rightarrow> string option \<Rightarrow> plan_row option" where
  "node_preserving_hop d plan node_id =
     (case (node_id, pl_decision plan) of
        (Some nid, Some dec) \<Rightarrow>
          if dec = [] then None
          else (case get_decision d dec of None \<Rightarrow> None
           | Some receipt \<Rightarrow>
             if dc_org receipt \<noteq> pl_org plan \<or> dc_flow receipt \<noteq> pl_flow plan
                \<or> dc_kind receipt \<noteq> ''plan_amended'' \<or> dc_actor_kind receipt \<noteq> ''human''
                \<or> dc_actor_id receipt = []
             then None
             else (case find (\<lambda>p. pl_org p = pl_org plan \<and> pl_flow p = pl_flow plan
                                  \<and> pl_version p = pl_version plan - 1) (plans d) of
                None \<Rightarrow> None
              | Some base \<Rightarrow>
                if pl_superseded base = None \<or> jfields (pl_document base) = None
                   \<or> jfields (pl_document plan) = None
                then None
                else (case (get_node d nid, get_flow d (pl_flow plan)) of
                   (Some nd, Some fl) \<Rightarrow>
                     if nd_org nd \<noteq> pl_org plan \<or> nd_flow nd \<noteq> pl_flow plan then None
                     else let addr = node_address fl nd in
                     (case (entries_at (pl_document base) addr, entries_at (pl_document plan) addr) of
                        (Some [earlier], Some [after]) \<Rightarrow>
                          (case (execution_definition earlier, execution_definition after) of
                             (Some db_before, Some db_after) \<Rightarrow>
                               if db_before \<noteq> db_after then None
                               else if \<not> jeq (jget earlier ''kind'') (jget after ''kind'')
                                       \<or> \<not> jeq (jget earlier ''issue_ref'') (jget after ''issue_ref'')
                               then None
                               else (case (edge_set (pl_document base), edge_set (pl_document plan)) of
                                  (Some eb, Some ea) \<Rightarrow>
                                    if sources_of eb addr \<noteq> sources_of ea addr then None else Some base
                                | _ \<Rightarrow> None)
                           | _ \<Rightarrow> None)
                      | _ \<Rightarrow> None)
                 | _ \<Rightarrow> None)))
      | _ \<Rightarrow> None)"

text \<open>Is the plan a paused-wave receipt of a shared, code-only continuation?\<close>

definition shared_marker :: "plan_row \<Rightarrow> bool" where
  "shared_marker plan \<longleftrightarrow>
     truthy (pl_decision plan)
     \<and> (case jfields (pl_document plan) of None \<Rightarrow> False
        | Some fs \<Rightarrow> (case jfields (jget fs ''execution_continuation'') of None \<Rightarrow> False
           | Some m \<Rightarrow> jget m ''mode'' = JStr ''shared_worker_role''
               \<and> jget m ''delivery_mode'' = JStr ''code_only''))"

definition without_edges :: "fields \<Rightarrow> json" where
  "without_edges fs = jnorm (JObj (filter (\<lambda>(k, _). k \<noteq> ''edges'') fs))"

text \<open>\<open>{tuple(w) for w in data[key]}\<close>; None where it raises.\<close>

definition tuple_of :: "json \<Rightarrow> json list option" where
  "tuple_of w = (case iter_json w of None \<Rightarrow> None
     | Some xs \<Rightarrow> if list_all hashable xs then Some (map jnorm xs) else None)"

definition tuple_set :: "fields \<Rightarrow> string \<Rightarrow> json list set option" where
  "tuple_set data key = (case map_of data key of None \<Rightarrow> None
     | Some j \<Rightarrow> (case iter_json j of None \<Rightarrow> None | Some ws \<Rightarrow> map_option set (traverse tuple_of ws)))"

text \<open>The receipt of a paused-wave amendment names this plan, its content and its author.\<close>

definition receipt_fields :: "digest \<Rightarrow> plan_row \<Rightarrow> decision_row \<Rightarrow> fields option" where
  "receipt_fields dg plan receipt =
     (case dc_reason receipt of None \<Rightarrow> None
      | Some txt \<Rightarrow> (case decoded txt of None \<Rightarrow> None
         | Some j \<Rightarrow> (case jfields j of None \<Rightarrow> None
            | Some data \<Rightarrow>
              if dc_org receipt \<noteq> pl_org plan \<or> dc_flow receipt \<noteq> pl_flow plan
                 \<or> dc_kind receipt \<noteq> ''plan_amended'' \<or> dc_actor_kind receipt \<noteq> ''human''
                 \<or> dc_actor_id receipt = []
                 \<or> jget data ''contract'' \<noteq> JStr ''paused-wave-dependencies/v1''
                 \<or> \<not> jeq (jget data ''plan_version'') (JInt (pl_version plan))
                 \<or> jget data ''plan_hash'' \<noteq> JStr (pl_hash plan)
                 \<or> pl_hash plan \<noteq> dg (pl_document plan)
                 \<or> Option.bind (jindex (pl_document plan) ''execution_policy'')
                      (\<lambda>p. jindex p ''principal_id'') \<noteq> Some (JStr (dc_actor_id receipt))
              then None else Some data)))"

definition base_plan :: "digest \<Rightarrow> db \<Rightarrow> plan_row \<Rightarrow> fields \<Rightarrow> plan_row option" where
  "base_plan dg d plan data =
     (case map_of data ''base_plan_id'' of
        Some (JStr bid) \<Rightarrow>
          (case get_plan d bid of None \<Rightarrow> None
           | Some base \<Rightarrow>
               if pl_org base \<noteq> pl_org plan \<or> pl_flow base \<noteq> pl_flow plan
                  \<or> pl_version base \<noteq> pl_version plan - 1
                  \<or> \<not> (case map_of data ''base_plan_version'' of None \<Rightarrow> False
                         | Some v \<Rightarrow> jeq v (JInt (pl_version base)))
                  \<or> map_of data ''base_plan_hash'' \<noteq> Some (JStr (pl_hash base))
                  \<or> pl_hash base \<noteq> dg (pl_document base)
                  \<or> pl_superseded base = None
               then None else Some base)
      | _ \<Rightarrow> None)"

text \<open>
  The two documents differ in edges only, all changed edges end in the waves the receipt lists,
  none of these is frozen, and the protected wave is.
\<close>

definition wave_change_ok :: "plan_row \<Rightarrow> plan_row \<Rightarrow> fields \<Rightarrow> json list option \<Rightarrow> bool" where
  "wave_change_ok base plan data protected =
     (case (jfields (pl_document base), jfields (pl_document plan)) of
        (Some earlier, Some after) \<Rightarrow>
          without_edges earlier = without_edges after
          \<and> (case (edge_set (pl_document base), edge_set (pl_document plan)) of
               (Some eb, Some ea) \<Rightarrow>
                 (let changes = filter (\<lambda>e. e \<notin> set ea) eb @ filter (\<lambda>e. e \<notin> set eb) ea in
                  (case (traverse (wave \<circ> snd) changes, tuple_set data ''changed_waves'',
                         tuple_set data ''frozen_waves'') of
                     (Some cw, Some declared, Some frozen) \<Rightarrow>
                       changes \<noteq> [] \<and> set cw = declared \<and> set cw \<inter> frozen = {}
                       \<and> (case protected of None \<Rightarrow> True | Some w \<Rightarrow> w \<in> frozen)
                   | _ \<Rightarrow> False))
             | _ \<Rightarrow> False)
      | _ \<Rightarrow> False)"

definition paused_wave_hop :: "digest \<Rightarrow> db \<Rightarrow> plan_row \<Rightarrow> json list option \<Rightarrow> plan_row option" where
  "paused_wave_hop dg d plan protected =
     (case get_decision d (the (pl_decision plan)) of None \<Rightarrow> None
      | Some receipt \<Rightarrow>
          (case receipt_fields dg plan receipt of None \<Rightarrow> None
           | Some data \<Rightarrow>
               (case base_plan dg d plan data of None \<Rightarrow> None
                | Some base \<Rightarrow> if wave_change_ok base plan data protected then Some base else None)))"

section \<open>The lineage\<close>

definition max_hops :: nat where
  "max_hops = 100"

fun lineage_loop ::
    "digest \<Rightarrow> db \<Rightarrow> string option \<Rightarrow> json list option \<Rightarrow> int \<Rightarrow> nat \<Rightarrow> plan_row \<Rightarrow> plan_row option" where
  "lineage_loop dg d node_id protected version 0 plan = None"
| "lineage_loop dg d node_id protected version (Suc n) plan =
     (if pl_version plan = version then Some plan
      else (case (if shared_marker plan then paused_wave_hop dg d plan protected
                  else node_preserving_hop d plan node_id) of
              None \<Rightarrow> None
            | Some base \<Rightarrow> lineage_loop dg d node_id protected version n base))"

definition ancestor_plan :: "digest \<Rightarrow> db \<Rightarrow> plan_row \<Rightarrow> int \<Rightarrow> string option \<Rightarrow> plan_row option" where
  "ancestor_plan dg d plan version node_id =
     (if version < 1 \<or> pl_version plan < version then None
      else if pl_version plan = version then Some plan
      else case node_id of
          None \<Rightarrow> lineage_loop dg d None None version (Suc max_hops) plan
        | Some nid \<Rightarrow>
            (case get_node d nid of None \<Rightarrow> None
             | Some nd \<Rightarrow>
                 if nd_org nd \<noteq> pl_org plan \<or> nd_flow nd \<noteq> pl_flow plan then None
                 else lineage_loop dg d (Some nid) (Some [JStr (nd_epic nd), JStr (nd_wave nd)])
                        version (Suc max_hops) plan))"

section \<open>Waves of composed addresses\<close>

lemma wave_of_node_address:
  assumes "wave (JStr (node_address fl nd)) = Some w"
  shows "w = [JStr (nd_epic nd), JStr (nd_wave nd)]"
  using assms split_composed [of "fl_slug fl" "nd_epic nd" "nd_wave nd" "nd_ref nd"]
  by (auto simp: wave_def node_address_def split: option.splits)

lemma traverse_mem:
  assumes "traverse f xs = Some ys" "x \<in> set xs"
  shows "\<exists>y \<in> set ys. f x = Some y"
  using assms by (induction xs arbitrary: ys) (auto split: option.splits)

section \<open>What a hop preserves\<close>

text \<open>Both kinds of hop stay in the tenant and the flow and go back one version.\<close>

definition one_back :: "plan_row \<Rightarrow> plan_row \<Rightarrow> bool" where
  "one_back base plan \<longleftrightarrow> pl_org base = pl_org plan \<and> pl_flow base = pl_flow plan
     \<and> pl_version base = pl_version plan - 1 \<and> pl_superseded base \<noteq> None"

definition same_sources :: "plan_row \<Rightarrow> plan_row \<Rightarrow> string \<Rightarrow> bool" where
  "same_sources p q addr \<longleftrightarrow>
     (\<exists>ep eq. edge_set (pl_document p) = Some ep \<and> edge_set (pl_document q) = Some eq
        \<and> sources_of ep addr = sources_of eq addr)"

lemma node_hop_one_back: "node_preserving_hop d plan nid = Some base \<Longrightarrow> one_back base plan"
  by (auto simp: node_preserving_hop_def one_back_def Let_def dest!: find_SomeD
      split: option.splits if_splits list.splits)

lemma node_hop_sources:
  assumes "node_preserving_hop d plan (Some nid) = Some base"
    "get_node d nid = Some nd" "get_flow d (pl_flow plan) = Some fl"
  shows "same_sources base plan (node_address fl nd)"
  using assms
  by (auto simp: node_preserving_hop_def same_sources_def Let_def
      split: option.splits if_splits list.splits)

lemma wave_hop_one_back: "paused_wave_hop dg d plan pr = Some base \<Longrightarrow> one_back base plan"
  by (auto simp: paused_wave_hop_def base_plan_def one_back_def
      split: option.splits if_splits json.splits)

lemma wave_change_sources:
  assumes ok: "wave_change_ok base plan data (Some [JStr (nd_epic nd), JStr (nd_wave nd)])"
  shows "same_sources base plan (node_address fl nd)"
proof -
  let ?addr = "node_address fl nd"
  obtain eb ea where e: "edge_set (pl_document base) = Some eb" "edge_set (pl_document plan) = Some ea"
    using ok by (auto simp: wave_change_ok_def split: option.splits)
  define changes where "changes = filter (\<lambda>e. e \<notin> set ea) eb @ filter (\<lambda>e. e \<notin> set eb) ea"
  obtain cw frozen where c: "traverse (wave \<circ> snd) changes = Some cw"
      "set cw \<inter> frozen = {}" "[JStr (nd_epic nd), JStr (nd_wave nd)] \<in> frozen"
    using ok e by (auto simp: wave_change_ok_def changes_def Let_def split: option.splits)
  have "(a, JStr ?addr) \<notin> set changes" for a
  proof
    assume "(a, JStr ?addr) \<in> set changes"
    then obtain w where "w \<in> set cw" "wave (JStr ?addr) = Some w"
      using traverse_mem [OF c(1)] by fastforce
    with c(2,3) show False by (auto dest: wave_of_node_address)
  qed
  then have "sources_of eb ?addr = sources_of ea ?addr"
    by (auto simp: changes_def sources_of_iff)
  with e show ?thesis by (auto simp: same_sources_def)
qed

lemma wave_hop_sources:
  assumes "paused_wave_hop dg d plan (Some [JStr (nd_epic nd), JStr (nd_wave nd)]) = Some base"
  shows "same_sources base plan (node_address fl nd)"
  using assms by (auto simp: paused_wave_hop_def split: option.splits if_splits intro: wave_change_sources)

lemma same_sources_trans:
  "same_sources p q addr \<Longrightarrow> same_sources q r addr \<Longrightarrow> same_sources p r addr"
  by (auto simp: same_sources_def)

lemma lineage_step:
  assumes "lineage_loop dg d nid pr v (Suc n) plan = Some p" "pl_version plan \<noteq> v"
  obtains base where "one_back base plan" "lineage_loop dg d nid pr v n base = Some p"
    "shared_marker plan \<Longrightarrow> paused_wave_hop dg d plan pr = Some base"
    "\<not> shared_marker plan \<Longrightarrow> node_preserving_hop d plan nid = Some base"
  using assms by (auto split: option.splits if_splits dest: wave_hop_one_back node_hop_one_back)

lemma lineage_scope:
  assumes "lineage_loop dg d nid pr v n plan = Some p"
  shows "pl_org p = pl_org plan \<and> pl_flow p = pl_flow plan \<and> pl_version p = v
    \<and> v \<le> pl_version plan \<and> pl_version plan < v + int n"
  using assms
proof (induction n arbitrary: plan)
  case 0
  then show ?case by simp
next
  case (Suc n)
  show ?case
  proof (cases "pl_version plan = v")
    case True
    with Suc.prems show ?thesis by auto
  next
    case False
    then obtain base where "one_back base plan" "lineage_loop dg d nid pr v n base = Some p"
      using lineage_step [OF Suc.prems] by blast
    then show ?thesis using Suc.IH [of base] by (auto simp: one_back_def)
  qed
qed

lemma lineage_sources:
  assumes "lineage_loop dg d (Some nid) (Some [JStr (nd_epic nd), JStr (nd_wave nd)]) v n plan = Some p"
    and "pl_version plan \<noteq> v" "get_node d nid = Some nd" "get_flow d (pl_flow plan) = Some fl"
  shows "same_sources p plan (node_address fl nd)"
  using assms
proof (induction n arbitrary: plan)
  case 0
  then show ?case by simp
next
  case (Suc n)
  obtain base where base: "one_back base plan"
      "lineage_loop dg d (Some nid) (Some [JStr (nd_epic nd), JStr (nd_wave nd)]) v n base = Some p"
      "same_sources base plan (node_address fl nd)"
    using lineage_step [OF Suc.prems(1,2)] node_hop_sources [OF _ Suc.prems(3,4)] wave_hop_sources
    by metis
  show ?case
  proof (cases "pl_version base = v")
    case True
    then have "p = base" using base(2) by (cases n) auto
    with base(3) show ?thesis by simp
  next
    case False
    have "get_flow d (pl_flow base) = Some fl" using base(1) Suc.prems(4) by (simp add: one_back_def)
    from same_sources_trans [OF Suc.IH [OF base(2) False Suc.prems(3) this] base(3)]
    show ?thesis .
  qed
qed

section \<open>A lineage of two accepted plans\<close>

text \<open>Version 2 adds an edge between two other nodes of the flow; node \<open>n\<close> is left alone.\<close>

definition lineage_entry :: "string \<Rightarrow> json" where
  "lineage_entry a = JObj [(''address'', JStr a), (''kind'', JStr ''story'')]"

definition lineage_edge :: "string \<Rightarrow> string \<Rightarrow> json" where
  "lineage_edge a b = JObj [(''from_address'', JStr a), (''to_address'', JStr b)]"

definition lineage_document :: "json list \<Rightarrow> json" where
  "lineage_document es = JObj [(''nodes'', JArr (map lineage_entry [''app/e/w/r'', ''app/e/w/s'', ''app/e/v/t''])),
     (''edges'', JArr es)]"

definition earlier_plan :: plan_row where
  "earlier_plan = \<lparr>pl_id = ''p1'', pl_org = ''o'', pl_flow = ''f'', pl_version = 1,
     pl_document = lineage_document [lineage_edge ''app/e/w/s'' ''app/e/w/r''], pl_hash = ''h'',
     pl_decision = None, pl_superseded = Some (Aware 9)\<rparr>"

definition amended_plan :: plan_row where
  "amended_plan = \<lparr>pl_id = ''p2'', pl_org = ''o'', pl_flow = ''f'', pl_version = 2,
     pl_document = lineage_document [lineage_edge ''app/e/w/s'' ''app/e/w/r'', lineage_edge ''app/e/w/s'' ''app/e/v/t''],
     pl_hash = ''h'', pl_decision = Some ''d1'', pl_superseded = None\<rparr>"

definition lineage_flow :: flow_row where
  "lineage_flow = \<lparr>fl_id = ''f'', fl_org = ''o'', fl_slug = ''app'', fl_state = ''running'', fl_paused = False, fl_archived = None,
     fl_title = ''t'', fl_product = None, fl_origin = JNull, fl_trackers = JNull\<rparr>"

definition lineage_node :: node_row where
  "lineage_node = \<lparr>nd_id = ''n'', nd_org = ''o'', nd_flow = ''f'', nd_epic = ''e'', nd_wave = ''w'',
     nd_ref = ''r'', nd_kind = ''story'', nd_state = ''running'', nd_title = ''t'', nd_issue = None,
     nd_attempts = 1, nd_lineage = None, nd_labels = [], nd_repository = None, nd_repository_id = None,
     nd_installation = None\<rparr>"

definition lineage_db :: db where
  "lineage_db = \<lparr>flows = [lineage_flow], nodes = [lineage_node], edges = [], plans = [earlier_plan, amended_plan],
     decisions = [\<lparr>dc_id = ''d1'', dc_org = ''o'', dc_flow = ''f'', dc_node = None, dc_kind = ''plan_amended'',
       dc_actor_id = ''u1'', dc_actor_role = ''owner'', dc_actor_kind = ''human'', dc_reason = None,
       dc_rejection = None, dc_from = None, dc_to = None, dc_created = Aware 8\<rparr>],
     claims = [], bindings = [], executions = [], actions = []\<rparr>"

lemma lineage_sample: "ancestor_plan (\<lambda>j. ''h'') lineage_db amended_plan 1 (Some ''n'') = Some earlier_plan"
  by code_simp

text \<open>
  A lineage never leaves its tenant or its flow, ends at exactly the accepted version asked
  for, and never reaches back more than one hundred amendments.
\<close>

theorem ancestor_plan_scope:
  assumes "ancestor_plan dg d plan v nid = Some p"
  shows "pl_org p = pl_org plan \<and> pl_flow p = pl_flow plan \<and> pl_version p = v \<and> 1 \<le> v
    \<and> v \<le> pl_version plan \<and> pl_version plan - v \<le> int max_hops"
proof -
  have loop: ?thesis if l: "lineage_loop dg d nid pr v (Suc max_hops) plan = Some p" "1 \<le> v" for nid pr
    using lineage_scope [OF l(1)] l(2) by auto
  show ?thesis
  proof (cases "pl_version plan = v")
    case True
    with assms show ?thesis by (auto simp: ancestor_plan_def split: if_splits)
  next
    case False
    then have "1 \<le> v \<and> (\<exists>nid pr. lineage_loop dg d nid pr v (Suc max_hops) plan = Some p)"
      using assms
      by (auto simp: ancestor_plan_def simp del: lineage_loop.simps split: option.splits if_splits)
    then show ?thesis using loop by blast
  qed
qed

theorem ancestor_plan_scope_witness:
  "pl_org earlier_plan = pl_org amended_plan \<and> pl_version amended_plan - 1 \<le> int max_hops"
  using ancestor_plan_scope [OF lineage_sample] by simp

text \<open>
  C38: An earlier plan keeps authority over a node only if the amendments in between left the
  node's prerequisites alone: the incoming edges of its address are the same set in the plan
  that authorized it and in the plan now in force, through paused-wave receipts and ordinary
  amendments alike.
\<close>

theorem ancestor_plan_keeps_prerequisites:
  assumes "ancestor_plan dg d plan v (Some nid) = Some p" "v \<noteq> pl_version plan"
    and "get_node d nid = Some nd" "get_flow d (pl_flow plan) = Some fl"
  shows "\<exists>ep eq. edge_set (pl_document p) = Some ep \<and> edge_set (pl_document plan) = Some eq
    \<and> sources_of ep (node_address fl nd) = sources_of eq (node_address fl nd)"
proof -
  have "lineage_loop dg d (Some nid) (Some [JStr (nd_epic nd), JStr (nd_wave nd)]) v (Suc max_hops) plan
      = Some p"
    using assms(1-3)
    by (auto simp: ancestor_plan_def simp del: lineage_loop.simps split: if_splits)
  from lineage_sources [OF this _ assms(3,4)] assms(2) show ?thesis
    by (auto simp: same_sources_def)
qed

theorem ancestor_plan_keeps_prerequisites_witness:
  "\<exists>ep eq. edge_set (pl_document earlier_plan) = Some ep \<and> edge_set (pl_document amended_plan) = Some eq
    \<and> sources_of ep (node_address lineage_flow lineage_node) = sources_of eq (node_address lineage_flow lineage_node)"
proof -
  have "1 \<noteq> pl_version amended_plan" "get_node lineage_db ''n'' = Some lineage_node"
    "get_flow lineage_db (pl_flow amended_plan) = Some lineage_flow"
    by code_simp+
  from ancestor_plan_keeps_prerequisites [OF lineage_sample this] show ?thesis .
qed

end
