(* ===== verification/Execution_Store.thy ===== *)
theory Execution_Store
  imports Execution_State Plan_Lineage
begin

text \<open>
  The transactional ledger of executions and actions (\<open>orchestration/execution_store.py\<close>), with
  the merge receipt it settles (\<open>merge_controller.py\<close>) and \<open>flow_execution.flow_is_paused\<close>.
  Row locks have no effect on a sequence of transactions and are not represented; a lost
  insert race is an argument: the rows another process committed in between.
\<close>

section \<open>Projections of stored rows\<close>

definition observed_status :: "observed_outcome \<Rightarrow> action_status" where
  "observed_status ob = (case ob of ObSUCCEEDED \<Rightarrow> SUCCEEDED | ObFAILED \<Rightarrow> AcFAILED | INDETERMINATE \<Rightarrow> UNKNOWN)"

definition no_next_check :: "execution_status list" where
  "no_next_check = [CONCLUDED, StSUPERSEDED]"

definition encode_gates :: "string list \<Rightarrow> jtext option" where
  "encode_gates gs = (if gs \<noteq> [] then Some (dumped (JArr (map JStr gs))) else None)"

definition decode_gates :: "jtext option \<Rightarrow> string list" where
  "decode_gates raw =
     (case raw of None \<Rightarrow> []
      | Some t \<Rightarrow> if raw_text t = [] then []
          else (case decoded t of Some (JArr xs) \<Rightarrow> map py_str xs | _ \<Rightarrow> []))"

text \<open>\<open>_block_from_row\<close>; an unknown stored code is read as \<open>AUTHORITY_UNVERIFIABLE\<close>.\<close>

definition block_from_row :: "execution_row \<Rightarrow> pyexc + block_record option" where
  "block_from_row row =
     (if \<not> truthy (ex_block_code row) then Inr None
      else
        let code = (case parse_block_code (the (ex_block_code row)) of
                      Some c \<Rightarrow> c | None \<Rightarrow> AUTHORITY_UNVERIFIABLE) in
        case make_block code (Some (or_else (ex_block_owner row) ''unknown''))
               (Some (or_else (ex_block_required row) ''unspecified''))
               (decode_gates (ex_block_gates row)) (as_aware (ex_progressed row)) (ex_block_detail row) of
          Inl e \<Rightarrow> Inl e | Inr b \<Rightarrow> Inr (Some b))"

definition to_record :: "execution_row \<Rightarrow> pyexc + execution_record" where
  "to_record row =
     (case (parse_phase (ex_phase row), parse_status (ex_status row)) of
        (Some phase, Some status) \<Rightarrow>
          (case block_from_row row of Inl e \<Rightarrow> Inl e
           | Inr block \<Rightarrow> Inr
              \<lparr>er_id = ex_id row, er_org = ex_org row, er_flow = ex_flow row, er_node = ex_node row,
               er_cycle = ex_cycle row, er_phase = phase, er_status = status,
               er_revision = ex_revision row, er_plan_version = ex_plan_version row,
               er_claim = ex_claim row, er_generation = ex_generation row,
               er_attempts = ex_attempts row, er_next_check = as_aware (ex_next_check row),
               er_deadline = as_aware (ex_deadline row), er_progressed = as_aware (ex_progressed row),
               er_note = ex_note row, er_block = block, er_pending_key = ex_pending_key row,
               er_notification = ex_notification row, er_handoff = ex_handoff row,
               er_created = as_aware (ex_created row)\<rparr>)
      | _ \<Rightarrow> Inl (ExecutionStoreError ''unknown_vocabulary''))"

definition to_action_record :: "action_row \<Rightarrow> pyexc + action_record" where
  "to_action_record row =
     (case parse_action_status (ac_status row) of
        None \<Rightarrow> Inl (ExecutionStoreError ''unknown_vocabulary'')
      | Some status \<Rightarrow> Inr
          \<lparr>ar_id = ac_id row, ar_org = ac_org row, ar_execution = ac_execution row, ar_key = ac_key row,
           ar_kind = ac_kind row, ar_status = status, ar_attempt = ac_attempt row,
           ar_artifact = ac_artifact row, ar_receipt = ac_receipt row,
           ar_detail = (case ac_detail row of None \<Rightarrow> [] | Some fs \<Rightarrow> fs),
           ar_created = as_aware (ac_created row), ar_observed = as_aware (ac_observed row)\<rparr>)"

text \<open>\<open>ExecutionOutcome(kind, record=_to_record(row), action=..., reason=...)\<close>.\<close>

definition outcome_of ::
    "outcome_kind \<Rightarrow> execution_row \<Rightarrow> action_row option \<Rightarrow> string option \<Rightarrow> pyexc + execution_outcome" where
  "outcome_of kind row action reason =
     (case to_record row of Inl e \<Rightarrow> Inl e
      | Inr rec \<Rightarrow>
          (case action of
             None \<Rightarrow> Inr \<lparr>oc_kind = kind, oc_record = Some rec, oc_action = None, oc_reason = reason\<rparr>
           | Some a \<Rightarrow> (case to_action_record a of Inl e \<Rightarrow> Inl e
               | Inr arec \<Rightarrow>
                   Inr \<lparr>oc_kind = kind, oc_record = Some rec, oc_action = Some arec, oc_reason = reason\<rparr>)))"

section \<open>Authority\<close>

definition binding_conflict :: "execution_row \<Rightarrow> execution_identity \<Rightarrow> string option" where
  "binding_conflict row i =
     (if ex_org row \<noteq> id_org i then Some ''tenant_mismatch''
      else if ex_claim row \<noteq> id_claim i then Some ''claim_mismatch''
      else if id_generation i < ex_generation row then Some ''claim_generation_superseded''
      else if ex_plan_version row \<noteq> id_plan_version i then Some ''accepted_plan_version_mismatch''
      else None)"

definition resolve_flow_id :: "db \<Rightarrow> execution_identity \<Rightarrow> string option \<Rightarrow> string option" where
  "resolve_flow_id d i expected =
     map_option nd_flow (find (\<lambda>n. nd_org n = id_org i \<and> nd_id n = id_node i
        \<and> (case expected of None \<Rightarrow> True | Some f \<Rightarrow> nd_flow n = f)) (nodes d))"

definition flow_for :: "db \<Rightarrow> string \<Rightarrow> string \<Rightarrow> flow_row option" where
  "flow_for d org fid = find (\<lambda>f. fl_org f = org \<and> fl_id f = fid) (flows d)"

text \<open>A claim released after the run that is settled was its last owner.\<close>

definition released_failure :: "claim_row \<Rightarrow> string option \<Rightarrow> bool" where
  "released_failure c run \<longleftrightarrow>
     run \<noteq> None \<and> cl_state c = ''released''
     \<and> cl_release_reason c \<in> {Some ''failed'', Some ''abandoned'', Some ''completed''}
     \<and> cl_run c = None \<and> cl_event c = run"

definition current_plans :: "db \<Rightarrow> string \<Rightarrow> string \<Rightarrow> plan_row list" where
  "current_plans d org fid =
     filter (\<lambda>p. pl_org p = org \<and> pl_flow p = fid \<and> pl_superseded p = None) (plans d)"

text \<open>The part of the check that is about the claim.\<close>

definition claim_refusal ::
    "claim_row \<Rightarrow> execution_identity \<Rightarrow> string option \<Rightarrow> bool \<Rightarrow> string option" where
  "claim_refusal c i run closing =
     (if closing then None
      else if cl_state c \<noteq> ''held'' \<and> \<not> released_failure c run then Some ''claim_not_held''
      else if run \<noteq> None \<and> \<not> released_failure c run \<and> cl_run c \<noteq> run then Some ''claim_run_mismatch''
      else if cl_generation c \<noteq> id_generation i
        then Some (if cl_generation c > id_generation i then ''claim_generation_superseded''
                   else ''claim_generation_mismatch'')
      else None)"

text \<open>The part of the check that is about the accepted plan.\<close>

definition plan_refusal ::
    "digest \<Rightarrow> db \<Rightarrow> execution_identity \<Rightarrow> string \<Rightarrow> bool \<Rightarrow> string option" where
  "plan_refusal dg d i fid closing =
     (let ps = current_plans d (id_org i) fid in
      if length ps > 1 then Some ''accepted_plan_ambiguous''
      else
        let version = (case ps of [] \<Rightarrow> 0 | p # _ \<Rightarrow> pl_version p) in
        if version = id_plan_version i then None
        else if (case ps of [] \<Rightarrow> True
                 | p # _ \<Rightarrow> ancestor_plan dg d p (id_plan_version i) (Some (id_node i)) = None)
        then (if closing then None else Some ''accepted_plan_version_mismatch'')
        else None)"

definition live_authority_conflict ::
    "digest \<Rightarrow> db \<Rightarrow> execution_identity \<Rightarrow> string \<Rightarrow> string option \<Rightarrow> bool \<Rightarrow> bool \<Rightarrow> string option" where
  "live_authority_conflict dg d i fid run require_unarchived closing =
     (case flow_for d (id_org i) fid of
        None \<Rightarrow> Some ''tenant_binding_mismatch''
      | Some fl \<Rightarrow>
          if require_unarchived \<and> fl_archived fl \<noteq> None then Some ''flow_archived''
          else (case get_claim d (id_org i) (id_claim i) of
             None \<Rightarrow> Some ''claim_mismatch''
           | Some c \<Rightarrow>
               if cl_owner_kind c \<noteq> ''engine_flow'' \<or> cl_owner_ref c \<noteq> fid then Some ''claim_owner_mismatch''
               else (case claim_refusal c i run closing of
                  Some reason \<Rightarrow> Some reason
                | None \<Rightarrow> plan_refusal dg d i fid closing)))"

definition execution_for :: "db \<Rightarrow> execution_identity \<Rightarrow> execution_row option" where
  "execution_for d i =
     find (\<lambda>r. ex_org r = id_org i \<and> ex_node r = id_node i \<and> ex_cycle r = id_cycle i) (executions d)"

definition withheld :: "string \<Rightarrow> bool" where
  "withheld reason \<longleftrightarrow> reason \<in> {''tenant_mismatch'', ''claim_mismatch'', ''claim_owner_mismatch''}"

definition unbound_conflict :: "string \<Rightarrow> execution_outcome" where
  "unbound_conflict reason = \<lparr>oc_kind = CONFLICT, oc_record = None, oc_action = None, oc_reason = Some reason\<rparr>"

definition conflict :: "execution_row \<Rightarrow> string \<Rightarrow> pyexc + execution_outcome" where
  "conflict row reason =
     (if withheld reason then Inr (unbound_conflict reason) else outcome_of CONFLICT row None (Some reason))"

definition live_refusal :: "db \<Rightarrow> execution_identity \<Rightarrow> string \<Rightarrow> pyexc + execution_outcome" where
  "live_refusal d i reason =
     (case execution_for d i of
        None \<Rightarrow> Inr (unbound_conflict reason)
      | Some row \<Rightarrow>
          if ex_org row = id_org i \<and> ex_claim row = id_claim i then conflict row reason
          else Inr (unbound_conflict reason))"

definition adopt_generation :: "execution_row \<Rightarrow> execution_identity \<Rightarrow> execution_row" where
  "adopt_generation row i =
     (if id_generation i > ex_generation row then row\<lparr>ex_generation := id_generation i\<rparr> else row)"

definition action_for_key :: "db \<Rightarrow> execution_row \<Rightarrow> string \<Rightarrow> action_row option" where
  "action_for_key d row key =
     find (\<lambda>a. ac_org a = ex_org row \<and> ac_execution a = ex_id row \<and> ac_key a = key) (actions d)"

definition flow_is_paused :: "db \<Rightarrow> string \<Rightarrow> string \<Rightarrow> bool" where
  "flow_is_paused d org fid =
     (case flow_for d org fid of None \<Rightarrow> True | Some f \<Rightarrow> fl_paused f \<or> fl_archived f \<noteq> None)"

section \<open>Creating and loading\<close>

text \<open>The row a fresh execution starts as.\<close>

definition fresh_execution ::
    "pydt \<Rightarrow> string \<Rightarrow> execution_identity \<Rightarrow> string \<Rightarrow> execution_phase \<Rightarrow> pydt option \<Rightarrow> pydt option \<Rightarrow> execution_row" where
  "fresh_execution now new_id i flow_id phase next_check deadline =
     \<lparr>ex_id = new_id, ex_org = id_org i, ex_flow = flow_id, ex_node = id_node i, ex_cycle = id_cycle i,
      ex_phase = phase_value phase, ex_status = status_value RUNNABLE, ex_revision = 1,
      ex_plan_version = id_plan_version i, ex_claim = id_claim i, ex_generation = id_generation i,
      ex_attempts = 0, ex_next_check = Some (case next_check of Some t \<Rightarrow> t | None \<Rightarrow> now),
      ex_deadline = deadline, ex_progressed = Some now, ex_note = None, ex_block_code = None,
      ex_block_owner = None, ex_block_required = None, ex_block_gates = None, ex_block_detail = None,
      ex_pending_key = None, ex_notification = None, ex_handoff = None, ex_created = Some now\<rparr>"

text \<open>An execution that exists is handed over only to an identity it agrees with.\<close>

definition adopt_existing :: "execution_row \<Rightarrow> execution_identity \<Rightarrow> (db, execution_outcome) op" where
  "adopt_existing row i d =
     (case binding_conflict row i of
        Some reason \<Rightarrow> (conflict row reason, d)
      | None \<Rightarrow> let row' = adopt_generation row i in
          (outcome_of APPLIED row' None None, put_execution row' d))"

definition create_execution ::
    "digest \<Rightarrow> pydt \<Rightarrow> string \<Rightarrow> execution_row list option \<Rightarrow> execution_identity \<Rightarrow> string option
     \<Rightarrow> execution_phase \<Rightarrow> pydt option \<Rightarrow> pydt option \<Rightarrow> (db, execution_outcome) op" where
  "create_execution dg now new_id race i flow_id phase next_check deadline d =
     (if blank_opt flow_id then (Inl (ExecutionStoreError ''invalid_execution''), d)
      else (case resolve_flow_id d i flow_id of
        None \<Rightarrow> (Inr (unbound_conflict ''tenant_binding_mismatch''), d)
      | Some fid \<Rightarrow>
         (case live_authority_conflict dg d i fid None True False of
            Some reason \<Rightarrow> (live_refusal d i reason, d)
          | None \<Rightarrow>
             (case execution_for d i of
                Some row \<Rightarrow> adopt_existing row i d
              | None \<Rightarrow>
                 (case race of
                    None \<Rightarrow>
                      let row = fresh_execution now new_id i (the flow_id) phase next_check deadline in
                      (outcome_of APPLIED row None None, d\<lparr>executions := executions d @ [row]\<rparr>)
                  | Some committed \<Rightarrow>
                      let d' = d\<lparr>executions := executions d @ committed\<rparr> in
                      (case execution_for d' i of
                         None \<Rightarrow> (Inl (ExecutionStoreError ''create_race_lost''), d')
                       | Some winner \<Rightarrow> adopt_existing winner i d'))))))"

definition load_execution ::
    "digest \<Rightarrow> db \<Rightarrow> execution_identity \<Rightarrow> string option \<Rightarrow> bool \<Rightarrow> pyexc + execution_outcome option" where
  "load_execution dg d i run closing =
     (case resolve_flow_id d i None of
        None \<Rightarrow> Inr None
      | Some fid \<Rightarrow>
         (case live_authority_conflict dg d i fid run False closing of
            Some reason \<Rightarrow> map_sum id Some (live_refusal d i reason)
          | None \<Rightarrow>
             (case execution_for d i of
                None \<Rightarrow> Inr None
              | Some row \<Rightarrow>
                 (case binding_conflict row i of
                    Some reason \<Rightarrow> map_sum id Some (conflict row reason)
                  | None \<Rightarrow> map_sum id Some (outcome_of APPLIED row None None)))))"

section \<open>Preparing and observing actions\<close>

definition fresh_action :: "pydt \<Rightarrow> string \<Rightarrow> execution_identity \<Rightarrow> execution_row \<Rightarrow> action_intent \<Rightarrow> action_row" where
  "fresh_action now new_id i row intent =
     \<lparr>ac_id = new_id, ac_org = id_org i, ac_execution = ex_id row, ac_key = in_key intent,
      ac_kind = in_kind intent, ac_status = action_status_value PREPARED, ac_attempt = ex_attempts row,
      ac_artifact = in_artifact intent, ac_receipt = None,
      ac_detail = (if in_detail intent \<noteq> []
                   then Some (dict_of (map (map_prod id JStr) (in_detail intent))) else None),
      ac_created = Some now, ac_observed = None\<rparr>"

definition key_clash :: "action_row \<Rightarrow> action_intent \<Rightarrow> string" where
  "key_clash a intent = ''operation key '' @ in_key intent @ '' is already held by a '' @ ac_kind a
     @ '' action; refusing to reuse it for '' @ in_kind intent"

definition prepare_action ::
    "digest \<Rightarrow> pydt \<Rightarrow> string \<Rightarrow> action_row list option \<Rightarrow> execution_identity \<Rightarrow> action_intent
     \<Rightarrow> (db, execution_outcome) op" where
  "prepare_action dg now new_id race i intent d =
     (case resolve_flow_id d i None of
        None \<Rightarrow> (Inl (ExecutionStoreError ''unknown_execution''), d)
      | Some fid \<Rightarrow>
         (case live_authority_conflict dg d i fid None True False of
            Some reason \<Rightarrow> (live_refusal d i reason, d)
          | None \<Rightarrow>
             (case execution_for d i of
                None \<Rightarrow> (Inl (ExecutionStoreError ''unknown_execution''), d)
              | Some row0 \<Rightarrow>
                 (case binding_conflict row0 i of
                    Some reason \<Rightarrow> (conflict row0 reason, d)
                  | None \<Rightarrow>
                     let row = adopt_generation row0 i; d1 = put_execution row d in
                     (case action_for_key d1 row (in_key intent) of
                        Some a \<Rightarrow>
                          if ac_kind a \<noteq> in_kind intent then (conflict row (key_clash a intent), d1)
                          else (outcome_of APPLIED row (Some a) (Some ''action_already_prepared''), d1)
                      | None \<Rightarrow>
                         (case race of
                            None \<Rightarrow>
                              let a = fresh_action now new_id i row intent in
                              (outcome_of APPLIED row (Some a) None, d1\<lparr>actions := actions d1 @ [a]\<rparr>)
                          | Some committed \<Rightarrow>
                              let d2 = d1\<lparr>actions := actions d1 @ committed\<rparr> in
                              (case action_for_key d2 row (in_key intent) of
                                 None \<Rightarrow> (Inl (ExecutionStoreError ''action_race_lost''), d2)
                               | Some winner \<Rightarrow>
                                   (outcome_of APPLIED row (Some winner) (Some ''action_already_prepared''), d2))))))))"

text \<open>What an observation writes: receipt and detail only when the report has them.\<close>

definition observed_action :: "pydt \<Rightarrow> observation \<Rightarrow> action_row \<Rightarrow> action_row" where
  "observed_action now ob a =
     a\<lparr>ac_status := action_status_value (observed_status (ob_outcome ob)),
       ac_observed := Some now,
       ac_receipt := (if truthy (ob_receipt ob) then ob_receipt ob else ac_receipt a),
       ac_detail := (if truthy (ob_detail ob)
          then Some (dict_set ''observation'' (jopt (ob_detail ob))
                      (case ac_detail a of None \<Rightarrow> [] | Some fs \<Rightarrow> fs))
          else ac_detail a)\<rparr>"

definition settled :: "action_row \<Rightarrow> bool" where
  "settled a \<longleftrightarrow> ac_status a \<in> {action_status_value SUCCEEDED, action_status_value AcFAILED}"

definition same_observation :: "observation \<Rightarrow> action_row \<Rightarrow> bool" where
  "same_observation ob a \<longleftrightarrow>
     ac_status a = action_status_value (observed_status (ob_outcome ob))
     \<and> ac_receipt a = ob_receipt ob
     \<and> jget (case ac_detail a of None \<Rightarrow> [] | Some fs \<Rightarrow> fs) ''observation'' = jopt (ob_detail ob)"

definition record_observation ::
    "digest \<Rightarrow> pydt \<Rightarrow> execution_identity \<Rightarrow> observation \<Rightarrow> (db, execution_outcome) op" where
  "record_observation dg now i ob d =
     (case resolve_flow_id d i None of
        None \<Rightarrow> (Inl (ExecutionStoreError ''unknown_execution''), d)
      | Some fid \<Rightarrow>
         (case live_authority_conflict dg d i fid None False False of
            Some reason \<Rightarrow> (live_refusal d i reason, d)
          | None \<Rightarrow>
             (case execution_for d i of
                None \<Rightarrow> (Inl (ExecutionStoreError ''unknown_execution''), d)
              | Some row0 \<Rightarrow>
                 (case binding_conflict row0 i of
                    Some reason \<Rightarrow> (conflict row0 reason, d)
                  | None \<Rightarrow>
                     let row = adopt_generation row0 i; d1 = put_execution row d in
                     (case action_for_key d1 row (ob_key ob) of
                        None \<Rightarrow> (Inl (ExecutionStoreError ''unknown_action''), d1)
                      | Some a \<Rightarrow>
                          if settled a then
                            (if same_observation ob a
                             then (outcome_of APPLIED row (Some a) (Some ''observation_already_recorded''), d1)
                             else (outcome_of CONFLICT row (Some a) (Some ''action_already_settled''), d1))
                          else let a' = observed_action now ob a in
                            (outcome_of APPLIED row (Some a') None, put_action a' d1))))))"

section \<open>Advancing\<close>

text \<open>The arguments of \<open>advance_execution\<close> beside the identity and the advance.\<close>

record advance_args =
  aa_intent :: "action_intent option"
  aa_block :: "block_record option"
  aa_pending :: "string option"
  aa_notification :: "string option"
  aa_handoff :: "string option"
  aa_released_run :: "string option"
  aa_closing :: bool

text \<open>Released-failure authority permits a bare conclusion only.\<close>

definition settlement_shape :: "phase_advance \<Rightarrow> advance_args \<Rightarrow> bool" where
  "settlement_shape adv args \<longleftrightarrow>
     ad_phase adv = PhCONCLUDED \<and> ad_status adv = CONCLUDED \<and> \<not> ad_consume adv
     \<and> ad_next_check adv = None \<and> aa_intent args = None \<and> aa_block args = None
     \<and> aa_pending args = None \<and> aa_notification args = None \<and> aa_handoff args = None"

definition effective_status :: "phase_advance \<Rightarrow> advance_args \<Rightarrow> execution_status" where
  "effective_status adv args = (if aa_block args \<noteq> None then BLOCKED else ad_status adv)"

text \<open>Everything before the first write: an answer, or the row that may be written.\<close>

definition advance_check ::
    "digest \<Rightarrow> execution_identity \<Rightarrow> phase_advance \<Rightarrow> advance_args \<Rightarrow> db
     \<Rightarrow> (pyexc + execution_outcome) + execution_row" where
  "advance_check dg i adv args d =
     (if aa_released_run args \<noteq> None \<and> \<not> settlement_shape adv args
      then Inl (Inl (ExecutionStoreError ''invalid_failure_settlement''))
      else (case resolve_flow_id d i None of
        None \<Rightarrow> Inl (Inl (ExecutionStoreError ''unknown_execution''))
      | Some fid \<Rightarrow>
          if aa_closing args
             \<and> (ad_status adv \<noteq> CONCLUDED \<or> aa_intent args \<noteq> None \<or> aa_block args \<noteq> None)
          then Inl (Inl (ExecutionStoreError ''invalid_superseded_settlement''))
          else (case live_authority_conflict dg d i fid (aa_released_run args) False (aa_closing args) of
             Some reason \<Rightarrow> Inl (live_refusal d i reason)
           | None \<Rightarrow>
              (case execution_for d i of
                 None \<Rightarrow> Inl (Inl (ExecutionStoreError ''unknown_execution''))
               | Some row \<Rightarrow>
                  (case binding_conflict row i of
                     Some reason \<Rightarrow> Inl (conflict row reason)
                   | None \<Rightarrow>
                      if ex_revision row \<noteq> ad_revision adv
                      then Inl (outcome_of STALE row None (Some ''stale_revision''))
                      else if ad_consume adv \<and> flow_is_paused d (id_org i) fid
                      then Inl (outcome_of CONFLICT row None (Some ''flow_paused''))
                      else Inr row)))))"

text \<open>The transition receipt; its keys are in sorted order.\<close>

definition phase_changed :: "string \<Rightarrow> pydt \<Rightarrow> execution_row \<Rightarrow> phase_advance \<Rightarrow> execution_status \<Rightarrow> decision_row" where
  "phase_changed dec_id now row adv status =
     \<lparr>dc_id = dec_id, dc_org = ex_org row, dc_flow = ex_flow row, dc_node = Some (ex_node row),
      dc_kind = ''execution_phase_changed'', dc_actor_id = ''system:execution-store'',
      dc_actor_role = ''engine'', dc_actor_kind = ''service'',
      dc_reason = Some (dumped (JObj
        [(''claim_generation'', JInt (ex_generation row)), (''claim_id'', JStr (ex_claim row)),
         (''cycle'', JInt (ex_cycle row)), (''execution_id'', JStr (ex_id row)),
         (''from_phase'', JStr (ex_phase row)), (''from_status'', JStr (ex_status row)),
         (''previous_revision'', JInt (ex_revision row)), (''revision'', JInt (ex_revision row + 1)),
         (''to_phase'', JStr (phase_value (ad_phase adv))), (''to_status'', JStr (status_value status))])),
      dc_rejection = None, dc_from = None, dc_to = None, dc_created = now\<rparr>"

definition pending_after :: "execution_row \<Rightarrow> execution_status \<Rightarrow> advance_args \<Rightarrow> string option" where
  "pending_after row status args =
     (case aa_pending args of Some k \<Rightarrow> or_none (Some k)
      | None \<Rightarrow>
         (case (status, aa_intent args) of
            (AWAITING_EXTERNAL, Some intent) \<Rightarrow> Some (in_key intent)
          | (AWAITING_EXTERNAL, None) \<Rightarrow> ex_pending_key row
          | _ \<Rightarrow> None))"

text \<open>The row as the advance leaves it.\<close>

definition advanced_row ::
    "pydt \<Rightarrow> execution_row \<Rightarrow> phase_advance \<Rightarrow> advance_args \<Rightarrow> pydt option \<Rightarrow> execution_row" where
  "advanced_row now row adv args next_check =
     (let status = effective_status adv args;
          moved = row\<lparr>ex_phase := phase_value (ad_phase adv), ex_status := status_value status,
             ex_next_check := next_check, ex_revision := ex_revision row + 1,
             ex_attempts := (if ad_consume adv then ex_attempts row + 1 else ex_attempts row),
             ex_deadline := (if ad_deadline adv \<noteq> None then ad_deadline adv else ex_deadline row),
             ex_note := (if ad_note adv \<noteq> None then ad_note adv else ex_note row),
             ex_pending_key := pending_after row status args,
             ex_notification := (if aa_notification args \<noteq> None then or_none (aa_notification args)
                                 else ex_notification row),
             ex_handoff := (if aa_handoff args \<noteq> None then or_none (aa_handoff args)
                            else ex_handoff row)\<rparr> in
      (case aa_block args of
         None \<Rightarrow> moved\<lparr>ex_block_code := None, ex_block_owner := None, ex_block_required := None,
                   ex_block_gates := None, ex_block_detail := None, ex_progressed := Some now\<rparr>
       | Some b \<Rightarrow> moved\<lparr>ex_block_code := Some (block_code_value (bl_code b)),
                   ex_block_owner := Some (bl_owner b), ex_block_required := Some (bl_required b),
                   ex_block_gates := encode_gates (bl_gates b), ex_block_detail := bl_detail b\<rparr>))"

text \<open>The clock readings and row ids one call uses, and the insert race of its action.\<close>

record advance_env =
  av_now :: pydt
  av_decision_id :: string
  av_action_now :: pydt
  av_action_id :: string
  av_race :: "action_row list option"

definition written_advance ::
    "advance_env \<Rightarrow> execution_row \<Rightarrow> phase_advance \<Rightarrow> advance_args \<Rightarrow> pydt option \<Rightarrow> db \<Rightarrow> execution_row \<times> db" where
  "written_advance env row adv args next_check d =
     (let status = effective_status adv args;
          row' = advanced_row (av_now env) row adv args next_check;
          d1 = (if (ex_phase row, ex_status row) \<noteq> (phase_value (ad_phase adv), status_value status)
                then d\<lparr>decisions := decisions d
                        @ [phase_changed (av_decision_id env) (av_now env) row adv status]\<rparr>
                else d) in
      (row', put_execution row' d1))"

text \<open>After the flush: the projection, and the action in the same transaction.\<close>

definition finish_advance ::
    "digest \<Rightarrow> advance_env \<Rightarrow> execution_identity \<Rightarrow> advance_args \<Rightarrow> execution_row \<Rightarrow> (db, execution_outcome) op" where
  "finish_advance dg env i args row d =
     (let kind = (if aa_block args \<noteq> None then OkBLOCKED else APPLIED);
          reason = map_option (\<lambda>b. block_code_value (bl_code b)) (aa_block args) in
      (case to_record row of
         Inl e \<Rightarrow> (Inl e, d)
       | Inr rec \<Rightarrow>
          (case aa_intent args of
             None \<Rightarrow> (Inr \<lparr>oc_kind = kind, oc_record = Some rec, oc_action = None, oc_reason = reason\<rparr>, d)
           | Some intent \<Rightarrow>
              (case prepare_action dg (av_action_now env) (av_action_id env) (av_race env) i intent d of
                 (Inl e, d') \<Rightarrow> (Inl e, d')
               | (Inr prepared, d') \<Rightarrow>
                   if oc_kind prepared \<noteq> APPLIED
                   then (Inl (ExecutionStoreError ''action_not_prepared''), d')
                   else (Inr \<lparr>oc_kind = kind, oc_record = Some rec, oc_action = oc_action prepared,
                             oc_reason = reason\<rparr>, d')))))"

definition advance_execution ::
    "digest \<Rightarrow> advance_env \<Rightarrow> execution_identity \<Rightarrow> phase_advance \<Rightarrow> advance_args
     \<Rightarrow> (db, execution_outcome) op" where
  "advance_execution dg env i adv args d =
     (case advance_check dg i adv args d of
        Inl answer \<Rightarrow> (answer, d)
      | Inr row0 \<Rightarrow>
          let row = adopt_generation row0 i; d0 = put_execution row d;
              status = effective_status adv args in
          if status \<notin> set no_next_check \<and> ad_next_check adv = None
          then (Inl (ExecutionStoreError ''missing_next_check''), d0)
          else
            let next_check = (if status \<in> set no_next_check then None else ad_next_check adv);
                (row', d1) = written_advance env row adv args next_check d0 in
            finish_advance dg env i args row' d1)"

section \<open>Settling an observed merge\<close>

record merge_receipt =
  mr_org :: string
  mr_execution :: string
  mr_flow :: string
  mr_node :: string
  mr_cycle :: int
  mr_plan_version :: int
  mr_claim :: string
  mr_generation :: int
  mr_repo :: string
  mr_pr_number :: int
  mr_repo_id :: int
  mr_pr_node :: string
  mr_head_sha :: string
  mr_base_sha :: "string option"
  mr_merge_sha :: string
  mr_review_ref :: string
  mr_operation_key :: string
  mr_method :: string
  mr_verification :: string
  mr_eligibility_digest :: string
  mr_eligible_at :: pydt
  mr_merged_at :: pydt
  mr_observed_at :: pydt
  mr_adopted :: bool

definition sized :: "nat \<Rightarrow> nat \<Rightarrow> string \<Rightarrow> bool" where
  "sized lo hi s \<longleftrightarrow> lo \<le> length s \<and> length s \<le> hi"

definition lower_hex :: "string \<Rightarrow> bool" where
  "lower_hex s = list_all (\<lambda>c. c \<in> set ''0123456789abcdef'') s"

definition sha_text :: "string \<Rightarrow> bool" where
  "sha_text s \<longleftrightarrow> lower_hex s \<and> (length s = 40 \<or> length s = 64)"

text \<open>Evidence of the same whole second as the merge still precedes it.\<close>

definition evidence_precedes_merge :: "pydt \<Rightarrow> pydt \<Rightarrow> bool" where
  "evidence_precedes_merge observed merged \<longleftrightarrow>
     stamp observed \<le> stamp merged
     \<or> (stamp merged mod 1000000 = 0 \<and> stamp observed < stamp (plus_seconds merged 1))"

text \<open>The field constraints of \<open>MergeReceipt\<close> and its validator \<open>chronological\<close>.\<close>

definition receipt_fields_ok :: "merge_receipt \<Rightarrow> bool" where
  "receipt_fields_ok r \<longleftrightarrow>
     list_all (sized 1 255) [mr_org r, mr_execution r, mr_flow r, mr_node r, mr_claim r, mr_pr_node r,
       mr_operation_key r]
     \<and> 1 \<le> mr_cycle r \<and> 1 \<le> mr_plan_version r \<and> 1 \<le> mr_generation r
     \<and> sized 3 255 (mr_repo r) \<and> 0 < mr_pr_number r \<and> 0 < mr_repo_id r
     \<and> sha_text (mr_head_sha r) \<and> (case mr_base_sha r of None \<Rightarrow> True | Some b \<Rightarrow> sha_text b)
     \<and> sha_text (mr_merge_sha r) \<and> sized 1 512 (mr_review_ref r)
     \<and> mr_method r \<in> {''merge'', ''squash'', ''rebase'', ''queue'', ''external''}
     \<and> mr_verification r \<in> {''pre_merge_authorization'', ''post_merge_verification''}
     \<and> lower_hex (mr_eligibility_digest r) \<and> length (mr_eligibility_digest r) = 64"

definition chronological :: "merge_receipt \<Rightarrow> bool" where
  "chronological r \<longleftrightarrow>
     tz_aware (mr_eligible_at r) \<and> tz_aware (mr_merged_at r) \<and> tz_aware (mr_observed_at r)
     \<and> (if mr_verification r = ''post_merge_verification''
        then mr_adopted r \<and> mr_method r = ''external'' \<and> mr_base_sha r = None
          \<and> stamp (mr_merged_at r) \<le> stamp (mr_eligible_at r)
          \<and> stamp (mr_eligible_at r) \<le> stamp (mr_observed_at r)
        else mr_method r \<noteq> ''external'' \<and> mr_base_sha r \<noteq> None
          \<and> evidence_precedes_merge (mr_eligible_at r) (mr_merged_at r))
     \<and> stamp (mr_merged_at r) \<le> stamp (mr_observed_at r)"

definition receipt_names :: "merge_receipt \<Rightarrow> execution_identity \<Rightarrow> bool" where
  "receipt_names r i \<longleftrightarrow> mr_org r = id_org i \<and> mr_node r = id_node i \<and> mr_cycle r = id_cycle i
     \<and> mr_plan_version r = id_plan_version i \<and> mr_claim r = id_claim i
     \<and> mr_generation r = id_generation i"

definition merge_kind :: string where
  "merge_kind = ''merge_pull_request''"

definition released_merge_ok ::
    "execution_row \<Rightarrow> claim_row \<Rightarrow> execution_identity \<Rightarrow> merge_receipt \<Rightarrow> string \<Rightarrow> pydt option \<Rightarrow> bool" where
  "released_merge_ok row c i r reviewer released_at \<longleftrightarrow>
     (ex_phase row, ex_status row) \<in>
        {(phase_value MERGE_READY, status_value RUNNABLE),
         (phase_value AWAITING_REVIEW, status_value RUNNABLE),
         (phase_value AWAITING_REVIEW, status_value AWAITING_EXTERNAL)}
     \<and> ex_pending_key row = None \<and> ex_generation row = id_generation i
     \<and> ex_id row = mr_execution r \<and> ex_flow row = mr_flow r
     \<and> cl_state c = ''released'' \<and> cl_release_reason c = Some ''completed''
     \<and> cl_event c = Some reviewer \<and> cl_run c = None \<and> cl_released_at c = released_at
     \<and> released_at \<noteq> None"

definition merged_note :: string where
  "merged_note = ''Owner accepted verified existing merge after premature claim release.''"

definition settle_advance :: "int \<Rightarrow> phase_advance" where
  "settle_advance revision =
     \<lparr>ad_phase = PhCONCLUDED, ad_status = CONCLUDED, ad_revision = revision, ad_next_check = None,
      ad_consume = False, ad_deadline = None, ad_note = Some merged_note\<rparr>"

definition no_args :: advance_args where
  "no_args = \<lparr>aa_intent = None, aa_block = None, aa_pending = None, aa_notification = None,
     aa_handoff = None, aa_released_run = None, aa_closing = False\<rparr>"

definition merge_action :: "advance_env \<Rightarrow> execution_identity \<Rightarrow> execution_row \<Rightarrow> merge_receipt \<Rightarrow> json \<Rightarrow> action_row" where
  "merge_action env i row r verification =
     \<lparr>ac_id = av_action_id env, ac_org = id_org i, ac_execution = ex_id row, ac_key = mr_operation_key r,
      ac_kind = merge_kind, ac_status = action_status_value SUCCEEDED, ac_attempt = ex_attempts row,
      ac_artifact = None, ac_receipt = Some (''github/verified-merge/'' @ mr_merge_sha r),
      ac_detail = Some [(''post_merge_verification'', verification),
                        (''merge_mutation_performed'', JBool False)],
      ac_created = Some (av_action_now env), ac_observed = Some (mr_observed_at r)\<rparr>"

text \<open>
  \<open>vdg\<close> is the SHA-256 of the canonical dump of the verification document. A revision below 1
  is refused when the advance is constructed, and a second action under the receipt's operation
  key by the unique index when it is flushed.
\<close>

definition settle_released_merge ::
    "digest \<Rightarrow> digest \<Rightarrow> advance_env \<Rightarrow> execution_identity \<Rightarrow> int \<Rightarrow> string \<Rightarrow> pydt option
     \<Rightarrow> merge_receipt \<Rightarrow> fields \<Rightarrow> (db, execution_outcome) op" where
  "settle_released_merge dg vdg env i revision reviewer released_at r verification d =
     (if \<not> (receipt_fields_ok r \<and> chronological r) then (Inl ValueError, d)
      else if mr_verification r \<noteq> ''post_merge_verification'' \<or> \<not> receipt_names r i
        \<or> mr_eligibility_digest r \<noteq> vdg (JObj verification)
        \<or> jget verification ''review_state'' \<noteq> JStr ''approved''
      then (Inl (ExecutionStoreError ''invalid_merge_settlement''), d)
      else (case load_execution dg d i (Some reviewer) False of
         Inl e \<Rightarrow> (Inl e, d)
       | Inr None \<Rightarrow> (Inr (unbound_conflict ''unknown_execution''), d)
       | Inr (Some current) \<Rightarrow>
          if oc_kind current \<noteq> APPLIED then (Inr current, d)
          else (case (execution_for d i, find (\<lambda>c. cl_id c = id_claim i) (claims d)) of
             (Some row, Some c) \<Rightarrow>
               if \<not> released_merge_ok row c i r reviewer released_at
               then (conflict row ''released_merge_assignment_changed'', d)
               else if find (\<lambda>a. ac_org a = id_org i \<and> ac_execution a = ex_id row \<and> ac_kind a = merge_kind)
                         (actions d) \<noteq> None
               then (conflict row ''merge_action_requires_reconciliation'', d)
               else if revision < 1 then (Inl (ExecutionStoreError ''invalid_advance''), d)
               else (case advance_execution dg env i (settle_advance revision)
                         (no_args\<lparr>aa_released_run := Some reviewer\<rparr>) d of
                  (Inl e, d1) \<Rightarrow> (Inl e, d1)
                | (Inr advanced, d1) \<Rightarrow>
                    if oc_kind advanced \<noteq> APPLIED then (Inr advanced, d1)
                    else
                      let a = merge_action env i row r (JObj verification) in
                      if action_for_key d1 row (ac_key a) \<noteq> None then (Inl IntegrityError, d1)
                      else (case to_action_record a of
                         Inl e \<Rightarrow> (Inl e, d1\<lparr>actions := actions d1 @ [a]\<rparr>)
                       | Inr arec \<Rightarrow>
                          (Inr \<lparr>oc_kind = APPLIED, oc_record = oc_record advanced, oc_action = Some arec,
                                oc_reason = None\<rparr>, d1\<lparr>actions := actions d1 @ [a]\<rparr>)))
           | _ \<Rightarrow> (Inl AttributeError, d))))"

section \<open>Retiring a replaced admission\<close>

text \<open>
  The first entry of the receipt's evidence with this cycle, \<open>[]\<close> without one; None where the
  scan reaches something that has no \<open>get\<close>.
\<close>

fun find_cycle :: "int \<Rightarrow> json list \<Rightarrow> fields option" where
  "find_cycle c [] = Some []"
| "find_cycle c (x # xs) =
     (case jfields x of None \<Rightarrow> None
      | Some fs \<Rightarrow> if jeq (jget fs ''cycle'') (JInt c) then Some fs else find_cycle c xs)"

text \<open>The human settlement receipt: the evidence entry it accepts, None where it refuses.\<close>

definition settlement_evidence ::
    "db \<Rightarrow> execution_identity \<Rightarrow> string \<Rightarrow> int \<Rightarrow> string \<Rightarrow> int \<Rightarrow> string \<Rightarrow> fields option" where
  "settlement_evidence d i flow_id revision successor_id successor_cycle decision_id =
     (case get_decision d decision_id of None \<Rightarrow> None
      | Some dec \<Rightarrow>
         (case Option.bind (Option.bind (dc_reason dec) decoded) jfields of None \<Rightarrow> None
          | Some data \<Rightarrow>
             (case (case map_of data ''retired_admission_evidence'' of
                      None \<Rightarrow> Some [] | Some j \<Rightarrow> iter_json j) of None \<Rightarrow> None
              | Some items \<Rightarrow>
                 (case find_cycle (id_cycle i) items of None \<Rightarrow> None
                  | Some old \<Rightarrow>
                     (case get_node d (id_node i) of None \<Rightarrow> None
                      | Some nd \<Rightarrow>
                         if dc_kind dec \<noteq> ''failed_review_settled'' \<or> dc_actor_kind dec \<noteq> ''human''
                            \<or> dc_org dec \<noteq> id_org i \<or> dc_node dec \<noteq> Some (id_node i)
                            \<or> dc_flow dec \<noteq> flow_id \<or> nd_state nd \<noteq> ''failed''
                            \<or> nd_attempts nd \<noteq> successor_cycle
                            \<or> jget data ''execution_id'' \<noteq> JStr successor_id
                            \<or> \<not> jeq (jget old ''revision'') (JInt revision)
                            \<or> jget old ''claim_id'' \<noteq> JStr (id_claim i)
                            \<or> \<not> jeq (jget old ''claim_generation'') (JInt (id_generation i))
                            \<or> \<not> jeq (jget old ''accepted_plan_version'') (JInt (id_plan_version i))
                            \<or> \<not> jtruthy (jget old ''terminal_digest'')
                         then None else Some old)))))"

definition replaced_claim_ok :: "claim_row \<Rightarrow> execution_identity \<Rightarrow> string \<Rightarrow> int \<Rightarrow> bool \<Rightarrow> bool" where
  "replaced_claim_ok c i flow_id issue by_receipt \<longleftrightarrow>
     cl_owner_kind c = ''engine_flow'' \<and> cl_owner_ref c = flow_id \<and> cl_state c = ''released''
     \<and> cl_release_reason c = Some (if by_receipt then ''failed'' else ''completed'')
     \<and> cl_run c = None \<and> id_generation i < cl_generation c \<and> issue = cl_issue c"

definition successor_ok :: "execution_row \<Rightarrow> claim_row \<Rightarrow> int \<Rightarrow> bool" where
  "successor_ok s c revision \<longleftrightarrow>
     ex_revision s = revision \<and> ex_status s = ''concluded'' \<and> ex_phase s = ''concluded''
     \<and> ex_pending_key s = None \<and> ex_claim s = cl_id c \<and> ex_generation s = cl_generation c"

definition bare_admission :: "execution_row \<Rightarrow> execution_identity \<Rightarrow> int \<Rightarrow> bool" where
  "bare_admission row i revision \<longleftrightarrow>
     binding_conflict row i = None \<and> ex_generation row = id_generation i \<and> ex_revision row = revision
     \<and> ex_phase row = ''admitted'' \<and> ex_status row \<in> {''runnable'', ''awaiting_external''}
     \<and> ex_attempts row = 0 \<and> ex_pending_key row = None \<and> ex_handoff row = None
     \<and> ex_notification row = None"

definition retired_row :: "pydt \<Rightarrow> execution_row \<Rightarrow> execution_row \<Rightarrow> execution_row" where
  "retired_row now row successor =
     row\<lparr>ex_status := status_value StSUPERSEDED, ex_phase := phase_value PhCONCLUDED,
         ex_next_check := None, ex_revision := ex_revision row + 1, ex_progressed := Some now,
         ex_note := Some (''Exited admission replaced by settled execution '' @ ex_id successor
           @ ''; historical authority and attempts retained.'')\<rparr>"

text \<open>\<open>contended\<close>: another transaction holds the flow row, which \<open>skip_locked\<close> passes over.\<close>

definition supersede_replaced_admission ::
    "pydt \<Rightarrow> bool \<Rightarrow> execution_identity \<Rightarrow> int \<Rightarrow> string \<Rightarrow> int \<Rightarrow> int \<Rightarrow> int \<Rightarrow> string option
     \<Rightarrow> db \<Rightarrow> bool \<times> db" where
  "supersede_replaced_admission now contended i revision successor_id successor_revision
       successor_cycle issue decision_id d =
     (case resolve_flow_id d i None of None \<Rightarrow> (False, d)
      | Some fid \<Rightarrow>
        if contended \<or> find (\<lambda>f. fl_org f = id_org i \<and> fl_id f = fid \<and> fl_archived f = None) (flows d) = None
           \<or> successor_cycle \<le> id_cycle i
        then (False, d)
        else
         let by_receipt = truthy decision_id;
             evidence = (if by_receipt
               then settlement_evidence d i fid revision successor_id successor_cycle (the decision_id)
               else Some []) in
         (case (evidence, get_claim d (id_org i) (id_claim i)) of
            (Some old, Some c) \<Rightarrow>
              if \<not> replaced_claim_ok c i fid issue by_receipt then (False, d)
              else
               (case (find (\<lambda>s. ex_org s = id_org i \<and> ex_flow s = fid \<and> ex_node s = id_node i
                        \<and> ex_id s = successor_id \<and> ex_cycle s = successor_cycle) (executions d),
                      execution_for d i) of
                  (Some s, Some row) \<Rightarrow>
                    if \<not> successor_ok s c successor_revision \<or> \<not> bare_admission row i revision
                       \<or> (by_receipt \<and> jget old ''execution_id'' \<noteq> JStr (ex_id row))
                       \<or> find (\<lambda>a. ac_org a = id_org i \<and> ac_execution a = ex_id row) (actions d) \<noteq> None
                    then (False, d)
                    else (True, put_execution (retired_row now row s) d)
                | _ \<Rightarrow> (False, d))
          | _ \<Rightarrow> (False, d)))"

end
