(* ===== verification/Ledger.thy ===== *)
theory Ledger
  imports Execution_Store
begin

text \<open>
  What the operations of \<open>Execution_Store\<close> guarantee, alone and along any run of them
  interleaved with arbitrary changes of the other tables. Every operation is a sequence of
  primitive writes (\<open>ledger_write\<close>), each of which only moves an execution forward and never
  touches a settled action; the invariants and the monotone counters follow from that once.
\<close>

section \<open>How rows evolve\<close>

text \<open>
  An execution keeps its identity; its generation and attempts never fall; and without a new
  revision nothing but the generation moves.
\<close>

definition ex_fixed ::
    "execution_row \<Rightarrow> (string \<times> string \<times> string) \<times> (string \<times> int \<times> int) \<times> string \<times> pydt option" where
  "ex_fixed r = ((ex_id r, ex_org r, ex_flow r), (ex_node r, ex_cycle r, ex_plan_version r),
     ex_claim r, ex_created r)"

definition row_evolves :: "execution_row \<Rightarrow> execution_row \<Rightarrow> bool" where
  "row_evolves r s \<longleftrightarrow>
     ex_fixed s = ex_fixed r \<and> ex_generation r \<le> ex_generation s \<and> ex_attempts r \<le> ex_attempts s
     \<and> ex_revision r \<le> ex_revision s
     \<and> (ex_revision r < ex_revision s \<or> (\<exists>g. s = r\<lparr>ex_generation := g\<rparr>))"

definition action_evolves :: "action_row \<Rightarrow> action_row \<Rightarrow> bool" where
  "action_evolves a b \<longleftrightarrow>
     ac_id b = ac_id a \<and> ac_org b = ac_org a \<and> ac_execution b = ac_execution a \<and> ac_key b = ac_key a
     \<and> ac_kind b = ac_kind a \<and> ac_attempt b = ac_attempt a \<and> ac_artifact b = ac_artifact a
     \<and> ac_created b = ac_created a \<and> (settled a \<longrightarrow> b = a)"

lemma row_evolves_refl [simp]: "row_evolves r r"
proof -
  have "r = r\<lparr>ex_generation := ex_generation r\<rparr>" by simp
  then show ?thesis unfolding row_evolves_def by blast
qed

lemma row_evolves_trans:
  assumes "row_evolves r s" "row_evolves s t"
  shows "row_evolves r t"
proof -
  have "ex_revision r < ex_revision t \<or> (\<exists>g. t = r\<lparr>ex_generation := g\<rparr>)"
  proof (cases "ex_revision r < ex_revision s \<or> ex_revision s < ex_revision t")
    case True
    with assms show ?thesis unfolding row_evolves_def by linarith
  next
    case False
    with assms obtain g h where "s = r\<lparr>ex_generation := g\<rparr>" "t = s\<lparr>ex_generation := h\<rparr>"
      unfolding row_evolves_def by blast
    then have "t = r\<lparr>ex_generation := h\<rparr>" by simp
    then show ?thesis by blast
  qed
  moreover have "ex_fixed t = ex_fixed r" "ex_generation r \<le> ex_generation t"
      "ex_attempts r \<le> ex_attempts t" "ex_revision r \<le> ex_revision t"
    using assms unfolding row_evolves_def by (metis, linarith+)
  ultimately show ?thesis unfolding row_evolves_def by blast
qed

lemma row_evolvesI:
  assumes "ex_fixed s = ex_fixed r" "ex_generation r \<le> ex_generation s"
    "ex_attempts r \<le> ex_attempts s" "ex_revision r < ex_revision s"
  shows "row_evolves r s"
  unfolding row_evolves_def using assms by (intro conjI disjI1) simp_all

lemma row_evolvesD:
  assumes "row_evolves r s"
  shows "ex_id s = ex_id r" "ex_org s = ex_org r" "ex_flow s = ex_flow r" "ex_node s = ex_node r"
    "ex_cycle s = ex_cycle r" "ex_plan_version s = ex_plan_version r" "ex_claim s = ex_claim r"
    "execution_key s = execution_key r"
  using assms by (simp_all add: row_evolves_def ex_fixed_def execution_key_def)

lemma action_evolves_refl [simp]: "action_evolves a a"
  by (simp add: action_evolves_def)

lemma action_evolves_trans: "action_evolves a b \<Longrightarrow> action_evolves b c \<Longrightarrow> action_evolves a c"
  by (auto simp: action_evolves_def)

lemma adopt_evolves [simp]: "row_evolves r (adopt_generation r i)"
proof (cases "id_generation i > ex_generation r")
  case True
  then show ?thesis unfolding adopt_generation_def row_evolves_def by (simp add: ex_fixed_def) blast
next
  case False
  then show ?thesis by (simp add: adopt_generation_def)
qed

lemma observed_evolves: "\<not> settled a \<Longrightarrow> action_evolves a (observed_action now ob a)"
  by (simp add: action_evolves_def observed_action_def)

lemma advanced_evolves: "row_evolves r (advanced_row now r adv args nc)"
  by (cases "aa_block args"; rule row_evolvesI) (simp_all add: advanced_row_def ex_fixed_def Let_def)

lemma retired_evolves: "row_evolves r (retired_row now r s)"
  by (rule row_evolvesI) (simp_all add: retired_row_def ex_fixed_def)

section \<open>Well-formed rows\<close>

text \<open>
  A stored execution is readable, is due for a check exactly when it is not terminal, and carries
  a block only while its status says so, with an owner and a required input.
\<close>

definition block_columns_ok :: "execution_row \<Rightarrow> bool" where
  "block_columns_ok r \<longleftrightarrow>
     (case ex_block_code r of None \<Rightarrow> True
      | Some code \<Rightarrow> ex_status r = status_value BLOCKED \<and> parse_block_code code \<noteq> None
          \<and> \<not> blank_opt (ex_block_owner r) \<and> \<not> blank_opt (ex_block_required r))"

definition row_ok :: "execution_row \<Rightarrow> bool" where
  "row_ok r \<longleftrightarrow>
     parse_phase (ex_phase r) \<noteq> None \<and> parse_status (ex_status r) \<noteq> None
     \<and> 1 \<le> ex_revision r \<and> 1 \<le> ex_generation r \<and> 0 \<le> ex_attempts r
     \<and> (ex_next_check r = None \<longleftrightarrow> ex_status r \<in> status_value ` set no_next_check)
     \<and> block_columns_ok r"

definition action_ok :: "action_row \<Rightarrow> bool" where
  "action_ok a \<longleftrightarrow> parse_action_status (ac_status a) \<noteq> None"

definition ledger_ok :: "db \<Rightarrow> bool" where
  "ledger_ok d \<longleftrightarrow> ledger_keys d \<and> (\<forall>r \<in> set (executions d). row_ok r)
     \<and> (\<forall>a \<in> set (actions d). action_ok a)"

definition id_ok :: "execution_identity \<Rightarrow> bool" where
  "id_ok i \<longleftrightarrow> \<not> blank (id_org i) \<and> \<not> blank (id_node i) \<and> \<not> blank (id_claim i)
     \<and> 1 \<le> id_cycle i \<and> 0 \<le> id_plan_version i \<and> 1 \<le> id_generation i"

definition block_ok :: "block_record \<Rightarrow> bool" where
  "block_ok b \<longleftrightarrow> \<not> blank (bl_owner b) \<and> \<not> blank (bl_required b)"

lemma adopt_ok [simp]: "row_ok r \<Longrightarrow> row_ok (adopt_generation r i)"
  by (auto simp: row_ok_def block_columns_ok_def adopt_generation_def split: option.splits)

lemma fresh_execution_ok: "id_ok i \<Longrightarrow> row_ok (fresh_execution now n i f ph nc dl)"
  by (simp add: row_ok_def block_columns_ok_def fresh_execution_def id_ok_def no_next_check_def
      del: status_value.simps phase_value.simps)

lemma fresh_action_ok: "action_ok (fresh_action now n i r intent)"
  by (simp add: action_ok_def fresh_action_def del: action_status_value.simps)

lemma observed_ok: "action_ok (observed_action now ob a)"
  by (simp add: action_ok_def observed_action_def)

lemma advanced_ok:
  assumes "row_ok r" "next_check = None \<longleftrightarrow> effective_status adv args \<in> set no_next_check"
    and "\<And>b. aa_block args = Some b \<Longrightarrow> block_ok b"
  shows "row_ok (advanced_row now r adv args next_check)"
  using assms
  by (cases "aa_block args")
    (auto simp: row_ok_def block_columns_ok_def advanced_row_def Let_def block_ok_def
      effective_status_def simp del: status_value.simps)

lemma retired_ok:
  assumes "row_ok r" "bare_admission r i n"
  shows "row_ok (retired_row now r s)"
proof -
  have "ex_status r \<noteq> status_value BLOCKED" using assms(2) by (auto simp: bare_admission_def)
  then have "ex_block_code r = None"
    using assms(1) by (auto simp: row_ok_def block_columns_ok_def simp del: status_value.simps split: option.splits)
  then show ?thesis
    using assms(1)
    by (simp add: row_ok_def block_columns_ok_def retired_row_def no_next_check_def
        del: status_value.simps phase_value.simps)
qed

section \<open>Primitive writes\<close>

inductive ledger_write :: "db \<Rightarrow> db \<Rightarrow> bool" where
  move_execution:
    "row \<in> set (executions d) \<Longrightarrow> row_evolves row row' \<Longrightarrow> (row_ok row \<longrightarrow> row_ok row')
     \<Longrightarrow> ledger_write d (put_execution row' d)"
| new_executions:
    "unique_on ex_id (executions d @ rs) \<Longrightarrow> unique_on execution_key (executions d @ rs)
     \<Longrightarrow> \<forall>r \<in> set rs. row_ok r \<Longrightarrow> ledger_write d (d\<lparr>executions := executions d @ rs\<rparr>)"
| move_action:
    "a \<in> set (actions d) \<Longrightarrow> action_evolves a b \<Longrightarrow> action_ok b \<Longrightarrow> ledger_write d (put_action b d)"
| new_actions:
    "unique_on ac_id (actions d @ xs) \<Longrightarrow> unique_on action_key (actions d @ xs)
     \<Longrightarrow> \<forall>a \<in> set xs. action_ok a \<Longrightarrow> ledger_write d (d\<lparr>actions := actions d @ xs\<rparr>)"
| new_decisions:
    "ledger_write d (d\<lparr>decisions := decisions d @ ds\<rparr>)"

inductive_cases ledger_writeE: "ledger_write d e"

definition ledger_grows :: "db \<Rightarrow> db \<Rightarrow> bool" where
  "ledger_grows d e \<longleftrightarrow>
     (\<forall>r \<in> set (executions d). \<exists>s \<in> set (executions e). row_evolves r s)
     \<and> (\<forall>a \<in> set (actions d). \<exists>b \<in> set (actions e). action_evolves a b)"

lemma ledger_grows_refl: "ledger_grows d d"
  unfolding ledger_grows_def using row_evolves_refl action_evolves_refl by blast

lemma ledger_grows_trans: "ledger_grows d e \<Longrightarrow> ledger_grows e f \<Longrightarrow> ledger_grows d f"
  unfolding ledger_grows_def by (meson row_evolves_trans action_evolves_trans)

lemma ledger_grows_same:
  "executions e = executions d \<Longrightarrow> actions e = actions d \<Longrightarrow> ledger_grows d e"
  unfolding ledger_grows_def using row_evolves_refl action_evolves_refl by metis

lemma move_execution_set:
  assumes "ledger_keys d" "row \<in> set (executions d)" "row_evolves row row'"
  shows "ledger_keys (put_execution row' d)"
    and "s \<in> set (executions (put_execution row' d)) \<Longrightarrow> s = row' \<or> s \<in> set (executions d)"
    and "r \<in> set (executions d) \<Longrightarrow> \<exists>s \<in> set (executions (put_execution row' d)). row_evolves r s"
proof -
  have id: "ex_id row' = ex_id row" and key: "execution_key row' = execution_key row"
    using row_evolvesD [OF assms(3)] by simp_all
  have "unique_on ex_id (executions (put_execution row' d))"
      "unique_on execution_key (executions (put_execution row' d))"
    using assms(1) unique_on_put [OF _ _ assms(2) id key]
    by (simp_all add: put_execution_def ledger_keys_def)
  then show "ledger_keys (put_execution row' d)"
    using assms(1) by (simp add: ledger_keys_def)
  show "s \<in> set (executions (put_execution row' d)) \<Longrightarrow> s = row' \<or> s \<in> set (executions d)"
    using mem_put [of s ex_id row' "executions d"] by (auto simp: put_execution_def)
  show "\<exists>s \<in> set (executions (put_execution row' d)). row_evolves r s" if r: "r \<in> set (executions d)"
  proof (cases "ex_id r = ex_id row'")
    case True
    then have "r = row"
      using unique_onD [of ex_id "executions d"] assms(1,2) r id by (auto simp: ledger_keys_def)
    with assms show ?thesis
      using mem_put_new [of row "executions d" ex_id row'] id by (auto simp: put_execution_def)
  next
    case False
    with r have "r \<in> set (executions (put_execution row' d))"
      using mem_putI [of r "executions d" ex_id row'] by (simp add: put_execution_def)
    then show ?thesis using row_evolves_refl by blast
  qed
qed

lemma move_action_set:
  assumes "ledger_keys d" "a \<in> set (actions d)" "action_evolves a b"
  shows "ledger_keys (put_action b d)"
    and "x \<in> set (actions (put_action b d)) \<Longrightarrow> x = b \<or> x \<in> set (actions d)"
    and "x \<in> set (actions d) \<Longrightarrow> \<exists>y \<in> set (actions (put_action b d)). action_evolves x y"
proof -
  have id: "ac_id b = ac_id a" and key: "action_key b = action_key a"
    using assms(3) by (simp_all add: action_evolves_def action_key_def)
  have "unique_on ac_id (actions (put_action b d))" "unique_on action_key (actions (put_action b d))"
    using assms(1) unique_on_put [OF _ _ assms(2) id key]
    by (simp_all add: put_action_def ledger_keys_def)
  then show "ledger_keys (put_action b d)"
    using assms(1) by (simp add: ledger_keys_def)
  show "x \<in> set (actions (put_action b d)) \<Longrightarrow> x = b \<or> x \<in> set (actions d)"
    using mem_put [of x ac_id b "actions d"] by (auto simp: put_action_def)
  show "\<exists>y \<in> set (actions (put_action b d)). action_evolves x y" if x: "x \<in> set (actions d)"
  proof (cases "ac_id x = ac_id b")
    case True
    then have "x = a"
      using unique_onD [of ac_id "actions d"] assms(1,2) x id by (auto simp: ledger_keys_def)
    with assms show ?thesis
      using mem_put_new [of a "actions d" ac_id b] id by (auto simp: put_action_def)
  next
    case False
    with x have "x \<in> set (actions (put_action b d))"
      using mem_putI [of x "actions d" ac_id b] by (simp add: put_action_def)
    then show ?thesis using action_evolves_refl by blast
  qed
qed

lemma write_ok:
  assumes "ledger_write d e" "ledger_ok d"
  shows "ledger_ok e \<and> ledger_grows d e"
  using assms(1)
proof (cases rule: ledger_write.cases)
  case (move_execution row row')
  have keys: "ledger_keys d" using assms(2) by (simp add: ledger_ok_def)
  note m = move_execution_set [OF keys move_execution(2,3)]
  have "row_ok row'" using move_execution(2,4) assms(2) by (simp add: ledger_ok_def)
  with m(1,2) assms(2) have "ledger_ok e"
    unfolding move_execution(1) ledger_ok_def by (metis put_execution_simps(8))
  moreover have "ledger_grows d e"
    unfolding move_execution(1) ledger_grows_def using m(3) action_evolves_refl by (metis put_execution_simps(8))
  ultimately show ?thesis ..
next
  case (new_executions rs)
  then show ?thesis
    using assms(2) row_evolves_refl action_evolves_refl
    unfolding ledger_ok_def ledger_grows_def ledger_keys_def by (simp, blast)
next
  case (move_action a b)
  have keys: "ledger_keys d" using assms(2) by (simp add: ledger_ok_def)
  note m = move_action_set [OF keys move_action(2,3)]
  have "ledger_ok e"
    using m(1,2) assms(2) move_action(4)
    unfolding move_action(1) ledger_ok_def by (metis put_action_simps(8))
  moreover have "ledger_grows d e"
    unfolding move_action(1) ledger_grows_def using m(3) row_evolves_refl by (metis put_action_simps(8))
  ultimately show ?thesis ..
next
  case (new_actions xs)
  then show ?thesis
    using assms(2) row_evolves_refl action_evolves_refl
    unfolding ledger_ok_def ledger_grows_def ledger_keys_def by (simp, blast)
next
  case (new_decisions ds)
  then show ?thesis
    using assms(2) by (simp add: ledger_ok_def ledger_keys_def ledger_grows_same)
qed

interpretation writes: growing ledger_write ledger_ok ledger_grows
  by unfold_locales (auto simp: write_ok ledger_grows_refl intro: ledger_grows_trans)

section \<open>Every operation is a sequence of primitive writes\<close>

text \<open>
  What the database and the callers contribute: generated ids are new, rows that another process
  committed respect the unique indexes, and typed inputs passed their constructors.
\<close>

definition execution_race_ok :: "db \<Rightarrow> string \<Rightarrow> execution_row list option \<Rightarrow> bool" where
  "execution_race_ok d new_id race =
     (case race of None \<Rightarrow> new_id \<notin> ex_id ` set (executions d)
      | Some rs \<Rightarrow> unique_on ex_id (executions d @ rs) \<and> unique_on execution_key (executions d @ rs)
          \<and> list_all row_ok rs)"

definition action_race_ok :: "db \<Rightarrow> string \<Rightarrow> action_row list option \<Rightarrow> bool" where
  "action_race_ok d new_id race =
     (case race of None \<Rightarrow> new_id \<notin> ac_id ` set (actions d)
      | Some xs \<Rightarrow> unique_on ac_id (actions d @ xs) \<and> unique_on action_key (actions d @ xs)
          \<and> list_all action_ok xs)"

definition args_ok :: "advance_args \<Rightarrow> bool" where
  "args_ok args = (case aa_block args of None \<Rightarrow> True | Some b \<Rightarrow> block_ok b)"

lemma execution_for_SomeD:
  "execution_for d i = Some row \<Longrightarrow> row \<in> set (executions d) \<and> ex_org row = id_org i
     \<and> ex_node row = id_node i \<and> ex_cycle row = id_cycle i"
  by (auto simp: execution_for_def dest!: find_SomeD)

lemma action_for_key_SomeD:
  "action_for_key d row k = Some a \<Longrightarrow> a \<in> set (actions d) \<and> ac_org a = ex_org row
     \<and> ac_execution a = ex_id row \<and> ac_key a = k"
  by (auto simp: action_for_key_def dest!: find_SomeD)

lemma action_for_key_None:
  assumes "action_for_key d row k = None" "a \<in> set (actions d)"
  shows "action_key a \<noteq> (ex_org row, ex_id row, k)"
  using assms by (auto simp: action_for_key_def find_None_iff' action_key_def)

lemma write1: "ledger_write d e \<Longrightarrow> ledger_write\<^sup>*\<^sup>* d e"
  by blast

lemma put_writes:
  assumes "row \<in> set (executions d)" "row_evolves row row'" "row_ok row \<longrightarrow> row_ok row'"
  shows "ledger_write\<^sup>*\<^sup>* d (put_execution row' d)"
  using assms by (intro write1 move_execution)

lemma adopt_writes:
  assumes "row \<in> set (executions d)"
  shows "ledger_write\<^sup>*\<^sup>* d (put_execution (adopt_generation row i) d)"
  using assms by (intro put_writes [of row]) auto

lemma adopt_existing_writes:
  assumes "row \<in> set (executions d)"
  shows "ledger_write\<^sup>*\<^sup>* d (snd (adopt_existing row i d))"
  using adopt_writes [OF assms]
  by (simp add: adopt_existing_def Let_def split: option.split)

lemma create_writes:
  assumes "ledger_ok d" "id_ok i" "execution_race_ok d new_id race"
  shows "ledger_write\<^sup>*\<^sup>* d (snd (create_execution dg now new_id race i flow_id phase nc dl d))"
proof (cases "execution_for d i")
  case (Some row)
  have "ledger_write\<^sup>*\<^sup>* d (snd (adopt_existing row i d))"
    using execution_for_SomeD [OF Some] by (blast intro: adopt_existing_writes)
  then show ?thesis by (simp add: create_execution_def Some split: option.split)
next
  case None
  let ?new = "fresh_execution now new_id i (the flow_id) phase nc dl"
  have fresh: "ledger_write\<^sup>*\<^sup>* d (d\<lparr>executions := executions d @ [?new]\<rparr>)" if "race = None"
  proof (intro write1 new_executions)
    show "unique_on ex_id (executions d @ [?new])"
      using assms that
      by (simp add: ledger_ok_def ledger_keys_def execution_race_ok_def fresh_execution_def)
    show "unique_on execution_key (executions d @ [?new])"
      using assms(1) None
      by (auto simp: ledger_ok_def ledger_keys_def execution_for_def find_None_iff' execution_key_def
          fresh_execution_def)
    show "\<forall>r \<in> set [?new]. row_ok r" using fresh_execution_ok [OF assms(2)] by simp
  qed
  have lost: "ledger_write\<^sup>*\<^sup>* d (d\<lparr>executions := executions d @ rs\<rparr>)" if "race = Some rs" for rs
    using assms(3) that
    by (intro write1 new_executions) (auto simp: execution_race_ok_def list_all_iff)
  have won: "ledger_write\<^sup>*\<^sup>* d (snd (adopt_existing w i (d\<lparr>executions := executions d @ rs\<rparr>)))"
    if "race = Some rs" "execution_for (d\<lparr>executions := executions d @ rs\<rparr>) i = Some w" for rs w
    using lost [OF that(1)] execution_for_SomeD [OF that(2)]
    by (blast intro: adopt_existing_writes rtranclp_trans)
  show ?thesis
    using fresh lost won by (simp add: create_execution_def None Let_def split: option.split)
qed

lemma prepare_writes:
  assumes "ledger_ok d" "action_race_ok d new_id race"
  shows "ledger_write\<^sup>*\<^sup>* d (snd (prepare_action dg now new_id race i intent d))"
proof (cases "execution_for d i")
  case None
  then show ?thesis by (simp add: prepare_action_def split: option.split)
next
  case (Some row0)
  let ?row = "adopt_generation row0 i"
  let ?d1 = "put_execution ?row d"
  have adopted: "ledger_write\<^sup>*\<^sup>* d ?d1" using execution_for_SomeD [OF Some] by (blast intro: adopt_writes)
  have org: "ex_org ?row = id_org i" and eid: "ex_id ?row = ex_id row0"
    using execution_for_SomeD [OF Some] by (simp_all add: adopt_generation_def)
  have fresh: "ledger_write ?d1 (?d1\<lparr>actions := actions d @ [fresh_action now new_id i ?row intent]\<rparr>)"
    if "race = None" "action_for_key ?d1 ?row (in_key intent) = None"
  proof -
    let ?a = "fresh_action now new_id i ?row intent"
    have "unique_on ac_id (actions ?d1 @ [?a])"
      using assms that(1)
      by (simp add: ledger_ok_def ledger_keys_def action_race_ok_def fresh_action_def)
    moreover have "action_key ?a = (ex_org ?row, ex_id ?row, in_key intent)"
      using org by (simp add: action_key_def fresh_action_def)
    then have "action_key ?a \<notin> action_key ` set (actions d)"
      using action_for_key_None [OF that(2)] by fastforce
    then have "unique_on action_key (actions ?d1 @ [?a])"
      using assms(1) by (simp add: ledger_ok_def ledger_keys_def)
    ultimately show ?thesis
      using new_actions [of ?d1 "[?a]"] fresh_action_ok by simp
  qed
  have lost: "ledger_write ?d1 (?d1\<lparr>actions := actions d @ xs\<rparr>)" if "race = Some xs" for xs
    using assms(2) that new_actions [of ?d1 xs] by (simp add: action_race_ok_def list_all_iff)
  show ?thesis
    using adopted fresh lost
    by (auto simp: prepare_action_def Some Let_def split: option.split
        intro: rtranclp.rtrancl_into_rtrancl)
qed

lemma observe_writes:
  "ledger_write\<^sup>*\<^sup>* d (snd (record_observation dg now i ob d))"
proof (cases "execution_for d i")
  case None
  then show ?thesis by (simp add: record_observation_def split: option.split)
next
  case (Some row0)
  let ?row = "adopt_generation row0 i"
  let ?d1 = "put_execution ?row d"
  have adopted: "ledger_write\<^sup>*\<^sup>* d ?d1" using execution_for_SomeD [OF Some] by (blast intro: adopt_writes)
  have "ledger_write ?d1 (put_action (observed_action now ob a) ?d1)"
    if "action_for_key ?d1 ?row (ob_key ob) = Some a" "\<not> settled a" for a
    using action_for_key_SomeD [OF that(1)] observed_evolves [OF that(2)] observed_ok
    by (blast intro: move_action)
  then show ?thesis
    using adopted
    by (auto simp: record_observation_def Some Let_def split: option.split
        intro: rtranclp.rtrancl_into_rtrancl)
qed

text \<open>The advance, split where the code flushes: the row and its receipt, then the action.\<close>

lemma advance_check_row:
  assumes "advance_check dg i adv args d = Inr row"
  shows "execution_for d i = Some row" "binding_conflict row i = None" "ex_revision row = ad_revision adv"
    "aa_released_run args \<noteq> None \<longrightarrow> settlement_shape adv args"
    "aa_closing args \<longrightarrow> ad_status adv = CONCLUDED \<and> aa_intent args = None \<and> aa_block args = None"
    "\<exists>fid. resolve_flow_id d i None = Some fid
       \<and> live_authority_conflict dg d i fid (aa_released_run args) False (aa_closing args) = None
       \<and> (ad_consume adv \<longrightarrow> \<not> flow_is_paused d (id_org i) fid)"
  using assms by (auto simp: advance_check_def split: if_splits option.splits)

lemma written_advance_writes:
  assumes "row \<in> set (executions d)" "args_ok args"
    and "next_check = None \<longleftrightarrow> effective_status adv args \<in> set no_next_check"
  shows "ledger_write\<^sup>*\<^sup>* d (snd (written_advance env row adv args next_check d))"
proof -
  let ?d1 = "\<lambda>ds. d\<lparr>decisions := decisions d @ ds\<rparr>"
  let ?row' = "advanced_row (av_now env) row adv args next_check"
  have "row_ok row \<longrightarrow> row_ok ?row'"
    using advanced_ok [OF _ assms(3)] assms(2) by (cases "aa_block args") (auto simp: args_ok_def)
  then have put: "ledger_write (?d1 ds) (put_execution ?row' (?d1 ds))" for ds
    using assms(1) by (intro move_execution) (auto simp: advanced_evolves)
  have noted: "ledger_write\<^sup>*\<^sup>* d (put_execution ?row' (?d1 ds))" for ds
    using put [of ds] new_decisions [of d ds] by (meson converse_rtranclp_into_rtranclp r_into_rtranclp)
  show ?thesis
    using noted noted [of "[]"] by (auto simp: written_advance_def Let_def)
qed

lemma put_execution_member:
  assumes "row \<in> set (executions d)" "ex_id row' = ex_id row"
  shows "row' \<in> set (executions (put_execution row' d))"
  using mem_put_new [of row "executions d" ex_id row'] assms by (simp add: put_execution_def)

lemma finish_no_intent [simp]: "aa_intent args = None \<Longrightarrow> snd (finish_advance dg env i args row d) = d"
  by (simp add: finish_advance_def Let_def split: sum.split)

lemma finish_writes:
  assumes "ledger_ok d" "aa_intent args \<noteq> None \<longrightarrow> action_race_ok d (av_action_id env) (av_race env)"
  shows "ledger_write\<^sup>*\<^sup>* d (snd (finish_advance dg env i args row d))"
proof (cases "aa_intent args")
  case None
  then show ?thesis by simp
next
  case (Some intent)
  have "ledger_write\<^sup>*\<^sup>* d e"
    if "prepare_action dg (av_action_now env) (av_action_id env) (av_race env) i intent d = (x, e)" for x e
    using prepare_writes [OF assms(1), of "av_action_id env" "av_race env" dg "av_action_now env" i intent]
      assms(2) Some that by simp
  then show ?thesis
    by (auto simp: finish_advance_def Let_def Some split: sum.split prod.split)
qed

text \<open>The three ways an advance ends: refused, left without a next check, or written.\<close>

definition next_check_of :: "phase_advance \<Rightarrow> advance_args \<Rightarrow> pydt option" where
  "next_check_of adv args = (if effective_status adv args \<in> set no_next_check then None else ad_next_check adv)"

definition schedulable :: "phase_advance \<Rightarrow> advance_args \<Rightarrow> bool" where
  "schedulable adv args \<longleftrightarrow> effective_status adv args \<in> set no_next_check \<or> ad_next_check adv \<noteq> None"

abbreviation advanced_db :: "advance_env \<Rightarrow> execution_identity \<Rightarrow> phase_advance \<Rightarrow> advance_args \<Rightarrow> execution_row \<Rightarrow> db \<Rightarrow> db" where
  "advanced_db env i adv args row d \<equiv>
     snd (written_advance env (adopt_generation row i) adv args (next_check_of adv args)
            (put_execution (adopt_generation row i) d))"

abbreviation advanced_to :: "advance_env \<Rightarrow> execution_identity \<Rightarrow> phase_advance \<Rightarrow> advance_args \<Rightarrow> execution_row \<Rightarrow> execution_row" where
  "advanced_to env i adv args row \<equiv>
     advanced_row (av_now env) (adopt_generation row i) adv args (next_check_of adv args)"

lemma advance_refused:
  "advance_check dg i adv args d = Inl answer \<Longrightarrow> advance_execution dg env i adv args d = (answer, d)"
  by (simp add: advance_execution_def)

lemma advance_unscheduled:
  "advance_check dg i adv args d = Inr row \<Longrightarrow> \<not> schedulable adv args
   \<Longrightarrow> advance_execution dg env i adv args d
     = (Inl (ExecutionStoreError ''missing_next_check''), put_execution (adopt_generation row i) d)"
  by (simp add: advance_execution_def schedulable_def Let_def)

lemma advance_written:
  assumes "advance_check dg i adv args d = Inr row" "schedulable adv args"
  shows "advance_execution dg env i adv args d
     = finish_advance dg env i args (advanced_to env i adv args row) (advanced_db env i adv args row d)"
proof -
  let ?adopted = "adopt_generation row i"
  obtain d1 where w: "written_advance env ?adopted adv args (next_check_of adv args) (put_execution ?adopted d)
      = (advanced_to env i adv args row, d1)"
    by (simp add: written_advance_def Let_def)
  have "\<not> (effective_status adv args \<notin> set no_next_check \<and> ad_next_check adv = None)"
    using assms(2) by (simp add: schedulable_def)
  then show ?thesis
    unfolding advance_execution_def assms(1) sum.case Let_def if_not_P
      next_check_of_def [symmetric] w prod.case
    using w by auto
qed

lemma written_advance_frame [simp]:
  "actions (snd (written_advance env row adv args nc d)) = actions d"
  "claims (snd (written_advance env row adv args nc d)) = claims d"
  "flows (snd (written_advance env row adv args nc d)) = flows d"
  "nodes (snd (written_advance env row adv args nc d)) = nodes d"
  "plans (snd (written_advance env row adv args nc d)) = plans d"
  by (simp_all add: written_advance_def Let_def)

lemma adopt_fixed [simp]:
  "ex_id (adopt_generation row i) = ex_id row" "ex_org (adopt_generation row i) = ex_org row"
  "ex_node (adopt_generation row i) = ex_node row" "ex_cycle (adopt_generation row i) = ex_cycle row"
  "ex_claim (adopt_generation row i) = ex_claim row"
  "ex_plan_version (adopt_generation row i) = ex_plan_version row"
  "ex_revision (adopt_generation row i) = ex_revision row"
  "ex_attempts (adopt_generation row i) = ex_attempts row"
  "ex_phase (adopt_generation row i) = ex_phase row" "ex_status (adopt_generation row i) = ex_status row"
  by (simp_all add: adopt_generation_def)

lemma advanced_db_writes:
  assumes "row \<in> set (executions d)" "args_ok args" "schedulable adv args"
  shows "ledger_write\<^sup>*\<^sup>* d (advanced_db env i adv args row d)"
proof -
  let ?d0 = "put_execution (adopt_generation row i) d"
  have "adopt_generation row i \<in> set (executions ?d0)"
    using assms(1) by (rule put_execution_member) simp
  then have "ledger_write\<^sup>*\<^sup>* ?d0 (advanced_db env i adv args row d)"
    using assms(2,3) by (intro written_advance_writes) (auto simp: next_check_of_def schedulable_def)
  with adopt_writes [OF assms(1)] show ?thesis by (rule rtranclp_trans)
qed

lemma advance_writes:
  assumes "ledger_ok d" "args_ok args"
    and race: "aa_intent args \<noteq> None \<longrightarrow> action_race_ok d (av_action_id env) (av_race env)"
  shows "ledger_write\<^sup>*\<^sup>* d (snd (advance_execution dg env i adv args d))"
proof (cases "advance_check dg i adv args d")
  case (Inl answer)
  then show ?thesis by (simp add: advance_refused)
next
  case (Inr row)
  then have row: "row \<in> set (executions d)" using advance_check_row(1) execution_for_SomeD by blast
  show ?thesis
  proof (cases "schedulable adv args")
    case False
    with Inr adopt_writes [OF row] show ?thesis by (simp add: advance_unscheduled)
  next
    case True
    let ?d1 = "advanced_db env i adv args row d"
    have written: "ledger_write\<^sup>*\<^sup>* d ?d1" using row assms(2) True by (rule advanced_db_writes)
    have "aa_intent args \<noteq> None \<longrightarrow> action_race_ok ?d1 (av_action_id env) (av_race env)"
      using race by (simp add: action_race_ok_def split: option.splits)
    with writes.run_inv [OF written assms(1)]
    have "ledger_write\<^sup>*\<^sup>* ?d1 (snd (finish_advance dg env i args (advanced_to env i adv args row) ?d1))"
      by (rule finish_writes)
    with written show ?thesis by (simp add: advance_written [OF Inr True])
  qed
qed

lemma settle_writes:
  assumes "ledger_ok d" "av_action_id env \<notin> ac_id ` set (actions d)"
  shows "ledger_write\<^sup>*\<^sup>* d (snd (settle_released_merge dg vdg env i er rv ra r v d))"
proof -
  let ?args = "no_args\<lparr>aa_released_run := Some rv\<rparr>"
  let ?adv = "advance_execution dg env i (settle_advance er) ?args d"
  have plain: "aa_intent ?args = None" "args_ok ?args" by (simp_all add: no_args_def args_ok_def)
  have advanced: "ledger_write\<^sup>*\<^sup>* d (snd ?adv)"
    using assms(1) plain by (intro advance_writes) auto
  have acts: "actions (snd ?adv) = actions d"
  proof (cases "advance_check dg i (settle_advance er) ?args d")
    case (Inl answer)
    then show ?thesis by (simp add: advance_refused)
  next
    case (Inr row)
    have "schedulable (settle_advance er) ?args"
      by (simp add: schedulable_def effective_status_def no_args_def settle_advance_def no_next_check_def)
    from advance_written [OF Inr this] plain show ?thesis by simp
  qed
  have settle: "ledger_write d1 (d1\<lparr>actions := actions d1 @ [merge_action env i row r v']\<rparr>)"
    if d1: "?adv = (x, d1)" and row: "execution_for d i = Some row"
      and free: "action_for_key d1 row (ac_key (merge_action env i row r v')) = None" for x d1 row v'
  proof (rule new_actions)
    let ?a = "merge_action env i row r v'"
    have ok: "ledger_ok d1" using writes.run_inv [OF advanced assms(1)] d1 by simp
    have "actions d1 = actions d" using acts d1 by simp
    then show "unique_on ac_id (actions d1 @ [?a])"
      using ok assms(2) by (simp add: ledger_ok_def ledger_keys_def merge_action_def)
    have "action_key ?a = (ex_org row, ex_id row, ac_key ?a)"
      using execution_for_SomeD [OF row] by (simp add: action_key_def merge_action_def)
    then have "action_key ?a \<notin> action_key ` set (actions d1)"
      using action_for_key_None [OF free] by fastforce
    then show "unique_on action_key (actions d1 @ [?a])"
      using ok by (simp add: ledger_ok_def ledger_keys_def)
    show "\<forall>a \<in> set [?a]. action_ok a" by (simp add: action_ok_def merge_action_def del: action_status_value.simps)
  qed
  show ?thesis
    using advanced settle
    by (auto simp: settle_released_merge_def Let_def split: sum.split option.split prod.split
        intro: rtranclp.rtrancl_into_rtrancl)
qed

lemma supersede_writes:
  "ledger_write\<^sup>*\<^sup>* d (snd (supersede_replaced_admission now cn i er sid srev scy iss dec d))"
proof -
  have "ledger_write\<^sup>*\<^sup>* d (put_execution (retired_row now row s) d)"
    if "execution_for d i = Some row" "bare_admission row i er" for row s
    using that retired_ok execution_for_SomeD
    by (intro put_writes [of row]) (auto simp: retired_evolves)
  then show ?thesis
    by (simp add: supersede_replaced_admission_def Let_def split: option.split)
qed

section \<open>Runs of the ledger\<close>

text \<open>
  One transaction of the ledger, or anything that leaves executions and actions alone: claims,
  nodes, plans, flows and decisions change under it at will.
\<close>

inductive ledger_step :: "digest \<Rightarrow> db \<Rightarrow> db \<Rightarrow> bool" for dg where
  step_create:
    "id_ok i \<Longrightarrow> execution_race_ok d new_id race
     \<Longrightarrow> ledger_step dg d (snd (create_execution dg now new_id race i flow_id phase nc dl d))"
| step_prepare:
    "action_race_ok d new_id race
     \<Longrightarrow> ledger_step dg d (snd (prepare_action dg now new_id race i intent d))"
| step_observe:
    "ledger_step dg d (snd (record_observation dg now i ob d))"
| step_advance:
    "args_ok args \<Longrightarrow> action_race_ok d (av_action_id env) (av_race env)
     \<Longrightarrow> ledger_step dg d (snd (advance_execution dg env i adv args d))"
| step_settle:
    "av_action_id env \<notin> ac_id ` set (actions d)
     \<Longrightarrow> ledger_step dg d (snd (settle_released_merge dg vdg env i er rv ra r v d))"
| step_supersede:
    "ledger_step dg d (snd (supersede_replaced_admission now cn i er sid srev scy iss dec d))"
| step_other:
    "executions e = executions d \<Longrightarrow> actions e = actions d \<Longrightarrow> ledger_step dg d e"

lemma ledger_step_ok:
  assumes "ledger_step dg d e" "ledger_ok d"
  shows "ledger_ok e \<and> ledger_grows d e"
proof -
  have "ledger_write\<^sup>*\<^sup>* d e \<or> (executions e = executions d \<and> actions e = actions d)"
    using assms
    by (cases rule: ledger_step.cases)
      (simp_all add: create_writes prepare_writes observe_writes advance_writes settle_writes supersede_writes)
  then show ?thesis
  proof
    assume "ledger_write\<^sup>*\<^sup>* d e"
    then show ?thesis using writes.run_inv writes.run_grows assms(2) by blast
  next
    assume "executions e = executions d \<and> actions e = actions d"
    then show ?thesis using assms(2) by (simp add: ledger_ok_def ledger_keys_def ledger_grows_same)
  qed
qed

interpretation ledger: growing "ledger_step dg" ledger_ok ledger_grows for dg
  by unfold_locales (auto dest: ledger_step_ok intro: ledger_grows_refl ledger_grows_trans)

text \<open>The generation and the revision of an execution, by its id, are counters of the run.\<close>

definition generation_of :: "db \<Rightarrow> string \<Rightarrow> int option" where
  "generation_of d k = map_option ex_generation (find (\<lambda>r. ex_id r = k) (executions d))"

definition revision_of :: "db \<Rightarrow> string \<Rightarrow> int option" where
  "revision_of d k = map_option ex_revision (find (\<lambda>r. ex_id r = k) (executions d))"

lemma grown_execution:
  assumes "ledger_grows d e" "ledger_ok e" "find (\<lambda>r. ex_id r = k) (executions d) = Some r"
  shows "\<exists>s. find (\<lambda>r. ex_id r = k) (executions e) = Some s \<and> row_evolves r s"
proof -
  have r: "r \<in> set (executions d)" "ex_id r = k" using find_SomeD [OF assms(3)] by auto
  then obtain s where s: "s \<in> set (executions e)" "row_evolves r s"
    using assms(1) unfolding ledger_grows_def by blast
  then have "find (\<lambda>r. ex_id r = k) (executions e) = Some s"
    using assms(2) r(2) row_evolvesD(1) [OF s(2)]
    by (intro find_unique [of ex_id]) (auto simp: ledger_ok_def ledger_keys_def)
  with s(2) show ?thesis by blast
qed

interpretation generations: monotone_counter "ledger_step dg" ledger_ok generation_of for dg
proof
  fix s t k m
  assume st: "ledger_step dg s t" "ledger_ok s" and c: "generation_of s k = Some m"
  from c obtain r where r: "find (\<lambda>r. ex_id r = k) (executions s) = Some r" "m = ex_generation r"
    by (auto simp: generation_of_def)
  from grown_execution [OF _ _ r(1), of t] ledger_step_ok [OF st] r(2)
  show "\<exists>n. generation_of t k = Some n \<and> m \<le> n"
    by (auto simp: generation_of_def row_evolves_def)
qed

interpretation revisions: monotone_counter "ledger_step dg" ledger_ok revision_of for dg
proof
  fix s t k m
  assume st: "ledger_step dg s t" "ledger_ok s" and c: "revision_of s k = Some m"
  from c obtain r where r: "find (\<lambda>r. ex_id r = k) (executions s) = Some r" "m = ex_revision r"
    by (auto simp: revision_of_def)
  from grown_execution [OF _ _ r(1), of t] ledger_step_ok [OF st] r(2)
  show "\<exists>n. revision_of t k = Some n \<and> m \<le> n"
    by (auto simp: revision_of_def row_evolves_def)
qed

end
