(* ===== verification/Samples.thy ===== *)
theory Samples
  imports Execution_Store
begin

text \<open>A small concrete store, on which the theorems with hypotheses are instantiated.\<close>

definition sample_digest :: digest where
  "sample_digest j = ''h''"

definition sample_flow :: flow_row where
  "sample_flow = \<lparr>fl_id = ''f'', fl_org = ''o'', fl_slug = ''app'', fl_state = ''running'', fl_paused = False, fl_archived = None,
     fl_title = ''t'', fl_product = None, fl_origin = JNull, fl_trackers = JNull\<rparr>"

definition sample_node :: node_row where
  "sample_node = \<lparr>nd_id = ''n'', nd_org = ''o'', nd_flow = ''f'', nd_epic = ''e'', nd_wave = ''w'',
     nd_ref = ''r'', nd_kind = ''story'', nd_state = ''running'', nd_title = ''t'', nd_issue = None,
     nd_attempts = 1, nd_lineage = None, nd_labels = [], nd_repository = None, nd_repository_id = None,
     nd_installation = None\<rparr>"

definition sample_plan :: plan_row where
  "sample_plan = \<lparr>pl_id = ''p1'', pl_org = ''o'', pl_flow = ''f'', pl_version = 1, pl_document = JObj [],
     pl_hash = ''h'', pl_decision = None, pl_superseded = None\<rparr>"

definition sample_claim :: claim_row where
  "sample_claim = \<lparr>cl_id = ''c'', cl_org = ''o'', cl_repo = 1, cl_issue = 7, cl_owner_kind = ''engine_flow'',
     cl_owner_ref = ''f'', cl_state = ''held'', cl_generation = 2, cl_run = Some ''run2'',
     cl_event = None, cl_claimed_at = Aware 0, cl_heartbeat = Some (Aware 0), cl_lease = Some (Aware 900000000),
     cl_release_reason = None, cl_released_at = None\<rparr>"

definition sample_db :: db where
  "sample_db = \<lparr>flows = [sample_flow], nodes = [sample_node], edges = [], plans = [sample_plan], decisions = [],
     claims = [sample_claim], bindings = [], executions = [], actions = []\<rparr>"

text \<open>The identity of generation 2, which owns the work, and of generation 1, which did.\<close>

definition sample_identity :: execution_identity where
  "sample_identity = \<lparr>id_org = ''o'', id_node = ''n'', id_cycle = 1, id_plan_version = 1,
     id_claim = ''c'', id_generation = 2\<rparr>"

definition former_identity :: execution_identity where
  "former_identity = sample_identity\<lparr>id_generation := 1\<rparr>"

definition sample_execution :: execution_row where
  "sample_execution = fresh_execution (Aware 0) ''x'' sample_identity ''f'' ADMITTED None None"

definition started_db :: db where
  "started_db = sample_db\<lparr>executions := [sample_execution]\<rparr>"

definition sample_intent :: action_intent where
  "sample_intent = \<lparr>in_key = ''open-pr'', in_kind = ''open_pull_request'', in_artifact = None, in_detail = []\<rparr>"

definition sample_action :: action_row where
  "sample_action = fresh_action (Aware 1) ''a'' sample_identity sample_execution sample_intent"

definition prepared_db :: db where
  "prepared_db = started_db\<lparr>actions := [sample_action]\<rparr>"

definition sample_env :: advance_env where
  "sample_env = \<lparr>av_now = Aware 5, av_decision_id = ''d1'', av_action_now = Aware 6,
     av_action_id = ''a1'', av_race = None\<rparr>"

definition sample_advance :: phase_advance where
  "sample_advance = \<lparr>ad_phase = PREPARING, ad_status = RUNNABLE, ad_revision = 1,
     ad_next_check = Some (Aware 60), ad_consume = True, ad_deadline = None, ad_note = None\<rparr>"

definition advanced_sample :: "(pyexc + execution_outcome) \<times> db" where
  "advanced_sample = advance_execution sample_digest sample_env sample_identity sample_advance no_args started_db"

lemmas sample_defs =
  sample_flow_def sample_node_def sample_plan_def sample_claim_def sample_db_def sample_identity_def
  former_identity_def sample_execution_def started_db_def sample_intent_def sample_action_def
  prepared_db_def sample_env_def sample_advance_def sample_digest_def

lemma sample_created:
  "create_execution sample_digest (Aware 0) ''x'' None sample_identity (Some ''f'') ADMITTED None None sample_db
   = (outcome_of APPLIED sample_execution None None, started_db)"
  by code_simp

lemma sample_prepared:
  "prepare_action sample_digest (Aware 1) ''a'' None sample_identity sample_intent started_db
   = (outcome_of APPLIED sample_execution (Some sample_action) None, prepared_db)"
  by code_simp

end
