(* ===== verification/Ledger_Properties.thy ===== *)
theory Ledger_Properties
  imports Ledger Samples
begin

text \<open>
  The guarantees of the execution ledger, stated for single transactions and for every run:
  authority and fencing, compare-and-set, idempotence, finality of settled actions, the pairing
  of status with next check and block, and the two narrow settlement writers.
\<close>

section \<open>The sample store\<close>

lemma sample_ok: "ledger_ok sample_db" "ledger_ok started_db" "ledger_ok prepared_db"
  by code_simp+

lemma sample_id_ok: "id_ok sample_identity"
  by code_simp

lemma sample_run: "(ledger_step sample_digest)\<^sup>*\<^sup>* sample_db started_db"
proof -
  have "execution_race_ok sample_db ''x'' None" by code_simp
  from step_create [OF sample_id_ok this, of sample_digest "Aware 0" "Some ''f''" ADMITTED None None]
  show ?thesis by (simp add: sample_created r_into_rtranclp)
qed

section \<open>Refusals\<close>

definition refused :: "pyexc + execution_outcome \<Rightarrow> bool" where
  "refused x = (case x of Inl _ \<Rightarrow> True | Inr o' \<Rightarrow> oc_kind o' = CONFLICT)"

definition wrote :: "pyexc + execution_outcome \<Rightarrow> bool" where
  "wrote x = (case x of Inl _ \<Rightarrow> False | Inr o' \<Rightarrow> oc_kind o' \<in> {APPLIED, OkBLOCKED})"

lemma refused_Inl [simp]: "refused (Inl e)"
  by (simp add: refused_def)

lemma outcome_of_kind: "outcome_of k row a reason = Inr o' \<Longrightarrow> oc_kind o' = k \<and> oc_reason o' = reason"
  by (auto simp: outcome_of_def split: sum.splits option.splits)

lemma outcome_of_record:
  "outcome_of k row a reason = Inr o' \<Longrightarrow> \<exists>rec. to_record row = Inr rec \<and> oc_record o' = Some rec"
  by (auto simp: outcome_of_def split: sum.splits option.splits)

lemma refused_conflict [simp]: "refused (conflict row reason)"
  using outcome_of_kind [of CONFLICT row None "Some reason"]
  by (auto simp: refused_def conflict_def unbound_conflict_def split: sum.splits)

lemma refused_live [simp]: "refused (live_refusal d i reason)"
  by (auto simp: live_refusal_def refused_def unbound_conflict_def conflict_def
      split: option.split sum.split dest: outcome_of_kind)

lemma refused_unbound [simp]: "refused (Inr (unbound_conflict reason))"
  by (simp add: refused_def unbound_conflict_def)

lemma refused_not_wrote: "refused x \<Longrightarrow> \<not> wrote x"
  by (auto simp: refused_def wrote_def split: sum.splits)

section \<open>Live authority\<close>

text \<open>
  The claim named by the identity is held, by this flow, in exactly the generation the identity
  presents, and the accepted plan is the identity's or continues it.
\<close>

definition live_owner :: "digest \<Rightarrow> db \<Rightarrow> execution_identity \<Rightarrow> bool" where
  "live_owner dg d i =
     (case resolve_flow_id d i None of None \<Rightarrow> False
      | Some fid \<Rightarrow>
         (case get_claim d (id_org i) (id_claim i) of None \<Rightarrow> False
          | Some c \<Rightarrow> flow_for d (id_org i) fid \<noteq> None
              \<and> cl_state c = ''held'' \<and> cl_generation c = id_generation i
              \<and> cl_owner_kind c = ''engine_flow'' \<and> cl_owner_ref c = fid
              \<and> (case current_plans d (id_org i) fid of
                   [] \<Rightarrow> id_plan_version i = 0
                 | [p] \<Rightarrow> pl_version p = id_plan_version i
                     \<or> ancestor_plan dg d p (id_plan_version i) (Some (id_node i)) \<noteq> None
                 | _ \<Rightarrow> False)))"

lemma live_authority_owner:
  assumes "resolve_flow_id d i None = Some fid" "live_authority_conflict dg d i fid None ua False = None"
  shows "live_owner dg d i"
proof -
  obtain c where c: "get_claim d (id_org i) (id_claim i) = Some c" "flow_for d (id_org i) fid \<noteq> None"
      "cl_owner_kind c = ''engine_flow''" "cl_owner_ref c = fid"
      "claim_refusal c i None False = None" "plan_refusal dg d i fid False = None"
    using assms(2) by (auto simp: live_authority_conflict_def split: option.splits if_splits)
  have "cl_state c = ''held'' \<and> cl_generation c = id_generation i"
    using c(5) by (auto simp: claim_refusal_def released_failure_def split: if_splits)
  moreover have "case current_plans d (id_org i) fid of [] \<Rightarrow> id_plan_version i = 0
      | [p] \<Rightarrow> pl_version p = id_plan_version i
          \<or> ancestor_plan dg d p (id_plan_version i) (Some (id_node i)) \<noteq> None
      | _ \<Rightarrow> False"
    using c(6) by (auto simp: plan_refusal_def Let_def split: list.splits if_splits)
  ultimately show ?thesis using assms(1) c(1-4) by (simp add: live_owner_def)
qed

lemma resolve_expected:
  assumes "resolve_flow_id d i (Some f) = Some fid" "unique_on nd_id (nodes d)"
  shows "resolve_flow_id d i None = Some fid"
proof -
  obtain n where n: "n \<in> set (nodes d)" "nd_org n = id_org i" "nd_id n = id_node i" "nd_flow n = fid"
    using assms(1) by (auto simp: resolve_flow_id_def dest!: find_SomeD)
  have "find (\<lambda>n. nd_org n = id_org i \<and> nd_id n = id_node i) (nodes d) = Some n"
    using assms(2) n unique_onD [OF assms(2)]
    by (cases "find (\<lambda>n. nd_org n = id_org i \<and> nd_id n = id_node i) (nodes d)")
      (auto simp: find_None_iff' dest!: find_SomeD)
  with n show ?thesis by (simp add: resolve_flow_id_def)
qed

lemma refused_without_owner:
  assumes "\<not> live_owner dg d i"
  shows "refused (fst (prepare_action dg now nid race i intent d)) \<and> snd (prepare_action dg now nid race i intent d) = d"
    and "refused (fst (record_observation dg now i ob d)) \<and> snd (record_observation dg now i ob d) = d"
    and "aa_released_run args = None \<Longrightarrow> \<not> aa_closing args
      \<Longrightarrow> refused (fst (advance_execution dg env i adv args d)) \<and> snd (advance_execution dg env i adv args d) = d"
proof -
  have conf: "\<exists>reason. live_authority_conflict dg d i fid None ua False = Some reason"
    if "resolve_flow_id d i None = Some fid" for fid ua
    using live_authority_owner [OF that, of dg ua] assms by blast
  show "refused (fst (prepare_action dg now nid race i intent d)) \<and> snd (prepare_action dg now nid race i intent d) = d"
    using conf [of _ True] by (auto simp: prepare_action_def split: option.split)
  show "refused (fst (record_observation dg now i ob d)) \<and> snd (record_observation dg now i ob d) = d"
    using conf [of _ False] by (auto simp: record_observation_def split: option.split)
  show "refused (fst (advance_execution dg env i adv args d)) \<and> snd (advance_execution dg env i adv args d) = d"
    if "aa_released_run args = None" "\<not> aa_closing args"
  proof -
    have "\<exists>x. advance_check dg i adv args d = Inl x \<and> refused x"
      using conf [of _ False] that by (fastforce simp: advance_check_def split: option.split)
    then show ?thesis by (auto simp: advance_refused)
  qed
qed

text \<open>
  Only the live owner writes. Unless the identity's claim is held by the node's flow in
  exactly the identity's generation and the accepted plan is or continues the identity's,
  preparing, observing and advancing (without a settlement exception) refuse and leave every
  table as it was.
\<close>

theorem only_live_owner_writes:
  assumes "\<not> live_owner dg d i" "aa_released_run args = None" "\<not> aa_closing args"
  shows "(refused (fst (prepare_action dg now nid race i intent d)) \<and> snd (prepare_action dg now nid race i intent d) = d)
     \<and> (refused (fst (record_observation dg now i ob d)) \<and> snd (record_observation dg now i ob d) = d)
     \<and> (refused (fst (advance_execution dg env i adv args d)) \<and> snd (advance_execution dg env i adv args d) = d)"
  using refused_without_owner [OF assms(1)] assms(2,3) by blast

theorem only_live_owner_writes_witness:
  "refused (fst (prepare_action sample_digest (Aware 1) ''a'' None former_identity sample_intent sample_db))
   \<and> snd (prepare_action sample_digest (Aware 1) ''a'' None former_identity sample_intent sample_db) = sample_db"
proof -
  have "\<not> live_owner sample_digest sample_db former_identity" "aa_released_run no_args = None" "\<not> aa_closing no_args"
    by code_simp+
  from only_live_owner_writes [OF this] show ?thesis by blast
qed

section \<open>Fencing\<close>

lemma binding_conflict_older:
  "id_generation i < ex_generation row \<Longrightarrow> \<exists>reason. binding_conflict row i = Some reason"
  by (simp add: binding_conflict_def)

lemma refused_binding:
  assumes "execution_for d i = Some row" "binding_conflict row i = Some reason"
  shows "refused (fst (prepare_action dg now nid race i intent d)) \<and> snd (prepare_action dg now nid race i intent d) = d"
    and "refused (fst (record_observation dg now i ob d)) \<and> snd (record_observation dg now i ob d) = d"
    and "refused (fst (advance_execution dg env i adv args d)) \<and> snd (advance_execution dg env i adv args d) = d"
    and "refused (fst (create_execution dg now nid erace i f ph nc dl d)) \<and> snd (create_execution dg now nid erace i f ph nc dl d) = d"
proof -
  show "refused (fst (prepare_action dg now nid race i intent d)) \<and> snd (prepare_action dg now nid race i intent d) = d"
    using assms by (auto simp: prepare_action_def split: option.split)
  show "refused (fst (record_observation dg now i ob d)) \<and> snd (record_observation dg now i ob d) = d"
    using assms by (auto simp: record_observation_def split: option.split)
  show "refused (fst (create_execution dg now nid erace i f ph nc dl d)) \<and> snd (create_execution dg now nid erace i f ph nc dl d) = d"
    using assms by (auto simp: create_execution_def adopt_existing_def split: option.split)
  have "\<exists>x. advance_check dg i adv args d = Inl x \<and> refused x"
    using assms by (auto simp: advance_check_def split: option.split)
  then show "refused (fst (advance_execution dg env i adv args d)) \<and> snd (advance_execution dg env i adv args d) = d"
    by (auto simp: advance_refused)
qed

text \<open>An execution is still the one under its key after any run, further on.\<close>

lemma execution_run:
  assumes "(ledger_step dg)\<^sup>*\<^sup>* d e" "ledger_ok d" "execution_for d i = Some row"
  shows "\<exists>s. execution_for e i = Some s \<and> row_evolves row s"
proof -
  have "ledger_grows d e" "ledger_ok e"
    using ledger.run_grows [OF assms(1,2)] ledger.run_inv [OF assms(1,2)] by auto
  moreover have row: "row \<in> set (executions d)" "ex_org row = id_org i" "ex_node row = id_node i"
      "ex_cycle row = id_cycle i"
    using execution_for_SomeD [OF assms(3)] by auto
  ultimately obtain s where s: "s \<in> set (executions e)" "row_evolves row s"
    unfolding ledger_grows_def by blast
  have "execution_for e i = Some s"
    unfolding execution_for_def
    using \<open>ledger_ok e\<close> s(1) row(2-4) row_evolvesD [OF s(2)]
    by (intro find_unique [of execution_key]) (auto simp: ledger_ok_def ledger_keys_def execution_key_def)
  with s(2) show ?thesis by blast
qed

text \<open>
  C21: A superseded worker is fenced out for good. Once an execution has been written under a
  later claim generation than the identity's, then after any further run of the ledger, whatever
  happens to claims, plans and nodes meanwhile, creating, preparing, observing and advancing
  under that identity, settlement exceptions included, are refused and change nothing.
\<close>

theorem superseded_generation_never_writes:
  assumes "ledger_ok d" "execution_for d i = Some row" "id_generation i < ex_generation row"
    and "(ledger_step dg)\<^sup>*\<^sup>* d e"
  shows "(refused (fst (create_execution dg now nid erace i f ph nc dl e))
          \<and> snd (create_execution dg now nid erace i f ph nc dl e) = e)
    \<and> (refused (fst (prepare_action dg now nid race i intent e)) \<and> snd (prepare_action dg now nid race i intent e) = e)
    \<and> (refused (fst (record_observation dg now i ob e)) \<and> snd (record_observation dg now i ob e) = e)
    \<and> (refused (fst (advance_execution dg env i adv args e)) \<and> snd (advance_execution dg env i adv args e) = e)"
proof -
  obtain s where s: "execution_for e i = Some s" "row_evolves row s"
    using execution_run [OF assms(4,1,2)] by blast
  then have "id_generation i < ex_generation s" using assms(3) by (simp add: row_evolves_def)
  then obtain reason where "binding_conflict s i = Some reason" using binding_conflict_older by blast
  from refused_binding [OF s(1) this] show ?thesis by blast
qed

theorem superseded_generation_never_writes_witness:
  "refused (fst (advance_execution sample_digest sample_env former_identity sample_advance no_args started_db))
   \<and> snd (advance_execution sample_digest sample_env former_identity sample_advance no_args started_db) = started_db"
proof -
  have "execution_for started_db former_identity = Some sample_execution"
      "id_generation former_identity < ex_generation sample_execution"
    by code_simp+
  from superseded_generation_never_writes [OF sample_ok(2) this rtranclp.rtrancl_refl]
  show ?thesis by blast
qed

section \<open>What an advance does\<close>

lemma find_put:
  assumes "find Q rows = Some r" "Q new" "pk new = pk r"
  shows "find Q (update_where (\<lambda>x. pk x = pk new) (\<lambda>_. new) rows) = Some new"
  using assms by (induction rows) (auto simp: update_where_def split: if_splits)

lemma execution_for_put:
  assumes "execution_for d i = Some r" "ex_id s = ex_id r" "ex_org s = ex_org r" "ex_node s = ex_node r"
    "ex_cycle s = ex_cycle r"
  shows "execution_for (put_execution s d) i = Some s"
proof -
  have "find (\<lambda>r. ex_org r = id_org i \<and> ex_node r = id_node i \<and> ex_cycle r = id_cycle i)
      (update_where (\<lambda>x. ex_id x = ex_id s) (\<lambda>_. s) (executions d)) = Some s"
    using assms execution_for_SomeD [OF assms(1)]
    by (intro find_put [where r = r]) (simp_all add: execution_for_def)
  then show ?thesis by (simp add: execution_for_def put_execution_def)
qed

lemma execution_for_decisions [simp]: "execution_for (d\<lparr>decisions := ds\<rparr>) i = execution_for d i"
  by (simp add: execution_for_def)

lemma execution_for_actions [simp]: "execution_for (d\<lparr>actions := xs\<rparr>) i = execution_for d i"
  by (simp add: execution_for_def)

lemma execution_for_put_action [simp]: "execution_for (put_action a d) i = execution_for d i"
  by (simp add: execution_for_def)

lemma adopt_generation_id: "id_generation i \<le> ex_generation row \<Longrightarrow> adopt_generation row i = row"
  by (simp add: adopt_generation_def)

lemma adopt_at_least [simp]: "id_generation i \<le> ex_generation (adopt_generation row i)"
  by (simp add: adopt_generation_def)

lemma prepare_keeps_execution:
  assumes "execution_for d i = Some row" "id_generation i \<le> ex_generation row"
  shows "execution_for (snd (prepare_action dg now nid race i intent d)) i = Some row"
  using assms execution_for_put [OF assms(1), of row] adopt_generation_id [OF assms(2)]
  by (auto simp: prepare_action_def Let_def split: option.split)

lemma finish_keeps_execution:
  assumes "execution_for d i = Some row" "id_generation i \<le> ex_generation row"
  shows "execution_for (snd (finish_advance dg env i args row' d)) i = Some row"
proof -
  have "execution_for e i = Some row"
    if "prepare_action dg (av_action_now env) (av_action_id env) (av_race env) i intent d = (x, e)" for intent x e
    using prepare_keeps_execution [OF assms, of dg "av_action_now env" "av_action_id env" "av_race env" intent] that
    by simp
  then show ?thesis
    using assms(1) by (auto simp: finish_advance_def Let_def split: sum.split option.split prod.split)
qed

lemma advanced_to_fixed [simp]:
  "ex_id (advanced_row now row adv args nc) = ex_id row" "ex_org (advanced_row now row adv args nc) = ex_org row"
  "ex_node (advanced_row now row adv args nc) = ex_node row"
  "ex_cycle (advanced_row now row adv args nc) = ex_cycle row"
  "ex_claim (advanced_row now row adv args nc) = ex_claim row"
  "ex_generation (advanced_row now row adv args nc) = ex_generation row"
  "ex_revision (advanced_row now row adv args nc) = ex_revision row + 1"
  "ex_phase (advanced_row now row adv args nc) = phase_value (ad_phase adv)"
  "ex_status (advanced_row now row adv args nc) = status_value (effective_status adv args)"
  "ex_next_check (advanced_row now row adv args nc) = nc"
  "ex_attempts (advanced_row now row adv args nc) = ex_attempts row + (if ad_consume adv then 1 else 0)"
  by (simp_all add: advanced_row_def Let_def split: option.split)

lemma advanced_db_execution:
  assumes "execution_for d i = Some row"
  shows "execution_for (advanced_db env i adv args row d) i = Some (advanced_to env i adv args row)"
proof -
  have "execution_for (put_execution (adopt_generation row i) d) i = Some (adopt_generation row i)"
    using assms by (intro execution_for_put) auto
  then show ?thesis
    by (auto simp: written_advance_def Let_def intro: execution_for_put)
qed

lemma finish_kind:
  "fst (finish_advance dg env i args row d) = Inr o'
   \<Longrightarrow> oc_kind o' = (if aa_block args = None then APPLIED else OkBLOCKED)
     \<and> (\<exists>rec. to_record row = Inr rec \<and> oc_record o' = Some rec)"
  by (auto simp: finish_advance_def Let_def split: sum.splits option.splits prod.splits if_splits)

lemma advance_check_answer:
  assumes "advance_check dg i adv args d = Inl x"
  shows "refused x \<or> (\<exists>row. execution_for d i = Some row \<and> ex_revision row \<noteq> ad_revision adv
      \<and> x = outcome_of STALE row None (Some ''stale_revision''))"
proof -
  have "refused (outcome_of CONFLICT row None reason)" for row reason
    by (auto simp: refused_def split: sum.split dest: outcome_of_kind)
  then show ?thesis
    using assms by (auto simp: advance_check_def split: if_splits option.splits)
qed

lemma not_wrote_stale: "\<not> wrote (outcome_of STALE row a reason)"
  by (auto simp: wrote_def split: sum.split dest: outcome_of_kind)

lemma advance_wroteD:
  assumes "wrote (fst (advance_execution dg env i adv args d))"
  obtains row where "advance_check dg i adv args d = Inr row" "schedulable adv args"
    "execution_for d i = Some row" "ex_revision row = ad_revision adv"
    "advance_execution dg env i adv args d
      = finish_advance dg env i args (advanced_to env i adv args row) (advanced_db env i adv args row d)"
    "execution_for (snd (advance_execution dg env i adv args d)) i = Some (advanced_to env i adv args row)"
proof (cases "advance_check dg i adv args d")
  case (Inl x)
  then show ?thesis
    using advance_check_answer [OF Inl] assms not_wrote_stale refused_not_wrote
    by (auto simp: advance_refused)
next
  case (Inr row)
  have s: "schedulable adv args"
  proof (rule ccontr)
    assume "\<not> schedulable adv args"
    from assms [unfolded advance_unscheduled [OF Inr this]] show False by (simp add: wrote_def)
  qed
  have "execution_for (snd (advance_execution dg env i adv args d)) i = Some (advanced_to env i adv args row)"
    unfolding advance_written [OF Inr s]
    using advanced_db_execution advance_check_row(1) [OF Inr] by (intro finish_keeps_execution) auto
  with that Inr s advance_check_row [OF Inr] advance_written [OF Inr s] show ?thesis by blast
qed

lemma advance_not_wrote:
  assumes "fst (advance_execution dg env i adv args d) = Inr o'"
  shows "wrote (Inr o')
    \<or> (oc_kind o' = CONFLICT \<and> snd (advance_execution dg env i adv args d) = d)
    \<or> (oc_kind o' = STALE \<and> snd (advance_execution dg env i adv args d) = d
       \<and> (\<exists>row. execution_for d i = Some row \<and> ex_revision row \<noteq> ad_revision adv))"
proof (cases "advance_check dg i adv args d")
  case (Inl x)
  then have x: "x = Inr o'" using assms by (simp add: advance_refused)
  from advance_check_answer [OF Inl] show ?thesis
  proof
    assume "refused x"
    with x show "?thesis" by (simp add: advance_refused [OF Inl] refused_def)
  next
    assume "\<exists>row. execution_for d i = Some row \<and> ex_revision row \<noteq> ad_revision adv
        \<and> x = outcome_of STALE row None (Some ''stale_revision'')"
    with x show "?thesis"
      using outcome_of_kind [of STALE _ None "Some ''stale_revision''" o'] by (auto simp: advance_refused [OF Inl])
  qed
next
  case (Inr row)
  have s: "schedulable adv args" using assms advance_unscheduled [OF Inr] by fastforce
  from finish_kind [OF assms [unfolded advance_written [OF Inr s]]] show ?thesis
    by (simp add: wrote_def)
qed

text \<open>
  The row an applied advance leaves, column by column: the scheduling columns, the five columns of
  the block, and the texts a caller may set (an empty one clears the column).
\<close>

definition block_columns ::
    "execution_row \<Rightarrow> string option \<times> string option \<times> string option \<times> jtext option \<times> string option" where
  "block_columns row = (ex_block_code row, ex_block_owner row, ex_block_required row, ex_block_gates row,
     ex_block_detail row)"

definition text_set :: "string option \<Rightarrow> string option \<Rightarrow> string option" where
  "text_set given old = (case given of None \<Rightarrow> old | Some t \<Rightarrow> if t = [] then None else Some t)"

definition advance_effect :: "pydt \<Rightarrow> execution_identity \<Rightarrow> phase_advance \<Rightarrow> advance_args \<Rightarrow> execution_row
    \<Rightarrow> execution_row \<Rightarrow> bool" where
  "advance_effect now i adv args row row' \<longleftrightarrow>
     ex_revision row' = ad_revision adv + 1
     \<and> ex_phase row' = phase_value (ad_phase adv)
     \<and> ex_status row' = status_value (if aa_block args = None then ad_status adv else BLOCKED)
     \<and> ex_next_check row' = (if aa_block args = None \<and> ad_status adv \<in> {CONCLUDED, StSUPERSEDED}
                            then None else ad_next_check adv)
     \<and> ex_attempts row' = ex_attempts row + (if ad_consume adv then 1 else 0)
     \<and> ex_generation row' = max (ex_generation row) (id_generation i)
     \<and> ex_deadline row' = (if ad_deadline adv = None then ex_deadline row else ad_deadline adv)
     \<and> ex_note row' = (if ad_note adv = None then ex_note row else ad_note adv)
     \<and> block_columns row' = (case aa_block args of None \<Rightarrow> (None, None, None, None, None)
          | Some b \<Rightarrow> (Some (block_code_value (bl_code b)), Some (bl_owner b), Some (bl_required b),
              if bl_gates b = [] then None else Some (dumped (JArr (map JStr (bl_gates b)))), bl_detail b))
     \<and> ex_progressed row' = (if aa_block args = None then Some now else ex_progressed row)
     \<and> ex_pending_key row' = (if aa_pending args \<noteq> None then text_set (aa_pending args) None
          else if aa_block args \<noteq> None \<or> ad_status adv \<noteq> AWAITING_EXTERNAL then None
          else if aa_intent args = None then ex_pending_key row else map_option in_key (aa_intent args))
     \<and> ex_notification row' = text_set (aa_notification args) (ex_notification row)
     \<and> ex_handoff row' = text_set (aa_handoff args) (ex_handoff row)
     \<and> (ex_id row', ex_org row', ex_flow row', ex_node row', ex_cycle row', ex_plan_version row', ex_claim row',
          ex_created row')
       = (ex_id row, ex_org row, ex_flow row, ex_node row, ex_cycle row, ex_plan_version row, ex_claim row,
          ex_created row)"

lemma text_set_or_none: "text_set given old = (if given \<noteq> None then or_none given else old)"
  by (cases given) (auto simp: text_set_def or_none_def)

lemma advanced_to_block: "block_columns (advanced_row now row adv args nc)
    = (case aa_block args of None \<Rightarrow> (None, None, None, None, None)
       | Some b \<Rightarrow> (Some (block_code_value (bl_code b)), Some (bl_owner b), Some (bl_required b),
           if bl_gates b = [] then None else Some (dumped (JArr (map JStr (bl_gates b)))), bl_detail b))"
  by (simp add: block_columns_def advanced_row_def Let_def encode_gates_def split: option.split)

lemma advanced_to_rest:
  "ex_deadline (advanced_row now row adv args nc) = (if ad_deadline adv = None then ex_deadline row else ad_deadline adv)"
  "ex_note (advanced_row now row adv args nc) = (if ad_note adv = None then ex_note row else ad_note adv)"
  "ex_progressed (advanced_row now row adv args nc) = (if aa_block args = None then Some now else ex_progressed row)"
  "ex_pending_key (advanced_row now row adv args nc) = pending_after row (effective_status adv args) args"
  "ex_notification (advanced_row now row adv args nc) = text_set (aa_notification args) (ex_notification row)"
  "ex_handoff (advanced_row now row adv args nc) = text_set (aa_handoff args) (ex_handoff row)"
  "ex_flow (advanced_row now row adv args nc) = ex_flow row"
  "ex_plan_version (advanced_row now row adv args nc) = ex_plan_version row"
  "ex_created (advanced_row now row adv args nc) = ex_created row"
  by (auto simp: advanced_row_def Let_def text_set_or_none split: option.split)

lemma pending_after_cases: "pending_after row (effective_status adv args) args
    = (if aa_pending args \<noteq> None then text_set (aa_pending args) None
       else if aa_block args \<noteq> None \<or> ad_status adv \<noteq> AWAITING_EXTERNAL then None
       else if aa_intent args = None then ex_pending_key row else map_option in_key (aa_intent args))"
  by (auto simp: pending_after_def effective_status_def text_set_or_none split: option.splits execution_status.splits)

lemma adopted_columns [simp]:
  "ex_deadline (adopt_generation row i) = ex_deadline row" "ex_note (adopt_generation row i) = ex_note row"
  "ex_progressed (adopt_generation row i) = ex_progressed row" "ex_flow (adopt_generation row i) = ex_flow row"
  "ex_plan_version (adopt_generation row i) = ex_plan_version row" "ex_created (adopt_generation row i) = ex_created row"
  "ex_pending_key (adopt_generation row i) = ex_pending_key row"
  "ex_notification (adopt_generation row i) = ex_notification row" "ex_handoff (adopt_generation row i) = ex_handoff row"
  by (simp_all add: adopt_generation_def)

lemma advanced_to_effect:
  assumes "ex_revision row = ad_revision adv"
  shows "advance_effect (av_now env) i adv args row (advanced_to env i adv args row)"
  unfolding advance_effect_def advanced_to_block advanced_to_rest pending_after_cases
  using assms by (auto simp: adopt_generation_def next_check_of_def effective_status_def no_next_check_def)


section \<open>Compare and set\<close>

lemma moved_revision_refuses:
  assumes "execution_for d i = Some row" "ex_revision row \<noteq> ad_revision adv"
  shows "\<not> wrote (fst (advance_execution dg env i adv args d))"
    and "snd (advance_execution dg env i adv args d) = d"
proof -
  show *: "\<not> wrote (fst (advance_execution dg env i adv args d))"
  proof
    assume "wrote (fst (advance_execution dg env i adv args d))"
    then obtain row' where "execution_for d i = Some row'" "ex_revision row' = ad_revision adv"
      by (rule advance_wroteD)
    with assms show False by simp
  qed
  have "\<nexists>r. advance_check dg i adv args d = Inr r"
    using advance_check_row(1,3) assms by fastforce
  then show "snd (advance_execution dg env i adv args d) = d"
    by (cases "advance_check dg i adv args d") (auto simp: advance_refused)
qed

text \<open>
  C24: Each revision is consumed at most once. After an advance has been applied, no later
  advance of the same execution that presents the same expected revision is ever applied again,
  by whatever identity and after whatever run of the ledger: it leaves the store as it is.
\<close>

theorem revision_consumed_once:
  assumes "ledger_ok d" "args_ok args"
    and "action_race_ok d (av_action_id env) (av_race env)"
    and "wrote (fst (advance_execution dg env i adv args d))"
    and "(ledger_step dg)\<^sup>*\<^sup>* (snd (advance_execution dg env i adv args d)) e"
    and "id_org j = id_org i" "id_node j = id_node i" "id_cycle j = id_cycle i"
    and "ad_revision adv' = ad_revision adv"
  shows "\<not> wrote (fst (advance_execution dg env' j adv' args' e))
    \<and> snd (advance_execution dg env' j adv' args' e) = e"
proof -
  let ?d1 = "snd (advance_execution dg env i adv args d)"
  obtain row where r: "ex_revision row = ad_revision adv"
      "execution_for ?d1 i = Some (advanced_to env i adv args row)"
    using assms(4) by (rule advance_wroteD)
  have "ledger_ok ?d1"
    using ledger_step_ok [OF step_advance [OF assms(2,3)] assms(1)] by blast
  then obtain s where s: "execution_for e i = Some s" "row_evolves (advanced_to env i adv args row) s"
    using execution_run [OF assms(5) _ r(2)] by blast
  then have "ex_revision s \<noteq> ad_revision adv'" using r(1) assms(9) by (simp add: row_evolves_def)
  moreover have "execution_for e j = Some s" using s(1) assms(6-8) by (simp add: execution_for_def)
  ultimately show ?thesis using moved_revision_refuses by blast
qed

theorem revision_consumed_once_witness:
  "snd (advance_execution sample_digest sample_env sample_identity sample_advance no_args (snd advanced_sample))
   = snd advanced_sample"
proof -
  have a: "args_ok no_args" "wrote (fst advanced_sample)"
      "action_race_ok started_db (av_action_id sample_env) (av_race sample_env)"
    by code_simp+
  show ?thesis
    using revision_consumed_once [OF sample_ok(2) a(1) a(3) a(2) [unfolded advanced_sample_def]
        rtranclp.rtrancl_refl refl refl refl refl]
    by (simp add: advanced_sample_def)
qed

section \<open>Invariants of every run\<close>

text \<open>
  C23: In every state a run reaches from an empty ledger there is one execution per tenant, node
  and cycle and one action per execution and operation key; an execution has a next check
  exactly when it is neither concluded nor superseded; and it carries a block code only while
  its status is blocked.
\<close>

theorem ledger_invariant:
  assumes "executions d = []" "actions d = []" "(ledger_step dg)\<^sup>*\<^sup>* d e"
  shows "distinct (map execution_key (executions e)) \<and> distinct (map action_key (actions e))
    \<and> list_all (\<lambda>r. (ex_next_check r = None) = (ex_status r \<in> {''concluded'', ''superseded''})) (executions e)
    \<and> list_all (\<lambda>r. ex_block_code r = None \<or> ex_status r = ''blocked'') (executions e)"
proof -
  have "ledger_ok d" using assms(1,2) by (simp add: ledger_ok_def ledger_keys_def unique_on_def)
  from ledger.run_inv [OF assms(3) this] have "ledger_ok e" .
  then show ?thesis
    by (auto simp: ledger_ok_def ledger_keys_def unique_on_def list_all_iff row_ok_def block_columns_ok_def
        no_next_check_def split: option.splits)
qed

theorem ledger_invariant_witness:
  "distinct (map execution_key (executions started_db))"
  using ledger_invariant [OF _ _ sample_run] by (simp add: sample_db_def)

text \<open>
  C25: A settled action is final: once it has succeeded or failed, no run of the ledger changes
  any column of it, and it is still there.
\<close>

theorem settled_action_is_final:
  assumes "ledger_ok d" "a \<in> set (actions d)" "ac_status a \<in> {''succeeded'', ''failed''}"
    "(ledger_step dg)\<^sup>*\<^sup>* d e"
  shows "a \<in> set (actions e)"
proof -
  have "ledger_grows d e" using ledger.run_grows [OF assms(4,1)] .
  then obtain b where "b \<in> set (actions e)" "action_evolves a b"
    using assms(2) unfolding ledger_grows_def by blast
  moreover have "settled a" using assms(3) by (auto simp: settled_def)
  ultimately show ?thesis by (simp add: action_evolves_def)
qed

definition sample_report :: observation where
  "sample_report = \<lparr>ob_key = ''open-pr'', ob_outcome = ObSUCCEEDED, ob_receipt = Some ''pr/1'', ob_detail = None\<rparr>"

definition settled_sample :: db where
  "settled_sample = snd (record_observation sample_digest (Aware 2) sample_identity sample_report prepared_db)"

theorem settled_action_is_final_witness:
  "observed_action (Aware 2) sample_report sample_action
   \<in> set (actions (snd (record_observation sample_digest (Aware 3) sample_identity
        (sample_report\<lparr>ob_outcome := ObFAILED\<rparr>) settled_sample)))"
proof -
  have "ledger_ok settled_sample"
      "ac_status (observed_action (Aware 2) sample_report sample_action) \<in> {''succeeded'', ''failed''}"
      "observed_action (Aware 2) sample_report sample_action \<in> set (actions settled_sample)"
    by code_simp+
  moreover have "(ledger_step sample_digest)\<^sup>*\<^sup>* settled_sample
      (snd (record_observation sample_digest (Aware 3) sample_identity
        (sample_report\<lparr>ob_outcome := ObFAILED\<rparr>) settled_sample))"
    by (intro r_into_rtranclp step_observe)
  ultimately show ?thesis using settled_action_is_final by blast
qed

end
