(* ===== verification/Ledger_Actions.thy ===== *)
theory Ledger_Actions
  imports Ledger_Properties
begin

text \<open>
  The guarantees about actions and about the two settlement writers: repeating a prepare finds
  the first action, an observation settles exactly what it reports, an advance and its intent
  are one write, and the recovery paths can only conclude or retire.
\<close>

section \<open>Authority does not depend on the ledger's own rows\<close>

lemma node_preserving_hop_cong:
  assumes "flows e = flows d" "nodes e = nodes d" "plans e = plans d" "decisions e = decisions d"
  shows "node_preserving_hop e = node_preserving_hop d"
  unfolding fun_eq_iff node_preserving_hop_def get_decision_def get_node_def get_flow_def assms by simp

lemma paused_wave_hop_cong:
  assumes "plans e = plans d" "decisions e = decisions d"
  shows "paused_wave_hop dg e = paused_wave_hop dg d"
  unfolding fun_eq_iff paused_wave_hop_def base_plan_def get_decision_def get_plan_def assms by simp

lemma lineage_loop_cong:
  assumes "flows e = flows d" "nodes e = nodes d" "plans e = plans d" "decisions e = decisions d"
  shows "lineage_loop dg e nid pr v n p = lineage_loop dg d nid pr v n p"
  by (induction n arbitrary: p)
    (auto simp: node_preserving_hop_cong [OF assms] paused_wave_hop_cong [OF assms(3,4)] split: option.split)

lemma live_authority_cong:
  assumes "flows e = flows d" "nodes e = nodes d" "plans e = plans d" "decisions e = decisions d"
    "claims e = claims d"
  shows "live_authority_conflict dg e i fid run ua cl = live_authority_conflict dg d i fid run ua cl"
  unfolding live_authority_conflict_def flow_for_def get_claim_def plan_refusal_def current_plans_def
    ancestor_plan_def get_node_def lineage_loop_cong [OF assms(1-4)] assms ..

lemma resolve_flow_cong: "nodes e = nodes d \<Longrightarrow> resolve_flow_id e i x = resolve_flow_id d i x"
  by (simp add: resolve_flow_id_def)

section \<open>Preparing\<close>

lemma put_execution_idem: "put_execution r (put_execution r d) = put_execution r d"
  by (simp add: put_execution_def update_where_def)

lemma put_execution_actions:
  "put_execution r (d\<lparr>actions := xs\<rparr>) = (put_execution r d)\<lparr>actions := xs\<rparr>"
  by (simp add: put_execution_def)

lemma outcome_of_action:
  "outcome_of k row (Some a) reason = Inr o'
   \<Longrightarrow> \<exists>ar. to_action_record a = Inr ar \<and> oc_action o' = Some ar \<and> oc_kind o' = k \<and> oc_reason o' = reason"
  by (auto simp: outcome_of_def split: sum.splits)

lemma outcome_of_again:
  assumes "outcome_of k row (Some a) reason = Inr o'"
  shows "outcome_of k' row (Some a) reason' = Inr (o'\<lparr>oc_kind := k', oc_reason := reason'\<rparr>)"
  using assms by (auto simp: outcome_of_def split: sum.splits)

lemma action_for_key_put [simp]: "action_for_key (put_execution r d) row k = action_for_key d row k"
  by (simp add: action_for_key_def)

lemma action_for_key_cong: "actions e = actions d \<Longrightarrow> action_for_key e row k = action_for_key d row k"
  by (simp add: action_for_key_def)

text \<open>An applied prepare leaves the action it returns under the key, and the row adopted.\<close>

lemma prepare_appliedD:
  assumes "prepare_action dg now nid race i intent d = (Inr o', e)" "oc_kind o' = APPLIED"
  obtains row a fid where "resolve_flow_id d i None = Some fid"
    "live_authority_conflict dg d i fid None True False = None"
    "execution_for d i = Some row" "binding_conflict row i = None"
    "action_for_key e (adopt_generation row i) (in_key intent) = Some a"
    "e = (put_execution (adopt_generation row i) d)\<lparr>actions := actions e\<rparr>"
    "outcome_of APPLIED (adopt_generation row i) (Some a) (oc_reason o') = Inr o'"
    "ac_kind a = in_kind intent \<or> race \<noteq> None"
proof -
  have nr: "\<not> refused (Inr o')" using assms(2) by (simp add: refused_def)
  obtain fid row where f: "resolve_flow_id d i None = Some fid"
      "live_authority_conflict dg d i fid None True False = None"
      "execution_for d i = Some row" "binding_conflict row i = None"
    using assms(1) nr refused_live refused_conflict
    by (auto simp: prepare_action_def split: option.splits) (metis refused_live refused_conflict)+
  let ?row = "adopt_generation row i"
  let ?d1 = "put_execution ?row d"
  have e1: "?d1 = ?d1\<lparr>actions := actions ?d1\<rparr>" by simp
  show ?thesis
  proof (cases "action_for_key ?d1 ?row (in_key intent)")
    case (Some a)
    have "ac_kind a = in_kind intent"
      using assms(1) nr refused_conflict Some f by (auto simp: prepare_action_def Let_def split: if_splits) (metis refused_conflict)
    with assms(1) f Some have "outcome_of APPLIED ?row (Some a) (Some ''action_already_prepared'') = Inr o'" "e = ?d1"
      by (auto simp: prepare_action_def Let_def)
    then show ?thesis
      using that [OF f, of a] Some \<open>ac_kind a = in_kind intent\<close> outcome_of_kind by fastforce
  next
    case None
    show ?thesis
    proof (cases race)
      case None
      let ?a = "fresh_action now nid i ?row intent"
      have r: "outcome_of APPLIED ?row (Some ?a) None = Inr o'" "e = ?d1\<lparr>actions := actions ?d1 @ [?a]\<rparr>"
        using assms(1) f \<open>action_for_key ?d1 ?row (in_key intent) = None\<close> None
        by (auto simp: prepare_action_def Let_def)
      have "action_for_key e ?row (in_key intent) = Some ?a"
        using \<open>action_for_key ?d1 ?row (in_key intent) = None\<close> execution_for_SomeD [OF f(3)] r(2)
        by (simp add: action_for_key_def find_append fresh_action_def)
      moreover have "oc_reason o' = None" using outcome_of_kind [OF r(1)] by simp
      ultimately show ?thesis using that [OF f, of ?a] r by (simp add: fresh_action_def)
    next
      case (Some xs)
      then obtain w where w: "action_for_key (?d1\<lparr>actions := actions ?d1 @ xs\<rparr>) ?row (in_key intent) = Some w"
        "outcome_of APPLIED ?row (Some w) (Some ''action_already_prepared'') = Inr o'"
        "e = ?d1\<lparr>actions := actions ?d1 @ xs\<rparr>"
        using assms(1) f \<open>action_for_key ?d1 ?row (in_key intent) = None\<close>
        by (auto simp: prepare_action_def Let_def split: option.splits)
      moreover have "oc_reason o' = Some ''action_already_prepared''" using outcome_of_kind [OF w(2)] by simp
      ultimately show ?thesis using that [OF f, of w] Some by simp
    qed
  qed
qed

text \<open>
  Preparing is idempotent: after an applied prepare without a lost race, preparing the same
  key again under the same identity, at any time and with any artifact or detail, changes
  nothing and returns the original action, marked as already prepared.
\<close>

theorem prepare_is_idempotent:
  assumes "prepare_action dg now nid None i intent d = (Inr o', e)" "oc_kind o' = APPLIED"
    and "in_key again = in_key intent" "in_kind again = in_kind intent"
  shows "prepare_action dg now' nid' race' i again e
    = (Inr (o'\<lparr>oc_reason := Some ''action_already_prepared''\<rparr>), e)"
proof -
  obtain row a fid where f: "resolve_flow_id d i None = Some fid"
      "live_authority_conflict dg d i fid None True False = None"
      "execution_for d i = Some row" "binding_conflict row i = None"
      "action_for_key e (adopt_generation row i) (in_key intent) = Some a"
      "e = (put_execution (adopt_generation row i) d)\<lparr>actions := actions e\<rparr>"
      "outcome_of APPLIED (adopt_generation row i) (Some a) (oc_reason o') = Inr o'"
      "ac_kind a = in_kind intent"
    using prepare_appliedD [OF assms(1,2)] by metis
  let ?row = "adopt_generation row i"
  have frame: "flows e = flows d" "nodes e = nodes d" "plans e = plans d" "decisions e = decisions d"
      "claims e = claims d"
    by (subst f(6), simp)+
  have "execution_for e i = Some ?row"
    using f(3) by (subst f(6)) (simp, rule execution_for_put, auto)
  moreover have "binding_conflict ?row i = None"
    using f(4) by (simp add: binding_conflict_def adopt_generation_def split: if_splits)
  moreover have "adopt_generation ?row i = ?row" by (rule adopt_generation_id) simp
  moreover obtain xs where xs: "e = (put_execution ?row d)\<lparr>actions := xs\<rparr>" using f(6) by blast
  have "put_execution ?row e = e"
    unfolding xs by (simp only: put_execution_actions put_execution_idem)
  moreover have "outcome_of APPLIED ?row (Some a) (Some ''action_already_prepared'')
      = Inr (o'\<lparr>oc_reason := Some ''action_already_prepared''\<rparr>)"
    using outcome_of_again [OF f(7), of APPLIED] assms(2) by (cases o') simp
  ultimately show ?thesis
    using f(1,2,5,8) assms(3,4) live_authority_cong [OF frame] resolve_flow_cong [OF frame(2)]
    by (simp add: prepare_action_def Let_def)
qed

theorem prepare_is_idempotent_witness:
  "snd (prepare_action sample_digest (Aware 9) ''z'' None sample_identity sample_intent prepared_db) = prepared_db"
proof -
  obtain o' where "outcome_of APPLIED sample_execution (Some sample_action) None = Inr o'" "oc_kind o' = APPLIED"
    using outcome_of_kind by (cases "outcome_of APPLIED sample_execution (Some sample_action) None")
      (code_simp, blast)
  from prepare_is_idempotent [OF sample_prepared [unfolded this(1)] this(2) refl refl]
  show ?thesis by simp
qed

section \<open>Observing\<close>

lemma observed_record:
  "to_action_record (observed_action now ob a) = Inr ar
   \<Longrightarrow> ar_status ar = observed_status (ob_outcome ob) \<and> resolved ar = (ob_outcome ob \<noteq> INDETERMINATE)"
  by (auto simp: to_action_record_def observed_action_def resolved_def unresolved_action_statuses_def
      observed_status_def simp del: action_status_value.simps split: observed_outcome.splits)

lemma observed_id [simp]: "ac_id (observed_action now ob a) = ac_id a"
  by (simp add: observed_action_def)

lemma observeD:
  assumes "record_observation dg now i ob d = (Inr o', e)"
  shows "(oc_action o' = None \<and> e = d \<and> oc_kind o' = CONFLICT)
    \<or> (\<exists>row a. execution_for d i = Some row \<and> binding_conflict row i = None
         \<and> action_for_key d (adopt_generation row i) (ob_key ob) = Some a
         \<and> (if settled a
            then e = put_execution (adopt_generation row i) d
              \<and> (if same_observation ob a
                 then outcome_of APPLIED (adopt_generation row i) (Some a) (Some ''observation_already_recorded'') = Inr o'
                 else outcome_of CONFLICT (adopt_generation row i) (Some a) (Some ''action_already_settled'') = Inr o')
            else e = put_action (observed_action now ob a) (put_execution (adopt_generation row i) d)
              \<and> outcome_of APPLIED (adopt_generation row i) (Some (observed_action now ob a)) None = Inr o'))"
proof -
  have no_action: "oc_action x = None \<and> oc_kind x = CONFLICT"
    if "conflict row reason = Inr x \<or> live_refusal d i reason = Inr x" for row reason x
    using that by (auto simp: live_refusal_def conflict_def unbound_conflict_def outcome_of_def
        split: option.splits sum.splits if_splits)
  show ?thesis
    using assms no_action
    by (auto simp: record_observation_def Let_def split: option.splits if_splits)
qed

text \<open>The answer and the action table after a report on action \<open>a\<close>.\<close>

definition observation_effect ::
    "pydt \<Rightarrow> observation \<Rightarrow> action_row \<Rightarrow> action_record \<Rightarrow> execution_outcome \<Rightarrow> action_row list \<Rightarrow> action_row list \<Rightarrow> bool" where
  "observation_effect now ob a ar o' acts acts' \<longleftrightarrow>
     (if settled a
      then acts' = acts \<and> to_action_record a = Inr ar
        \<and> (oc_kind o', oc_reason o')
          = (if same_observation ob a then (APPLIED, Some ''observation_already_recorded'')
             else (CONFLICT, Some ''action_already_settled''))
      else oc_kind o' = APPLIED \<and> oc_reason o' = None
        \<and> acts' = update_where (\<lambda>x. ac_id x = ac_id a) (\<lambda>_. observed_action now ob a) acts
        \<and> to_action_record (observed_action now ob a) = Inr ar
        \<and> ar_status ar = observed_status (ob_outcome ob)
        \<and> resolved ar = (ob_outcome ob \<noteq> INDETERMINATE))"

lemma observed_effect:
  assumes "if settled a
      then e = put_execution row d
        \<and> (if same_observation ob a
           then outcome_of APPLIED row (Some a) (Some ''observation_already_recorded'') = Inr o'
           else outcome_of CONFLICT row (Some a) (Some ''action_already_settled'') = Inr o')
      else e = put_action (observed_action now ob a) (put_execution row d)
        \<and> outcome_of APPLIED row (Some (observed_action now ob a)) None = Inr o'"
  shows "\<exists>ar. oc_action o' = Some ar \<and> observation_effect now ob a ar o' (actions d) (actions e)"
proof (cases "settled a")
  case True
  with assms show ?thesis
    by (cases "same_observation ob a")
      (auto simp: observation_effect_def dest!: outcome_of_action)
next
  case False
  with assms have "oc_kind o' = APPLIED" "oc_reason o' = None"
      "\<exists>ar. to_action_record (observed_action now ob a) = Inr ar \<and> oc_action o' = Some ar"
    using outcome_of_kind outcome_of_action by auto
  with False assms show ?thesis
    using observed_record by (auto simp: observation_effect_def put_action_def)
qed

text \<open>
  An observation settles an action only as it was reported. When it returns no action it
  has changed none; when it marks the report as a repeat or as contradicting a settled action it
  has changed none either, and that action was settled already; otherwise exactly that action is
  replaced by the report applied to it, in the status of the reported outcome, so an
  indeterminate report leaves the action unresolved.
\<close>

theorem observation_outcome:
  "case record_observation dg now i ob d of (x, e) \<Rightarrow>
     (case x of Inl _ \<Rightarrow> True
      | Inr o' \<Rightarrow>
         (case oc_action o' of
            None \<Rightarrow> e = d \<and> oc_kind o' = CONFLICT
          | Some ar \<Rightarrow> (\<exists>row a. execution_for d i = Some row
              \<and> action_for_key d row (ob_key ob) = Some a
              \<and> observation_effect now ob a ar o' (actions d) (actions e))))"
proof -
  obtain x e where r: "record_observation dg now i ob d = (x, e)" by (cases "record_observation dg now i ob d")
  have same: "action_for_key d (adopt_generation row i) k = action_for_key d row k" for row k
    by (simp add: action_for_key_def)
  show ?thesis
  proof (cases x)
    case (Inl err)
    with r show ?thesis by simp
  next
    case (Inr o')
    from observeD [OF r [unfolded Inr]]
    have "(oc_action o' = None \<and> e = d \<and> oc_kind o' = CONFLICT)
      \<or> (\<exists>ar row a. oc_action o' = Some ar \<and> execution_for d i = Some row
          \<and> action_for_key d row (ob_key ob) = Some a
          \<and> observation_effect now ob a ar o' (actions d) (actions e))"
      using observed_effect unfolding same by blast
    with r Inr show ?thesis by auto
  qed
qed

text \<open>
  Which replay is recognised. Repeating a settling report right after it was applied is
  answered as already recorded exactly when the report carries a receipt and a detail of its
  own, or leaves out one that the action did not have before either. A report without a receipt
  on an action that an earlier, indeterminate look gave one is not recognised, and its repetition
  is refused as contradicting the settled action.
\<close>

theorem replay_recognised:
  "same_observation ob (observed_action now ob a)
   = ((truthy (ob_receipt ob) \<or> ob_receipt ob = ac_receipt a)
      \<and> (truthy (ob_detail ob)
         \<or> jget (case ac_detail a of None \<Rightarrow> [] | Some fs \<Rightarrow> fs) ''observation'' = jopt (ob_detail ob)))"
  by (auto simp: same_observation_def observed_action_def jget_def split: option.splits)

section \<open>Disclosure\<close>

lemma to_record_names: "to_record row = Inr rec \<Longrightarrow> er_org rec = ex_org row \<and> er_claim rec = ex_claim row"
  by (auto simp: to_record_def split: option.splits sum.splits)

definition discloses :: "execution_identity \<Rightarrow> pyexc + execution_outcome \<Rightarrow> bool" where
  "discloses i x = (case x of Inl _ \<Rightarrow> True
     | Inr o' \<Rightarrow> (case oc_record o' of None \<Rightarrow> True
         | Some rec \<Rightarrow> er_org rec = id_org i \<and> er_claim rec = id_claim i))"

lemma discloses_Inl [simp]: "discloses i (Inl e)"
  by (simp add: discloses_def)

lemma discloses_unbound [simp]: "discloses i (Inr (unbound_conflict reason))"
  by (simp add: discloses_def unbound_conflict_def)

lemma discloses_outcome:
  "ex_org row = id_org i \<Longrightarrow> ex_claim row = id_claim i \<Longrightarrow> discloses i (outcome_of k row a reason)"
  by (auto simp: discloses_def split: sum.split option.split dest!: outcome_of_record to_record_names)

lemma discloses_conflict:
  assumes "ex_org row = id_org i" "ex_claim row = id_claim i"
  shows "discloses i (conflict row reason)"
  using discloses_outcome [OF assms] by (simp add: conflict_def)

lemma discloses_binding:
  assumes "binding_conflict row i = Some reason"
  shows "discloses i (conflict row reason)"
proof (cases "ex_org row = id_org i \<and> ex_claim row = id_claim i")
  case True
  then show ?thesis by (intro discloses_conflict) simp_all
next
  case False
  then have "withheld reason"
    using assms by (auto simp: binding_conflict_def withheld_def split: if_splits)
  then show ?thesis by (simp add: conflict_def)
qed

lemma binding_names: "binding_conflict row i = None \<Longrightarrow> ex_org row = id_org i \<and> ex_claim row = id_claim i"
  by (auto simp: binding_conflict_def split: if_splits)

lemma discloses_live: "discloses i (live_refusal d i reason)"
  by (auto simp: live_refusal_def intro: discloses_conflict split: option.split)

lemmas discloses_rules = discloses_outcome discloses_conflict discloses_binding discloses_live

lemma discloses_adopt:
  "ex_org row = id_org i \<Longrightarrow> ex_claim row = id_claim i \<Longrightarrow> discloses i (outcome_of k (adopt_generation row i) a reason)"
  by (rule discloses_outcome) simp_all

lemma discloses_existing: "discloses i (fst (adopt_existing row i d))"
  by (auto simp: adopt_existing_def Let_def split: option.split dest!: binding_names
      intro: discloses_binding discloses_adopt)

lemma discloses_fresh: "discloses i (outcome_of k (fresh_execution now nid i f ph nc dl) a reason)"
  by (rule discloses_outcome) (simp_all add: fresh_execution_def)

text \<open>
  A record is returned only to a caller that already named its tenant and its claim:
  whatever creating, loading, preparing, observing or advancing answers, a record in the answer
  belongs to the identity's own tenant and claim.
\<close>

theorem records_stay_with_their_claim:
  "discloses i (fst (create_execution dg now nid erace i f ph nc dl d))
   \<and> discloses i (case load_execution dg d i run cl of Inr (Some o') \<Rightarrow> Inr o' | _ \<Rightarrow> Inl ValueError)
   \<and> discloses i (fst (prepare_action dg now nid race i intent d))
   \<and> discloses i (fst (record_observation dg now i ob d))
   \<and> discloses i (fst (advance_execution dg env i adv args d))"
proof (intro conjI)
  show "discloses i (fst (create_execution dg now nid erace i f ph nc dl d))"
    by (auto simp: create_execution_def Let_def split: option.split
        intro: discloses_live discloses_existing discloses_fresh)
  have lift: "discloses i (case map_sum id Some x of Inr (Some o') \<Rightarrow> Inr o' | _ \<Rightarrow> Inl ValueError)"
    if "discloses i x" for x
    using that by (cases x) auto
  show "discloses i (case load_execution dg d i run cl of Inr (Some o') \<Rightarrow> Inr o' | _ \<Rightarrow> Inl ValueError)"
    by (auto simp: load_execution_def split: option.split dest!: binding_names
        intro!: lift intro: discloses_live discloses_binding discloses_outcome)
  show "discloses i (fst (prepare_action dg now nid race i intent d))"
    by (auto simp: prepare_action_def Let_def split: option.split dest!: binding_names
        intro: discloses_live discloses_binding discloses_adopt discloses_conflict)
  show "discloses i (fst (record_observation dg now i ob d))"
    by (auto simp: record_observation_def Let_def split: option.split dest!: binding_names
        intro: discloses_live discloses_binding discloses_adopt)
  show "discloses i (fst (advance_execution dg env i adv args d))"
  proof (cases "advance_check dg i adv args d")
    case (Inl x)
    then have "discloses i x"
      by (auto simp: advance_check_def split: if_splits option.splits dest!: binding_names
          intro: discloses_live discloses_binding discloses_outcome)
    then show ?thesis by (simp add: advance_refused [OF Inl])
  next
    case (Inr row)
    have names: "ex_org row = id_org i \<and> ex_claim row = id_claim i"
      using advance_check_row(2) [OF Inr] by (rule binding_names)
    have "discloses i (fst (finish_advance dg env i args (advanced_to env i adv args row) e))" for e
      using finish_kind [of dg env i args "advanced_to env i adv args row" e] to_record_names names
      by (fastforce simp: discloses_def split: sum.split option.split)
    then show ?thesis
      using Inr by (cases "schedulable adv args") (simp_all add: advance_unscheduled advance_written)
  qed
qed

section \<open>Settlement authority, pauses and intents\<close>

lemma settlement_status:
  assumes "aa_released_run args \<noteq> None \<or> aa_closing args" "advance_check dg i adv args d = Inr row"
  shows "effective_status adv args = CONCLUDED" "aa_intent args = None" "schedulable adv args"
    "aa_released_run args \<noteq> None \<longrightarrow> \<not> ad_consume adv"
  using assms(1) advance_check_row(4,5) [OF assms(2)]
  by (auto simp: settlement_shape_def effective_status_def schedulable_def no_next_check_def)

text \<open>
  The two settlement exceptions can do nothing but conclude. An advance under
  released-failure authority or one that closes a superseded lane touches no action and no
  claim; either it changes nothing, or the execution it names is concluded afterwards, without a
  next check, and under released-failure authority without a consumed attempt.
\<close>

theorem settlement_only_concludes:
  "if aa_released_run args = None \<and> \<not> aa_closing args then True
   else case advance_execution dg env i adv args d of (x, e) \<Rightarrow>
     actions e = actions d \<and> claims e = claims d
     \<and> (if e = d then True
        else (\<exists>row row'. execution_for d i = Some row \<and> execution_for e i = Some row'
          \<and> ex_status row' = ''concluded'' \<and> ex_next_check row' = None
          \<and> (if aa_released_run args = None then True else ex_attempts row' = ex_attempts row)))"
proof (cases "aa_released_run args \<noteq> None \<or> aa_closing args")
  case False
  then show ?thesis by simp
next
  case True
  show ?thesis
  proof (cases "advance_check dg i adv args d")
    case (Inl x)
    then show ?thesis by (simp add: advance_refused)
  next
    case (Inr row)
    note st = settlement_status [OF True Inr]
    let ?row' = "advanced_to env i adv args row"
    have e: "snd (advance_execution dg env i adv args d) = advanced_db env i adv args row d"
      using st(2) by (simp add: advance_written [OF Inr st(3)])
    have "execution_for (advanced_db env i adv args row d) i = Some ?row'"
      using advance_check_row(1) [OF Inr] by (rule advanced_db_execution)
    moreover have "ex_status ?row' = ''concluded''" "ex_next_check ?row' = None"
        "aa_released_run args \<noteq> None \<longrightarrow> ex_attempts ?row' = ex_attempts row"
      using st(1,4) by (auto simp: next_check_of_def no_next_check_def)
    ultimately show ?thesis
      using e advance_check_row(1) [OF Inr]
      by (cases "advance_execution dg env i adv args d") auto
  qed
qed

text \<open>
  A paused (or archived, or missing) flow consumes no attempt: an advance that would consume
  one is not applied and changes nothing.
\<close>

theorem paused_flow_consumes_no_attempt:
  "if ad_consume adv
      \<and> (case resolve_flow_id d i None of None \<Rightarrow> True | Some fid \<Rightarrow> flow_is_paused d (id_org i) fid)
   then \<not> wrote (fst (advance_execution dg env i adv args d))
     \<and> snd (advance_execution dg env i adv args d) = d
   else True"
proof -
  have "\<exists>x. advance_check dg i adv args d = Inl x"
    if "ad_consume adv" "case resolve_flow_id d i None of None \<Rightarrow> True | Some fid \<Rightarrow> flow_is_paused d (id_org i) fid"
    using that advance_check_row(6) by (cases "advance_check dg i adv args d") (fastforce split: option.splits)+
  moreover have "\<not> wrote x" if "advance_check dg i adv args d = Inl x" for x
    using advance_check_answer [OF that] refused_not_wrote not_wrote_stale by blast
  ultimately show ?thesis using advance_refused [of dg i adv args d] by fastforce
qed

text \<open>
  The phase moves together with the action scheduled around it: an advance with an intent
  that is answered as written leaves both the row one revision further and an action under the
  intent's key, which is the one returned and, unless a concurrent insert won, of the intent's
  kind.
\<close>

theorem advance_with_intent_is_atomic:
  "case aa_intent args of None \<Rightarrow> True
   | Some intent \<Rightarrow>
      (case advance_execution dg env i adv args d of (x, e) \<Rightarrow>
         (case x of Inl _ \<Rightarrow> True
          | Inr o' \<Rightarrow>
             if wrote (Inr o')
             then \<exists>row' a ar. execution_for e i = Some row' \<and> ex_revision row' = ad_revision adv + 1
               \<and> action_for_key e row' (in_key intent) = Some a \<and> to_action_record a = Inr ar
               \<and> oc_action o' = Some ar \<and> (ac_kind a = in_kind intent \<or> (\<exists>xs. av_race env = Some xs))
             else e = d))"
proof -
  obtain x e where r: "advance_execution dg env i adv args d = (x, e)"
    by (cases "advance_execution dg env i adv args d")
  have "\<exists>row' a ar. execution_for e i = Some row' \<and> ex_revision row' = ad_revision adv + 1
      \<and> action_for_key e row' (in_key intent) = Some a \<and> to_action_record a = Inr ar
      \<and> oc_action o' = Some ar \<and> (ac_kind a = in_kind intent \<or> (\<exists>xs. av_race env = Some xs))"
    if intent: "aa_intent args = Some intent" and x: "x = Inr o'" and w: "wrote (Inr o')" for intent o'
  proof -
    from w r x obtain row where row: "ex_revision row = ad_revision adv"
        "advance_execution dg env i adv args d
          = finish_advance dg env i args (advanced_to env i adv args row) (advanced_db env i adv args row d)"
        "execution_for e i = Some (advanced_to env i adv args row)" "execution_for d i = Some row"
      using advance_wroteD [of dg env i adv args d] by (metis fst_conv snd_conv)
    let ?row' = "advanced_to env i adv args row"
    let ?d1 = "advanced_db env i adv args row d"
    have "finish_advance dg env i args ?row' ?d1 = (Inr o', e)" using row(2) r x by simp
    then obtain p where p:
        "prepare_action dg (av_action_now env) (av_action_id env) (av_race env) i intent ?d1 = (Inr p, e)"
        "oc_kind p = APPLIED" "oc_action o' = oc_action p"
      using intent by (auto simp: finish_advance_def Let_def split: sum.splits prod.splits if_splits)
    obtain row1 a where a: "execution_for ?d1 i = Some row1"
        "action_for_key e (adopt_generation row1 i) (in_key intent) = Some a"
        "outcome_of APPLIED (adopt_generation row1 i) (Some a) (oc_reason p) = Inr p"
        "ac_kind a = in_kind intent \<or> av_race env \<noteq> None"
      using prepare_appliedD [OF p(1,2)] by metis
    have "row1 = ?row'" using a(1) advanced_db_execution [OF row(4)] by simp
    then have "adopt_generation row1 i = ?row'" by (simp add: adopt_generation_id)
    with a p(3) row(1,3) outcome_of_action [OF a(3)] show ?thesis by auto
  qed
  then show ?thesis
    using r advance_not_wrote [of dg env i adv args d]
    by (auto split: option.split sum.split)
qed

section \<open>The settlement writers\<close>

text \<open>
  Retiring a replaced admission changes that one row or nothing. It happens only for an
  admission that never acted: in the admitted phase, without attempts, receipts, pending key or
  any action row, in the exact generation and revision presented, whose claim has been released
  at a later generation by the same flow, and whose successor is concluded under that
  generation; the row keeps its attempts, claim, generation and plan version.
\<close>

theorem supersede_effect:
  "case supersede_replaced_admission now cn i er sid srev scy iss dec d of (ok, e) \<Rightarrow>
     if ok then \<exists>row s c. execution_for d i = Some row \<and> get_claim d (id_org i) (id_claim i) = Some c
         \<and> ex_phase row = ''admitted'' \<and> ex_attempts row = 0 \<and> ex_revision row = er
         \<and> ex_pending_key row = None \<and> ex_handoff row = None \<and> ex_notification row = None
         \<and> ex_generation row = id_generation i \<and> id_generation i < cl_generation c
         \<and> cl_state c = ''released'' \<and> cl_run c = None \<and> cl_owner_kind c = ''engine_flow''
         \<and> filter (\<lambda>a. ac_org a = id_org i \<and> ac_execution a = ex_id row) (actions d) = []
         \<and> s \<in> set (executions d) \<and> ex_id s = sid \<and> ex_node s = id_node i \<and> id_cycle i < ex_cycle s
         \<and> ex_status s = ''concluded'' \<and> ex_claim s = cl_id c \<and> ex_generation s = cl_generation c
         \<and> e = put_execution (retired_row now row s) d
     else e = d"
proof -
  have none: "filter P xs = []" if "find P xs = None" for P and xs :: "action_row list"
    using that by (simp add: find_None_iff' filter_empty_conv)
  show ?thesis
    by (auto simp: supersede_replaced_admission_def Let_def bare_admission_def replaced_claim_ok_def
        successor_ok_def none split: option.splits dest!: find_SomeD)
qed

lemma retired_row_effect:
  "ex_status (retired_row now row s) = ''superseded'' \<and> ex_next_check (retired_row now row s) = None
   \<and> ex_attempts (retired_row now row s) = ex_attempts row
   \<and> ex_generation (retired_row now row s) = ex_generation row"
  by (simp add: retired_row_def)

lemma settle_advance_effect:
  assumes "advance_execution dg env i (settle_advance er) (no_args\<lparr>aa_released_run := Some rv\<rparr>) d = (Inr o', e)"
  shows "if oc_kind o' = APPLIED
    then \<exists>row'. execution_for e i = Some row' \<and> ex_status row' = ''concluded'' \<and> actions e = actions d
      \<and> claims e = claims d \<and> (\<exists>row. execution_for d i = Some row \<and> ex_attempts row' = ex_attempts row
          \<and> ex_id row' = ex_id row)
    else e = d"
proof -
  let ?adv = "settle_advance er"
  let ?args = "no_args\<lparr>aa_released_run := Some rv\<rparr>"
  have s: "schedulable ?adv ?args" "effective_status ?adv ?args = CONCLUDED" "aa_intent ?args = None"
      "\<not> ad_consume ?adv" "aa_block ?args = None"
    by (simp_all add: schedulable_def effective_status_def no_args_def settle_advance_def no_next_check_def)
  show ?thesis
  proof (cases "wrote (Inr o')")
    case True
    with assms obtain row where row: "execution_for d i = Some row"
        "advance_execution dg env i ?adv ?args d
          = finish_advance dg env i ?args (advanced_to env i ?adv ?args row) (advanced_db env i ?adv ?args row d)"
        "execution_for e i = Some (advanced_to env i ?adv ?args row)"
      using advance_wroteD [of dg env i ?adv ?args d] by (metis fst_conv snd_conv)
    have e: "e = advanced_db env i ?adv ?args row d"
      using row(2) assms finish_no_intent [OF s(3)] by (metis snd_conv)
    have "fst (finish_advance dg env i ?args (advanced_to env i ?adv ?args row)
        (advanced_db env i ?adv ?args row d)) = Inr o'"
      using row(2) assms by (metis fst_conv)
    from finish_kind [OF this] s(5) have "oc_kind o' = APPLIED" by simp
    moreover have "actions e = actions d" "claims e = claims d" by (simp_all add: e)
    ultimately show ?thesis using row(1,3) s(2,4) by auto
  next
    case False
    with advance_not_wrote [of dg env i ?adv ?args d o'] assms show ?thesis by (auto simp: wrote_def)
  qed
qed

text \<open>
  Settling an observed merge concludes the execution and records exactly one merge action,
  already succeeded, for an execution that had none; it consumes no attempt and writes no claim.
  Every answer other than applied leaves the store unchanged.
\<close>

theorem settle_merge_effect:
  "case settle_released_merge dg vdg env i er rv ra r v d of (x, e) \<Rightarrow>
     (case x of Inl _ \<Rightarrow> True
      | Inr o' \<Rightarrow>
         if oc_kind o' = APPLIED
         then \<exists>row row' a. execution_for d i = Some row \<and> execution_for e i = Some row'
           \<and> ex_status row' = ''concluded'' \<and> ex_attempts row' = ex_attempts row
           \<and> filter (\<lambda>a. ac_org a = id_org i \<and> ac_execution a = ex_id row \<and> ac_kind a = merge_kind) (actions d) = []
           \<and> actions e = actions d @ [a] \<and> ac_execution a = ex_id row \<and> ac_kind a = merge_kind
           \<and> ac_status a = ''succeeded'' \<and> claims e = claims d
         else e = d)"
proof -
  have none: "filter P xs = []" if "find P xs = None" for P and xs :: "action_row list"
    using that by (simp add: find_None_iff' filter_empty_conv)
  have kinds: "oc_kind o' \<noteq> APPLIED" if "conflict row reason = Inr o'" for row reason o'
    using that refused_conflict [of row reason] by (auto simp: refused_def)
  show ?thesis
    using settle_advance_effect [of dg env i er rv d] kinds
    by (auto simp: settle_released_merge_def Let_def unbound_conflict_def none merge_action_def
        split: sum.splits option.splits prod.splits if_splits)
qed

end
