(* ===== verification/Liveness.thy ===== *)
theory Liveness
  imports Prelude
begin

text \<open>
  The three-value liveness verdict of an agent run (\<open>activity/liveness.py\<close>). An exit is only
  ever reported for a status that was positively observed to be terminal; the freshness of an
  active run is a comparison of ISO-8601 texts, for which the cutoff is formatted here from the
  calendar date of an instant.
\<close>

datatype liveness_verdict = Live | Unverifiable | Exited

fun verdict_value :: "liveness_verdict \<Rightarrow> string" where
  "verdict_value Live = ''live''"
| "verdict_value Unverifiable = ''unverifiable''"
| "verdict_value Exited = ''exited''"

definition observed_terminal_statuses :: "string list" where
  "observed_terminal_statuses = [''complete'', ''failed'', ''rejected'', ''rate_limited'', ''no_op'',
     ''blocked'', ''skipped'', ''budget_stopped'', ''aborted'']"

definition active_statuses :: "string list" where
  "active_statuses = [''in_progress'', ''webhook_received'']"

definition active_staleness_hours :: int where
  "active_staleness_hours = 24"

section \<open>Calendar text\<close>

text \<open>Year, month and day of a day counted from 1970-01-01.\<close>

definition civil_from_days :: "int \<Rightarrow> int \<times> int \<times> int" where
  "civil_from_days n =
     (let z = n + 719468; era = z div 146097; doe = z mod 146097;
          yoe = (doe - doe div 1460 + doe div 36524 - doe div 146096) div 365;
          doy = doe - (365 * yoe + yoe div 4 - yoe div 100);
          mp = (5 * doy + 2) div 153;
          d = doy - (153 * mp + 2) div 5 + 1;
          m = (if mp < 10 then mp + 3 else mp - 9);
          y = yoe + era * 400 + (if m \<le> 2 then 1 else 0) in (y, m, d))"

definition two_digits :: "int \<Rightarrow> string" where
  "two_digits n = (if n < 10 then ''0'' @ int_text n else int_text n)"

text \<open>\<open>strftime("%Y-%m-%dT%H:%M:%SZ")\<close> of an instant in microseconds.\<close>

definition iso_text :: "int \<Rightarrow> string" where
  "iso_text us =
     (let s = us div 1000000; (y, m, d) = civil_from_days (s div 86400); r = s mod 86400 in
      int_text y @ ''-'' @ two_digits m @ ''-'' @ two_digits d @ ''T''
      @ two_digits (r div 3600) @ '':'' @ two_digits (r mod 3600 div 60) @ '':''
      @ two_digits (r mod 60) @ ''Z'')"

section \<open>The verdict\<close>

text \<open>The regular expression \<open>^\d{4}-\d{2}-\d{2}T\d{2}:\d{2}\<close>; \<open>0\<close> stands for a digit.\<close>

definition iso_shape :: string where
  "iso_shape = ''0000-00-00T00:00''"

definition iso_prefix :: "string \<Rightarrow> bool" where
  "iso_prefix s \<longleftrightarrow> length iso_shape \<le> length s
     \<and> list_all2 (\<lambda>p c. if p = CHR ''0'' then digit c else c = p) iso_shape (take (length iso_shape) s)"

definition last_signal_at :: "string option \<Rightarrow> string option \<Rightarrow> string" where
  "last_signal_at arrived updated = or_else updated (or_else arrived '''')"

definition within_staleness_window :: "string \<Rightarrow> pydt \<Rightarrow> int \<Rightarrow> bool" where
  "within_staleness_window signal now hours \<longleftrightarrow>
     signal \<noteq> [] \<and> iso_prefix signal \<and> iso_text (stamp now - hours * 3600000000) \<le> signal"

definition compute_liveness :: "string option \<Rightarrow> string \<Rightarrow> pydt \<Rightarrow> string option \<Rightarrow> liveness_verdict" where
  "compute_liveness status arrived now updated =
     (if status \<in> Some ` set observed_terminal_statuses then Exited
      else if status \<in> Some ` set active_statuses then
        (if within_staleness_window (last_signal_at (Some arrived) updated) now active_staleness_hours
         then Live else Unverifiable)
      else Unverifiable)"

section \<open>Properties\<close>

lemma exited_iff:
  "compute_liveness status arrived now updated = Exited
   \<longleftrightarrow> status \<in> Some ` set observed_terminal_statuses"
  by (simp add: compute_liveness_def)

text \<open>
  Loss of contact is never read as an exit. The verdict is exited exactly for the statuses a
  component observed as terminal, whatever the timestamps say; it is live only for an active
  status whose latest signal has the shape of a timestamp and is not older than the cutoff.
\<close>

theorem liveness_verdict:
  "(compute_liveness status arrived now updated = Exited) = (status \<in> Some ` set observed_terminal_statuses)
   \<and> (compute_liveness status arrived now updated = Live)
     = (status \<in> Some ` set active_statuses
        \<and> iso_prefix (last_signal_at (Some arrived) updated)
        \<and> iso_text (stamp now - 86400000000) \<le> last_signal_at (Some arrived) updated)"
  by (auto simp: compute_liveness_def within_staleness_window_def active_staleness_hours_def
      observed_terminal_statuses_def active_statuses_def iso_prefix_def iso_shape_def)

lemma iso_text_sample: "iso_text 951827696000000 = ''2000-02-29T12:34:56Z''"
  by code_simp

end
