(* ===== verification/Work_Claims.thy ===== *)
theory Work_Claims
  imports Execution_Store Liveness "HOL-Library.Product_Lexorder"
begin

text \<open>
  Admission and ownership of work (\<open>orchestration/work_claims.py\<close>): one claim row per tenant,
  repository and issue, whose generation fences superseded workers, with the checks that keep a
  lane from being released while its continuation is outstanding (\<open>handoff.py\<close>,
  \<open>pr_bindings.py\<close>, \<open>delivery_claim.py\<close>, \<open>review_cycle_dispatch.py\<close>).

  Parameters: the two \<open>uuid5\<close> derivations of a continuation, \<open>parse_receipt\<close> (what the
  validation library makes of the fields of a decoded merge receipt), and the run liveness
  resolver. The verdict of \<open>delivery_recovery.verified_bridge\<close> and of the recovery verifiers of
  \<open>continue_run\<close>, which are large components of their own, is an argument too.
\<close>

section \<open>Vocabulary\<close>

datatype owner_kind = ENGINE_FLOW | DIRECT_DISPATCH

datatype disposition = DADMITTED | DUPLICATE | DCONFLICT | DBLOCKED

datatype release_reason = RrCOMPLETED | RrFAILED | RrABANDONED | RrHANDOVER

fun owner_kind_value :: "owner_kind \<Rightarrow> string" where
  "owner_kind_value ENGINE_FLOW = ''engine_flow''"
| "owner_kind_value DIRECT_DISPATCH = ''direct_dispatch''"

fun release_value :: "release_reason \<Rightarrow> string" where
  "release_value RrCOMPLETED = ''completed''"
| "release_value RrFAILED = ''failed''"
| "release_value RrABANDONED = ''abandoned''"
| "release_value RrHANDOVER = ''handover''"

record claim_binding =
  cb_org :: string
  cb_repo :: int
  cb_issue :: int

definition make_binding :: "string \<Rightarrow> pynum \<Rightarrow> pynum \<Rightarrow> pyexc + claim_binding" where
  "make_binding org repo issue =
     (if blank org then Inl (WorkClaimError ''invalid_binding'')
      else if \<not> int_at_least 1 repo then Inl (WorkClaimError ''invalid_binding'')
      else if \<not> int_at_least 1 issue then Inl (WorkClaimError ''invalid_binding'')
      else Inr \<lparr>cb_org = org, cb_repo = the_int repo, cb_issue = the_int issue\<rparr>)"

record claim_owner =
  ow_kind :: owner_kind
  ow_ref :: string

definition make_owner :: "owner_kind \<Rightarrow> string \<Rightarrow> pyexc + claim_owner" where
  "make_owner kind ref =
     (if blank ref then Inl (WorkClaimError ''invalid_owner'') else Inr \<lparr>ow_kind = kind, ow_ref = ref\<rparr>)"

record claim_receipt =
  rc_disposition :: disposition
  rc_claim :: "string option"
  rc_generation :: "int option"
  rc_reason :: "string option"
  rc_holder :: "string option"

definition receipt_of :: "disposition \<Rightarrow> claim_row \<Rightarrow> string option \<Rightarrow> string option \<Rightarrow> claim_receipt" where
  "receipt_of disp c reason holder =
     \<lparr>rc_disposition = disp, rc_claim = Some (cl_id c), rc_generation = Some (cl_generation c),
      rc_reason = reason, rc_holder = holder\<rparr>"

definition admitted :: "claim_receipt \<Rightarrow> bool" where
  "admitted r \<longleftrightarrow> rc_disposition r = DADMITTED"

section \<open>Admission\<close>

definition locked_claim :: "db \<Rightarrow> claim_binding \<Rightarrow> claim_row option" where
  "locked_claim d b =
     find (\<lambda>c. cl_org c = cb_org b \<and> cl_repo c = cb_repo b \<and> cl_issue c = cb_issue b) (claims d)"

definition fresh_claim ::
    "pydt \<Rightarrow> string \<Rightarrow> claim_binding \<Rightarrow> claim_owner \<Rightarrow> string \<Rightarrow> int \<Rightarrow> claim_row" where
  "fresh_claim now new_id b owner event lease =
     \<lparr>cl_id = new_id, cl_org = cb_org b, cl_repo = cb_repo b, cl_issue = cb_issue b,
      cl_owner_kind = owner_kind_value (ow_kind owner), cl_owner_ref = ow_ref owner,
      cl_state = ''held'', cl_generation = 1, cl_run = None, cl_event = Some event,
      cl_claimed_at = now, cl_heartbeat = Some now, cl_lease = Some (plus_seconds now lease),
      cl_release_reason = None, cl_released_at = None\<rparr>"

definition readmitted :: "pydt \<Rightarrow> claim_owner \<Rightarrow> string \<Rightarrow> int \<Rightarrow> claim_row \<Rightarrow> claim_row" where
  "readmitted now owner event lease c =
     c\<lparr>cl_owner_kind := owner_kind_value (ow_kind owner), cl_owner_ref := ow_ref owner,
       cl_state := ''held'', cl_generation := cl_generation c + 1, cl_run := None,
       cl_event := Some event, cl_claimed_at := now, cl_heartbeat := Some now,
       cl_lease := Some (plus_seconds now lease), cl_release_reason := None, cl_released_at := None\<rparr>"

text \<open>\<open>race\<close>: the insert lost against claims that another transaction committed.\<close>

definition claim_work ::
    "pydt \<Rightarrow> string \<Rightarrow> claim_row list option \<Rightarrow> claim_binding \<Rightarrow> claim_owner \<Rightarrow> string option \<Rightarrow> int
     \<Rightarrow> (db, claim_receipt) op" where
  "claim_work now new_id race b owner event_id lease d =
     (if blank_opt event_id then (Inl (WorkClaimError ''missing_event_id''), d)
      else
        let event = strip (the event_id) in
        (case locked_claim d b of
           None \<Rightarrow>
             (case race of
                Some committed \<Rightarrow> (Inl (WorkClaimError ''claim_race_lost''), d\<lparr>claims := claims d @ committed\<rparr>)
              | None \<Rightarrow> let c = fresh_claim now new_id b owner event lease in
                  (Inr (receipt_of DADMITTED c None None), d\<lparr>claims := claims d @ [c]\<rparr>))
         | Some c \<Rightarrow>
             if truthy (cl_event c) \<and> cl_event c = Some event
             then (Inr (receipt_of DUPLICATE c (Some ''event_already_admitted'') None), d)
             else if cl_state c = ''held'' then
               (Inr (receipt_of DCONFLICT c
                  (Some (if lapsed_by (as_aware (cl_lease c)) now then ''held_lease_lapsed''
                         else ''held_by_other_owner'')) (Some (cl_owner_ref c))), d)
             else if cl_state c \<noteq> ''released'' then
               (Inr (receipt_of DBLOCKED c (Some ''unrecognised_claim_state'') None), d)
             else let c' = readmitted now owner event lease c in
               (Inr (receipt_of DADMITTED c' None None), put_claim c' d)))"

section \<open>Binding and heartbeat\<close>

definition bind_run :: "pydt \<Rightarrow> string \<Rightarrow> string \<Rightarrow> int \<Rightarrow> string option \<Rightarrow> (db, claim_receipt) op" where
  "bind_run now org claim_id generation run_id d =
     (if blank_opt run_id then (Inl (WorkClaimError ''missing_run_id''), d)
      else
        let run = strip (the run_id) in
        (case get_claim d org claim_id of
           None \<Rightarrow> (Inl (WorkClaimError ''unknown_claim''), d)
         | Some c \<Rightarrow>
             if cl_generation c \<noteq> generation
             then (Inr (receipt_of DBLOCKED c (Some ''stale_generation'') None), d)
             else if cl_state c \<noteq> ''held''
             then (Inr (receipt_of DBLOCKED c (Some ''claim_not_held'') None), d)
             else if truthy (cl_run c) \<and> cl_run c \<noteq> Some run
             then (Inr (receipt_of DBLOCKED c (Some ''run_already_bound'') (cl_run c)), d)
             else let c' = c\<lparr>cl_run := Some run, cl_heartbeat := Some now\<rparr> in
               (Inr (receipt_of DADMITTED c' None None), put_claim c' d)))"

definition heartbeat :: "pydt \<Rightarrow> string \<Rightarrow> string \<Rightarrow> int \<Rightarrow> int \<Rightarrow> (db, claim_receipt) op" where
  "heartbeat now org claim_id generation lease d =
     (case get_claim d org claim_id of
        None \<Rightarrow> (Inl (WorkClaimError ''unknown_claim''), d)
      | Some c \<Rightarrow>
          if cl_generation c \<noteq> generation \<or> cl_state c \<noteq> ''held''
          then (Inr (receipt_of DBLOCKED c
                  (Some (if cl_generation c \<noteq> generation then ''stale_generation'' else ''claim_not_held'')) None), d)
          else let c' = c\<lparr>cl_heartbeat := Some now, cl_lease := Some (plus_seconds now lease)\<rparr> in
            (Inr (receipt_of DADMITTED c' None None), put_claim c' d))"

section \<open>What still rests on a claim\<close>

text \<open>\<open>handoff_receipt_ref\<close>; raises when the reference exceeds the column.\<close>

definition handoff_receipt_ref :: "execution_identity \<Rightarrow> string \<Rightarrow> pyexc + string" where
  "handoff_receipt_ref i execution_id =
     (let ref = ''handoff:execution='' @ execution_id @ '':cycle='' @ int_text (id_cycle i)
            @ '':plan='' @ int_text (id_plan_version i) @ '':claim='' @ id_claim i
            @ '':generation='' @ int_text (id_generation i) in
      if length ref > 255 then Inl ValueError else Inr ref)"

definition row_identity :: "execution_row \<Rightarrow> pyexc + execution_identity" where
  "row_identity r = make_identity (Some (ex_org r)) (Some (ex_node r)) (PyInt (ex_cycle r))
     (PyInt (ex_plan_version r)) (Some (ex_claim r)) (PyInt (ex_generation r))"

definition live_status :: "execution_row \<Rightarrow> bool" where
  "live_status r \<longleftrightarrow> ex_status r \<notin> status_value ` set terminal_execution_statuses"

fun first_continuation :: "execution_row list \<Rightarrow> pyexc + execution_row option" where
  "first_continuation [] = Inr None"
| "first_continuation (r # rs) =
     (case row_identity r of Inl e \<Rightarrow> Inl e
      | Inr i \<Rightarrow> (case handoff_receipt_ref i (ex_id r) of Inl e \<Rightarrow> Inl e
         | Inr ref \<Rightarrow> if ex_handoff r = Some ref then Inr (Some r) else first_continuation rs))"

definition outstanding_continuation :: "db \<Rightarrow> string \<Rightarrow> string \<Rightarrow> int \<Rightarrow> pyexc + execution_row option" where
  "outstanding_continuation d org claim_id generation =
     first_continuation (rev (sort_key ex_cycle (filter
       (\<lambda>r. ex_org r = org \<and> ex_claim r = claim_id \<and> ex_generation r = generation
          \<and> ex_handoff r \<noteq> None \<and> live_status r) (executions d))))"

text \<open>\<open>json.loads(text)\<close> as a dict with \<open>get\<close>; \<open>json.loads(None)\<close> raises.\<close>

definition loads_dict :: "jtext option \<Rightarrow> pyexc + fields" where
  "loads_dict t =
     (case t of None \<Rightarrow> Inl TypeError
      | Some x \<Rightarrow> (case decoded x of None \<Rightarrow> Inl ValueError
         | Some j \<Rightarrow> (case jfields j of None \<Rightarrow> Inl AttributeError | Some fs \<Rightarrow> Inr fs)))"

text \<open>\<open>json.loads(text or "{}")\<close>.\<close>

definition loads_or_empty :: "jtext option \<Rightarrow> pyexc + fields" where
  "loads_or_empty t =
     (case t of None \<Rightarrow> Inr [] | Some x \<Rightarrow> if raw_text x = [] then Inr [] else loads_dict t)"

definition node_scope :: "node_row \<Rightarrow> json" where
  "node_scope nd = JObj [(''kind'', JStr (nd_kind nd)), (''issue_ref'', jopt (nd_issue nd)), (''title'', JStr (nd_title nd))]"

definition binding_scope_matches :: "binding_row \<Rightarrow> node_row \<Rightarrow> pyexc + bool" where
  "binding_scope_matches b nd =
     (case pb_scope b of None \<Rightarrow> Inr False
      | Some t \<Rightarrow> if raw_text t = [] then Inr False
          else (case loads_dict (Some t) of Inl e \<Rightarrow> Inl e
                | Inr scope \<Rightarrow> Inr (jeq (jget scope ''node'') (node_scope nd))))"

text \<open>Executions of this claim generation that are not over, with their story nodes.\<close>

definition lane_rows :: "db \<Rightarrow> claim_row \<Rightarrow> string list \<Rightarrow> (execution_row \<times> node_row) list" where
  "lane_rows d c node_states =
     filter (\<lambda>(e, n). nd_id n = ex_node e \<and> ex_org e = cl_org c \<and> ex_flow e = cl_owner_ref c
         \<and> ex_claim e = cl_id c \<and> ex_generation e = cl_generation c \<and> live_status e
         \<and> nd_org n = cl_org c \<and> nd_flow n = cl_owner_ref c \<and> nd_kind n = ''story''
         \<and> nd_state n \<in> set node_states \<and> nd_attempts n = ex_cycle e)
       (List.product (executions d) (nodes d))"

definition handoff_required :: "fields \<Rightarrow> bool" where
  "handoff_required dispatch = jtruthy (jget dispatch ''handoff_required'')"

text \<open>One row of \<open>_unfinished_bound_review\<close>; what it raises is passed over.\<close>

definition bound_review_row :: "db \<Rightarrow> claim_row \<Rightarrow> execution_row \<Rightarrow> node_row \<Rightarrow> binding_row \<Rightarrow> bool" where
  "bound_review_row d c e n b =
     (case (loads_or_empty (pb_scope b), binding_scope_matches b n) of
        (Inr scope, Inr True) \<Rightarrow>
          jeq (jget scope ''accepted_plan_version'') (JInt (ex_plan_version e))
          \<and> (case jget scope ''dispatch_decision_id'' of
               JStr did \<Rightarrow> did \<noteq> []
                 \<and> (case get_decision d did of None \<Rightarrow> False
                    | Some dec \<Rightarrow>
                        dc_org dec = cl_org c \<and> dc_flow dec = cl_owner_ref c \<and> dc_node dec = Some (nd_id n)
                        \<and> dc_kind dec = ''node_dispatched'' \<and> dc_actor_kind dec = ''service''
                        \<and> (case loads_or_empty (dc_reason dec) of Inl _ \<Rightarrow> False
                           | Inr dispatch \<Rightarrow> handoff_required dispatch
                               \<and> jeq (jget dispatch ''attempt'') (JInt (ex_cycle e))
                               \<and> jget dispatch ''run_id'' = jopt (pb_run b)
                               \<and> jeq (jget dispatch ''issue'') (JInt (cl_issue c))))
             | _ \<Rightarrow> False)
      | _ \<Rightarrow> False)"

definition unfinished_bound_review :: "db \<Rightarrow> claim_row \<Rightarrow> bool" where
  "unfinished_bound_review d c \<longleftrightarrow>
     cl_owner_kind c = ''engine_flow''
     \<and> list_ex (\<lambda>(e, n). ex_handoff e = None
         \<and> list_ex (\<lambda>b. pb_node b = nd_id n \<and> pb_org b = cl_org c \<and> pb_flow b = cl_owner_ref c
              \<and> pb_attempt b = ex_cycle e \<and> pb_repo_id b = cl_repo c \<and> pb_role b = ''implementation''
              \<and> pb_state b = ''active'' \<and> bound_review_row d c e n b) (bindings d))
       (lane_rows d c [''running'', ''awaiting_merge''])"

definition active_binding_for_node :: "db \<Rightarrow> string \<Rightarrow> string \<Rightarrow> int \<Rightarrow> pyexc + binding_row option" where
  "active_binding_for_node d org node attempt =
     (case filter (\<lambda>b. pb_org b = org \<and> pb_node b = node \<and> pb_attempt b = attempt \<and> pb_state b = ''active'')
             (bindings d) of
        [] \<Rightarrow> Inr None
      | [b] \<Rightarrow> Inr (Some b)
      | _ \<Rightarrow> Inl (BindingError ''ambiguous_candidate''))"

text \<open>The active binding of the node's current attempt, if its scope and repository still match.\<close>

definition matching_binding :: "db \<Rightarrow> claim_row \<Rightarrow> node_row \<Rightarrow> pyexc + binding_row option" where
  "matching_binding d c n =
     (case active_binding_for_node d (cl_org c) (nd_id n) (nd_attempts n) of
        Inl e \<Rightarrow> Inl e
      | Inr None \<Rightarrow> Inr None
      | Inr (Some b) \<Rightarrow> (case binding_scope_matches b n of Inl e \<Rightarrow> Inl e
          | Inr ok \<Rightarrow> Inr (if ok \<and> pb_repo_id b = cl_repo c then Some b else None)))"

definition issue_number :: "node_row \<Rightarrow> int option" where
  "issue_number n = py_int (dropWhile (\<lambda>c. c = CHR ''#'') (case nd_issue n of None \<Rightarrow> ''None'' | Some s \<Rightarrow> s))"

section \<open>The committed reviewer\<close>

text \<open>\<open>uuid5\<close> of an operation key, for the continuation's run and for its receipt.\<close>

record uuids =
  u_run :: "string \<Rightarrow> string"
  u_receipt :: "string \<Rightarrow> string"

definition cycle_actor :: string where
  "cycle_actor = ''system:review-cycle''"

definition dispatch_kind :: string where
  "dispatch_kind = ''review_cycle_dispatch''"

definition newest_first :: "action_row list \<Rightarrow> action_row list" where
  "newest_first = (\<lambda>xs. rev (sort_key (\<lambda>a. (case ac_created a of None \<Rightarrow> 0 | Some t \<Rightarrow> stamp t, ac_id a)) xs))"

text \<open>\<open>d.get(key, {})\<close> followed by another \<open>get\<close>: None where the value has no \<open>get\<close>.\<close>

definition sub_dict :: "fields \<Rightarrow> string \<Rightarrow> fields option" where
  "sub_dict fs k = (case map_of fs k of None \<Rightarrow> Some [] | Some j \<Rightarrow> jfields j)"

text \<open>The receipt, the action and the rows agree in every field; False where a read raises.\<close>

definition reviewer_receipt_ok ::
    "claim_row \<Rightarrow> execution_row \<Rightarrow> node_row \<Rightarrow> binding_row \<Rightarrow> action_row \<Rightarrow> decision_row \<Rightarrow> bool" where
  "reviewer_receipt_ok c e n b a row =
     (case (loads_dict (dc_reason row), ac_detail a) of
        (Inr saved, Some detail) \<Rightarrow>
          (case sub_dict saved ''envelope'' of None \<Rightarrow> False
           | Some envelope \<Rightarrow>
              (case sub_dict envelope ''review_expect'' of None \<Rightarrow> False
               | Some expected \<Rightarrow>
                   dc_org row = cl_org c \<and> dc_flow row = cl_owner_ref c \<and> dc_node row = Some (nd_id n)
                   \<and> dc_actor_kind row = ''service'' \<and> dc_actor_id row = cycle_actor
                   \<and> dc_kind row = ''agent_dispatched''
                   \<and> jget saved ''run_id'' = jopt (cl_run c)
                   \<and> jget saved ''operation_key'' = JStr (ac_key a)
                   \<and> jget saved ''execution_id'' = JStr (ex_id e)
                   \<and> jeq (jget saved ''accepted_plan_version'') (JInt (ex_plan_version e))
                   \<and> jeq (jget saved ''claim_generation'') (JInt (cl_generation c))
                   \<and> jeq (jget saved ''action'') (jget detail ''action'')
                   \<and> jget saved ''action'' \<in> {JStr ''review'', JStr ''repair''}
                   \<and> jget envelope ''persona'' = JStr ''agent-codex-reviewer''
                   \<and> jget expected ''claim_id'' = JStr (cl_id c)
                   \<and> jeq (jget expected ''claim_generation'') (JInt (cl_generation c))
                   \<and> jget expected ''node_id'' = JStr (nd_id n)
                   \<and> jeq (jget expected ''cycle'') (JInt (ex_cycle e))
                   \<and> jget expected ''execution_id'' = JStr (ex_id e)
                   \<and> jget detail ''binding_id'' = JStr (pb_id b)
                   \<and> jget detail ''accepted_scope'' = jopt (map_option raw_text (pb_scope b))
                   \<and> issue_number n = Some (cl_issue c)))
      | _ \<Rightarrow> False)"

definition committed_reviewer_row ::
    "uuids \<Rightarrow> db \<Rightarrow> claim_row \<Rightarrow> execution_row \<Rightarrow> node_row \<Rightarrow> binding_row \<Rightarrow> bool" where
  "committed_reviewer_row u d c e n b =
     (case find (\<lambda>a. Some (u_run u (ac_key a)) = cl_run c)
             (take 101 (newest_first (filter (\<lambda>a. ac_org a = cl_org c \<and> ac_execution a = ex_id e
                \<and> ac_kind a = dispatch_kind) (actions d)))) of
        None \<Rightarrow> False
      | Some a \<Rightarrow> (case get_decision d (u_receipt u (ac_key a)) of None \<Rightarrow> False
          | Some row \<Rightarrow> reviewer_receipt_ok c e n b a row))"

text \<open>The first lane row whose test holds; a row whose binding cannot be read raises.\<close>

fun any_lane ::
    "(execution_row \<Rightarrow> node_row \<Rightarrow> binding_row \<Rightarrow> pyexc + bool) \<Rightarrow> db \<Rightarrow> claim_row
     \<Rightarrow> (execution_row \<times> node_row) list \<Rightarrow> pyexc + bool" where
  "any_lane test d c [] = Inr False"
| "any_lane test d c ((e, n) # rest) =
     (case matching_binding d c n of
        Inl err \<Rightarrow> Inl err
      | Inr None \<Rightarrow> any_lane test d c rest
      | Inr (Some b) \<Rightarrow> (case test e n b of
            Inl err \<Rightarrow> Inl err
          | Inr True \<Rightarrow> Inr True
          | Inr False \<Rightarrow> any_lane test d c rest))"

definition unfinished_committed_reviewer :: "uuids \<Rightarrow> db \<Rightarrow> claim_row \<Rightarrow> pyexc + bool" where
  "unfinished_committed_reviewer u d c =
     (if cl_owner_kind c \<noteq> ''engine_flow'' \<or> \<not> truthy (cl_run c) \<or> cl_event c \<noteq> cl_run c then Inr False
      else any_lane (\<lambda>e n b. Inr (committed_reviewer_row u d c e n b)) d c
             (lane_rows d c [''running'', ''awaiting_merge'']))"

section \<open>The delivery lane\<close>

definition delivery_phases :: "execution_phase list" where
  "delivery_phases = [DEPLOYMENT_PENDING, AWAITING_RUNTIME_VERIFICATION, EVALUATION_PENDING]"

type_synonym receipt_parser = "json \<Rightarrow> merge_receipt option"

text \<open>\<open>MergeReceipt.model_validate\<close> of a decoded value.\<close>

definition validated_receipt :: "receipt_parser \<Rightarrow> json \<Rightarrow> merge_receipt option" where
  "validated_receipt parse j =
     (case parse j of None \<Rightarrow> None
      | Some r \<Rightarrow> if receipt_fields_ok r \<and> chronological r then Some r else None)"

definition receipt_bound :: "merge_receipt \<Rightarrow> action_row \<Rightarrow> execution_row \<Rightarrow> node_row \<Rightarrow> binding_row \<Rightarrow> bool" where
  "receipt_bound r a e n b \<longleftrightarrow>
     mr_operation_key r = ac_key a \<and> mr_execution r = ex_id e \<and> mr_flow r = nd_flow n
     \<and> mr_repo r = pb_repo b \<and> mr_pr_number r = pb_pr_number b \<and> mr_repo_id r = pb_repo_id b
     \<and> mr_pr_node r = pb_pr_node b \<and> mr_head_sha r = pb_head_sha b"

definition starts_with :: "string \<Rightarrow> string \<Rightarrow> bool" where
  "starts_with p s \<longleftrightarrow> take (length p) s = p"

text \<open>
  The merge actions of one execution, in order; \<open>ValueError\<close> and \<open>TypeError\<close> end the execution's
  turn without an answer, anything else is raised. \<open>bridge\<close> is what \<open>verified_bridge\<close> raises
  for a receipt of an earlier generation, None when it accepts it.
\<close>

type_synonym bridge = "execution_identity \<Rightarrow> node_row \<Rightarrow> binding_row \<Rightarrow> merge_receipt \<Rightarrow> pyexc option"

fun delivery_actions ::
    "receipt_parser \<Rightarrow> bridge \<Rightarrow> claim_row \<Rightarrow> execution_identity \<Rightarrow> execution_row \<Rightarrow> node_row \<Rightarrow> binding_row
     \<Rightarrow> action_row list \<Rightarrow> pyexc + bool" where
  "delivery_actions parse br c i e n b [] = Inr False"
| "delivery_actions parse br c i e n b (a # as) =
     (case validated_receipt parse (jget (case ac_detail a of None \<Rightarrow> [] | Some fs \<Rightarrow> fs) ''merge_receipt'') of
        None \<Rightarrow> Inr False
      | Some r \<Rightarrow>
         (let matched =
            (if receipt_names r i then Inr True
             else if starts_with ''delivery-recovery:'' (or_else (cl_run c) '''')
             then (case br i n b r of None \<Rightarrow> Inr True | Some err \<Rightarrow> Inl err)
             else Inr False) in
          (case matched of
             Inl err \<Rightarrow> (if err \<in> {ValueError, TypeError} then Inr False else Inl err)
           | Inr ok \<Rightarrow> if ok \<and> receipt_bound r a e n b then Inr True
                       else delivery_actions parse br c i e n b as)))"

definition delivery_row ::
    "receipt_parser \<Rightarrow> bridge \<Rightarrow> db \<Rightarrow> claim_row \<Rightarrow> execution_row \<Rightarrow> node_row \<Rightarrow> binding_row \<Rightarrow> pyexc + bool" where
  "delivery_row parse br d c e n b =
     (if issue_number n \<noteq> Some (cl_issue c) then Inr False
      else (case make_identity (Some (cl_org c)) (Some (nd_id n)) (PyInt (ex_cycle e)) (PyInt (ex_plan_version e))
                   (Some (cl_id c)) (PyInt (cl_generation c)) of
              Inl err \<Rightarrow> Inl err
            | Inr i \<Rightarrow> delivery_actions parse br c i e n b
                 (filter (\<lambda>a. ac_org a = cl_org c \<and> ac_execution a = ex_id e \<and> ac_kind a = merge_kind
                      \<and> ac_status a = ''succeeded'') (actions d))))"

definition unfinished_delivery :: "receipt_parser \<Rightarrow> bridge \<Rightarrow> db \<Rightarrow> claim_row \<Rightarrow> pyexc + bool" where
  "unfinished_delivery parse br d c =
     (if cl_owner_kind c \<noteq> ''engine_flow'' then Inr False
      else any_lane (delivery_row parse br d c) d c
             (filter (\<lambda>(e, n). ex_phase e \<in> phase_value ` set delivery_phases) (lane_rows d c [''passed''])))"

section \<open>Release\<close>

record claim_env =
  ce_uuids :: uuids
  ce_parse :: receipt_parser
  ce_bridge :: bridge

text \<open>The \<open>or\<close> of the four holds, in order and with its short circuits.\<close>

definition continuation_hold :: "claim_env \<Rightarrow> db \<Rightarrow> claim_row \<Rightarrow> release_reason \<Rightarrow> pyexc + bool" where
  "continuation_hold env d c reason =
     (case outstanding_continuation d (cl_org c) (cl_id c) (cl_generation c) of
        Inl err \<Rightarrow> Inl err
      | Inr (Some _) \<Rightarrow> Inr True
      | Inr None \<Rightarrow>
         if reason = RrCOMPLETED \<and> unfinished_bound_review d c then Inr True
         else (case (if reason = RrCOMPLETED then unfinished_delivery (ce_parse env) (ce_bridge env) d c
                     else Inr False) of
                 Inl err \<Rightarrow> Inl err
               | Inr True \<Rightarrow> Inr True
               | Inr False \<Rightarrow>
                   if reason \<in> {RrCOMPLETED, RrFAILED}
                   then unfinished_committed_reviewer (ce_uuids env) d c else Inr False))"

definition released :: "pydt \<Rightarrow> release_reason \<Rightarrow> claim_row \<Rightarrow> claim_row" where
  "released now reason c =
     c\<lparr>cl_state := ''released'', cl_run := None, cl_release_reason := Some (release_value reason),
       cl_released_at := Some now, cl_lease := None\<rparr>"

definition release_work ::
    "claim_env \<Rightarrow> pydt \<Rightarrow> string \<Rightarrow> string \<Rightarrow> int \<Rightarrow> release_reason \<Rightarrow> string option
     \<Rightarrow> (db, claim_receipt) op" where
  "release_work env now org claim_id generation reason evidence d =
     (if blank_opt evidence then (Inl (WorkClaimError ''missing_terminal_evidence''), d)
      else (case get_claim d org claim_id of
         None \<Rightarrow> (Inl (WorkClaimError ''unknown_claim''), d)
       | Some c \<Rightarrow>
           if cl_generation c \<noteq> generation
           then (Inr (receipt_of DBLOCKED c (Some ''stale_generation'') None), d)
           else if cl_state c = ''released''
           then (Inr (receipt_of DUPLICATE c (Some ''already_released'') None), d)
           else (case continuation_hold env d c reason of
              Inl err \<Rightarrow> (Inl err, d)
            | Inr True \<Rightarrow> (Inr (receipt_of DBLOCKED c (Some ''continuation_outstanding'') None), d)
            | Inr False \<Rightarrow> let c' = released now reason c in
                (Inr (receipt_of DADMITTED c' None None), put_claim c' d))))"

section \<open>Forced handover\<close>

text \<open>The run's ingress row, as far as the verdict reads it.\<close>

record ingress_row =
  ir_status :: "string option"
  ir_arrived :: "string option"
  ir_updated :: "string option"

text \<open>What the resolver does for a run id: it raises, or answers with a row or None.\<close>

datatype lookup = Faulted | Answered "ingress_row option"

definition handover_verdict :: "(string \<Rightarrow> lookup) \<Rightarrow> pydt \<Rightarrow> claim_row \<Rightarrow> string option" where
  "handover_verdict resolve now c =
     (if \<not> truthy (cl_run c) then None
      else (case resolve (the (cl_run c)) of
         Faulted \<Rightarrow> Some ''liveness_unavailable''
       | Answered None \<Rightarrow> Some ''liveness_unknown''
       | Answered (Some row) \<Rightarrow>
           (let verdict = compute_liveness (ir_status row) (or_else (ir_arrived row) '''') now (ir_updated row) in
            if verdict \<noteq> Exited then Some (''run_'' @ verdict_value verdict) else None)))"

definition handed_over :: "pydt \<Rightarrow> claim_row \<Rightarrow> claim_row" where
  "handed_over now c =
     (released now RrHANDOVER c)\<lparr>cl_generation := cl_generation c + 1, cl_event := None\<rparr>"

definition force_handover ::
    "pydt \<Rightarrow> (string \<Rightarrow> lookup) \<Rightarrow> string \<Rightarrow> string \<Rightarrow> string option \<Rightarrow> bool \<Rightarrow> bool \<Rightarrow> pydt option
     \<Rightarrow> (db, claim_receipt) op" where
  "force_handover clock resolve org claim_id decision_id effects credentials now_arg d =
     (let now = (case now_arg of Some t \<Rightarrow> t | None \<Rightarrow> clock) in
      if blank_opt decision_id then (Inl (WorkClaimError ''missing_decision''), d)
      else (case get_claim d org claim_id of
         None \<Rightarrow> (Inl (WorkClaimError ''unknown_claim''), d)
       | Some c \<Rightarrow>
           if cl_state c \<noteq> ''held''
           then (Inr (receipt_of (if cl_state c = ''released'' then DUPLICATE else DBLOCKED) c
                        (Some ''claim_not_held'') None), d)
           else (case handover_verdict resolve now c of
              Some reason \<Rightarrow> (Inr (receipt_of DBLOCKED c (Some reason) None), d)
            | None \<Rightarrow>
                if \<not> effects then (Inr (receipt_of DBLOCKED c (Some ''effects_not_reconciled'') None), d)
                else if \<not> credentials then (Inr (receipt_of DBLOCKED c (Some ''credentials_not_reconciled'') None), d)
                else let c' = handed_over now c in
                  (Inr (receipt_of DADMITTED c' None None), put_claim c' d))))"

section \<open>Continuing a lane\<close>

text \<open>An attribute of the event store, \<open>{"S": text}\<close>, and the text of one that may be missing.\<close>

definition dyn :: "string \<Rightarrow> json" where
  "dyn s = JObj [(''S'', JStr s)]"

definition attr_text :: "fields \<Rightarrow> string \<Rightarrow> pyexc + json" where
  "attr_text raw k = (case sub_dict raw k of None \<Rightarrow> Inl AttributeError | Some fs \<Rightarrow> Inr (jget fs ''S''))"

definition absent :: "fields \<Rightarrow> string \<Rightarrow> bool" where
  "absent raw k \<longleftrightarrow> map_of raw k = None"

text \<open>\<open>agentauth.bootstrap_failure.is_bootstrap_failure\<close>; \<open>raw\<close> may be None or empty.\<close>

definition is_bootstrap_failure :: "fields \<Rightarrow> pyexc + bool" where
  "is_bootstrap_failure raw =
     (if raw = [] \<or> jget raw ''status'' \<noteq> dyn ''completed'' \<or> jget raw ''terminal_outcome'' \<noteq> dyn ''failed''
         \<or> jget raw ''bootstrap_failure_reason'' \<noteq> dyn ''model_policy_snapshot_missing''
         \<or> \<not> jtruthy (jget raw ''orchestration_continuation_receipt'') then Inr False
      else (case attr_text raw ''bootstrap_failure_request_id'' of Inl e \<Rightarrow> Inl e
            | Inr v \<Rightarrow> Inr (jtruthy v \<and> absent raw ''bootstrap_authority_issued_at'')))"

definition unstarted_continuation :: "fields \<Rightarrow> pyexc + bool" where
  "unstarted_continuation raw =
     (if raw = [] \<or> jget raw ''status'' \<noteq> dyn ''cancelled''
         \<or> jget raw ''work_claim_cancellation'' \<noteq> dyn ''startup_deadline_exceeded''
         \<or> \<not> jtruthy (jget raw ''orchestration_continuation_receipt'') then Inr False
      else (case attr_text raw ''orchestration_continuation_action'' of Inl e \<Rightarrow> Inl e
            | Inr v \<Rightarrow>
               if \<not> hashable v then Inl TypeError
               else Inr (v \<in> {JStr ''review'', JStr ''repair''}
                 \<and> jget raw ''persona'' = dyn ''agent-codex-reviewer''
                 \<and> \<not> jtruthy (jget raw ''workload_binding'')
                 \<and> absent raw ''bootstrap_authority_issued_at'')))"

definition is_retryable_bootstrap_failure :: "fields \<Rightarrow> pyexc + bool" where
  "is_retryable_bootstrap_failure raw =
     (case is_bootstrap_failure raw of Inl e \<Rightarrow> Inl e
      | Inr True \<Rightarrow> Inr True | Inr False \<Rightarrow> unstarted_continuation raw)"

definition failed_review :: "fields \<Rightarrow> bool" where
  "failed_review raw \<longleftrightarrow>
     raw \<noteq> [] \<and> jget raw ''persona'' = dyn ''agent-codex-reviewer''
     \<and> jget raw ''orchestration_continuation_action'' \<in> {dyn ''review'', dyn ''repair''}
     \<and> jtruthy (jget raw ''orchestration_continuation_receipt'')
     \<and> jget raw ''status'' = dyn ''completed''
     \<and> jget raw ''terminal_outcome'' \<in> {dyn ''failed'', dyn ''budget_stopped''}"

text \<open>The dispatch action and its receipt commit this run as the successor of the expected one.\<close>

definition continuation_committed ::
    "uuids \<Rightarrow> db \<Rightarrow> execution_identity \<Rightarrow> string \<Rightarrow> string \<Rightarrow> string \<Rightarrow> string \<Rightarrow> pyexc + fields" where
  "continuation_committed u d i execution_id expected run key =
     (case (find (\<lambda>a. ac_org a = id_org i \<and> ac_execution a = execution_id \<and> ac_key a = key
                \<and> ac_kind a = dispatch_kind) (actions d), get_decision d (u_receipt u key)) of
        (Some a, Some dec) \<Rightarrow>
          if dc_org dec \<noteq> id_org i \<or> dc_actor_id dec \<noteq> cycle_actor \<or> dc_kind dec \<noteq> ''agent_dispatched''
             \<or> u_run u key \<noteq> run
          then Inl (WorkClaimError ''continuation_not_committed'')
          else (case ac_detail a of None \<Rightarrow> Inl AttributeError
             | Some detail \<Rightarrow>
                if jget detail ''active_run_id'' \<noteq> JStr expected
                then Inl (WorkClaimError ''continuation_not_committed'')
                else (case loads_dict (dc_reason dec) of Inl e \<Rightarrow> Inl e
                   | Inr saved \<Rightarrow> if jget saved ''run_id'' \<noteq> JStr run
                       then Inl (WorkClaimError ''continuation_not_committed'') else Inr detail))
      | _ \<Rightarrow> Inl (WorkClaimError ''continuation_not_committed''))"

text \<open>The previous worker's protected terminal record; \<open>prior\<close> is empty where there is none.\<close>

definition owner_finished :: "execution_identity \<Rightarrow> string \<Rightarrow> fields \<Rightarrow> fields \<Rightarrow> pyexc + bool" where
  "owner_finished i expected detail prior =
     (case (if jget detail ''bootstrap_retry_of'' = JStr expected
            then is_retryable_bootstrap_failure prior else Inr False) of
        Inl e \<Rightarrow> Inl e
      | Inr bootstrap_retry \<Rightarrow>
          if jget detail ''review_retry_of'' = JStr expected \<and> \<not> hashable (jget detail ''action'') then Inl TypeError
          else
            let review_retry = jget detail ''review_retry_of'' = JStr expected
                  \<and> jget detail ''action'' \<in> {JStr ''review'', JStr ''repair''} \<and> failed_review prior in
            Inr (prior \<noteq> [] \<and> jget prior ''tenant_id'' = dyn (id_org i)
              \<and> (jget prior ''status'' = dyn ''completed'' \<or> bootstrap_retry)
              \<and> (jget prior ''terminal_outcome'' = dyn ''complete'' \<or> bootstrap_retry \<or> review_retry)
              \<and> jget prior ''orchestration_node_id'' = dyn (id_node i)))"

definition default_lease_seconds :: int where
  "default_lease_seconds = 3600"

text \<open>
  \<open>verdict\<close> is what the recovery verifier called in the two recovery branches raises, None when
  it accepts the recovery.
\<close>

definition may_continue ::
    "execution_identity \<Rightarrow> string \<Rightarrow> fields \<Rightarrow> fields \<Rightarrow> string option \<Rightarrow> string option \<Rightarrow> pyexc option \<Rightarrow> pyexc option" where
  "may_continue i expected detail prior recovery developer verdict =
     (case owner_finished i expected detail prior of
        Inl e \<Rightarrow> Some e
      | Inr finished \<Rightarrow>
          if truthy developer then verdict
          else if truthy recovery then
            (if jget detail ''recovery_decision_id'' \<noteq> jopt recovery \<or> jget detail ''action'' \<noteq> JStr ''review''
             then Some (WorkClaimError ''recovery_not_committed'') else verdict)
          else if finished then None else Some (WorkClaimError ''continuation_owner_not_finished''))"

definition continued :: "pydt \<Rightarrow> string \<Rightarrow> claim_row \<Rightarrow> claim_row" where
  "continued now run c =
     c\<lparr>cl_run := Some run, cl_event := Some run, cl_lease := Some (plus_seconds now default_lease_seconds)\<rparr>"

definition continue_run ::
    "digest \<Rightarrow> uuids \<Rightarrow> pydt \<Rightarrow> execution_identity \<Rightarrow> string \<Rightarrow> string \<Rightarrow> string \<Rightarrow> fields
     \<Rightarrow> string option \<Rightarrow> string option \<Rightarrow> pyexc option \<Rightarrow> (db, unit) op" where
  "continue_run dg u now i expected run key prior recovery developer verdict d =
     (case load_execution dg d i None False of
        Inl e \<Rightarrow> (Inl e, d)
      | Inr None \<Rightarrow> (Inl (WorkClaimError ''continuation_not_current''), d)
      | Inr (Some loaded) \<Rightarrow>
          (case (oc_kind loaded, oc_record loaded) of
             (APPLIED, Some rec) \<Rightarrow>
               (case continuation_committed u d i (er_id rec) expected run key of
                  Inl e \<Rightarrow> (Inl e, d)
                | Inr detail \<Rightarrow>
                   (case get_claim d (id_org i) (id_claim i) of
                      None \<Rightarrow> (Inl (WorkClaimError ''continuation_claim_changed''), d)
                    | Some c \<Rightarrow>
                        if cl_state c \<noteq> ''held'' \<or> cl_generation c \<noteq> id_generation i
                           \<or> cl_owner_kind c \<noteq> ''engine_flow'' \<or> cl_owner_ref c \<noteq> er_flow rec
                        then (Inl (WorkClaimError ''continuation_claim_changed''), d)
                        else if cl_run c = Some run \<and> cl_event c = Some run then (Inr (), d)
                        else if cl_run c \<noteq> Some expected
                        then (Inl (WorkClaimError ''continuation_owner_changed''), d)
                        else (case may_continue i expected detail prior recovery developer verdict of
                           Some e \<Rightarrow> (Inl e, d)
                         | None \<Rightarrow> (Inr (), put_claim (continued now run c) d))))
           | _ \<Rightarrow> (Inl (WorkClaimError ''continuation_not_current''), d)))"

end
