(* ===== verification/Claim_Laws.thy ===== *)
theory Claim_Laws
  imports Work_Claims
begin

text \<open>
  What the claim operations guarantee, alone and along runs: one claim per issue, a generation
  that never falls and has one owner, a superseded or released generation that can never act
  again, a handover only on evidence, and no release while a continuation rests on the claim.
\<close>

section \<open>How a claim evolves\<close>

text \<open>
  A claim keeps its issue; its generation never falls; within one generation the owner is the
  same, and a released claim does not change at all.
\<close>

definition claim_evolves :: "claim_row \<Rightarrow> claim_row \<Rightarrow> bool" where
  "claim_evolves c e \<longleftrightarrow>
     cl_id e = cl_id c \<and> claim_key e = claim_key c \<and> cl_generation c \<le> cl_generation e
     \<and> (cl_generation e = cl_generation c \<longrightarrow>
          cl_owner_kind e = cl_owner_kind c \<and> cl_owner_ref e = cl_owner_ref c
          \<and> (cl_state c = ''released'' \<longrightarrow> e = c))"

definition claim_ok :: "claim_row \<Rightarrow> bool" where
  "claim_ok c \<longleftrightarrow> 1 \<le> cl_generation c
     \<and> (cl_state c = ''held'' \<or> (cl_state c = ''released'' \<and> cl_run c = None \<and> cl_lease c = None))"

definition claims_ok :: "db \<Rightarrow> bool" where
  "claims_ok d \<longleftrightarrow> claim_keys d \<and> (\<forall>c \<in> set (claims d). claim_ok c)"

definition claims_grow :: "db \<Rightarrow> db \<Rightarrow> bool" where
  "claims_grow d e \<longleftrightarrow> (\<forall>c \<in> set (claims d). \<exists>c' \<in> set (claims e). claim_evolves c c')"

lemma claim_evolves_refl [simp]: "claim_evolves c c"
  by (simp add: claim_evolves_def)

lemma claim_evolves_trans: "claim_evolves a b \<Longrightarrow> claim_evolves b c \<Longrightarrow> claim_evolves a c"
  by (auto simp: claim_evolves_def)

lemma claims_grow_refl: "claims_grow d d"
  unfolding claims_grow_def using claim_evolves_refl by blast

lemma claims_grow_trans: "claims_grow d e \<Longrightarrow> claims_grow e f \<Longrightarrow> claims_grow d f"
  unfolding claims_grow_def by (meson claim_evolves_trans)

lemma claims_grow_same: "claims e = claims d \<Longrightarrow> claims_grow d e"
  unfolding claims_grow_def using claim_evolves_refl by metis

section \<open>The abstract lock\<close>

text \<open>
  What a claim promises, without its columns: a lock that is free after, or held in, a generation.
  An admission takes a free lock into the next generation; a release frees it; a handover frees
  it and skips a generation, so that the old one is over at once.
\<close>

datatype lock = Free int | Held "string \<times> string" int

inductive lock_next :: "lock \<Rightarrow> lock \<Rightarrow> bool" where
  lock_stays: "lock_next l l"
| lock_admits: "lock_next (Free g) (Held owner (g + 1))"
| lock_releases: "lock_next (Held owner g) (Free g)"
| lock_hands_over: "lock_next (Held owner g) (Free (g + 1))"

definition lock_view :: "claim_row \<Rightarrow> lock" where
  "lock_view c = (if cl_state c = ''released'' then Free (cl_generation c)
     else Held (cl_owner_kind c, cl_owner_ref c) (cl_generation c))"

definition lock_of :: "db \<Rightarrow> string \<Rightarrow> string \<Rightarrow> lock option" where
  "lock_of d org i = map_option lock_view (get_claim d org i)"

lemma lock_next_views:
  "lock_next (lock_view c) (lock_view (readmitted now owner event lease c))" if "cl_state c = ''released''"
  using that lock_admits by (simp add: lock_view_def readmitted_def)

lemma lock_next_release:
  assumes "cl_state c \<noteq> ''released''"
  shows "lock_next (lock_view c) (lock_view (released now reason c))"
    and "lock_next (lock_view c) (lock_view (handed_over now c))"
  using assms lock_releases lock_hands_over by (simp_all add: lock_view_def released_def handed_over_def)

lemma lock_next_same: "lock_view c' = lock_view c \<Longrightarrow> lock_next (lock_view c) (lock_view c')"
  by (simp add: lock_stays)

section \<open>Primitive writes\<close>

inductive claim_write :: "db \<Rightarrow> db \<Rightarrow> bool" where
  keep: "claim_write d d"
| move_claim:
    "c \<in> set (claims d) \<Longrightarrow> claim_evolves c c' \<Longrightarrow> (claim_ok c \<longrightarrow> claim_ok c')
     \<Longrightarrow> lock_next (lock_view c) (lock_view c') \<Longrightarrow> claim_write d (put_claim c' d)"
| new_claims:
    "unique_on cl_id (claims d @ cs) \<Longrightarrow> unique_on claim_key (claims d @ cs) \<Longrightarrow> \<forall>c \<in> set cs. claim_ok c
     \<Longrightarrow> claim_write d (d\<lparr>claims := claims d @ cs\<rparr>)"

lemma move_claim_set:
  assumes "claim_keys d" "c \<in> set (claims d)" "claim_evolves c c'"
  shows "claim_keys (put_claim c' d)"
    and "x \<in> set (claims (put_claim c' d)) \<Longrightarrow> x = c' \<or> x \<in> set (claims d)"
    and "x \<in> set (claims d) \<Longrightarrow> \<exists>y \<in> set (claims (put_claim c' d)). claim_evolves x y"
proof -
  have id: "cl_id c' = cl_id c" and key: "claim_key c' = claim_key c"
    using assms(3) by (simp_all add: claim_evolves_def)
  show "claim_keys (put_claim c' d)"
    using assms(1) unique_on_put [OF _ _ assms(2) id key] by (simp add: put_claim_def claim_keys_def)
  show "x \<in> set (claims (put_claim c' d)) \<Longrightarrow> x = c' \<or> x \<in> set (claims d)"
    using mem_put [of x cl_id c' "claims d"] by (auto simp: put_claim_def)
  show "\<exists>y \<in> set (claims (put_claim c' d)). claim_evolves x y" if x: "x \<in> set (claims d)"
  proof (cases "cl_id x = cl_id c'")
    case True
    then have "x = c"
      using unique_onD [of cl_id "claims d"] assms(1,2) x id by (auto simp: claim_keys_def)
    with assms show ?thesis
      using mem_put_new [of c "claims d" cl_id c'] id by (auto simp: put_claim_def)
  next
    case False
    with x have "x \<in> set (claims (put_claim c' d))"
      using mem_putI [of x "claims d" cl_id c'] by (simp add: put_claim_def)
    then show ?thesis using claim_evolves_refl by blast
  qed
qed

lemma claim_write_ok:
  assumes "claim_write d e" "claims_ok d"
  shows "claims_ok e \<and> claims_grow d e"
  using assms(1)
proof (cases rule: claim_write.cases)
  case keep
  then show ?thesis using assms(2) claims_grow_refl by simp
next
  case (move_claim c c')
  have keys: "claim_keys d" using assms(2) by (simp add: claims_ok_def)
  note m = move_claim_set [OF keys move_claim(2,3)]
  have "claim_ok c'" using move_claim(2,4) assms(2) by (simp add: claims_ok_def)
  with m assms(2) show ?thesis unfolding move_claim(1) claims_ok_def claims_grow_def by metis
next
  case (new_claims cs)
  then show ?thesis
    using assms(2) claim_evolves_refl unfolding claims_ok_def claims_grow_def claim_keys_def by (simp, blast)
qed

section \<open>Every operation is one primitive write\<close>

definition claim_race_ok :: "db \<Rightarrow> string \<Rightarrow> claim_row list option \<Rightarrow> bool" where
  "claim_race_ok d new_id race =
     (case race of None \<Rightarrow> new_id \<notin> cl_id ` set (claims d)
      | Some cs \<Rightarrow> unique_on cl_id (claims d @ cs) \<and> unique_on claim_key (claims d @ cs) \<and> list_all claim_ok cs)"

lemma locked_claim_SomeD:
  "locked_claim d b = Some c \<Longrightarrow> c \<in> set (claims d) \<and> claim_key c = (cb_org b, cb_repo b, cb_issue b)"
  by (auto simp: locked_claim_def claim_key_def dest!: find_SomeD)

lemma get_claim_SomeD: "get_claim d org i = Some c \<Longrightarrow> c \<in> set (claims d) \<and> cl_org c = org \<and> cl_id c = i"
  by (auto simp: get_claim_def dest!: find_SomeD)

lemma readmitted_evolves: "claim_evolves c (readmitted now owner event lease c)"
  by (simp add: claim_evolves_def claim_key_def readmitted_def)

lemma released_evolves: "cl_state c \<noteq> ''released'' \<Longrightarrow> claim_evolves c (released now reason c)"
  by (simp add: claim_evolves_def claim_key_def released_def)

lemma handed_over_evolves: "claim_evolves c (handed_over now c)"
  by (simp add: claim_evolves_def claim_key_def released_def handed_over_def)

lemma continued_evolves: "cl_state c = ''held'' \<Longrightarrow> claim_evolves c (continued now run c)"
  by (simp add: claim_evolves_def claim_key_def continued_def)

lemma claim_ok_rules:
  "claim_ok c \<Longrightarrow> claim_ok (readmitted now owner event lease c)"
  "claim_ok c \<Longrightarrow> claim_ok (released now reason c)"
  "claim_ok c \<Longrightarrow> claim_ok (handed_over now c)"
  "claim_ok c \<Longrightarrow> cl_state c = ''held'' \<Longrightarrow> claim_ok (continued now run c)"
  by (auto simp: claim_ok_def readmitted_def released_def handed_over_def continued_def)

lemma claim_work_writes:
  assumes "claims_ok d" "claim_race_ok d new_id race"
  shows "claim_write d (snd (claim_work now new_id race b owner event lease d))"
proof (cases "locked_claim d b")
  case (Some c)
  have "claim_write d (put_claim (readmitted now owner ev lease c) d)" if "cl_state c = ''released''" for ev
    using locked_claim_SomeD [OF Some] readmitted_evolves claim_ok_rules(1) lock_next_views [OF that]
    by (blast intro: move_claim)
  then show ?thesis by (simp add: claim_work_def Some Let_def keep)
next
  case None
  let ?c = "\<lambda>ev. fresh_claim now new_id b owner ev lease"
  have fresh: "claim_write d (d\<lparr>claims := claims d @ [?c ev]\<rparr>)" if "race = None" for ev
  proof (intro new_claims)
    show "unique_on cl_id (claims d @ [?c ev])"
      using assms that by (simp add: claims_ok_def claim_keys_def claim_race_ok_def fresh_claim_def)
    show "unique_on claim_key (claims d @ [?c ev])"
      using assms(1) None
      by (auto simp: claims_ok_def claim_keys_def claim_key_def fresh_claim_def locked_claim_def find_None_iff')
    show "\<forall>c \<in> set [?c ev]. claim_ok c" by (simp add: claim_ok_def fresh_claim_def)
  qed
  have lost: "claim_write d (d\<lparr>claims := claims d @ cs\<rparr>)" if "race = Some cs" for cs
    using assms(2) that by (intro new_claims) (auto simp: claim_race_ok_def list_all_iff)
  show ?thesis using fresh lost by (auto simp: claim_work_def None Let_def keep split: option.split)
qed

lemma bind_writes: "claim_write d (snd (bind_run now org cid g run d))"
proof -
  have "claim_write d (put_claim (c\<lparr>cl_run := r, cl_heartbeat := h\<rparr>) d)"
    if "get_claim d org cid = Some c" "cl_state c = ''held''" for c r h
    using get_claim_SomeD [OF that(1)] that(2)
    by (intro move_claim [of c]) (auto simp: claim_evolves_def claim_key_def claim_ok_def lock_view_def intro: lock_stays)
  then show ?thesis by (auto simp: bind_run_def Let_def keep split: option.split)
qed

lemma heartbeat_writes: "claim_write d (snd (heartbeat now org cid g lease d))"
proof -
  have "claim_write d (put_claim (c\<lparr>cl_heartbeat := h, cl_lease := l\<rparr>) d)"
    if "get_claim d org cid = Some c" "cl_state c = ''held''" for c l h
    using get_claim_SomeD [OF that(1)] that(2)
    by (intro move_claim [of c]) (auto simp: claim_evolves_def claim_key_def claim_ok_def lock_view_def intro: lock_stays)
  then show ?thesis by (auto simp: heartbeat_def Let_def keep split: option.split)
qed

lemma release_writes: "claim_write d (snd (release_work env now org cid g reason ev d))"
proof -
  have "claim_write d (put_claim (released now reason c) d)"
    if "get_claim d org cid = Some c" "cl_state c \<noteq> ''released''" for c
    using get_claim_SomeD [OF that(1)] released_evolves [OF that(2)] claim_ok_rules(2)
      lock_next_release(1) [OF that(2)]
    by (blast intro: move_claim)
  then show ?thesis by (auto simp: release_work_def Let_def keep split: option.split sum.split bool.split)
qed

lemma handover_writes: "claim_write d (snd (force_handover clk resolve org cid dec eff cred nw d))"
proof -
  have "claim_write d (put_claim (handed_over now c) d)"
    if "get_claim d org cid = Some c" "cl_state c = ''held''" for c now
  proof -
    have "cl_state c \<noteq> ''released''" using that(2) by simp
    then show ?thesis
      using get_claim_SomeD [OF that(1)] handed_over_evolves claim_ok_rules(3) lock_next_release(2)
      by (blast intro: move_claim)
  qed
  then show ?thesis by (auto simp: force_handover_def Let_def keep split: option.split)
qed

lemma continue_writes: "claim_write d (snd (continue_run dg u now i ex run key prior rec dev v d))"
proof -
  have "claim_write d (put_claim (continued now run c) d)"
    if "get_claim d (id_org i) (id_claim i) = Some c" "cl_state c = ''held''" for c
    using get_claim_SomeD [OF that(1)] that(2) continued_evolves claim_ok_rules(4)
      lock_next_same [of "continued now run c" c]
    by (intro move_claim [of c]) (auto simp: lock_view_def continued_def)
  then show ?thesis
    by (auto simp: continue_run_def keep split: sum.split option.split outcome_kind.split)
qed

section \<open>Runs\<close>

text \<open>One transaction of a claim operation, or anything that leaves the claims alone.\<close>

inductive claim_tx :: "db \<Rightarrow> db \<Rightarrow> bool" where
  tx_claim: "claim_race_ok d new_id race \<Longrightarrow> claim_tx d (snd (claim_work now new_id race b owner ev lease d))"
| tx_bind: "claim_tx d (snd (bind_run now org cid g run d))"
| tx_heartbeat: "claim_tx d (snd (heartbeat now org cid g lease d))"
| tx_release: "claim_tx d (snd (release_work env now org cid g reason ev d))"
| tx_handover: "claim_tx d (snd (force_handover clk resolve org cid dec eff cred nw d))"
| tx_continue: "claim_tx d (snd (continue_run dg u now i ex run key prior rec dev v d))"

definition claim_step :: "db \<Rightarrow> db \<Rightarrow> bool" where
  "claim_step d e \<longleftrightarrow> claim_tx d e \<or> claims e = claims d"

lemma claim_tx_write: "claim_tx d e \<Longrightarrow> claims_ok d \<Longrightarrow> claim_write d e"
  by (cases rule: claim_tx.cases)
    (auto intro: claim_work_writes bind_writes heartbeat_writes release_writes handover_writes continue_writes)

lemma claim_step_ok:
  assumes "claim_step d e" "claims_ok d"
  shows "claims_ok e \<and> claims_grow d e"
proof (cases "claim_tx d e")
  case True
  then show ?thesis using claim_write_ok claim_tx_write assms(2) by blast
next
  case False
  then have "claims e = claims d" using assms(1) by (simp add: claim_step_def)
  then show ?thesis using assms(2) by (simp add: claims_ok_def claim_keys_def claims_grow_same)
qed

interpretation claim_runs: growing claim_step claims_ok claims_grow
  by unfold_locales (auto dest: claim_step_ok intro: claims_grow_refl claims_grow_trans)

definition claim_generation :: "db \<Rightarrow> string \<times> string \<Rightarrow> int option" where
  "claim_generation d k = map_option cl_generation (get_claim d (fst k) (snd k))"

lemma grown_claim:
  assumes "claims_grow d e" "claims_ok e" "get_claim d org i = Some c"
  shows "\<exists>c'. get_claim e org i = Some c' \<and> claim_evolves c c'"
proof -
  have c: "c \<in> set (claims d)" "cl_org c = org" "cl_id c = i" using get_claim_SomeD [OF assms(3)] by auto
  then obtain c' where c': "c' \<in> set (claims e)" "claim_evolves c c'"
    using assms(1) unfolding claims_grow_def by blast
  have "cl_org c' = org" "cl_id c' = i" using c' c by (auto simp: claim_evolves_def claim_key_def)
  then have "get_claim e org i = Some c'"
    unfolding get_claim_def using c'(1) assms(2)
    by (intro find_unique_mem [of cl_id]) (auto simp: claims_ok_def claim_keys_def)
  with c'(2) show ?thesis by blast
qed

interpretation claim_gens: monotone_counter claim_step claims_ok claim_generation
proof
  fix s t and k :: "string \<times> string" and m
  assume st: "claim_step s t" "claims_ok s" and g: "claim_generation s k = Some m"
  from g obtain c where c: "get_claim s (fst k) (snd k) = Some c" "m = cl_generation c"
    by (auto simp: claim_generation_def)
  from grown_claim [OF _ _ c(1), of t] claim_step_ok [OF st] c(2)
  show "\<exists>n. claim_generation t k = Some n \<and> m \<le> n"
    by (auto simp: claim_generation_def claim_evolves_def)
qed

end
