(* ===== verification/Claim_Properties.thy ===== *)
theory Claim_Properties
  imports Claim_Laws Samples
begin

text \<open>
  The guarantees of work claims: the refinement of the abstract lock, one owner per generation,
  fencing of superseded workers, admission, binding, handover and release on every branch.
\<close>

definition receipt_admitted :: "pyexc + claim_receipt \<Rightarrow> bool" where
  "receipt_admitted x = (case x of Inl _ \<Rightarrow> False | Inr r \<Rightarrow> admitted r)"

lemma receipt_admitted_simps [simp]:
  "\<not> receipt_admitted (Inl e)"
  "receipt_admitted (Inr (receipt_of disp c reason holder)) = (disp = DADMITTED)"
  by (simp_all add: receipt_admitted_def admitted_def receipt_of_def)

lemma sample_claims_ok: "claims_ok sample_db"
  by code_simp

section \<open>Refinement of the lock\<close>

lemma write_lock:
  assumes "claim_write d e" "claims_ok d" "lock_of d org k = Some l"
  shows "\<exists>l'. lock_of e org k = Some l' \<and> lock_next l l'"
  using assms(1)
proof (cases rule: claim_write.cases)
  case keep
  with assms(3) show ?thesis using lock_stays by blast
next
  case (move_claim c c')
  obtain x where x: "get_claim d org k = Some x" "l = lock_view x" using assms(3) by (auto simp: lock_of_def)
  from grown_claim [OF _ _ x(1), of e] claim_write_ok [OF assms(1,2)]
  obtain y where y: "get_claim e org k = Some y" "claim_evolves x y" by blast
  have ids: "unique_on cl_id (claims d)" using assms(2) by (simp add: claims_ok_def claim_keys_def)
  have mem: "x \<in> set (claims d)" "y \<in> set (claims e)" "cl_id x = k" "cl_id y = k"
    using get_claim_SomeD [OF x(1)] get_claim_SomeD [OF y(1)] by auto
  have "lock_next (lock_view x) (lock_view y)"
  proof (cases "cl_id c' = k")
    case True
    then have "x = c"
      using unique_onD [OF ids mem(1) move_claim(2)] mem(3) move_claim(3) by (simp add: claim_evolves_def)
    moreover have "y = c'"
      using mem(2,4) True unfolding move_claim(1) put_claim_def by (auto simp: set_update_where)
    ultimately show ?thesis using move_claim(5) by simp
  next
    case False
    then have "y \<in> set (claims d)"
      using mem(2,4) unfolding move_claim(1) put_claim_def by (auto simp: set_update_where)
    then have "y = x" using unique_onD [OF ids] mem by simp
    then show ?thesis by (simp add: lock_stays)
  qed
  with x(2) y(1) show ?thesis by (auto simp: lock_of_def)
next
  case (new_claims cs)
  then have "get_claim e org k = get_claim d org k"
    using assms(3) by (auto simp: lock_of_def get_claim_def find_append)
  with assms(3) show ?thesis using lock_stays by (auto simp: lock_of_def)
qed

text \<open>
  C2: The claim operations implement the lock. Whatever operation runs, with whatever arguments,
  every claim afterwards is where the lock may go from where it was: unchanged, released within
  its generation, handed over into the next one, or admitted from free into the next one; no
  operation passes a held claim from one owner to another.
\<close>

theorem claims_refine_lock:
  assumes "claim_tx d e" "claims_ok d" "lock_of d org k = Some l"
  shows "\<exists>l'. lock_of e org k = Some l' \<and> lock_next l l'"
  using write_lock [OF claim_tx_write [OF assms(1,2)] assms(2,3)] .

theorem claims_refine_lock_witness:
  "\<exists>l'. lock_of (snd (heartbeat (Aware 5) ''o'' ''c'' 2 60 sample_db)) ''o'' ''c'' = Some l'
     \<and> lock_next (Held (''engine_flow'', ''f'') 2) l'"
proof -
  have "lock_of sample_db ''o'' ''c'' = Some (Held (''engine_flow'', ''f'') 2)" by code_simp
  from claims_refine_lock [OF tx_heartbeat sample_claims_ok this] show ?thesis .
qed

section \<open>Generations\<close>

lemma evolves_owner:
  assumes "claim_evolves c e" "lock_view e = Held owner (cl_generation c)"
  shows "lock_view c = Held owner (cl_generation c)"
  using assms by (auto simp: claim_evolves_def lock_view_def split: if_splits)

text \<open>
  C3: A generation has one owner and ends once. Along any run, a claim that is held in the same
  generation at two moments has the same owner at both; and a generation in which it was seen
  free is never held again.
\<close>

theorem generation_has_one_owner:
  assumes "claims_ok s" "claim_step\<^sup>*\<^sup>* s t" "lock_of s org k = Some l" "lock_of t org k = Some (Held owner g)"
  shows "case l of Held former h \<Rightarrow> if h = g then former = owner else h < g | Free h \<Rightarrow> h < g"
proof -
  obtain c where c: "get_claim s org k = Some c" "l = lock_view c" using assms(3) by (auto simp: lock_of_def)
  have "claims_grow s t" "claims_ok t"
    using claim_runs.run_grows [OF assms(2,1)] claim_runs.run_inv [OF assms(2,1)] by auto
  from grown_claim [OF this c(1)] obtain e where e: "get_claim t org k = Some e" "claim_evolves c e" by blast
  have v: "lock_view e = Held owner g" using assms(4) e(1) by (simp add: lock_of_def)
  then have "cl_generation e = g" by (simp add: lock_view_def split: if_splits)
  then have le: "cl_generation c \<le> g" using e(2) by (simp add: claim_evolves_def)
  show ?thesis
  proof (cases "cl_generation c = g")
    case True
    with evolves_owner [OF e(2)] v have "l = Held owner g" using c(2) by simp
    then show ?thesis by simp
  next
    case False
    with le c(2) show ?thesis by (simp add: lock_view_def split: if_splits)
  qed
qed

theorem generation_has_one_owner_witness:
  "case Held (''engine_flow'', ''f'') 2 of
     Held former h \<Rightarrow> if h = 2 then former = (''engine_flow'', ''f'') else h < 2 | Free h \<Rightarrow> h < 2"
proof -
  have l: "lock_of sample_db ''o'' ''c'' = Some (Held (''engine_flow'', ''f'') 2)" by code_simp
  from generation_has_one_owner [OF sample_claims_ok rtranclp.rtrancl_refl l l] show ?thesis .
qed

lemma moved_generation_refuses:
  assumes "get_claim e org k = Some c" "cl_generation c \<noteq> g"
  shows "snd (bind_run now org k g run e) = e \<and> \<not> receipt_admitted (fst (bind_run now org k g run e))"
    and "snd (heartbeat now org k g lease e) = e \<and> \<not> receipt_admitted (fst (heartbeat now org k g lease e))"
    and "snd (release_work env now org k g reason ev e) = e
         \<and> \<not> receipt_admitted (fst (release_work env now org k g reason ev e))"
  using assms by (simp_all add: bind_run_def heartbeat_def release_work_def Let_def)

text \<open>
  A superseded worker is fenced out of its claim for good. Once the claim has reached a later
  generation, then after any further run the earlier generation can bind no run, extend no lease
  and release nothing: each is refused and changes nothing.
\<close>

theorem superseded_claim_is_fenced:
  assumes "claims_ok s" "claim_step\<^sup>*\<^sup>* s t" "claim_generation s (org, k) = Some m" "g < m"
  shows "(snd (bind_run now org k g run t) = t \<and> \<not> receipt_admitted (fst (bind_run now org k g run t)))
    \<and> (snd (heartbeat now org k g lease t) = t \<and> \<not> receipt_admitted (fst (heartbeat now org k g lease t)))
    \<and> (snd (release_work env now org k g reason ev t) = t
       \<and> \<not> receipt_admitted (fst (release_work env now org k g reason ev t)))"
proof -
  obtain n where "claim_generation t (org, k) = Some n" "g < n"
    using claim_gens.superseded_stays [OF assms(2,1,3,4)] by blast
  then obtain c where "get_claim t org k = Some c" "cl_generation c \<noteq> g"
    by (auto simp: claim_generation_def)
  from moved_generation_refuses [OF this] show ?thesis by blast
qed

theorem superseded_claim_is_fenced_witness:
  "snd (bind_run (Aware 1) ''o'' ''c'' 1 (Some ''run1'') sample_db) = sample_db"
proof -
  have "claim_generation sample_db (''o'', ''c'') = Some 2" by code_simp
  from superseded_claim_is_fenced [OF sample_claims_ok rtranclp.rtrancl_refl this, of 1] show ?thesis by simp
qed

section \<open>Admission, binding, handover, release\<close>

lemma readmitted_effect:
  "\<exists>c'. put_claim (readmitted now owner ev lease c) d = put_claim c' d
     \<and> lock_view c' = Held (owner_kind_value (ow_kind owner), ow_ref owner) (cl_generation c + 1)
     \<and> cl_event c' = Some ev \<and> cl_run c' = None \<and> cl_id c' = cl_id c"
  by (intro exI [of _ "readmitted now owner ev lease c"]) (simp add: readmitted_def lock_view_def)

text \<open>
  Admission is at most one per issue. Without a lost insert race, an attempt that names its
  event creates the first generation of an issue without a claim; repeats the receipt of the
  event that the current generation was admitted for; admits a new owner into the next
  generation of a released claim, without a run; and otherwise changes nothing and refuses,
  naming the holder of a held claim, whether or not its lease has lapsed.
\<close>

theorem admission_outcome:
  "case claim_work now nid None b owner (Some ev) lease d of (x, e) \<Rightarrow>
     if blank ev then x = Inl (WorkClaimError ''missing_event_id'') \<and> e = d
     else (case locked_claim d b of
         None \<Rightarrow> receipt_admitted x \<and> map (\<lambda>c. (cl_id c, claim_key c, lock_view c, cl_event c, cl_run c)) (claims e)
           = map (\<lambda>c. (cl_id c, claim_key c, lock_view c, cl_event c, cl_run c)) (claims d)
             @ [(nid, (cb_org b, cb_repo b, cb_issue b),
                 Held (owner_kind_value (ow_kind owner), ow_ref owner) 1, Some (strip ev), None)]
       | Some c \<Rightarrow>
           (if cl_event c = Some (strip ev)
            then x = Inr (receipt_of DUPLICATE c (Some ''event_already_admitted'') None) \<and> e = d
            else (case lock_view c of
                Free g \<Rightarrow> (\<exists>c'. e = put_claim c' d \<and> receipt_admitted x
                  \<and> lock_view c' = Held (owner_kind_value (ow_kind owner), ow_ref owner) (g + 1)
                  \<and> cl_event c' = Some (strip ev) \<and> cl_run c' = None \<and> cl_id c' = cl_id c)
              | Held former g \<Rightarrow> \<not> receipt_admitted x \<and> e = d)))"
proof (cases "blank ev")
  case True
  then show ?thesis by (simp add: claim_work_def)
next
  case False
  then have strip: "strip ev \<noteq> []" by (simp add: blank_def)
  show ?thesis
  proof (cases "locked_claim d b")
    case None
    then show ?thesis
      using False by (simp add: claim_work_def Let_def fresh_claim_def lock_view_def claim_key_def)
  next
    case (Some c)
    then show ?thesis
      using False strip readmitted_effect [of now owner "strip ev" lease c d]
      by (cases "cl_event c = Some (strip ev)"; cases "cl_state c = ''released''")
        (simp_all add: claim_work_def Let_def lock_view_def)
  qed
qed

text \<open>
  One mutating run at a time. Binding is applied only to a held claim in exactly the presented
  generation that no other run is bound to, and then binds that run and nothing else; in every
  other case nothing changes.
\<close>

theorem bind_run_outcome:
  "case bind_run now org k g (Some run) d of (x, e) \<Rightarrow>
     if receipt_admitted x
     then \<exists>c. get_claim d org k = Some c \<and> cl_state c = ''held'' \<and> cl_generation c = g
       \<and> or_else (cl_run c) (strip run) = strip run
       \<and> e = put_claim (c\<lparr>cl_run := Some (strip run), cl_heartbeat := Some now\<rparr>) d
     else e = d"
  by (auto simp: bind_run_def Let_def or_else_def split: option.split if_splits)

text \<open>No run is bound, or its ingress row has a status that was observed as terminal.\<close>

definition exit_observed :: "(string \<Rightarrow> lookup) \<Rightarrow> claim_row \<Rightarrow> bool" where
  "exit_observed resolve c =
     (case cl_run c of None \<Rightarrow> True
      | Some run \<Rightarrow> if run = [] then True else
          (case resolve run of
             Answered (Some row) \<Rightarrow> ir_status row \<in> Some ` set observed_terminal_statuses
           | _ \<Rightarrow> False))"

text \<open>
  C37: A claim changes hands by force only on evidence. A forced handover is applied only with a
  decision, both reconciliation attestations, and, when a run is bound, an ingress row whose
  status is positively observed as terminal; a faulted or empty lookup, a live and an
  unverifiable run all leave the claim as it is. When it is applied the claim is released, in the
  next generation, without run or event, so it has no owner and its old receipts are void.
\<close>

theorem handover_needs_evidence:
  "case force_handover clk resolve org k dec effects credentials nw d of (x, e) \<Rightarrow>
     if receipt_admitted x
     then \<exists>c c'. get_claim d org k = Some c \<and> cl_state c = ''held''
       \<and> \<not> blank_opt dec \<and> effects \<and> credentials
       \<and> exit_observed resolve c
       \<and> e = put_claim c' d \<and> lock_view c' = Free (cl_generation c + 1)
       \<and> cl_run c' = None \<and> cl_event c' = None \<and> cl_id c' = cl_id c
     else e = d"
proof (cases "get_claim d org k")
  case None
  then show ?thesis by (simp add: force_handover_def Let_def)
next
  case (Some c)
  let ?now = "case nw of Some t \<Rightarrow> t | None \<Rightarrow> clk"
  have evidence: "exit_observed resolve c" if "handover_verdict resolve ?now c = None"
    using that
    by (auto simp: handover_verdict_def exit_observed_def exited_iff Let_def
        split: option.splits lookup.splits if_splits)
  let ?res = "force_handover clk resolve org k dec effects credentials nw d"
  let ?go = "\<not> blank_opt dec \<and> cl_state c = ''held'' \<and> handover_verdict resolve ?now c = None \<and> effects \<and> credentials"
  show ?thesis
  proof (cases ?go)
    case False
    then have "snd ?res = d" "\<not> receipt_admitted (fst ?res)"
      by (auto simp: force_handover_def Let_def Some split: option.split)
    then show ?thesis by (cases ?res) simp
  next
    case True
    let ?c' = "handed_over ?now c"
    have res: "?res = (Inr (receipt_of DADMITTED ?c' None None), put_claim ?c' d)"
      using True by (simp add: force_handover_def Let_def Some)
    have "lock_view ?c' = Free (cl_generation c + 1) \<and> cl_run ?c' = None \<and> cl_event ?c' = None \<and> cl_id ?c' = cl_id c"
      by (simp add: handed_over_def released_def lock_view_def)
    with True Some evidence have "\<exists>c1 c'. get_claim d org k = Some c1 \<and> cl_state c1 = ''held''
       \<and> \<not> blank_opt dec \<and> effects \<and> credentials \<and> exit_observed resolve c1
       \<and> put_claim ?c' d = put_claim c' d \<and> lock_view c' = Free (cl_generation c1 + 1)
       \<and> cl_run c' = None \<and> cl_event c' = None \<and> cl_id c' = cl_id c1" by blast
    then show ?thesis unfolding res by (simp only: prod.case receipt_admitted_simps simp_thms if_True)
  qed
qed

lemma continuation_found:
  assumes "r \<in> set rs" "row_identity r = Inr i" "handoff_receipt_ref i (ex_id r) = Inr ref"
    "ex_handoff r = Some ref"
  shows "first_continuation rs \<noteq> Inr None"
  using assms by (induction rs) (auto split: sum.split)

text \<open>
  A lane with an outstanding continuation is not released. While some execution of this
  claim and generation is not over and carries the handoff receipt that its own identity mints,
  releasing the claim, for whatever reason and with whatever evidence, changes nothing.
\<close>

theorem outstanding_lane_is_kept:
  assumes "get_claim d org k = Some c"
    and "r \<in> set (executions d)" "ex_org r = org" "ex_claim r = k" "ex_generation r = cl_generation c"
    and "live_status r" "row_identity r = Inr i" "handoff_receipt_ref i (ex_id r) = Inr ref"
    and "ex_handoff r = Some ref"
  shows "snd (release_work env now org k g reason ev d) = d
    \<and> \<not> receipt_admitted (fst (release_work env now org k g reason ev d))"
proof -
  have names: "cl_org c = org" "cl_id c = k" using get_claim_SomeD [OF assms(1)] by auto
  have "outstanding_continuation d org k (cl_generation c) \<noteq> Inr None"
    unfolding outstanding_continuation_def
    using assms(2-9) by (intro continuation_found [of r _ i ref]) auto
  then have "continuation_hold env d c reason \<noteq> Inr False"
    using names by (auto simp: continuation_hold_def split: sum.splits option.splits)
  then show ?thesis
    using assms(1) by (auto simp: release_work_def split: sum.split bool.split)
qed

definition handed_off_sample :: execution_row where
  "handed_off_sample = sample_execution\<lparr>ex_handoff
     := Some ''handoff:execution=x:cycle=1:plan=1:claim=c:generation=2''\<rparr>"

definition sample_claim_env :: claim_env where
  "sample_claim_env = \<lparr>ce_uuids = \<lparr>u_run = id, u_receipt = id\<rparr>, ce_parse = \<lambda>_. None, ce_bridge = \<lambda>_ _ _ _. None\<rparr>"

theorem outstanding_lane_is_kept_witness:
  "snd (release_work sample_claim_env (Aware 9) ''o'' ''c'' 2 RrCOMPLETED (Some ''done'') (sample_db\<lparr>executions := [handed_off_sample]\<rparr>))
   = sample_db\<lparr>executions := [handed_off_sample]\<rparr>"
proof -
  let ?d = "sample_db\<lparr>executions := [handed_off_sample]\<rparr>"
  have a: "get_claim ?d ''o'' ''c'' = Some sample_claim" "handed_off_sample \<in> set (executions ?d)"
    "ex_org handed_off_sample = ''o''" "ex_claim handed_off_sample = ''c''"
    "ex_generation handed_off_sample = cl_generation sample_claim" "live_status handed_off_sample"
    "row_identity handed_off_sample = Inr sample_identity"
    "handoff_receipt_ref sample_identity (ex_id handed_off_sample)
      = Inr ''handoff:execution=x:cycle=1:plan=1:claim=c:generation=2''"
    "ex_handoff handed_off_sample = Some ''handoff:execution=x:cycle=1:plan=1:claim=c:generation=2''"
    by code_simp+
  from outstanding_lane_is_kept [OF a] show ?thesis by blast
qed

end
