(* ===== verification/Deployment_Manifest.thy ===== *)
theory Deployment_Manifest
  imports Prelude
begin

text \<open>
  The reviewed deployment manifest and the identity of physical targets
  (\<open>orchestration/deployment_manifest.py\<close>): the validated records, the selectors and path rules,
  and \<open>resolve_manifest_entry\<close>, which answers whether a deployment may go ahead and where.

  Parameters: \<open>kdg\<close>, the hexadecimal SHA-256 of a text, and the target lookup of a connection, which
  may fail. \<open>casefold\<close> is lower-casing of ASCII; path rules match as \<open>fnmatch.fnmatchcase\<close> does.
\<close>

section \<open>Targets\<close>

record target_evidence =
  te_source :: string
  te_verified_at :: string
  te_detail :: "string option"

definition make_evidence :: "string option \<Rightarrow> string option \<Rightarrow> string option \<Rightarrow> pyexc + target_evidence" where
  "make_evidence source at detail =
     (if blank_opt source then Inl (ManifestError ''invalid_target_evidence'')
      else if blank_opt at then Inl (ManifestError ''invalid_target_evidence'')
      else Inr \<lparr>te_source = the source, te_verified_at = the at, te_detail = detail\<rparr>)"

record physical_target =
  pt_provider :: string
  pt_account :: string
  pt_region :: string
  pt_kind :: string
  pt_resource :: string
  pt_evidence :: target_evidence

definition decimal :: "char \<Rightarrow> bool" where
  "decimal c \<longleftrightarrow> c \<in> set ''0123456789''"

definition account_id_ok :: "string \<Rightarrow> bool" where
  "account_id_ok s \<longleftrightarrow> list_all decimal s \<and> length s = 12"

definition make_target ::
    "string option \<Rightarrow> string option \<Rightarrow> string option \<Rightarrow> string option \<Rightarrow> string option \<Rightarrow> target_evidence
     \<Rightarrow> pyexc + physical_target" where
  "make_target provider account region kind resource ev =
     (if list_ex blank_opt [provider, region, kind, resource] then Inl (ManifestError ''invalid_physical_target'')
      else if \<not> account_id_ok (or_else account '''') then Inl (ManifestError ''invalid_physical_target'')
      else Inr \<lparr>pt_provider = the provider, pt_account = the account, pt_region = the region,
                pt_kind = the kind, pt_resource = the resource, pt_evidence = ev\<rparr>)"

definition lower_char :: "char \<Rightarrow> char" where
  "lower_char c = (let n = (of_char c :: nat) in if 65 \<le> n \<and> n \<le> 90 then char_of (n + 32) else c)"

definition key_part :: "string \<Rightarrow> string" where
  "key_part s = map lower_char (strip s)"

definition key_separator :: char where
  "key_separator = CHR 0x1F"

text \<open>The text that is hashed: the normalized parts, joined; a part may not hold the separator.\<close>

definition key_text :: "string list \<Rightarrow> pyexc + string" where
  "key_text parts =
     (let ps = map key_part parts in
      if list_ex (\<lambda>p. p = [] \<or> key_separator \<in> set p) ps then Inl (ManifestError ''invalid_target_key'')
      else Inr (joined [key_separator] ps))"

type_synonym text_digest = "string \<Rightarrow> string"

definition canonical_target_key ::
    "text_digest \<Rightarrow> string \<Rightarrow> string \<Rightarrow> string \<Rightarrow> string \<Rightarrow> string \<Rightarrow> pyexc + string" where
  "canonical_target_key kdg provider account region kind resource =
     map_sum id (\<lambda>t. ''v1:'' @ kdg t) (key_text [provider, account, region, kind, resource])"

definition canonical_key :: "text_digest \<Rightarrow> physical_target \<Rightarrow> pyexc + string" where
  "canonical_key kdg t =
     canonical_target_key kdg (pt_provider t) (pt_account t) (pt_region t) (pt_kind t) (pt_resource t)"

section \<open>Text shapes\<close>

definition lower_alpha :: "char \<Rightarrow> bool" where
  "lower_alpha c \<longleftrightarrow> c \<in> set ''abcdefghijklmnopqrstuvwxyz''"

text \<open>\<open>re.fullmatch(r"[a-z][a-z0-9-]{0,63}", s)\<close> and the fixed-length hexadecimal patterns.\<close>

definition scope_name :: "string \<Rightarrow> bool" where
  "scope_name s = (case s of [] \<Rightarrow> False
     | c # cs \<Rightarrow> lower_alpha c \<and> length cs \<le> 63 \<and> list_all (\<lambda>x. lower_alpha x \<or> decimal x \<or> x = CHR ''-'') cs)"

definition hex_text :: "nat \<Rightarrow> string \<Rightarrow> bool" where
  "hex_text n s \<longleftrightarrow> length s = n \<and> list_all (\<lambda>c. c \<in> set ''0123456789abcdef'') s"

definition starts_and_ends :: "string \<Rightarrow> string \<Rightarrow> string \<Rightarrow> string option" where
  "starts_and_ends pre suf s =
     (if length pre + length suf \<le> length s \<and> take (length pre) s = pre
         \<and> drop (length s - length suf) s = suf
      then Some (drop (length pre) (take (length s - length suf) s)) else None)"

text \<open>\<open>\.github/workflows/[A-Za-z0-9._-]+\.ya?ml\<close>, anchored.\<close>

definition path_char :: "char \<Rightarrow> bool" where
  "path_char c \<longleftrightarrow> lower_alpha c \<or> decimal c \<or> c \<in> set ''ABCDEFGHIJKLMNOPQRSTUVWXYZ._-''"

definition workflow_path_ok :: "string \<Rightarrow> bool" where
  "workflow_path_ok s \<longleftrightarrow> list_ex (\<lambda>ext. case starts_and_ends ''.github/workflows/'' ext s of None \<Rightarrow> False
     | Some name \<Rightarrow> name \<noteq> [] \<and> list_all path_char name) [''.yml'', ''.yaml'']"

definition full_sha :: "string \<Rightarrow> bool" where
  "full_sha s \<longleftrightarrow> hex_text 40 s"

definition artifact_sha :: "string \<Rightarrow> bool" where
  "artifact_sha s \<longleftrightarrow> hex_text 40 (map lower_char s)"

text \<open>\<open>arn:aws:iam::[0-9]{12}:role/adp-[a-z0-9-]+-trusted-deployment\<close>, in full.\<close>

definition role_arn_ok :: "string \<Rightarrow> bool" where
  "role_arn_ok s \<longleftrightarrow>
     (case starts_and_ends ''arn:aws:iam::'' ''-trusted-deployment'' s of None \<Rightarrow> False
      | Some m \<Rightarrow> account_id_ok (take 12 m) \<and>
          (case starts_and_ends '':role/adp-'' [] (drop 12 m) of None \<Rightarrow> False
           | Some name \<Rightarrow> name \<noteq> [] \<and> list_all (\<lambda>c. lower_alpha c \<or> decimal c \<or> c = CHR ''-'') name))"

section \<open>Workflows\<close>

text \<open>\<open>allowed_inputs\<close> maps an input to the values it may take; no value means its default only.\<close>

record workflow_ref =
  wf_path :: string
  wf_revision :: "string option"
  wf_inputs :: "(string \<times> string list) list"
  wf_correlation :: "string option"

definition reserved_inputs :: "string list" where
  "reserved_inputs = [''adp_correlation'', ''adp_source_revision'', ''adp_definition_revision'']"

definition make_workflow ::
    "string option \<Rightarrow> string option \<Rightarrow> (string \<times> string list) list \<Rightarrow> string option \<Rightarrow> pyexc + workflow_ref" where
  "make_workflow path revision inputs correlation =
     (if correlation \<noteq> None \<and> correlation \<noteq> Some ''adp_correlation''
      then Inl (ManifestError ''invalid_workflow_correlation'')
      else if list_ex (\<lambda>p. fst p \<in> set reserved_inputs) inputs
      then Inl (ManifestError ''invalid_workflow_correlation'')
      else if \<not> workflow_path_ok (or_else path '''') then Inl (ManifestError ''invalid_workflow_path'')
      else if revision \<noteq> None \<and> \<not> full_sha (the revision) then Inl (ManifestError ''invalid_workflow_revision'')
      else if list_ex (\<lambda>p. blank (fst p)) inputs then Inl (ManifestError ''invalid_workflow_input'')
      else Inr \<lparr>wf_path = the path, wf_revision = revision, wf_inputs = inputs, wf_correlation = correlation\<rparr>)"

text \<open>The first requested input that is not approved, in the order they were asked for.\<close>

fun check_inputs :: "workflow_ref \<Rightarrow> (string \<times> string) list \<Rightarrow> string option" where
  "check_inputs w [] = None"
| "check_inputs w ((name, value) # rest) =
     (case map_of (wf_inputs w) name of
        None \<Rightarrow> Some (''input_not_permitted:'' @ name)
      | Some permitted \<Rightarrow>
          if value \<notin> set permitted then Some (''input_value_not_permitted:'' @ name)
          else check_inputs w rest)"

section \<open>Entries\<close>

datatype entry_status = ENABLED | DISABLED | UNRESOLVED

record manifest_entry =
  me_id :: string
  me_status :: entry_status
  me_connection :: "string option"
  me_selectors :: "string list"
  me_workflow :: "workflow_ref option"
  me_kind :: "string option"
  me_resource :: "string option"
  me_artifact :: "string option"
  me_verification :: "string option"
  me_rollback :: "string option"
  me_unresolved :: "string option"
  me_docs_only :: bool
  me_group :: "string option"
  me_role :: "string option"

text \<open>The required fields of an enabled entry are there (and true), the workflow's revision included.\<close>

definition fully_specified :: "manifest_entry \<Rightarrow> bool" where
  "fully_specified e \<longleftrightarrow>
     truthy (me_connection e) \<and> me_workflow e \<noteq> None \<and> truthy (me_kind e) \<and> truthy (me_resource e)
     \<and> truthy (me_verification e) \<and> (me_docs_only e \<or> truthy (me_artifact e))
     \<and> (me_group e = None \<or> truthy (me_role e))
     \<and> (case me_workflow e of None \<Rightarrow> True | Some w \<Rightarrow> wf_revision w \<noteq> None)"

text \<open>\<open>__post_init__\<close>, on the entry as it was put together.\<close>

definition check_entry :: "manifest_entry \<Rightarrow> pyexc + manifest_entry" where
  "check_entry e =
     (if me_group e \<noteq> None \<and> (\<not> scope_name (the (me_group e)) \<or> me_docs_only e)
      then Inl (ManifestError ''invalid_release_group'')
      else if blank (me_id e) then Inl (ManifestError ''invalid_manifest_entry'')
      else if me_role e \<noteq> None \<and> \<not> role_arn_ok (the (me_role e)) then Inl (ManifestError ''invalid_mutation_role'')
      else if me_artifact e \<noteq> None \<and> \<not> artifact_sha (the (me_artifact e))
      then Inl (ManifestError ''invalid_artifact_revision'')
      else if me_status e = ENABLED then
        (if \<not> fully_specified e then Inl (ManifestError ''incomplete_manifest_entry'')
         else if me_selectors e = [] then Inl (ManifestError ''incomplete_manifest_entry'')
         else Inr e)
      else if blank_opt (me_unresolved e) then Inl (ManifestError ''unexplained_manifest_entry'')
      else Inr e)"

definition covers :: "manifest_entry \<Rightarrow> string \<Rightarrow> bool" where
  "covers e component \<longleftrightarrow> key_part component \<in> set (map key_part (me_selectors e))"

section \<open>Path rules\<close>

text \<open>
  \<open>fnmatch.fnmatchcase\<close>: \<open>*\<close> any text, \<open>?\<close> any character, \<open>[...]\<close> a set with ranges, negated by
  a leading \<open>!\<close>; a bracket that is never closed stands for itself. \<open>class_end\<close> finds the members
  of a set and what follows its closing bracket, which may not be the first member.
\<close>

fun class_tail :: "string \<Rightarrow> (string \<times> string) option" where
  "class_tail [] = None"
| "class_tail (c # p) =
     (if c = CHR '']'' then Some ([], p)
      else map_option (\<lambda>(ms, r). (c # ms, r)) (class_tail p))"

definition class_end :: "string \<Rightarrow> (bool \<times> string \<times> string) option" where
  "class_end p =
     (let negated = (p \<noteq> [] \<and> hd p = CHR ''!''); q = (if negated then tl p else p) in
      case q of [] \<Rightarrow> None
      | c # q' \<Rightarrow> map_option (\<lambda>(ms, r). (negated, c # ms, r)) (class_tail q'))"

fun in_class :: "string \<Rightarrow> char \<Rightarrow> bool" where
  "in_class [] c = False"
| "in_class (a # ms) c =
     (if 2 \<le> length ms \<and> hd ms = CHR ''-''
      then (of_char a \<le> (of_char c :: nat) \<and> (of_char c :: nat) \<le> of_char (ms ! 1)) \<or> in_class (drop 2 ms) c
      else a = c \<or> in_class ms c)"

lemma class_tail_shorter: "class_tail p = Some (ms, r) \<Longrightarrow> length r < length p"
  by (induction p arbitrary: ms) (auto split: if_splits)

lemma class_end_shorter: "class_end p = Some (n, ms, r) \<Longrightarrow> length r < length p"
  by (cases p) (auto simp: class_end_def Let_def split: list.splits if_splits dest!: class_tail_shorter)

lemma length_tl_less: "s \<noteq> [] \<Longrightarrow> Suc (length (tl s)) = length s"
  by (cases s) auto

function glob :: "string \<Rightarrow> string \<Rightarrow> bool" where
  "glob [] s = (s = [])"
| "glob (k # p) s =
     (if k = CHR ''*'' then glob p s \<or> (if s = [] then False else glob (k # p) (tl s))
      else if s = [] then False
      else if k = CHR ''?'' then glob p (tl s)
      else if k = CHR ''['' then
        (case class_end p of
           None \<Rightarrow> hd s = k \<and> glob p (tl s)
         | Some (negated, ms, rest) \<Rightarrow> in_class ms (hd s) \<noteq> negated \<and> glob rest (tl s))
      else hd s = k \<and> glob p (tl s))"
  by pat_completeness auto
termination
  by (relation "measure (\<lambda>(p, s). length p + length s)")
    (auto dest: class_end_shorter simp del: length_tl simp: length_tl_less [symmetric])

record path_rule =
  pr_pattern :: string
  pr_component :: string

definition ignore_rule :: string where
  "ignore_rule = ''ignore''"

definition make_path_rule :: "string option \<Rightarrow> string option \<Rightarrow> pyexc + path_rule" where
  "make_path_rule pattern component =
     (if blank_opt pattern \<or> list_ex py_space (the pattern) then Inl (ManifestError ''invalid_path_rule'')
      else if blank_opt component then Inl (ManifestError ''invalid_path_rule'')
      else Inr \<lparr>pr_pattern = the pattern, pr_component = the component\<rparr>)"

definition rule_matches :: "path_rule \<Rightarrow> string \<Rightarrow> bool" where
  "rule_matches r path = glob (pr_pattern r) path"

definition ignored :: "path_rule \<Rightarrow> bool" where
  "ignored r \<longleftrightarrow> pr_component r = ignore_rule"

section \<open>The manifest\<close>

record manifest =
  mf_version :: int
  mf_entries :: "manifest_entry list"
  mf_rules :: "path_rule list"

definition manifest_schema_version :: int where
  "manifest_schema_version = 1"

fun repeated_entry :: "string set \<Rightarrow> manifest_entry list \<Rightarrow> bool" where
  "repeated_entry seen [] = False"
| "repeated_entry seen (e # es) =
     (key_part (me_id e) \<in> seen \<or> repeated_entry (insert (key_part (me_id e)) seen) es)"

definition make_manifest :: "int \<Rightarrow> manifest_entry list \<Rightarrow> path_rule list \<Rightarrow> pyexc + manifest" where
  "make_manifest version entries rules =
     (if version \<noteq> manifest_schema_version then Inl (ManifestError ''unsupported_schema_version'')
      else if repeated_entry {} entries then Inl (ManifestError ''duplicate_manifest_entry'')
      else Inr \<lparr>mf_version = version, mf_entries = entries, mf_rules = rules\<rparr>)"

definition entry_of :: "manifest \<Rightarrow> string \<Rightarrow> manifest_entry option" where
  "entry_of m entry_id = find (\<lambda>e. key_part (me_id e) = key_part entry_id) (mf_entries m)"

definition path_rule_of :: "manifest \<Rightarrow> string \<Rightarrow> path_rule option" where
  "path_rule_of m path = find (\<lambda>r. rule_matches r path) (mf_rules m)"

section \<open>Blocks and resolutions\<close>

datatype target_block_code =
    ENTRY_UNKNOWN | ENTRY_DISABLED | TARGET_UNRESOLVED | CONNECTION_UNVERIFIED | EQUIVALENCE_UNVERIFIABLE
  | POLICY_TARGET_MISMATCH | COMPONENT_NOT_COVERED | WORKFLOW_REVISION_MISMATCH | INPUT_NOT_PERMITTED

record target_block =
  tb_code :: target_block_code
  tb_owner :: string
  tb_required :: string
  tb_detail :: "string option"

definition make_target_block ::
    "target_block_code \<Rightarrow> string \<Rightarrow> string \<Rightarrow> string option \<Rightarrow> pyexc + target_block" where
  "make_target_block code owner required detail =
     (if blank owner \<or> blank required then Inl (ManifestError ''invalid_target_block'')
      else Inr \<lparr>tb_code = code, tb_owner = owner, tb_required = required, tb_detail = detail\<rparr>)"

record target_resolution =
  ts_entry :: "manifest_entry option"
  ts_target :: "physical_target option"
  ts_block :: "target_block option"

definition make_resolution ::
    "manifest_entry option \<Rightarrow> physical_target option \<Rightarrow> target_block option \<Rightarrow> pyexc + target_resolution" where
  "make_resolution entry target block =
     (if (target = None) = (block = None) then Inl (ManifestError ''invalid_target_resolution'')
      else Inr \<lparr>ts_entry = entry, ts_target = target, ts_block = block\<rparr>)"

text \<open>What the lookup of a connection gives: an exception of some class, nothing, a proven target, or
  a value of another type.\<close>

datatype looked_up = Raised string | NotVerified | Proven physical_target | OtherValue

type_synonym target_lookup = "string option \<Rightarrow> looked_up"

section \<open>Resolving an entry\<close>

definition refuse ::
    "manifest_entry option \<Rightarrow> target_block_code \<Rightarrow> string \<Rightarrow> string \<Rightarrow> string option \<Rightarrow> pyexc + target_resolution" where
  "refuse entry code owner required detail =
     (case make_target_block code owner required detail of Inl e \<Rightarrow> Inl e
      | Inr b \<Rightarrow> make_resolution entry None (Some b))"

definition platform_operator :: string where
  "platform_operator = ''platform operator''"

definition unusable_entry :: "manifest_entry \<Rightarrow> pyexc + target_resolution" where
  "unusable_entry e =
     (let withheld = (me_status e = DISABLED) in
      refuse (Some e) (if withheld then ENTRY_DISABLED else TARGET_UNRESOLVED)
        (if withheld then platform_operator else ''environment owner'')
        (or_else (me_unresolved e) ''Resolve the entry and re-review it.'') (me_unresolved e))"

text \<open>
  The pin: the workflow's definition as resolved for this dispatch against the approved revision.
  None lets the request pass; a workflow without a revision has no \<open>strip\<close>.
\<close>

definition revision_refusal ::
    "manifest_entry \<Rightarrow> string option \<Rightarrow> (pyexc + target_resolution) option" where
  "revision_refusal e resolved =
     (case me_workflow e of None \<Rightarrow> None
      | Some w \<Rightarrow>
         (case resolved of
            None \<Rightarrow> Some (refuse (Some e) WORKFLOW_REVISION_MISMATCH platform_operator
              (''Resolve the workflow definition to a commit SHA and pass it as resolved_workflow_revision; ''
               @ ''an unchecked definition cannot be dispatched under a pinned approval.'')
              (Some ''workflow_revision_unresolved''))
          | Some r \<Rightarrow>
             (case wf_revision w of None \<Rightarrow> Some (Inl AttributeError)
              | Some pinned \<Rightarrow>
                  if key_part r \<noteq> key_part pinned
                  then Some (refuse (Some e) WORKFLOW_REVISION_MISMATCH ''plan approver''
                    (''The workflow definition resolved for this dispatch is not the revision this entry approves; ''
                     @ ''re-review the entry against the current definition or dispatch the approved revision.'')
                    (Some ''workflow_revision_mismatch''))
                  else None)))"

definition input_refusal ::
    "manifest_entry \<Rightarrow> (string \<times> string) list option \<Rightarrow> (pyexc + target_resolution) option" where
  "input_refusal e requested =
     (case (me_workflow e, requested) of
        (Some w, Some (i # is)) \<Rightarrow>
          (case check_inputs w (i # is) of None \<Rightarrow> None
           | Some reason \<Rightarrow> Some (refuse (Some e) INPUT_NOT_PERMITTED platform_operator
               ''A requested workflow input is outside the reviewed allow-list; remove it or have the entry re-reviewed.''
               (Some reason)))
      | _ \<Rightarrow> None)"

text \<open>The reviewed surface against the proven one, when the entry names one.\<close>

definition surface_matches :: "manifest_entry \<Rightarrow> physical_target \<Rightarrow> bool" where
  "surface_matches e t \<longleftrightarrow>
     (truthy (me_kind e) \<and> truthy (me_resource e)
      \<longrightarrow> key_part (the (me_kind e)) = key_part (pt_kind t)
        \<and> key_part (the (me_resource e)) = key_part (pt_resource t))"

definition looked_up_answer :: "manifest_entry \<Rightarrow> looked_up \<Rightarrow> pyexc + target_resolution" where
  "looked_up_answer e l =
     (case l of
        Raised name \<Rightarrow> refuse (Some e) EQUIVALENCE_UNVERIFIABLE platform_operator
          (''The deployment target could not be resolved from its registered connection; ''
           @ ''retry once the connection service is reachable.'') (Some name)
      | NotVerified \<Rightarrow> refuse (Some e) CONNECTION_UNVERIFIED ''environment owner''
          ''Verify the registered AWS connection for this environment so its account can be proven by readback.''
          None
      | OtherValue \<Rightarrow> Inl (ManifestError ''invalid_target_lookup'')
      | Proven t \<Rightarrow>
          if surface_matches e t then make_resolution (Some e) (Some t) None
          else refuse (Some e) EQUIVALENCE_UNVERIFIABLE platform_operator
            (''The reviewed deployment surface and the surface resolved from the connection ''
             @ ''do not match; re-review the entry against the live target.'') None)"

definition resolve_manifest_entry ::
    "manifest \<Rightarrow> string \<Rightarrow> string \<Rightarrow> string list \<Rightarrow> target_lookup \<Rightarrow> (string \<times> string) list option
     \<Rightarrow> string option \<Rightarrow> pyexc + target_resolution" where
  "resolve_manifest_entry m entry_id component policy_ids lookup requested resolved =
     (case entry_of m entry_id of
        None \<Rightarrow> refuse None ENTRY_UNKNOWN platform_operator
          (''Add a reviewed manifest entry for '' @ repr_string entry_id
           @ '' to src/orchestration/manifests/orchestration-deployments.yaml.'') None
      | Some e \<Rightarrow>
          if me_status e \<noteq> ENABLED then unusable_entry e
          else if \<not> covers e component
          then refuse (Some e) COMPONENT_NOT_COVERED platform_operator
            (''Component '' @ repr_string component @ '' is not covered by entry '' @ repr_string (me_id e)
             @ ''; widen the reviewed selectors or pick the right entry.'') None
          else if me_connection e \<notin> Some ` set policy_ids
          then refuse (Some e) POLICY_TARGET_MISMATCH ''plan approver''
            (''The in-force accepted plan does not permit this deployment target; ''
             @ ''amend the plan or choose a permitted target.'') None
          else (case revision_refusal e resolved of Some answer \<Rightarrow> answer
           | None \<Rightarrow>
             (case input_refusal e requested of Some answer \<Rightarrow> answer
              | None \<Rightarrow> looked_up_answer e (lookup (me_connection e)))))"

section \<open>Lemmas\<close>

lemma refuse_target: "refuse e c o' r w = Inr s \<Longrightarrow> ts_target s = None"
  by (auto simp: refuse_def make_resolution_def split: sum.splits if_splits)

lemma refuse_block:
  "refuse e c o' r w = Inr s \<Longrightarrow> \<exists>b. ts_block s = Some b \<and> tb_code b = c \<and> \<not> blank (tb_owner b) \<and> \<not> blank (tb_required b)"
  by (auto simp: refuse_def make_resolution_def make_target_block_def split: sum.splits if_splits)

lemma check_inputs_None:
  "check_inputs w xs = None \<longleftrightarrow> (\<forall>(n, v) \<in> set xs. \<exists>vs. map_of (wf_inputs w) n = Some vs \<and> v \<in> set vs)"
  by (induction w xs rule: check_inputs.induct) (auto split: option.splits)

lemma repeated_iff:
  "\<not> repeated_entry seen es \<longleftrightarrow> distinct (map (key_part \<circ> me_id) es) \<and> seen \<inter> (key_part \<circ> me_id) ` set es = {}"
  by (induction seen es rule: repeated_entry.induct) auto

text \<open>A pattern without special characters matches itself only; followed by a star, what it begins.\<close>

declare glob.simps(2) [simp del]

definition plain :: "string \<Rightarrow> bool" where
  "plain p \<longleftrightarrow> set p \<inter> {CHR ''*'', CHR ''?'', CHR ''[''} = {}"

lemma glob_star [simp]: "glob [CHR ''*''] s"
proof (induction s)
  case Nil
  show ?case by (subst glob.simps(2)) simp
next
  case (Cons c s)
  then show ?case by (subst glob.simps(2)) simp
qed

lemma glob_literal:
  "k \<notin> {CHR ''*'', CHR ''?'', CHR ''[''} \<Longrightarrow> glob (k # p) s \<longleftrightarrow> (\<exists>t. s = k # t \<and> glob p t)"
  by (subst glob.simps(2)) (cases s; auto)

lemma glob_plain_append: "plain p \<Longrightarrow> glob (p @ q) s \<longleftrightarrow> (\<exists>t. s = p @ t \<and> glob q t)"
proof (induction p arbitrary: s)
  case Nil
  show ?case by simp
next
  case (Cons k p)
  then have k: "k \<notin> {CHR ''*'', CHR ''?'', CHR ''[''}" and p: "plain p" by (auto simp: plain_def)
  show ?case unfolding append_Cons glob_literal [OF k] Cons.IH [OF p] by auto
qed

end
