(* ===== verification/Manifest_Properties.thy ===== *)
theory Manifest_Properties
  imports Deployment_Manifest
begin

text \<open>
  What the deployment manifest promises: the exact conditions under which an entry resolves to a
  target, that a reviewed manifest always answers and names who clears a block, that an entry id is
  never ambiguous, and that path rules cover subtrees in the order they were reviewed.
\<close>

section \<open>A concrete manifest\<close>

definition sample_workflow :: workflow_ref where
  "sample_workflow = \<lparr>wf_path = ''.github/workflows/gateway-deploy.yml'', wf_revision = Some (replicate 40 (CHR ''a'')),
     wf_inputs = [(''environment'', [''dev''])], wf_correlation = None\<rparr>"

definition sample_entry :: manifest_entry where
  "sample_entry = \<lparr>me_id = ''gateway-dev'', me_status = ENABLED, me_connection = Some ''c1'',
     me_selectors = [''gateway''], me_workflow = Some sample_workflow, me_kind = Some ''eks'',
     me_resource = Some ''dev/gateway'', me_artifact = Some (replicate 40 (CHR ''b'')),
     me_verification = Some ''http'', me_rollback = None, me_unresolved = None, me_docs_only = False,
     me_group = None, me_role = None\<rparr>"

definition sample_rules :: "path_rule list" where
  "sample_rules = [\<lparr>pr_pattern = ''docs/*'', pr_component = ignore_rule\<rparr>, \<lparr>pr_pattern = ''modules/*'', pr_component = ''gateway''\<rparr>]"

definition sample_manifest :: manifest where
  "sample_manifest = \<lparr>mf_version = 1, mf_entries = [sample_entry], mf_rules = sample_rules\<rparr>"

lemma sample_manifest_made: "make_manifest 1 [sample_entry] sample_rules = Inr sample_manifest"
  by (simp add: make_manifest_def manifest_schema_version_def sample_manifest_def)

lemma sample_workflow_made:
  "make_workflow (Some ''.github/workflows/gateway-deploy.yml'') (Some (replicate 40 (CHR ''a'')))
     [(''environment'', [''dev''])] None = Inr sample_workflow"
  by code_simp

lemma sample_entry_checked: "check_entry sample_entry = Inr sample_entry"
  by code_simp

section \<open>When an entry resolves\<close>

text \<open>
  The promise of a resolution, apart from how it is computed: the dispatch is within what was
  reviewed and what the plan in force permits, and its target is proven to be the reviewed surface.
\<close>

definition pinned_definition :: "manifest_entry \<Rightarrow> string option \<Rightarrow> bool" where
  "pinned_definition e resolved =
     (case me_workflow e of None \<Rightarrow> True
      | Some w \<Rightarrow> (case (resolved, wf_revision w) of
           (Some r, Some pinned) \<Rightarrow> key_part r = key_part pinned | _ \<Rightarrow> False))"

definition approved_inputs :: "manifest_entry \<Rightarrow> (string \<times> string) list option \<Rightarrow> bool" where
  "approved_inputs e requested =
     (case (me_workflow e, requested) of
        (Some w, Some req) \<Rightarrow> \<forall>(n, v) \<in> set req. \<exists>vs. map_of (wf_inputs w) n = Some vs \<and> v \<in> set vs
      | _ \<Rightarrow> True)"

definition may_deploy ::
    "manifest_entry \<Rightarrow> string \<Rightarrow> string list \<Rightarrow> (string \<times> string) list option \<Rightarrow> string option \<Rightarrow> bool" where
  "may_deploy e component policy_ids requested resolved \<longleftrightarrow>
     me_status e = ENABLED \<and> covers e component \<and> me_connection e \<in> Some ` set policy_ids
     \<and> pinned_definition e resolved \<and> approved_inputs e requested"

lemma revision_pinned: "revision_refusal e resolved = None \<longleftrightarrow> pinned_definition e resolved"
  by (auto simp: revision_refusal_def pinned_definition_def split: option.splits)

lemma input_refusal_None:
  "input_refusal e requested = None
   \<longleftrightarrow> (case (me_workflow e, requested) of (Some w, Some req) \<Rightarrow> check_inputs w req = None | _ \<Rightarrow> True)"
  by (auto simp: input_refusal_def split: option.split list.split)

lemma inputs_approved: "input_refusal e requested = None \<longleftrightarrow> approved_inputs e requested"
  unfolding input_refusal_None check_inputs_None approved_inputs_def by (rule refl)

lemma revision_refusal_target:
  "revision_refusal e resolved = Some (Inr s) \<Longrightarrow> ts_target s = None"
  by (auto simp: revision_refusal_def dest: refuse_target split: option.splits if_splits)

lemma input_refusal_target: "input_refusal e requested = Some (Inr s) \<Longrightarrow> ts_target s = None"
  by (auto simp: input_refusal_def dest: refuse_target split: option.splits list.splits)

lemma looked_up_target:
  "(\<exists>s. looked_up_answer e l = Inr s \<and> ts_target s = Some t) \<longleftrightarrow> l = Proven t \<and> surface_matches e t"
  by (cases l) (auto simp: looked_up_answer_def make_resolution_def dest: refuse_target)

lemma resolved_unverified:
  "resolve_manifest_entry m i c ps (\<lambda>_. NotVerified) requested resolved = Inr s \<Longrightarrow> ts_target s = None"
  by (auto simp: resolve_manifest_entry_def looked_up_answer_def unusable_entry_def Let_def
      split: if_splits option.splits dest: refuse_target revision_refusal_target input_refusal_target)

text \<open>
  C39: A deployment is resolved to a target exactly when the entry of that id is enabled, covers the
  component, deploys through a connection the plan in force permits, pins the very workflow
  revision that was resolved for the dispatch, allows every requested input with its value, and the
  connection's lookup proves a target on the reviewed surface; and then to that target.
\<close>

theorem resolved_exactly_when:
  "(\<exists>s. resolve_manifest_entry m entry_id component policy_ids lookup requested resolved = Inr s
       \<and> ts_target s = Some t)
   \<longleftrightarrow> (\<exists>e. entry_of m entry_id = Some e \<and> may_deploy e component policy_ids requested resolved
       \<and> lookup (me_connection e) = Proven t \<and> surface_matches e t)"
proof (cases "entry_of m entry_id")
  case None
  then show ?thesis by (auto simp: resolve_manifest_entry_def dest: refuse_target)
next
  case (Some e)
  show ?thesis
  proof (cases "may_deploy e component policy_ids requested resolved")
    case True
    then have "resolve_manifest_entry m entry_id component policy_ids lookup requested resolved
        = looked_up_answer e (lookup (me_connection e))"
      using Some by (simp add: resolve_manifest_entry_def may_deploy_def flip: revision_pinned inputs_approved)
    with True Some looked_up_target show ?thesis by auto
  next
    case False
    then have "ts_target s \<noteq> Some t"
      if "resolve_manifest_entry m entry_id component policy_ids lookup requested resolved = Inr s" for s
      using that Some
      by (auto simp: resolve_manifest_entry_def may_deploy_def unusable_entry_def Let_def
          simp flip: revision_pinned inputs_approved split: if_splits option.splits
          dest: refuse_target revision_refusal_target input_refusal_target)
    with False Some show ?thesis by auto
  qed
qed

section \<open>A reviewed manifest always answers\<close>

text \<open>An answer: a target and no block, or a block that says who clears it with what.\<close>

definition answers :: "pyexc + target_resolution \<Rightarrow> bool" where
  "answers x = (case x of Inl _ \<Rightarrow> False
     | Inr s \<Rightarrow> (case (ts_target s, ts_block s) of
          (Some _, None) \<Rightarrow> True
        | (None, Some b) \<Rightarrow> \<not> blank (tb_owner b) \<and> \<not> blank (tb_required b)
        | _ \<Rightarrow> False))"

lemma refuse_answers: "\<not> blank o' \<Longrightarrow> \<not> blank r \<Longrightarrow> answers (refuse e c o' r w)"
  by (simp add: answers_def refuse_def make_target_block_def make_resolution_def)

lemma blank_append: "blank (x @ y) \<longleftrightarrow> blank x \<and> blank y"
  by (auto simp: blank_iff)

lemma blank_Cons: "blank (c # x) \<longleftrightarrow> py_space c \<and> blank x"
  by (auto simp: blank_iff)

lemmas spelled = blank_append blank_Cons py_space_def platform_operator_def

lemma checked_entry:
  assumes "check_entry e = Inr e"
  shows "me_status e = ENABLED \<Longrightarrow> fully_specified e"
    and "me_status e \<noteq> ENABLED \<Longrightarrow> \<not> blank_opt (me_unresolved e)"
  using assms by (auto simp: check_entry_def split: if_splits)

text \<open>An answer about an entry: it carries the entry, and a target only if that is enabled.\<close>

definition answers_for :: "manifest_entry \<Rightarrow> pyexc + target_resolution \<Rightarrow> bool" where
  "answers_for e x \<longleftrightarrow> answers x
     \<and> (case x of Inl _ \<Rightarrow> False
        | Inr s \<Rightarrow> ts_entry s = Some e \<and> (ts_target s = None \<or> me_status e = ENABLED))"

lemma refuse_for: "\<not> blank o' \<Longrightarrow> \<not> blank r \<Longrightarrow> answers_for e (refuse (Some e) c o' r w)"
  by (simp add: answers_for_def answers_def refuse_def make_target_block_def make_resolution_def)

lemma unusable_for:
  assumes "\<not> blank_opt (me_unresolved e)"
  shows "answers_for e (unusable_entry e)"
proof -
  obtain r where r: "me_unresolved e = Some r" "\<not> blank r"
    using assms by (cases "me_unresolved e") auto
  then have "or_else (me_unresolved e) x = r" for x by (auto simp: or_else_def)
  then show ?thesis
    using r unfolding unusable_entry_def Let_def by (intro refuse_for) (simp_all add: spelled)
qed

lemma looked_up_for:
  assumes "l \<noteq> OtherValue" "me_status e = ENABLED"
  shows "answers_for e (looked_up_answer e l)"
proof -
  have "answers_for e (make_resolution (Some e) (Some t) None)" for t
    using assms(2) by (simp add: answers_for_def answers_def make_resolution_def)
  moreover have "answers_for e (refuse (Some e) c platform_operator r w)" if "\<not> blank r" for c r w
    using that by (intro refuse_for) (simp add: spelled)
  moreover have "answers_for e (refuse (Some e) c ''environment owner'' r w)" if "\<not> blank r" for c r w
    using that by (intro refuse_for) (simp add: spelled)
  ultimately show ?thesis using assms(1) by (cases l) (simp_all add: looked_up_answer_def spelled)
qed

lemma revision_for:
  assumes "revision_refusal e resolved = Some x" "fully_specified e"
  shows "answers_for e x"
proof -
  have "answers_for e (refuse (Some e) c platform_operator r w)"
    and "answers_for e (refuse (Some e) c ''plan approver'' r w)" if "\<not> blank r" for c r w
    using that by (auto intro!: refuse_for simp: spelled)
  moreover have "wf_revision w \<noteq> None" if "me_workflow e = Some w" for w
    using assms(2) that by (simp add: fully_specified_def)
  ultimately show ?thesis
    using assms(1) by (auto simp: revision_refusal_def spelled split: option.splits if_splits)
qed

lemma input_for: "input_refusal e requested = Some x \<Longrightarrow> answers_for e x"
  by (auto simp: input_refusal_def spelled intro!: refuse_for split: option.splits list.splits)

lemma resolve_for:
  assumes "entry_of m entry_id = Some e" "check_entry e = Inr e" "lookup (me_connection e) \<noteq> OtherValue"
  shows "answers_for e (resolve_manifest_entry m entry_id component policy_ids lookup requested resolved)"
proof (cases "me_status e = ENABLED")
  case True
  have uncovered: "answers_for e (refuse (Some e) COMPONENT_NOT_COVERED platform_operator
      (''Component '' @ repr_string component @ '' is not covered by entry '' @ repr_string (me_id e)
       @ ''; widen the reviewed selectors or pick the right entry.'') None)"
    by (intro refuse_for) (simp_all add: spelled)
  have unpermitted: "answers_for e (refuse (Some e) POLICY_TARGET_MISMATCH ''plan approver''
      (''The in-force accepted plan does not permit this deployment target; ''
       @ ''amend the plan or choose a permitted target.'') None)"
    by (intro refuse_for) (simp_all add: spelled)
  have spec: "fully_specified e" using checked_entry(1) [OF assms(2) True] .
  show ?thesis
    unfolding resolve_manifest_entry_def assms(1) option.case
    using True uncovered unpermitted revision_for [OF _ spec] input_for looked_up_for [OF assms(3) True]
    by (simp only: if_False not_True_eq_False split: if_split option.split) blast
next
  case False
  then show ?thesis
    using unusable_for [OF checked_entry(2) [OF assms(2) False]] assms(1) by (simp add: resolve_manifest_entry_def)
qed

text \<open>
  A manifest of reviewed entries always answers, whatever is asked of it: the resolution of a
  request, with a lookup that gives a target, nothing or an exception, is a target without a block or
  a block without a target that names its owner and the input that clears it. An entry that resolves
  to a target is a fully specified entry of the manifest.
\<close>

theorem reviewed_manifest_answers:
  assumes "make_manifest v es rules = Inr m" "list_all (\<lambda>e. check_entry e = Inr e) es"
    and "OtherValue \<notin> range lookup"
  shows "case resolve_manifest_entry m entry_id component policy_ids lookup requested resolved of
      Inl _ \<Rightarrow> False
    | Inr s \<Rightarrow> (case (ts_target s, ts_block s) of
          (Some _, None) \<Rightarrow> \<exists>e \<in> set es. ts_entry s = Some e \<and> fully_specified e
        | (None, Some b) \<Rightarrow> \<not> blank (tb_owner b) \<and> \<not> blank (tb_required b)
        | _ \<Rightarrow> False)"
proof (cases "entry_of m entry_id")
  case None
  then have "\<exists>s b. resolve_manifest_entry m entry_id component policy_ids lookup requested resolved = Inr s
      \<and> ts_target s = None \<and> ts_block s = Some b \<and> \<not> blank (tb_owner b) \<and> \<not> blank (tb_required b)"
    by (simp add: resolve_manifest_entry_def refuse_def make_target_block_def make_resolution_def spelled)
  then show ?thesis by auto
next
  case (Some e)
  have mem: "e \<in> set es"
    using assms(1) find_SomeD [OF Some [unfolded entry_of_def]] by (auto simp: make_manifest_def split: if_splits)
  with assms(2) have ok: "check_entry e = Inr e" by (simp add: list_all_iff)
  have lookup: "lookup (me_connection e) \<noteq> OtherValue" using assms(3) by (metis rangeI)
  have "answers_for e (resolve_manifest_entry m entry_id component policy_ids lookup requested resolved)"
    by (rule resolve_for) (fact Some ok lookup)+
  then show ?thesis
    using mem checked_entry(1) [OF ok] by (auto simp: answers_for_def answers_def split: sum.splits option.splits)
qed

theorem reviewed_manifest_answers_witness:
  "case resolve_manifest_entry sample_manifest ''gateway-dev'' ''gateway'' [''c1''] (\<lambda>_. NotVerified) None
     (Some (replicate 40 (CHR ''a''))) of Inl _ \<Rightarrow> False | Inr s \<Rightarrow> ts_target s = None"
proof -
  have "list_all (\<lambda>e. check_entry e = Inr e) [sample_entry]" by (simp add: sample_entry_checked)
  moreover have "OtherValue \<notin> range (\<lambda>_ :: string option. NotVerified)" by auto
  moreover have "ts_target s = None"
    if "resolve_manifest_entry sample_manifest ''gateway-dev'' ''gateway'' [''c1''] (\<lambda>_. NotVerified) None
      (Some (replicate 40 (CHR ''a''))) = Inr s" for s
    using that resolved_unverified by blast
  ultimately show ?thesis
    using reviewed_manifest_answers [OF sample_manifest_made, of "\<lambda>_. NotVerified" "''gateway-dev''" "''gateway''"
        "[''c1'']" None "Some (replicate 40 (CHR ''a''))"]
    by (auto split: sum.splits)
qed

section \<open>Entry ids and path rules\<close>

text \<open>
  The approval for an id is one entry: in a manifest that was accepted, whatever the order of its
  entries, each of them is the one found under every spelling of its id, and ids that differ in more
  than case and padding never find it.
\<close>

theorem entry_id_is_unambiguous:
  assumes "make_manifest v es rules = Inr m" "e \<in> set es"
  shows "entry_of m entry_id = Some e \<longleftrightarrow> key_part entry_id = key_part (me_id e)"
proof -
  have m: "mf_entries m = es" and uniq: "unique_on (key_part \<circ> me_id) es"
    using assms(1) repeated_iff [of "{}" es] by (auto simp: make_manifest_def unique_on_def split: if_splits)
  show ?thesis
  proof
    assume "key_part entry_id = key_part (me_id e)"
    then show "entry_of m entry_id = Some e"
      unfolding entry_of_def m by (intro find_unique [OF uniq assms(2)]) simp
  qed (auto simp: entry_of_def dest!: find_SomeD)
qed

theorem entry_id_is_unambiguous_witness: "entry_of sample_manifest '' Gateway-DEV'' = Some sample_entry"
proof -
  have "key_part '' Gateway-DEV'' = key_part (me_id sample_entry)" by code_simp
  then show ?thesis using entry_id_is_unambiguous [OF sample_manifest_made, of sample_entry] by simp
qed

text \<open>
  A rule whose pattern is a path followed by a star covers exactly the paths below it, and, being
  reviewed first, decides for them: what follows it applies to all other paths, as if it were not there.
\<close>

theorem subtree_rule_decides:
  assumes "plain p" "mf_rules m = \<lparr>pr_pattern = p @ ''*'', pr_component = c\<rparr> # rest"
  shows "path_rule_of m path = (if \<exists>t. path = p @ t then Some \<lparr>pr_pattern = p @ ''*'', pr_component = c\<rparr>
     else path_rule_of (m\<lparr>mf_rules := rest\<rparr>) path)"
  using assms(2) glob_plain_append [OF assms(1), of "''*''" path]
  by (simp add: path_rule_of_def rule_matches_def)

theorem subtree_rule_decides_witness:
  "path_rule_of sample_manifest ''docs/a/b.md'' = Some \<lparr>pr_pattern = ''docs/*'', pr_component = ignore_rule\<rparr>"
proof -
  have "plain ''docs/''" by code_simp
  moreover have "mf_rules sample_manifest = \<lparr>pr_pattern = ''docs/'' @ ''*'', pr_component = ignore_rule\<rparr>
      # [\<lparr>pr_pattern = ''modules/*'', pr_component = ''gateway''\<rparr>]"
    by (simp add: sample_manifest_def sample_rules_def)
  ultimately show ?thesis using subtree_rule_decides [of "''docs/''" sample_manifest ignore_rule _ "''docs/a/b.md''"] by simp
qed

end
