(* ===== verification/Environment_Leases.thy ===== *)
theory Environment_Leases
  imports Deployment_Manifest
begin

text \<open>
  Exclusive holds on physical deployment targets (\<open>orchestration/environment_leases.py\<close>). The
  state is the lease table; a target is named by its canonical key.

  Parameters: \<open>lp_digest\<close>, the hexadecimal SHA-256 of a text, and \<open>lp_fromiso\<close>,
  \<open>datetime.fromisoformat\<close> (None where it raises).
\<close>

section \<open>Leases\<close>

record lease_row =
  le_id :: string
  le_key :: string
  le_source :: string
  le_verified_at :: pydt
  le_detail :: "string option"
  le_state :: string
  le_org :: "string option"
  le_action :: "string option"
  le_generation :: int
  le_entry :: "string option"
  le_ref :: "string option"
  le_pending :: "string option"
  le_revision :: int
  le_acquired :: "pydt option"
  le_heartbeat :: "pydt option"
  le_expires :: "pydt option"
  le_terminal :: "string option"
  le_reconciled_at :: "pydt option"
  le_reason :: "string option"
  le_released_at :: "pydt option"

type_synonym lease_db = "lease_row list"

datatype lease_state = LsHELD | LsFREE

fun lease_state_value :: "lease_state \<Rightarrow> string" where
  "lease_state_value LsHELD = ''held''"
| "lease_state_value LsFREE = ''free''"

interpretation lease_text: text_enum lease_state_value "[LsHELD, LsFREE]"
proof
  show "e \<in> set [LsHELD, LsFREE]" for e by (cases e) simp_all
  show "distinct (map lease_state_value [LsHELD, LsFREE])" by simp
qed

datatype lease_kind = LkAPPLIED | LkSTALE | LkCONFLICT

datatype lease_release = LrCOMPLETED | LrFAILED | LrABANDONED

fun lease_release_value :: "lease_release \<Rightarrow> string" where
  "lease_release_value LrCOMPLETED = ''completed''"
| "lease_release_value LrFAILED = ''failed''"
| "lease_release_value LrABANDONED = ''abandoned''"

record lease_holder =
  lh_org :: string
  lh_action :: string
  lh_generation :: int

definition make_holder :: "string option \<Rightarrow> string option \<Rightarrow> pynum \<Rightarrow> pyexc + lease_holder" where
  "make_holder org action gen =
     (if blank_opt org then Inl (LeaseError ''invalid_holder'')
      else if blank_opt action then Inl (LeaseError ''invalid_holder'')
      else if \<not> int_at_least 1 gen then Inl (LeaseError ''invalid_holder'')
      else Inr \<lparr>lh_org = the org, lh_action = the action, lh_generation = the_int gen\<rparr>)"

record lease_view =
  lv_id :: string
  lv_key :: string
  lv_state :: lease_state
  lv_revision :: int
  lv_org :: "string option"
  lv_action :: "string option"
  lv_generation :: int
  lv_entry :: "string option"
  lv_ref :: "string option"
  lv_source :: string
  lv_verified_at :: "pydt option"
  lv_acquired :: "pydt option"
  lv_heartbeat :: "pydt option"
  lv_expires :: "pydt option"
  lv_terminal :: "string option"
  lv_reconciled_at :: "pydt option"

definition lapsed_at :: "lease_view \<Rightarrow> pydt \<Rightarrow> bool" where
  "lapsed_at v now = lapsed_by (as_aware (lv_expires v)) now"

record lease_outcome =
  lo_kind :: lease_kind
  lo_lease :: "lease_view option"
  lo_reason :: "string option"

definition require_known_state :: "lease_row \<Rightarrow> pyexc + lease_state" where
  "require_known_state row =
     (case enum_of lease_state_value [LsHELD, LsFREE] (le_state row) of
        None \<Rightarrow> Inl (LeaseError ''unknown_vocabulary'') | Some s \<Rightarrow> Inr s)"

definition to_view :: "lease_row \<Rightarrow> pyexc + lease_view" where
  "to_view row =
     (case require_known_state row of Inl e \<Rightarrow> Inl e
      | Inr s \<Rightarrow> Inr \<lparr>lv_id = le_id row, lv_key = le_key row, lv_state = s, lv_revision = le_revision row,
          lv_org = le_org row, lv_action = le_action row, lv_generation = le_generation row,
          lv_entry = le_entry row, lv_ref = le_ref row, lv_source = le_source row,
          lv_verified_at = as_aware (Some (le_verified_at row)), lv_acquired = as_aware (le_acquired row),
          lv_heartbeat = as_aware (le_heartbeat row), lv_expires = as_aware (le_expires row),
          lv_terminal = le_terminal row, lv_reconciled_at = as_aware (le_reconciled_at row)\<rparr>)"

definition held_conflict :: lease_outcome where
  "held_conflict = \<lparr>lo_kind = LkCONFLICT, lo_lease = None, lo_reason = Some ''target_held''\<rparr>"

text \<open>An answer that carries the row's view.\<close>

definition lease_answer :: "lease_kind \<Rightarrow> lease_row \<Rightarrow> string option \<Rightarrow> pyexc + lease_outcome" where
  "lease_answer kind row reason =
     map_sum id (\<lambda>v. \<lparr>lo_kind = kind, lo_lease = Some v, lo_reason = reason\<rparr>) (to_view row)"

definition locked_lease :: "lease_db \<Rightarrow> string \<Rightarrow> pyexc + lease_row option" where
  "locked_lease d key =
     (case find (\<lambda>r. le_key r = key) d of
        None \<Rightarrow> Inr None
      | Some row \<Rightarrow> (case require_known_state row of Inl e \<Rightarrow> Inl e | Inr _ \<Rightarrow> Inr (Some row)))"

definition put_lease :: "lease_row \<Rightarrow> lease_db \<Rightarrow> lease_db" where
  "put_lease row d = update_where (\<lambda>r. le_id r = le_id row) (\<lambda>_. row) d"

text \<open>\<open>str(raw).replace("Z", "+00:00")\<close> and the zone a naive result is given.\<close>

definition parse_evidence_time :: "(string \<Rightarrow> pydt option) \<Rightarrow> string \<Rightarrow> pyexc + pydt" where
  "parse_evidence_time fromiso raw =
     (case fromiso (concat (map (\<lambda>c. if c = CHR ''Z'' then ''+00:00'' else [c]) raw)) of
        None \<Rightarrow> Inl (LeaseError ''invalid_evidence_time'')
      | Some t \<Rightarrow> Inr (case as_aware (Some t) of Some a \<Rightarrow> a | None \<Rightarrow> t))"

section \<open>Acquiring\<close>

definition same_action :: "lease_row \<Rightarrow> lease_holder \<Rightarrow> bool" where
  "same_action row h \<longleftrightarrow> le_org row = Some (lh_org h) \<and> le_action row = Some (lh_action h)"

record acquire_args =
  aq_target :: physical_target
  aq_holder :: lease_holder
  aq_entry :: string
  aq_ref :: "string option"
  aq_seconds :: int

text \<open>
  \<open>_take\<close> up to the evidence: the row with the new holder. The evidence columns are the last to
  be written, and an unreadable readback time raises between the first of them and the others.
\<close>

definition taken_hold :: "pydt \<Rightarrow> acquire_args \<Rightarrow> lease_row \<Rightarrow> lease_row" where
  "taken_hold now a row =
     (let h = aq_holder a;
          same_release = same_action row h \<and> le_state row = ''held'' \<and> le_ref row = aq_ref a
            \<and> le_entry row = Some (aq_entry a) in
      row\<lparr>le_state := ''held'', le_org := Some (lh_org h), le_action := Some (lh_action h),
          le_generation := (if same_action row h then max (le_generation row) (lh_generation h)
                            else lh_generation h),
          le_entry := Some (aq_entry a), le_ref := aq_ref a, le_revision := le_revision row + 1,
          le_acquired := (if \<not> same_release \<or> le_acquired row = None then Some now else le_acquired row),
          le_heartbeat := Some now, le_expires := Some (plus_seconds now (aq_seconds a)),
          le_terminal := None, le_reconciled_at := None, le_reason := None, le_released_at := None\<rparr>)"

definition with_evidence ::
    "(string \<Rightarrow> pydt option) \<Rightarrow> target_evidence \<Rightarrow> lease_row \<Rightarrow> pyexc option \<times> lease_row" where
  "with_evidence fromiso ev row =
     (let sourced = row\<lparr>le_source := te_source ev\<rparr> in
      (case parse_evidence_time fromiso (te_verified_at ev) of
         Inl e \<Rightarrow> (Some e, sourced)
       | Inr t \<Rightarrow> (None, sourced\<lparr>le_verified_at := t, le_detail := te_detail ev\<rparr>)))"

text \<open>The answer of a write on one row: the exception it ended with, or the view.\<close>

definition applied_row :: "pyexc option \<times> lease_row \<Rightarrow> lease_db \<Rightarrow> (pyexc + lease_outcome) \<times> lease_db" where
  "applied_row r d =
     (case r of (Some e, row) \<Rightarrow> (Inl e, put_lease row d)
      | (None, row) \<Rightarrow> (lease_answer LkAPPLIED row None, put_lease row d))"

definition take_hold ::
    "(string \<Rightarrow> pydt option) \<Rightarrow> pydt \<Rightarrow> acquire_args \<Rightarrow> lease_row \<Rightarrow> (lease_db, lease_outcome) op" where
  "take_hold fromiso now a row d =
     applied_row (with_evidence fromiso (pt_evidence (aq_target a)) (taken_hold now a row)) d"

text \<open>A refresh while a publication is pending keeps everything but the contact window.\<close>

definition refreshed_hold :: "pydt \<Rightarrow> acquire_args \<Rightarrow> lease_row \<Rightarrow> lease_row" where
  "refreshed_hold now a row =
     row\<lparr>le_revision := le_revision row + 1, le_heartbeat := Some now,
         le_expires := Some (plus_seconds now (aq_seconds a))\<rparr>"

definition acquire_existing ::
    "(string \<Rightarrow> pydt option) \<Rightarrow> pydt \<Rightarrow> acquire_args \<Rightarrow> lease_row \<Rightarrow> (lease_db, lease_outcome) op" where
  "acquire_existing fromiso now a row d =
     (let h = aq_holder a in
      if le_state row = ''held'' then
        (if same_action row h then
           (if le_pending row \<noteq> None \<and> (le_ref row \<noteq> aq_ref a \<or> le_entry row \<noteq> Some (aq_entry a))
            then (Inr held_conflict, d)
            else if lh_generation h < le_generation row
            then (lease_answer LkCONFLICT row (Some ''owner_generation_superseded''), d)
            else if le_pending row \<noteq> None then
              (if lh_generation h \<noteq> le_generation row then (Inr held_conflict, d)
               else applied_row (with_evidence fromiso (pt_evidence (aq_target a)) (refreshed_hold now a row)) d)
            else take_hold fromiso now a row d)
         else if \<not> (lapsed_by (as_aware (le_expires row)) now \<and> truthy (le_terminal row) \<and> le_pending row = None)
         then (Inr held_conflict, d)
         else take_hold fromiso now a row d)
      else take_hold fromiso now a row d)"

definition first_hold :: "pydt \<Rightarrow> string \<Rightarrow> string \<Rightarrow> acquire_args \<Rightarrow> pydt \<Rightarrow> lease_row" where
  "first_hold now new_id key a verified =
     (let h = aq_holder a; ev = pt_evidence (aq_target a) in
      \<lparr>le_id = new_id, le_key = key, le_source = te_source ev, le_verified_at = verified,
       le_detail = te_detail ev, le_state = ''held'', le_org = Some (lh_org h),
       le_action = Some (lh_action h), le_generation = lh_generation h, le_entry = Some (aq_entry a),
       le_ref = aq_ref a, le_pending = None, le_revision = 1, le_acquired = Some now,
       le_heartbeat = Some now, le_expires = Some (plus_seconds now (aq_seconds a)),
       le_terminal = None, le_reconciled_at = None, le_reason = None, le_released_at = None\<rparr>)"

record lease_params =
  lp_digest :: text_digest
  lp_fromiso :: "string \<Rightarrow> pydt option"

definition acquire_lease ::
    "lease_params \<Rightarrow> pydt \<Rightarrow> string \<Rightarrow> lease_row list option \<Rightarrow> physical_target \<Rightarrow> lease_holder
     \<Rightarrow> string option \<Rightarrow> string option \<Rightarrow> pynum \<Rightarrow> (lease_db, lease_outcome) op" where
  "acquire_lease p now new_id race target h entry ref seconds d =
     (if blank_opt entry then (Inl (LeaseError ''invalid_acquire''), d)
      else if \<not> int_at_least 1 seconds then (Inl (LeaseError ''invalid_acquire''), d)
      else
        let a = \<lparr>aq_target = target, aq_holder = h, aq_entry = the entry, aq_ref = ref, aq_seconds = the_int seconds\<rparr> in
        (case canonical_key (lp_digest p) target of Inl e \<Rightarrow> (Inl e, d)
         | Inr key \<Rightarrow>
            (case locked_lease d key of Inl e \<Rightarrow> (Inl e, d)
             | Inr (Some row) \<Rightarrow> acquire_existing (lp_fromiso p) now a row d
             | Inr None \<Rightarrow>
                (case parse_evidence_time (lp_fromiso p) (te_verified_at (pt_evidence target)) of
                   Inl e \<Rightarrow> (Inl e, d)
                 | Inr verified \<Rightarrow>
                    (case race of
                       None \<Rightarrow> let row = first_hold now new_id key a verified in
                         (lease_answer LkAPPLIED row None, d @ [row])
                     | Some committed \<Rightarrow>
                         let d' = d @ committed in
                         (case locked_lease d' key of
                            Inl e \<Rightarrow> (Inl e, d')
                          | Inr None \<Rightarrow> (Inl (LeaseError ''acquire_race_lost''), d')
                          | Inr (Some winner) \<Rightarrow> acquire_existing (lp_fromiso p) now a winner d'))))))"

section \<open>Reconciling and releasing\<close>

definition reconcile_lease ::
    "pydt \<Rightarrow> string \<Rightarrow> pynum \<Rightarrow> string option \<Rightarrow> lease_holder \<Rightarrow> bool \<Rightarrow> int \<Rightarrow> (lease_db, lease_outcome) op" where
  "reconcile_lease now key expected evidence h heartbeat seconds d =
     (if \<not> heartbeat \<and> blank_opt evidence then (Inl (LeaseError ''missing_terminal_evidence''), d)
      else if \<not> int_at_least 1 expected then (Inl (LeaseError ''invalid_reconcile''), d)
      else (case locked_lease d key of
         Inl e \<Rightarrow> (Inl e, d)
       | Inr None \<Rightarrow> (Inl (LeaseError ''unknown_lease''), d)
       | Inr (Some row) \<Rightarrow>
           if le_state row \<noteq> ''held'' \<or> \<not> same_action row h then (Inr held_conflict, d)
           else if lh_generation h < le_generation row
           then (lease_answer LkCONFLICT row (Some ''owner_generation_superseded''), d)
           else if le_revision row \<noteq> the_int expected
           then (lease_answer LkSTALE row (Some ''stale_revision''), d)
           else if heartbeat then
             applied_row (None, row\<lparr>le_heartbeat := Some now, le_expires := Some (plus_seconds now seconds),
                                    le_revision := le_revision row + 1\<rparr>) d
           else if le_pending row \<noteq> None
           then (lease_answer LkCONFLICT row (Some ''publication_unsettled''), d)
           else applied_row (None, row\<lparr>le_terminal := Some (strip (the evidence)), le_reconciled_at := Some now,
                                       le_revision := le_revision row + 1\<rparr>) d))"

definition freed :: "pydt \<Rightarrow> lease_release \<Rightarrow> string \<Rightarrow> lease_row \<Rightarrow> lease_row" where
  "freed now reason evidence row =
     row\<lparr>le_state := ''free'', le_entry := None, le_ref := None, le_expires := None, le_heartbeat := None,
         le_reason := Some (lease_release_value reason), le_released_at := Some now,
         le_terminal := Some (strip evidence), le_reconciled_at := Some now,
         le_revision := le_revision row + 1\<rparr>"

definition release_lease ::
    "pydt \<Rightarrow> string \<Rightarrow> lease_holder \<Rightarrow> lease_release \<Rightarrow> string option \<Rightarrow> (lease_db, lease_outcome) op" where
  "release_lease now key h reason evidence d =
     (if blank_opt evidence then (Inl (LeaseError ''missing_terminal_evidence''), d)
      else (case locked_lease d key of
         Inl e \<Rightarrow> (Inl e, d)
       | Inr None \<Rightarrow> (Inl (LeaseError ''unknown_lease''), d)
       | Inr (Some row) \<Rightarrow>
           if le_state row = ''free'' then
             (if same_action row h \<and> le_generation row \<le> lh_generation h
              then (lease_answer LkAPPLIED row (Some ''already_released''), d)
              else (Inr held_conflict, d))
           else if \<not> same_action row h then (Inr held_conflict, d)
           else if lh_generation h < le_generation row
           then (lease_answer LkCONFLICT row (Some ''owner_generation_superseded''), d)
           else if le_pending row \<noteq> None
           then (lease_answer LkCONFLICT row (Some ''publication_unsettled''), d)
           else applied_row (None, freed now reason (the evidence) row) d))"

section \<open>Shared releases\<close>

definition shared_group :: string where
  "shared_group = ''shared-release-group''"

definition digest_text :: "string \<Rightarrow> bool" where
  "digest_text s \<longleftrightarrow> take 7 s = ''sha256:'' \<and> hex_text 64 (drop 7 s)"

definition shared_release_target :: "physical_target \<Rightarrow> string \<Rightarrow> string \<Rightarrow> pyexc + physical_target" where
  "shared_release_target t environment grp =
     (if \<not> (scope_name environment \<and> scope_name grp) then Inl (LeaseError ''invalid_release_scope'')
      else make_target (Some (pt_provider t)) (Some (pt_account t)) (Some (pt_region t)) (Some shared_group)
             (Some (environment @ ''/'' @ grp)) (pt_evidence t))"

text \<open>
  The node, its flow and the reviewed entry, as far as they are read: ids and tenants, the entry's
  release group and whether it covers the component.
\<close>

definition foundation_release_scope ::
    "string \<times> string \<times> string \<Rightarrow> string \<times> string \<Rightarrow> string option \<Rightarrow> bool \<Rightarrow> string \<Rightarrow> physical_target \<Rightarrow> string
     \<Rightarrow> string \<Rightarrow> pyexc + (physical_target \<times> string) option" where
  "foundation_release_scope node fl grp covered component target environment source =
     (case (node, fl) of ((node_id, node_flow, node_org), (flow_id, flow_org)) \<Rightarrow>
       (case grp of None \<Rightarrow> Inr None
        | Some g \<Rightarrow>
          if node_flow \<noteq> flow_id \<or> node_org \<noteq> flow_org then Inl (LeaseError ''invalid_release_owner'')
          else if \<not> covered then Inl (LeaseError ''foundation_release_component_changed'')
          else if node_id = [] \<or> \<not> hex_text 40 source then Inl (LeaseError ''invalid_release_owner'')
          else map_sum id (\<lambda>t. Some (t, ''foundation:'' @ node_id @ '':'' @ component @ '':'' @ source))
                 (shared_release_target target environment g)))"

text \<open>The row is held by exactly this holder, under this entry and this release.\<close>

definition held_release :: "lease_row \<Rightarrow> lease_holder \<Rightarrow> string \<Rightarrow> string \<Rightarrow> bool" where
  "held_release row h entry ref \<longleftrightarrow>
     le_state row = ''held'' \<and> same_action row h \<and> le_generation row = lh_generation h
     \<and> le_entry row = Some entry \<and> le_ref row = Some ref"

definition unexpired :: "lease_row \<Rightarrow> pydt \<Rightarrow> bool" where
  "unexpired row now \<longleftrightarrow> le_expires row \<noteq> None \<and> \<not> lapsed_by (as_aware (le_expires row)) now"

text \<open>\<open>target.canonical_key\<close> and the locked row under it.\<close>

definition target_lease :: "lease_params \<Rightarrow> physical_target \<Rightarrow> lease_db \<Rightarrow> pyexc + lease_row option" where
  "target_lease p t d = (case canonical_key (lp_digest p) t of Inl e \<Rightarrow> Inl e | Inr key \<Rightarrow> locked_lease d key)"

definition shared_release_held ::
    "lease_params \<Rightarrow> pydt \<Rightarrow> physical_target \<Rightarrow> lease_holder \<Rightarrow> string \<Rightarrow> string \<Rightarrow> pydt \<Rightarrow> bool
     \<Rightarrow> lease_db \<Rightarrow> pyexc + bool" where
  "shared_release_held p now t h ref entry started allow_pending d =
     (case target_lease p t d of Inl e \<Rightarrow> Inl e
      | Inr None \<Rightarrow> Inr False
      | Inr (Some row) \<Rightarrow> Inr
          (held_release row h entry ref \<and> tz_aware started \<and> (allow_pending \<or> le_pending row = None)
           \<and> stamp started \<le> stamp now
           \<and> (case le_acquired row of None \<Rightarrow> False | Some a \<Rightarrow> stamp a \<le> stamp started)
           \<and> unexpired row now))"

text \<open>A write that a guard allows or that leaves everything alone.\<close>

definition guarded ::
    "lease_params \<Rightarrow> physical_target \<Rightarrow> (lease_row \<Rightarrow> bool) \<Rightarrow> (lease_row \<Rightarrow> lease_row) \<Rightarrow> (lease_db, bool) op" where
  "guarded p t allowed write d =
     (case target_lease p t d of Inl e \<Rightarrow> (Inl e, d)
      | Inr None \<Rightarrow> (Inr False, d)
      | Inr (Some row) \<Rightarrow> if allowed row then (Inr True, put_lease (write row) d) else (Inr False, d))"

definition begin_shared_publication ::
    "lease_params \<Rightarrow> pydt \<Rightarrow> physical_target \<Rightarrow> lease_holder \<Rightarrow> string \<Rightarrow> string \<Rightarrow> string \<Rightarrow> (lease_db, bool) op" where
  "begin_shared_publication p now t h entry ref digest d =
     (if \<not> digest_text digest then (Inl (LeaseError ''invalid_publication_digest''), d)
      else guarded p t (\<lambda>row. held_release row h entry ref \<and> unexpired row now \<and> le_pending row = None)
             (\<lambda>row. row\<lparr>le_pending := Some digest, le_terminal := None, le_reconciled_at := None,
                        le_revision := le_revision row + 1\<rparr>) d)"

definition settle_shared_publication ::
    "lease_params \<Rightarrow> pydt \<Rightarrow> physical_target \<Rightarrow> lease_holder \<Rightarrow> string \<Rightarrow> string \<Rightarrow> string \<Rightarrow> (lease_db, bool) op" where
  "settle_shared_publication p now t h entry ref digest d =
     guarded p t (\<lambda>row. held_release row h entry ref \<and> le_pending row = Some digest \<and> unexpired row now)
       (\<lambda>row. row\<lparr>le_pending := None, le_revision := le_revision row + 1\<rparr>) d"

text \<open>A scoped registry read: \<open>ImageReadback\<close> and \<open>ImageAbsence\<close> have the same fields.\<close>

record image_read =
  im_account :: string
  im_region :: string
  im_repository :: string
  im_source :: string
  im_digest :: string
  im_observed :: pydt

definition environment_of :: "physical_target \<Rightarrow> string" where
  "environment_of t = takeWhile (\<lambda>c. c \<noteq> CHR ''/'') (pt_resource t)"

definition release_scope_ok :: "physical_target \<Rightarrow> bool" where
  "release_scope_ok t \<longleftrightarrow> pt_kind t = shared_group \<and> environment_of t \<in> {''dev'', ''prod''}"

definition image_read_ok :: "image_read \<Rightarrow> physical_target \<Rightarrow> string \<Rightarrow> string \<Rightarrow> pydt \<Rightarrow> pydt option \<Rightarrow> bool" where
  "image_read_ok im t ref digest now since \<longleftrightarrow>
     im_account im = pt_account t \<and> im_region im = pt_region t
     \<and> im_repository im = ''adp-tools-'' @ environment_of t @ ''-adapters''
     \<and> im_source im = ref \<and> im_digest im = digest \<and> tz_aware (im_observed im)
     \<and> (case since of None \<Rightarrow> False | Some s \<Rightarrow> stamp s \<le> stamp (im_observed im))
     \<and> stamp (im_observed im) \<le> stamp now"

definition pending_release_ok ::
    "lease_row \<Rightarrow> physical_target \<Rightarrow> lease_holder \<Rightarrow> string \<Rightarrow> string \<Rightarrow> string \<Rightarrow> string \<Rightarrow> bool" where
  "pending_release_ok row t h entry ref digest evidence \<longleftrightarrow>
     release_scope_ok t \<and> held_release row h entry ref \<and> le_pending row = Some digest \<and> \<not> blank evidence"

definition with_terminal :: "pydt \<Rightarrow> string \<Rightarrow> lease_row \<Rightarrow> lease_row" where
  "with_terminal now evidence row =
     row\<lparr>le_terminal := Some (strip evidence), le_reconciled_at := Some now, le_revision := le_revision row + 1\<rparr>"

definition recover_shared_publication ::
    "lease_params \<Rightarrow> pydt \<Rightarrow> physical_target \<Rightarrow> lease_holder \<Rightarrow> string \<Rightarrow> string \<Rightarrow> string \<Rightarrow> string \<Rightarrow> image_read
     \<Rightarrow> (lease_db, bool) op" where
  "recover_shared_publication p now t h entry ref digest evidence im d =
     guarded p t (\<lambda>row. pending_release_ok row t h entry ref digest evidence
         \<and> image_read_ok im t ref digest now (le_acquired row))
       (\<lambda>row. with_terminal now evidence (row\<lparr>le_pending := None\<rparr>)) d"

text \<open>Repeated absence is accepted only with the same evidence, and then writes nothing.\<close>

definition record_shared_publication_absence ::
    "lease_params \<Rightarrow> pydt \<Rightarrow> physical_target \<Rightarrow> lease_holder \<Rightarrow> string \<Rightarrow> string \<Rightarrow> string \<Rightarrow> string \<Rightarrow> image_read
     \<Rightarrow> (lease_db, bool) op" where
  "record_shared_publication_absence p now t h entry ref digest evidence im d =
     (case target_lease p t d of Inl e \<Rightarrow> (Inl e, d)
      | Inr None \<Rightarrow> (Inr False, d)
      | Inr (Some row) \<Rightarrow>
          if \<not> (pending_release_ok row t h entry ref digest evidence
                 \<and> image_read_ok im t ref digest now (le_acquired row)) then (Inr False, d)
          else if le_terminal row \<noteq> None
          then (Inr (le_terminal row = Some (strip evidence) \<and> le_reconciled_at row \<noteq> None), d)
          else (Inr True, put_lease (with_terminal now evidence row) d))"

definition default_hold_seconds :: int where
  "default_hold_seconds = 3600"

definition rollforward_shared_publication ::
    "lease_params \<Rightarrow> pydt \<Rightarrow> physical_target \<Rightarrow> lease_holder \<Rightarrow> lease_holder \<Rightarrow> string \<Rightarrow> string \<Rightarrow> string \<Rightarrow> string
     \<Rightarrow> image_read \<Rightarrow> (lease_db, bool) op" where
  "rollforward_shared_publication p now t h successor entry ref digest evidence im d =
     guarded p t (\<lambda>row. pending_release_ok row t h entry ref digest evidence
         \<and> lh_org successor = lh_org h \<and> lh_action successor = lh_action h
         \<and> lh_generation h \<le> lh_generation successor
         \<and> le_terminal row = Some evidence \<and> le_reconciled_at row \<noteq> None \<and> unexpired row now
         \<and> image_read_ok im t ref digest now (le_reconciled_at row))
       (\<lambda>row. row\<lparr>le_pending := None, le_terminal := None, le_reconciled_at := None,
          le_generation := lh_generation successor, le_acquired := Some now, le_heartbeat := Some now,
          le_expires := Some (plus_seconds now default_hold_seconds), le_revision := le_revision row + 1\<rparr>) d"

text \<open>
  Release and acquire as one: an exception inside rolls the savepoint back. The clock is read
  once for the check, once in the release and once in the acquisition.
\<close>

definition handoff_shared_release ::
    "lease_params \<Rightarrow> pydt \<Rightarrow> pydt \<Rightarrow> pydt \<Rightarrow> string \<Rightarrow> physical_target \<Rightarrow> lease_holder \<Rightarrow> lease_holder
     \<Rightarrow> string option \<Rightarrow> string option \<Rightarrow> string option \<Rightarrow> string option \<Rightarrow> string option
     \<Rightarrow> (lease_db, lease_outcome) op" where
  "handoff_shared_release p now1 now2 now3 new_id t h successor cur_entry next_entry cur_rev next_rev evidence d =
     (if pt_kind t \<noteq> shared_group \<or> lh_org h \<noteq> lh_org successor \<or> lh_action h = lh_action successor
      then (Inl (LeaseError ''invalid_release_handoff''), d)
      else if \<not> (truthy cur_entry \<and> truthy next_entry \<and> truthy evidence)
      then (Inl (LeaseError ''invalid_release_handoff''), d)
      else if \<not> (hex_text 40 (or_else cur_rev '''') \<and> hex_text 40 (or_else next_rev ''''))
      then (Inl (LeaseError ''invalid_release_handoff''), d)
      else (case canonical_key (lp_digest p) t of Inl e \<Rightarrow> (Inl e, d)
       | Inr key \<Rightarrow>
         (case locked_lease d key of Inl e \<Rightarrow> (Inl e, d)
          | Inr None \<Rightarrow> (Inr held_conflict, d)
          | Inr (Some row) \<Rightarrow>
             if \<not> (held_release row h (the cur_entry) (the cur_rev) \<and> unexpired row now1 \<and> le_pending row = None)
             then (Inr held_conflict, d)
             else (case release_lease now2 key h LrCOMPLETED evidence d of
                (Inl e, _) \<Rightarrow> (Inl e, d)
              | (Inr rel, d1) \<Rightarrow>
                  if lo_kind rel \<noteq> LkAPPLIED then (Inl (LeaseError ''release_handoff_changed''), d)
                  else (case acquire_lease p now3 new_id None t successor next_entry next_rev
                               (PyInt default_hold_seconds) d1 of
                     (Inl e, _) \<Rightarrow> (Inl e, d)
                   | (Inr acq, d2) \<Rightarrow>
                       if lo_kind acq \<noteq> LkAPPLIED then (Inl (LeaseError ''release_handoff_changed''), d)
                       else (Inr acq, d2))))))"

definition isolated_release_fixture :: "lease_params \<Rightarrow> physical_target \<Rightarrow> string \<Rightarrow> pyexc + string" where
  "isolated_release_fixture p t owner =
     (if pt_kind t \<noteq> shared_group \<or> blank owner then Inl (LeaseError ''invalid_fixture_scope'')
      else map_sum id (\<lambda>key. take 24 (lp_digest p (key @ '':'' @ owner))) (canonical_key (lp_digest p) t))"

end
