(* ===== verification/Lease_Laws.thy ===== *)
theory Lease_Laws
  imports Environment_Leases
begin

text \<open>
  What the lease operations guarantee, alone and along runs: one row per target whose revision
  only rises, a hold that nobody but its holder can disturb without terminal evidence, refusals
  that disclose nothing, publications that must be settled, and keys that keep targets apart.
\<close>

section \<open>Well-formed tables\<close>

text \<open>
  A held row names its holder, its entry and its contact window; a free row has no window and no
  publication pending.
\<close>

definition lease_ok :: "lease_row \<Rightarrow> bool" where
  "lease_ok r \<longleftrightarrow> 1 \<le> le_revision r
     \<and> ((le_state r = ''held'' \<and> le_org r \<noteq> None \<and> le_action r \<noteq> None \<and> le_entry r \<noteq> None \<and> le_expires r \<noteq> None)
        \<or> (le_state r = ''free'' \<and> le_pending r = None \<and> le_entry r = None \<and> le_expires r = None))"

definition leases_ok :: "lease_db \<Rightarrow> bool" where
  "leases_ok d \<longleftrightarrow> unique_on le_id d \<and> unique_on le_key d \<and> (\<forall>r \<in> set d. lease_ok r)"

text \<open>Every write gives a new revision.\<close>

definition lease_evolves :: "lease_row \<Rightarrow> lease_row \<Rightarrow> bool" where
  "lease_evolves r s \<longleftrightarrow> le_id s = le_id r \<and> le_key s = le_key r \<and> (s = r \<or> le_revision r < le_revision s)"

definition leases_grow :: "lease_db \<Rightarrow> lease_db \<Rightarrow> bool" where
  "leases_grow d e \<longleftrightarrow> (\<forall>r \<in> set d. \<exists>s \<in> set e. lease_evolves r s)"

lemma lease_evolves_refl [simp]: "lease_evolves r r"
  by (simp add: lease_evolves_def)

lemma lease_evolves_trans: "lease_evolves r s \<Longrightarrow> lease_evolves s t \<Longrightarrow> lease_evolves r t"
  unfolding lease_evolves_def by (elim conjE disjE) auto

lemma leases_grow_refl: "leases_grow d d"
  unfolding leases_grow_def using lease_evolves_refl by blast

lemma leases_grow_trans: "leases_grow d e \<Longrightarrow> leases_grow e f \<Longrightarrow> leases_grow d f"
  unfolding leases_grow_def by (meson lease_evolves_trans)

section \<open>Who may write\<close>

text \<open>The caller is the row's own action, in its generation or a later one.\<close>

definition entitled :: "lease_row \<Rightarrow> lease_holder \<Rightarrow> bool" where
  "entitled r h \<longleftrightarrow> same_action r h \<and> le_generation r \<le> lh_generation h"

text \<open>The holder's deployment has been reconciled as over and its contact window has passed.\<close>

definition takeable :: "lease_row \<Rightarrow> pydt \<Rightarrow> bool" where
  "takeable r now \<longleftrightarrow> lapsed_by (le_expires r) now \<and> truthy (le_terminal r) \<and> le_pending r = None"

text \<open>
  One transaction on the table by one caller: nothing, a write on one row (of which only a free
  row, a row of the caller's own or a row that may be taken over can be touched), or rows that
  the caller or a concurrent winner inserted, and then a write.
\<close>

inductive row_write :: "lease_holder \<Rightarrow> lease_db \<Rightarrow> lease_db \<Rightarrow> bool" for h where
  keep_lease: "row_write h d d"
| move_lease:
    "r \<in> set d \<Longrightarrow> le_id s = le_id r \<Longrightarrow> le_key s = le_key r \<Longrightarrow> le_revision r < le_revision s
     \<Longrightarrow> (lease_ok r \<longrightarrow> lease_ok s)
     \<Longrightarrow> le_state r = ''held'' \<longrightarrow> entitled r h \<or> (truthy (le_terminal r) \<and> le_pending r = None)
     \<Longrightarrow> row_write h d (put_lease s d)"

inductive lease_write :: "lease_holder \<Rightarrow> lease_db \<Rightarrow> lease_db \<Rightarrow> bool" for h where
  write_row: "row_write h d e \<Longrightarrow> lease_write h d e"
| write_new:
    "unique_on le_id (d @ rs) \<Longrightarrow> unique_on le_key (d @ rs) \<Longrightarrow> \<forall>r \<in> set rs. lease_ok r
     \<Longrightarrow> row_write h (d @ rs) e \<Longrightarrow> lease_write h d e"

lemma put_lease_set:
  assumes "leases_ok d" "r \<in> set d" "le_id s = le_id r"
  shows "set (put_lease s d) = insert s (set d - {r})"
proof -
  have "x = r" if "x \<in> set d" "le_id x = le_id r" for x
    using assms(1,2) that unique_onD [of le_id d] by (simp add: leases_ok_def)
  then show ?thesis using assms(2,3) by (auto simp: put_lease_def set_update_where)
qed

lemma put_lease_keys:
  assumes "leases_ok d" "r \<in> set d" "le_id s = le_id r" "le_key s = le_key r"
  shows "unique_on le_id (put_lease s d)" and "unique_on le_key (put_lease s d)"
proof -
  have cols: "map g (put_lease s d) = map g d" if g: "g s = g r" for g :: "lease_row \<Rightarrow> string"
  proof -
    have "g (if le_id x = le_id s then s else x) = g x" if x: "x \<in> set d" for x
    proof (cases "le_id x = le_id s")
      case True
      then have "x = r"
        using unique_onD [of le_id d x r] assms(1-3) x unfolding leases_ok_def by metis
      with g show ?thesis by (metis (full_types))
    qed simp
    then show ?thesis by (simp add: put_lease_def update_where_def)
  qed
  show "unique_on le_id (put_lease s d)" "unique_on le_key (put_lease s d)"
    using assms(1) cols [of le_id] cols [of le_key] assms(3,4) by (simp_all add: leases_ok_def unique_on_def)
qed

lemma row_write_ok:
  assumes "row_write h d e" "leases_ok d"
  shows "leases_ok e \<and> leases_grow d e
     \<and> (\<forall>r \<in> set d. le_state r = ''held'' \<and> \<not> entitled r h \<and> (\<not> truthy (le_terminal r) \<or> le_pending r \<noteq> None)
          \<longrightarrow> r \<in> set e)"
  using assms(1)
proof (cases rule: row_write.cases)
  case keep_lease
  then show ?thesis using assms(2) leases_grow_refl by simp
next
  case (move_lease r s)
  note sets = put_lease_set [OF assms(2) move_lease(2,3)]
  have "leases_ok e"
    unfolding leases_ok_def move_lease(1) sets
    using put_lease_keys [OF assms(2) move_lease(2-4)] move_lease(2,6) assms(2) by (simp add: leases_ok_def)
  moreover have "leases_grow d e"
    unfolding leases_grow_def move_lease(1) sets
    using move_lease(3-5) by (auto simp: lease_evolves_def)
  moreover have "x \<in> set e"
    if x: "x \<in> set d" "le_state x = ''held''" "\<not> entitled x h" "\<not> truthy (le_terminal x) \<or> le_pending x \<noteq> None" for x
  proof -
    have "x \<noteq> r" using x(2-4) move_lease(7) by meson
    then show ?thesis unfolding move_lease(1) sets using x(1) by simp
  qed
  ultimately show ?thesis by simp
qed

lemma lease_write_ok:
  assumes "lease_write h d e" "leases_ok d"
  shows "leases_ok e \<and> leases_grow d e
     \<and> (\<forall>r \<in> set d. le_state r = ''held'' \<and> \<not> entitled r h \<and> (\<not> truthy (le_terminal r) \<or> le_pending r \<noteq> None)
          \<longrightarrow> r \<in> set e)"
  using assms(1)
proof (cases rule: lease_write.cases)
  case write_row
  then show ?thesis using row_write_ok assms(2) by blast
next
  case (write_new rs)
  have "leases_ok (d @ rs)" using write_new(1-3) assms(2) by (auto simp: leases_ok_def)
  from row_write_ok [OF write_new(4) this] show ?thesis
    by (auto simp: leases_grow_def)
qed

section \<open>Every operation is one such transaction\<close>

definition lease_race_ok :: "lease_db \<Rightarrow> string \<Rightarrow> lease_row list option \<Rightarrow> bool" where
  "lease_race_ok d new_id race =
     (case race of None \<Rightarrow> new_id \<notin> le_id ` set d
      | Some rs \<Rightarrow> unique_on le_id (d @ rs) \<and> unique_on le_key (d @ rs) \<and> list_all lease_ok rs)"

lemma locked_lease_SomeD: "locked_lease d key = Inr (Some r) \<Longrightarrow> r \<in> set d \<and> le_key r = key"
  by (auto simp: locked_lease_def dest!: find_SomeD split: option.splits sum.splits)

lemma locked_lease_None: "locked_lease d key = Inr None \<longleftrightarrow> (\<forall>r \<in> set d. le_key r \<noteq> key)"
  by (auto simp: locked_lease_def find_None_iff' split: option.splits sum.splits dest!: find_SomeD)

lemma lease_answerD:
  "lease_answer k r w = Inr o' \<Longrightarrow> lo_kind o' = k \<and> lo_reason o' = w \<and> (\<exists>v. to_view r = Inr v \<and> lo_lease o' = Some v)"
  by (cases "to_view r") (auto simp: lease_answer_def)

lemma target_lease_SomeD:
  "target_lease p t d = Inr (Some r) \<Longrightarrow> r \<in> set d \<and> canonical_key (lp_digest p) t = Inr (le_key r)"
  by (auto simp: target_lease_def dest: locked_lease_SomeD split: sum.splits)

lemma move_by_holder:
  assumes "r \<in> set d" "entitled r h" "le_id s = le_id r" "le_key s = le_key r" "le_revision s = le_revision r + 1"
    and "lease_ok r \<Longrightarrow> lease_ok s"
  shows "row_write h d (put_lease s d)"
  using assms by (intro move_lease [of r]) auto

lemma with_evidence_columns [simp]:
  "le_id (snd (with_evidence f ev r)) = le_id r"
  "le_key (snd (with_evidence f ev r)) = le_key r"
  "le_revision (snd (with_evidence f ev r)) = le_revision r"
  "le_state (snd (with_evidence f ev r)) = le_state r"
  "le_org (snd (with_evidence f ev r)) = le_org r"
  "le_action (snd (with_evidence f ev r)) = le_action r"
  "le_generation (snd (with_evidence f ev r)) = le_generation r"
  "le_entry (snd (with_evidence f ev r)) = le_entry r"
  "le_ref (snd (with_evidence f ev r)) = le_ref r"
  "le_expires (snd (with_evidence f ev r)) = le_expires r"
  "le_pending (snd (with_evidence f ev r)) = le_pending r"
  "le_acquired (snd (with_evidence f ev r)) = le_acquired r"
  "le_terminal (snd (with_evidence f ev r)) = le_terminal r"
  "le_reconciled_at (snd (with_evidence f ev r)) = le_reconciled_at r"
  by (simp_all add: with_evidence_def Let_def split: sum.splits)

lemma snd_applied_row [simp]: "snd (applied_row r d) = put_lease (snd r) d"
  by (auto simp: applied_row_def split: prod.splits option.splits)

lemma taken_hold_columns [simp]:
  "le_id (taken_hold now a r) = le_id r"
  "le_key (taken_hold now a r) = le_key r"
  "le_revision (taken_hold now a r) = le_revision r + 1"
  "le_state (taken_hold now a r) = ''held''"
  "le_org (taken_hold now a r) = Some (lh_org (aq_holder a))"
  "le_action (taken_hold now a r) = Some (lh_action (aq_holder a))"
  "le_entry (taken_hold now a r) = Some (aq_entry a)"
  "le_ref (taken_hold now a r) = aq_ref a"
  "le_pending (taken_hold now a r) = le_pending r"
  "le_terminal (taken_hold now a r) = None"
  "le_expires (taken_hold now a r) = Some (plus_seconds now (aq_seconds a))"
  by (simp_all add: taken_hold_def Let_def)

lemma take_hold_writes:
  assumes "r \<in> set d"
    and "le_state r = ''held'' \<longrightarrow> entitled r (aq_holder a) \<or> (truthy (le_terminal r) \<and> le_pending r = None)"
  shows "row_write (aq_holder a) d (snd (take_hold f now a r d))"
  unfolding take_hold_def snd_applied_row using assms by (intro move_lease [of r]) (auto simp: lease_ok_def)

lemma acquire_existing_writes:
  assumes "r \<in> set d"
  shows "row_write (aq_holder a) d (snd (acquire_existing f now a r d))"
proof -
  let ?h = "aq_holder a"
  have refresh: "row_write ?h d (put_lease (snd (with_evidence f ev (refreshed_hold now a r))) d)"
    if "le_state r = ''held''" "same_action r ?h" "lh_generation ?h = le_generation r" for ev
    using assms that by (intro move_by_holder [of r]) (auto simp: entitled_def refreshed_hold_def lease_ok_def)
  show ?thesis
    using assms take_hold_writes [OF assms, of a f now] refresh
    by (auto simp: acquire_existing_def Let_def keep_lease entitled_def)
qed

lemma acquire_lease_writes:
  assumes "leases_ok d" "lease_race_ok d new_id race"
  shows "lease_write h d (snd (acquire_lease p now new_id race t h entry ref secs d))"
proof -
  have old: "lease_write h d (snd (acquire_existing f now a r d))" if "r \<in> set d" "aq_holder a = h" for f a r
    using acquire_existing_writes [OF that(1), of a] that(2) by (auto intro: write_row)
  have new: "lease_write h d (d @ [first_hold now new_id key a v])"
    if "\<forall>r \<in> set d. le_key r \<noteq> key" "race = None" for key a v
    using assms that
    by (intro write_new [of _ "[first_hold now new_id key a v]"])
      (auto simp: leases_ok_def lease_race_ok_def first_hold_def Let_def lease_ok_def keep_lease)
  have kept: "lease_write h d d" by (simp add: write_row keep_lease)
  have lost: "lease_write h d (d @ rs)" if "race = Some rs" for rs
    using assms(2) that by (intro write_new [of _ rs]) (auto simp: lease_race_ok_def list_all_iff keep_lease)
  have won: "lease_write h d (snd (acquire_existing f now a r (d @ rs)))"
    if "race = Some rs" "r \<in> set (d @ rs)" "aq_holder a = h" for rs f a r
    using assms(2) that acquire_existing_writes [OF that(2), of a]
    by (intro write_new [of _ rs]) (auto simp: lease_race_ok_def list_all_iff)
  have fresh: "lease_write h d (d @ [first_hold now new_id key a v])"
    if "locked_lease d key = Inr None" "race = None" for key a v
    using that new by (simp add: locked_lease_None)
  have held: "lease_write h d (snd (acquire_existing f now a r d))"
    if "locked_lease d key = Inr (Some r)" "aq_holder a = h" for key f a r
    using that locked_lease_SomeD old by blast
  have beaten: "lease_write h d (snd (acquire_existing f now a r (d @ rs)))"
    if "race = Some rs" "locked_lease (d @ rs) key = Inr (Some r)" "aq_holder a = h" for key rs f a r
    using that locked_lease_SomeD won by blast
  show ?thesis
    by (simp add: acquire_lease_def Let_def kept fresh held beaten lost split: sum.split option.split)
qed

lemma applied_writes:
  assumes "r \<in> set d" "entitled r h" "le_id s = le_id r" "le_key s = le_key r" "le_revision s = le_revision r + 1"
    and "lease_ok r \<Longrightarrow> lease_ok s"
  shows "row_write h d (snd (applied_row (None, s) d))"
  using move_by_holder [OF assms] by simp

lemma not_held_free: "lease_ok r \<Longrightarrow> le_state r \<noteq> ''free'' \<Longrightarrow> le_state r = ''held''"
  by (auto simp: lease_ok_def)

lemma reconcile_lease_writes: "row_write h d (snd (reconcile_lease now key expected evidence h hb secs d))"
proof -
  have beat: "row_write h d (put_lease (r\<lparr>le_heartbeat := Some now, le_expires := Some (plus_seconds now secs),
      le_revision := n + 1\<rparr>) d)"
    if "locked_lease d key = Inr (Some r)" "le_state r = ''held''" "same_action r h" "\<not> lh_generation h < le_generation r" "le_revision r = n" for r n
    using that locked_lease_SomeD [OF that(1)]
    by (intro move_by_holder [of r]) (auto simp: entitled_def lease_ok_def)
  have over: "row_write h d (put_lease (r\<lparr>le_terminal := Some ev, le_reconciled_at := Some now,
      le_revision := n + 1\<rparr>) d)"
    if "locked_lease d key = Inr (Some r)" "le_state r = ''held''" "same_action r h" "\<not> lh_generation h < le_generation r" "le_revision r = n" for r ev n
    using that locked_lease_SomeD [OF that(1)]
    by (intro move_by_holder [of r]) (auto simp: entitled_def lease_ok_def)
  show ?thesis
    by (simp add: reconcile_lease_def keep_lease beat over split: sum.split option.split)
qed

lemma freed_columns [simp]:
  "le_id (freed now reason ev r) = le_id r"
  "le_key (freed now reason ev r) = le_key r"
  "le_revision (freed now reason ev r) = le_revision r + 1"
  "le_state (freed now reason ev r) = ''free''"
  "le_org (freed now reason ev r) = le_org r"
  "le_action (freed now reason ev r) = le_action r"
  "le_generation (freed now reason ev r) = le_generation r"
  "le_pending (freed now reason ev r) = le_pending r"
  "le_entry (freed now reason ev r) = None"
  "le_expires (freed now reason ev r) = None"
  by (simp_all add: freed_def)

lemma freed_ok: "lease_ok r \<Longrightarrow> le_pending r = None \<Longrightarrow> lease_ok (freed now reason ev r)"
  by (simp add: lease_ok_def)

lemma release_lease_writes: "row_write h d (snd (release_lease now key h reason evidence d))"
proof -
  have free: "row_write h d (put_lease (freed now reason ev r) d)"
    if "locked_lease d key = Inr (Some r)" "same_action r h" "\<not> lh_generation h < le_generation r" "le_pending r = None" for r ev
    using that locked_lease_SomeD [OF that(1)]
    by (intro move_by_holder [of r]) (simp_all add: entitled_def freed_ok)
  show ?thesis
    by (simp add: release_lease_def keep_lease free split: sum.split option.split)
qed

lemma guarded_writes:
  assumes "\<And>r. allowed r \<Longrightarrow> entitled r h \<and> le_id (w r) = le_id r \<and> le_key (w r) = le_key r
      \<and> le_revision (w r) = le_revision r + 1 \<and> (lease_ok r \<longrightarrow> lease_ok (w r))"
  shows "row_write h d (snd (guarded p t allowed w d))"
proof -
  have "row_write h d (put_lease (w r) d)" if "target_lease p t d = Inr (Some r)" "allowed r" for r
    using assms [OF that(2)] target_lease_SomeD [OF that(1)] by (intro move_by_holder [of r]) simp_all
  then show ?thesis by (simp add: guarded_def keep_lease split: sum.split option.split)
qed

lemma held_release_entitled: "held_release r h entry ref \<Longrightarrow> entitled r h \<and> le_state r = ''held''"
  by (simp add: held_release_def entitled_def)

lemma publication_writes:
  "row_write h d (snd (begin_shared_publication p now t h entry ref digest d))"
  "row_write h d (snd (settle_shared_publication p now t h entry ref digest d))"
  "row_write h d (snd (recover_shared_publication p now t h entry ref digest evidence im d))"
  "row_write h d (snd (rollforward_shared_publication p now t h successor entry ref digest evidence im d))"
proof -
  show "row_write h d (snd (begin_shared_publication p now t h entry ref digest d))"
    unfolding begin_shared_publication_def
    by (simp add: keep_lease) (intro impI guarded_writes, auto simp: lease_ok_def dest: held_release_entitled)
  show "row_write h d (snd (settle_shared_publication p now t h entry ref digest d))"
    unfolding settle_shared_publication_def
    by (intro guarded_writes) (auto simp: lease_ok_def dest: held_release_entitled)
  show "row_write h d (snd (recover_shared_publication p now t h entry ref digest evidence im d))"
    unfolding recover_shared_publication_def
    by (intro guarded_writes)
      (auto simp: lease_ok_def pending_release_ok_def with_terminal_def dest: held_release_entitled)
  show "row_write h d (snd (rollforward_shared_publication p now t h successor entry ref digest evidence im d))"
    unfolding rollforward_shared_publication_def
    by (intro guarded_writes) (auto simp: lease_ok_def pending_release_ok_def dest: held_release_entitled)
qed

lemma absence_writes:
  "row_write h d (snd (record_shared_publication_absence p now t h entry ref digest evidence im d))"
proof -
  have "row_write h d (put_lease (with_terminal now evidence r) d)"
    if "target_lease p t d = Inr (Some r)" "pending_release_ok r t h entry ref digest evidence" for r
    using target_lease_SomeD [OF that(1)] that(2)
    by (intro move_by_holder [of r])
      (auto simp: pending_release_ok_def with_terminal_def lease_ok_def dest: held_release_entitled)
  then show ?thesis
    by (simp add: record_shared_publication_absence_def keep_lease split: sum.split option.split)
qed

section \<open>The handoff\<close>

lemma find_put_lease:
  assumes "leases_ok d" "locked_lease d key = Inr (Some r)" "le_id s = le_id r" "le_key s = le_key r"
  shows "find (\<lambda>x. le_key x = key) (put_lease s d) = Some s"
proof -
  have r: "r \<in> set d" "le_key r = key" using locked_lease_SomeD [OF assms(2)] by simp_all
  have "s \<in> set (put_lease s d)" using put_lease_set [OF assms(1) r(1) assms(3)] by simp
  with put_lease_keys(2) [OF assms(1) r(1) assms(3,4)] show ?thesis
    using r(2) assms(4) by (intro find_unique [of le_key]) auto
qed

lemma put_lease_twice: "le_id s = le_id s' \<Longrightarrow> put_lease s (put_lease s' d) = put_lease s d"
  by (simp add: put_lease_def update_where_def)

text \<open>The release and the acquisition inside are one write on the holder's row.\<close>

lemma release_then_acquire:
  assumes "leases_ok d" "locked_lease d key = Inr (Some r)" "entitled r h" "le_state r = ''held''"
    and rel: "release_lease now2 key h reason ev d = (Inr rl, d1)" "lo_kind rl = LkAPPLIED"
    and acq: "canonical_key (lp_digest p) t = Inr key"
      "acquire_lease p now3 new_id None t successor entry ref secs d1 = (Inr aq, d2)" "lo_kind aq = LkAPPLIED"
  shows "\<exists>s. d2 = put_lease s d \<and> le_id s = le_id r \<and> le_key s = le_key r \<and> le_revision r < le_revision s
     \<and> (lease_ok r \<longrightarrow> lease_ok s) \<and> le_state s = ''held'' \<and> le_org s = Some (lh_org successor)
     \<and> le_action s = Some (lh_action successor)
     \<and> le_entry s = entry \<and> le_ref s = ref \<and> le_pending s = None \<and> lease_answer LkAPPLIED s None = Inr aq"
proof -
  let ?f = "freed now2 reason (the ev) r"
  have r: "r \<in> set d" "le_key r = key" using locked_lease_SomeD [OF assms(2)] by simp_all
  have d1: "d1 = put_lease ?f d" and pend: "le_pending r = None"
    using rel assms(2-4)
    by (auto simp: release_lease_def applied_row_def entitled_def split: if_splits dest!: lease_answerD)
  have lock: "locked_lease d1 key = Inr (Some ?f)"
    using find_put_lease [OF assms(1,2), of ?f]
    by (simp add: d1 locked_lease_def require_known_state_def lease_text.parse_iff enum_of_def)
  let ?a = "\<lparr>aq_target = t, aq_holder = successor, aq_entry = the entry, aq_ref = ref, aq_seconds = the_int secs\<rparr>"
  let ?s = "snd (with_evidence (lp_fromiso p) (pt_evidence t) (taken_hold now3 ?a ?f))"
  have step: "acquire_lease p now3 new_id None t successor entry ref secs d1 = take_hold (lp_fromiso p) now3 ?a ?f d1"
    and entry: "\<not> blank_opt entry"
    using acq(2) by (auto simp: acquire_lease_def acq(1) lock acquire_existing_def Let_def split: if_splits)
  have "d2 = put_lease ?s d1" "lease_answer LkAPPLIED ?s None = Inr aq"
    using acq(2) unfolding step take_hold_def
    by (auto simp: applied_row_def split: prod.splits option.splits)
  then have "d2 = put_lease ?s d" "lease_answer LkAPPLIED ?s None = Inr aq"
    by (simp_all add: d1 put_lease_twice)
  moreover have "lease_ok r \<longrightarrow> lease_ok ?s" using pend by (auto simp: lease_ok_def)
  moreover have "Some (the entry) = entry" using entry by (cases entry) auto
  ultimately show ?thesis using pend by (intro exI [of _ ?s]) simp
qed

lemma handoff_writes:
  assumes "leases_ok d"
  shows "row_write h d (snd (handoff_shared_release p n1 n2 n3 new_id t h succ ce ne cr nr ev d))"
proof -
  have "row_write h d d2"
    if "locked_lease d key = Inr (Some r)" "held_release r h (the ce) (the cr)"
      "release_lease n2 key h LrCOMPLETED ev d = (Inr rl, d1)" "lo_kind rl = LkAPPLIED"
      "canonical_key (lp_digest p) t = Inr key"
      "acquire_lease p n3 new_id None t succ ne nr (PyInt default_hold_seconds) d1 = (Inr aq, d2)" "lo_kind aq = LkAPPLIED"
    for key r rl d1 aq d2
  proof -
    have e: "entitled r h" "le_state r = ''held''" using held_release_entitled [OF that(2)] by simp_all
    from release_then_acquire [OF assms that(1) e that(3-7)] obtain s where
      s: "d2 = put_lease s d" "le_id s = le_id r" "le_key s = le_key r" "le_revision r < le_revision s"
        "lease_ok r \<longrightarrow> lease_ok s" by blast
    have "r \<in> set d" using locked_lease_SomeD [OF that(1)] by simp
    from move_lease [OF this s(2-5)] e(1) show ?thesis unfolding s(1) by simp
  qed
  then show ?thesis
    by (auto simp: handoff_shared_release_def keep_lease split: sum.splits option.splits prod.splits)
qed

section \<open>Runs\<close>

text \<open>One call of the lease interface, by the holder it names.\<close>

inductive lease_tx :: "lease_holder \<Rightarrow> lease_db \<Rightarrow> lease_db \<Rightarrow> bool" for h where
  tx_acquire: "lease_race_ok d new_id race
     \<Longrightarrow> lease_tx h d (snd (acquire_lease p now new_id race t h entry ref secs d))"
| tx_reconcile: "lease_tx h d (snd (reconcile_lease now key expected evidence h hb secs d))"
| tx_release_lease: "lease_tx h d (snd (release_lease now key h reason evidence d))"
| tx_begin: "lease_tx h d (snd (begin_shared_publication p now t h entry' ref' digest d))"
| tx_settle: "lease_tx h d (snd (settle_shared_publication p now t h entry' ref' digest d))"
| tx_recover: "lease_tx h d (snd (recover_shared_publication p now t h entry' ref' digest evidence' im d))"
| tx_absence: "lease_tx h d (snd (record_shared_publication_absence p now t h entry' ref' digest evidence' im d))"
| tx_rollforward: "lease_tx h d (snd (rollforward_shared_publication p now t h succ entry' ref' digest evidence' im d))"
| tx_handoff: "lease_tx h d (snd (handoff_shared_release p n1 n2 n3 new_id t h succ ce ne cr nr evidence d))"

lemma lease_tx_write:
  assumes "lease_tx h d e" "leases_ok d"
  shows "lease_write h d e"
  using assms
  by (cases rule: lease_tx.cases)
    (auto intro: acquire_lease_writes write_row reconcile_lease_writes release_lease_writes publication_writes absence_writes handoff_writes)

definition lease_step :: "lease_db \<Rightarrow> lease_db \<Rightarrow> bool" where
  "lease_step d e \<longleftrightarrow> (\<exists>h. lease_tx h d e)"

interpretation lease_runs: growing lease_step leases_ok leases_grow
proof
  show "lease_step d e \<Longrightarrow> leases_ok d \<Longrightarrow> leases_ok e" for d e
    using lease_tx_write lease_write_ok unfolding lease_step_def by blast
  show "lease_step d e \<Longrightarrow> leases_ok d \<Longrightarrow> leases_grow d e" for d e
    using lease_tx_write lease_write_ok unfolding lease_step_def by blast
qed (rule leases_grow_refl, rule leases_grow_trans)

definition lease_revision :: "lease_db \<Rightarrow> string \<Rightarrow> int option" where
  "lease_revision d key = map_option le_revision (find (\<lambda>r. le_key r = key) d)"

lemma grown_revision:
  assumes "leases_grow d e" "leases_ok e" "lease_revision d key = Some n"
  shows "\<exists>m. lease_revision e key = Some m \<and> n \<le> m"
proof -
  obtain r where r: "find (\<lambda>r. le_key r = key) d = Some r" "n = le_revision r"
    using assms(3) by (auto simp: lease_revision_def)
  then have "r \<in> set d" "le_key r = key" using find_SomeD [OF r(1)] by simp_all
  then obtain s where s: "s \<in> set e" "lease_evolves r s" using assms(1) unfolding leases_grow_def by blast
  then have "le_key s = key" "le_revision r \<le> le_revision s"
    using \<open>le_key r = key\<close> by (auto simp: lease_evolves_def)
  moreover from this have "find (\<lambda>r. le_key r = key) e = Some s"
    using assms(2) s(1) by (intro find_unique [of le_key]) (auto simp: leases_ok_def)
  ultimately show ?thesis using r(2) by (simp add: lease_revision_def)
qed

interpretation lease_revisions: monotone_counter lease_step leases_ok lease_revision
proof
  fix d e key m assume "lease_step d e" "leases_ok d" "lease_revision d key = Some m"
  then show "\<exists>n. lease_revision e key = Some n \<and> m \<le> n"
    using grown_revision lease_runs.step_grows lease_runs.step_inv by blast
qed

text \<open>Steps of callers that have no standing over a row, and what they leave of its hold.\<close>

definition foreign_step :: "lease_row \<Rightarrow> lease_db \<Rightarrow> lease_db \<Rightarrow> bool" where
  "foreign_step r d e \<longleftrightarrow> (\<exists>h. \<not> entitled r h \<and> lease_tx h d e)"

definition hold_kept :: "lease_row \<Rightarrow> lease_db \<Rightarrow> bool" where
  "hold_kept r d \<longleftrightarrow> leases_ok d \<and> r \<in> set d \<and> le_state r = ''held''
     \<and> (\<not> truthy (le_terminal r) \<or> le_pending r \<noteq> None)"

interpretation hold: step_invariant "foreign_step r" "hold_kept r" for r
proof
  fix d e assume step: "foreign_step r d e" and kept: "hold_kept r d"
  from step obtain h where h: "\<not> entitled r h" "lease_tx h d e" by (auto simp: foreign_step_def)
  have ok: "leases_ok d" using kept by (simp add: hold_kept_def)
  from lease_write_ok [OF lease_tx_write [OF h(2) ok] ok] kept h(1)
  show "hold_kept r e" unfolding hold_kept_def by simp
qed

end
