(* ===== verification/Lease_Properties.thy ===== *)
theory Lease_Properties
  imports Lease_Laws
begin

text \<open>
  The properties of the environment leases: nobody without standing can disturb a hold, whatever
  its expiry; one row per target whose revision only rises; what a takeover needs; what an answer
  discloses; what a pending publication blocks; the handoff as one step; and keys that tell
  targets apart.
\<close>

section \<open>Concrete leases\<close>

definition sample_params :: lease_params where
  "sample_params = \<lparr>lp_digest = (\<lambda>s. s), lp_fromiso = (\<lambda>s. if s = [] then None else Some (Naive 5))\<rparr>"

definition sample_evidence :: target_evidence where
  "sample_evidence = \<lparr>te_source = ''sts'', te_verified_at = ''2026-01-01'', te_detail = None\<rparr>"

definition sample_target :: physical_target where
  "sample_target = \<lparr>pt_provider = ''aws'', pt_account = ''123456789012'', pt_region = ''eu'',
     pt_kind = ''shared-release-group'', pt_resource = ''dev/core'', pt_evidence = sample_evidence\<rparr>"

definition sample_holder :: lease_holder where
  "sample_holder = \<lparr>lh_org = ''o1'', lh_action = ''a1'', lh_generation = 2\<rparr>"

definition other_holder :: lease_holder where
  "other_holder = \<lparr>lh_org = ''o2'', lh_action = ''a2'', lh_generation = 1\<rparr>"

definition sample_key :: string where
  "sample_key = ''v1:'' @ joined [key_separator] [''aws'', ''123456789012'', ''eu'', ''shared-release-group'', ''dev/core'']"

text \<open>A hold whose contact window is long over.\<close>

definition sample_lease :: lease_row where
  "sample_lease = \<lparr>le_id = ''l1'', le_key = sample_key, le_source = ''sts'', le_verified_at = Naive 1, le_detail = None,
     le_state = ''held'', le_org = Some ''o1'', le_action = Some ''a1'', le_generation = 2, le_entry = Some ''e1'',
     le_ref = Some ''r1'', le_pending = None, le_revision = 4, le_acquired = Some (Naive 1),
     le_heartbeat = Some (Naive 1), le_expires = Some (Naive 2), le_terminal = None, le_reconciled_at = None,
     le_reason = None, le_released_at = None\<rparr>"

lemma sample_leases_ok: "leases_ok [sample_lease]"
  by (simp add: leases_ok_def unique_on_def lease_ok_def sample_lease_def)

section \<open>Holds\<close>

text \<open>
  C22: A held target stays exactly as its holder left it along every run of lease operations
  (acquire, reconcile, release, the publication operations, handoff) of callers that are not its
  action in its generation or a later one. Only terminal evidence on the row, with no publication
  pending, opens it to others; that its contact window has passed does not.
\<close>

theorem undisturbed_hold:
  assumes "leases_ok d" "r \<in> set d" "le_state r = ''held''"
    and "\<not> truthy (le_terminal r) \<or> le_pending r \<noteq> None"
    and "(foreign_step r)\<^sup>*\<^sup>* d e"
  shows "r \<in> set e \<and> leases_ok e"
  using hold.run_inv [OF assms(5)] assms(1-4) by (simp add: hold_kept_def)

lemma sample_lease_columns:
  "le_state sample_lease = ''held''" "le_terminal sample_lease = None" "le_pending sample_lease = None"
  "lapsed_by (le_expires sample_lease) (Aware 100)" "le_generation sample_lease = 2"
  by (simp_all add: sample_lease_def)

theorem undisturbed_hold_witness:
  "sample_lease \<in> set (snd (acquire_lease sample_params (Aware 100) ''l2'' None sample_target other_holder
     (Some ''e2'') (Some ''r2'') (PyInt 60) [sample_lease]))"
proof -
  let ?e = "snd (acquire_lease sample_params (Aware 100) ''l2'' None sample_target other_holder
     (Some ''e2'') (Some ''r2'') (PyInt 60) [sample_lease])"
  have "foreign_step sample_lease [sample_lease] ?e"
    unfolding foreign_step_def
    by (intro exI [of _ other_holder] conjI tx_acquire)
      (simp_all add: entitled_def same_action_def sample_lease_def other_holder_def lease_race_ok_def)
  then show ?thesis
    using undisturbed_hold [OF sample_leases_ok _ _ _ r_into_rtranclp, of sample_lease ?e] sample_lease_columns by simp
qed

text \<open>
  Every run of lease operations keeps the table well formed: one row per target and per id, a
  held row with its holder, entry and window, a free row with none and nothing pending; and the
  revision of a target's row only rises.
\<close>

theorem leases_stay_well_formed:
  assumes "leases_ok d" "lease_step\<^sup>*\<^sup>* d e"
  shows "leases_ok e \<and> (\<forall>key n. lease_revision d key = Some n
     \<longrightarrow> (\<exists>m. lease_revision e key = Some m \<and> n \<le> m))"
  using lease_runs.run_inv lease_revisions.run_counter assms by blast

theorem leases_stay_well_formed_witness:
  "leases_ok (snd (release_lease (Aware 50) sample_key sample_holder LrCOMPLETED (Some ''done'') [sample_lease]))"
proof -
  have "lease_step [sample_lease] (snd (release_lease (Aware 50) sample_key sample_holder LrCOMPLETED (Some ''done'') [sample_lease]))"
    unfolding lease_step_def using tx_release_lease by blast
  then show ?thesis
    using leases_stay_well_formed [OF sample_leases_ok] by (blast intro: r_into_rtranclp)
qed

text \<open>
  Acquiring a target that another action holds: unless its window has passed, its end has been
  reconciled and nothing is pending, the caller gets the one opaque refusal and nothing changes;
  otherwise the row goes to the caller with a new revision, the caller's own generation and no
  terminal evidence.
\<close>

theorem takeover_needs_evidence:
  assumes "canonical_key (lp_digest p) t = Inr key" "locked_lease d key = Inr (Some r)"
    and "le_state r = ''held''" "\<not> same_action r h" "\<not> blank_opt entry" "1 \<le> n"
    and "acquire_lease p now new_id race t h entry ref (PyInt n) d = (res, e)"
  shows "(\<not> takeable r now \<longrightarrow> res = Inr held_conflict \<and> e = d)
     \<and> (takeable r now \<longrightarrow> (\<exists>s. e = put_lease s d \<and> le_id s = le_id r \<and> le_key s = le_key r
          \<and> le_revision s = le_revision r + 1 \<and> le_state s = ''held'' \<and> same_action s h
          \<and> le_generation s = lh_generation h \<and> le_terminal s = None \<and> le_pending s = None
          \<and> (res = lease_answer LkAPPLIED s None \<or> res = Inl (LeaseError ''invalid_evidence_time''))))"
proof -
  let ?a = "\<lparr>aq_target = t, aq_holder = h, aq_entry = the entry, aq_ref = ref, aq_seconds = n\<rparr>"
  let ?w = "with_evidence (lp_fromiso p) (pt_evidence t) (taken_hold now ?a r)"
  have run: "acquire_lease p now new_id race t h entry ref (PyInt n) d
      = (if takeable r now then applied_row ?w d else (Inr held_conflict, d))"
    using assms(1-6) by (simp add: acquire_lease_def acquire_existing_def takeable_def take_hold_def Let_def)
  have err: "fst ?w = None \<or> fst ?w = Some (LeaseError ''invalid_evidence_time'')"
    by (auto simp: with_evidence_def parse_evidence_time_def Let_def split: sum.splits option.splits)
  then have res: "fst (applied_row ?w d) \<in> {lease_answer LkAPPLIED (snd ?w) None, Inl (LeaseError ''invalid_evidence_time'')}"
    by (auto simp: applied_row_def split: prod.splits option.splits)
  have gen: "le_generation (taken_hold now ?a r) = lh_generation h"
    using assms(4) by (simp add: taken_hold_def Let_def)
  show ?thesis
  proof (cases "takeable r now")
    case True
    then have "(res, e) = applied_row ?w d" using run assms(7) by simp
    then have "res = fst (applied_row ?w d)" "e = put_lease (snd ?w) d"
      by (metis fst_conv, metis snd_conv snd_applied_row)
    then show ?thesis
      using True res gen by (intro conjI impI exI [of _ "snd ?w"]) (simp_all add: same_action_def takeable_def)
  next
    case False
    then show ?thesis using run assms(7) by simp
  qed
qed

theorem takeover_needs_evidence_witness:
  "fst (acquire_lease sample_params (Aware 100) ''l2'' None sample_target other_holder
     (Some ''e2'') (Some ''r2'') (PyInt 60) [sample_lease]) = Inr held_conflict"
proof -
  let ?x = "acquire_lease sample_params (Aware 100) ''l2'' None sample_target other_holder
     (Some ''e2'') (Some ''r2'') (PyInt 60) [sample_lease]"
  have key: "canonical_key (lp_digest sample_params) sample_target = Inr sample_key" by code_simp
  have lock: "locked_lease [sample_lease] sample_key = Inr (Some sample_lease)"
    by (simp add: locked_lease_def require_known_state_def enum_of_def sample_lease_def)
  have "\<not> takeable sample_lease (Aware 100)" by (simp add: takeable_def sample_lease_def)
  moreover have "\<not> same_action sample_lease other_holder"
    by (simp add: same_action_def sample_lease_def other_holder_def)
  moreover have "\<not> blank_opt (Some ''e2'')" by code_simp
  ultimately show ?thesis
    using takeover_needs_evidence [OF key lock, of other_holder "Some ''e2''" 60 "Aware 100" "''l2''" None
        "Some ''r2''" "fst ?x" "snd ?x"]
    by (simp add: sample_lease_def)
qed

section \<open>Disclosure\<close>

text \<open>What an operation's answer may say: nothing, or a view of a row of the caller's own action.\<close>

definition own_or_opaque :: "lease_holder \<Rightarrow> pyexc + lease_outcome \<Rightarrow> bool" where
  "own_or_opaque h res =
     (case res of Inl _ \<Rightarrow> True
      | Inr o' \<Rightarrow> (case lo_lease o' of
           None \<Rightarrow> o' = held_conflict
         | Some v \<Rightarrow> lv_org v = Some (lh_org h) \<and> lv_action v = Some (lh_action h)))"

lemma own_answer: "same_action r h \<Longrightarrow> own_or_opaque h (lease_answer k r w)"
  by (auto simp: own_or_opaque_def lease_answer_def to_view_def same_action_def split: sum.splits)

lemma own_refusal [simp]: "own_or_opaque h (Inr held_conflict)" "own_or_opaque h (Inl e)"
  by (simp_all add: own_or_opaque_def held_conflict_def)

lemma own_applied: "same_action (snd w) h \<Longrightarrow> own_or_opaque h (fst (applied_row w d))"
  by (auto simp: applied_row_def own_answer split: prod.splits option.splits)

lemma own_take: "aq_holder a = h \<Longrightarrow> own_or_opaque h (fst (take_hold f now a r d))"
  unfolding take_hold_def by (intro own_applied) (simp add: same_action_def)

lemma own_existing: "own_or_opaque (aq_holder a) (fst (acquire_existing f now a r d))"
proof -
  have "own_or_opaque (aq_holder a) (fst (applied_row (with_evidence f ev (refreshed_hold now a r)) d))"
    if "same_action r (aq_holder a)" for ev
    using that by (intro own_applied) (simp add: same_action_def refreshed_hold_def)
  then show ?thesis by (simp add: acquire_existing_def Let_def own_take own_answer)
qed

lemma own_acquire: "own_or_opaque h (fst (acquire_lease p now new_id race t h entry ref secs d))"
proof -
  have "own_or_opaque h (fst (acquire_existing f now a r e))" if "aq_holder a = h" for f a r e
    using own_existing [of a] that by simp
  moreover have "same_action (first_hold now new_id key a v) h" if "aq_holder a = h" for key a v
    using that by (simp add: same_action_def first_hold_def Let_def)
  ultimately show ?thesis
    by (simp add: acquire_lease_def Let_def own_answer split: sum.split option.split)
qed

lemma own_reconcile: "own_or_opaque h (fst (reconcile_lease now key expected evidence h hb secs d))"
proof -
  have "own_or_opaque h (fst (applied_row (None, r\<lparr>le_heartbeat := b, le_expires := x, le_revision := n\<rparr>) d))"
    and "own_or_opaque h (fst (applied_row (None, r\<lparr>le_terminal := b', le_reconciled_at := x, le_revision := n\<rparr>) d))"
    if "same_action r h" for r b b' x n
    using that by (auto intro!: own_applied simp: same_action_def)
  then show ?thesis
    by (simp add: reconcile_lease_def own_answer split: sum.split option.split)
qed

lemma own_release: "own_or_opaque h (fst (release_lease now key h reason evidence d))"
proof -
  have "own_or_opaque h (fst (applied_row (None, freed now reason ev r) d))" if "same_action r h" for ev r
    using that by (intro own_applied) (simp add: same_action_def)
  then show ?thesis
    by (simp add: release_lease_def own_answer split: sum.split option.split)
qed

text \<open>
  Acquire, reconcile and release answer with a view only of a row that belongs to the caller's
  own action; every answer without a view is the same opaque refusal, so contention, a stale
  revision and a superseded generation of a stranger cannot be told apart.
\<close>

theorem answers_disclose_only_own_holds:
  "own_or_opaque h (fst (acquire_lease p now new_id race t h entry ref secs d))
   \<and> own_or_opaque h (fst (reconcile_lease now key expected evidence h hb window d))
   \<and> own_or_opaque h (fst (release_lease now key h reason evidence d))"
  by (simp add: own_acquire own_reconcile own_release)

section \<open>Publications\<close>

text \<open>What a pending publication pins down on its row.\<close>

definition publication_frame :: "lease_row \<Rightarrow> lease_row \<Rightarrow> bool" where
  "publication_frame r s \<longleftrightarrow> le_id s = le_id r \<and> le_key s = le_key r \<and> le_state s = le_state r
     \<and> le_org s = le_org r \<and> le_action s = le_action r \<and> le_generation s = le_generation r
     \<and> le_entry s = le_entry r \<and> le_ref s = le_ref r \<and> le_pending s = le_pending r
     \<and> le_acquired s = le_acquired r \<and> le_terminal s = le_terminal r \<and> le_reconciled_at s = le_reconciled_at r"

definition frames_kept :: "lease_db \<Rightarrow> lease_db \<Rightarrow> bool" where
  "frames_kept d e \<longleftrightarrow> (\<forall>r \<in> set d. le_pending r \<noteq> None \<longrightarrow> (\<exists>s \<in> set e. publication_frame r s))"

lemma frame_refl [simp]: "publication_frame r r"
  by (simp add: publication_frame_def)

lemma frames_refl [simp]: "frames_kept d d"
  unfolding frames_kept_def using frame_refl by blast

lemma frames_put:
  assumes "leases_ok d" "r \<in> set d" "le_id s = le_id r" "le_pending r \<noteq> None \<longrightarrow> publication_frame r s"
  shows "frames_kept d (put_lease s d)"
  unfolding frames_kept_def put_lease_set [OF assms(1-3)] using assms(4) frame_refl by blast

lemma frames_append: "frames_kept (d @ rs) e \<Longrightarrow> frames_kept d e"
  by (simp add: frames_kept_def)

lemma take_frames:
  assumes "leases_ok d" "r \<in> set d" "le_pending r = None"
  shows "frames_kept d (snd (take_hold f now a r d))"
  unfolding take_hold_def snd_applied_row using assms by (intro frames_put [of d r]) simp_all

lemma existing_frames:
  assumes "leases_ok d" "r \<in> set d"
  shows "frames_kept d (snd (acquire_existing f now a r d))"
proof -
  have free: "le_pending r = None" if "le_state r \<noteq> ''held''"
    using assms that by (auto simp: leases_ok_def lease_ok_def)
  have refresh: "frames_kept d (put_lease (snd (with_evidence f ev (refreshed_hold now a r))) d)"
    if "le_terminal r = le_terminal r" for ev
    using assms by (intro frames_put [of d r]) (simp_all add: publication_frame_def refreshed_hold_def)
  show ?thesis
    using take_frames [OF assms] refresh free by (simp add: acquire_existing_def Let_def)
qed

lemma acquire_frames:
  assumes "leases_ok d" "lease_race_ok d new_id race"
  shows "frames_kept d (snd (acquire_lease p now new_id race t h entry ref secs d))"
proof -
  have held: "frames_kept d (snd (acquire_existing f now a r d))" if "locked_lease d key = Inr (Some r)" for key f a r
    using locked_lease_SomeD [OF that] existing_frames [OF assms(1)] by blast
  have new: "frames_kept d (d @ rs)" for rs by (rule frames_append [of _ rs]) simp
  have beaten: "frames_kept d (snd (acquire_existing f now a r (d @ rs)))"
    if "race = Some rs" "locked_lease (d @ rs) key = Inr (Some r)" for key rs f a r
  proof (rule frames_append [of _ rs], rule existing_frames)
    show "leases_ok (d @ rs)" using assms that(1) by (auto simp: leases_ok_def lease_race_ok_def list_all_iff)
    show "r \<in> set (d @ rs)" using locked_lease_SomeD [OF that(2)] by simp
  qed
  show ?thesis
    by (simp add: acquire_lease_def Let_def held beaten new split: sum.split option.split)
qed

lemma reconcile_frames:
  assumes "leases_ok d"
  shows "frames_kept d (snd (reconcile_lease now key expected evidence h hb secs d))"
proof -
  have beat: "frames_kept d (put_lease (r\<lparr>le_heartbeat := b, le_expires := x, le_revision := n\<rparr>) d)"
    if "locked_lease d key = Inr (Some r)" for r b x n
    using locked_lease_SomeD [OF that] assms by (intro frames_put [of d r]) (simp_all add: publication_frame_def)
  have over: "frames_kept d (put_lease (r\<lparr>le_terminal := b, le_reconciled_at := x, le_revision := n\<rparr>) d)"
    if "locked_lease d key = Inr (Some r)" "le_pending r = None" for r b x n
    using locked_lease_SomeD [OF that(1)] that(2) assms by (intro frames_put [of d r]) simp_all
  show ?thesis by (simp add: reconcile_lease_def beat over split: sum.split option.split)
qed

lemma release_frames:
  assumes "leases_ok d"
  shows "frames_kept d (snd (release_lease now key h reason evidence d))"
proof -
  have "frames_kept d (put_lease (freed now reason ev r) d)"
    if "locked_lease d key = Inr (Some r)" "le_pending r = None" for r ev
    using locked_lease_SomeD [OF that(1)] that(2) assms by (intro frames_put [of d r]) simp_all
  then show ?thesis by (simp add: release_lease_def split: sum.split option.split)
qed

lemma begin_frames:
  assumes "leases_ok d"
  shows "frames_kept d (snd (begin_shared_publication p now t h entry ref digest d))"
proof -
  have "frames_kept d (put_lease (r\<lparr>le_pending := x, le_terminal := y, le_reconciled_at := z, le_revision := n\<rparr>) d)"
    if "target_lease p t d = Inr (Some r)" "le_pending r = None" for r x y z n
    using target_lease_SomeD [OF that(1)] that(2) assms by (intro frames_put [of d r]) simp_all
  then show ?thesis by (simp add: begin_shared_publication_def guarded_def split: sum.split option.split)
qed

section \<open>The handoff\<close>

text \<open>A handoff that was made: the holder's row goes to the successor in one write.\<close>

definition handed_to ::
    "lease_db \<Rightarrow> lease_db \<Rightarrow> pydt \<Rightarrow> lease_holder \<Rightarrow> string \<Rightarrow> string \<Rightarrow> lease_holder \<Rightarrow> string option \<Rightarrow> string option
     \<Rightarrow> pyexc + lease_outcome \<Rightarrow> bool" where
  "handed_to d e now h ce cr succ ne nr res \<longleftrightarrow>
     (\<exists>r \<in> set d. \<exists>s. e = put_lease s d \<and> held_release r h ce cr \<and> unexpired r now \<and> le_pending r = None
        \<and> le_id s = le_id r \<and> le_key s = le_key r \<and> le_revision r < le_revision s \<and> le_state s = ''held''
        \<and> le_org s = Some (lh_org succ) \<and> le_action s = Some (lh_action succ) \<and> le_entry s = ne
        \<and> le_ref s = nr \<and> le_pending s = None \<and> res = lease_answer LkAPPLIED s None)"

lemma handoff_all:
  assumes "leases_ok d"
  shows "snd (handoff_shared_release p n1 n2 n3 new_id t h succ ce ne cr nr ev d) = d
      \<and> (\<forall>o'. fst (handoff_shared_release p n1 n2 n3 new_id t h succ ce ne cr nr ev d) = Inr o' \<longrightarrow> o' = held_conflict)
    \<or> handed_to d (snd (handoff_shared_release p n1 n2 n3 new_id t h succ ce ne cr nr ev d)) n1 h (the ce) (the cr) succ ne nr
        (fst (handoff_shared_release p n1 n2 n3 new_id t h succ ce ne cr nr ev d))"
proof -
  have "handed_to d d2 n1 h (the ce) (the cr) succ ne nr (Inr aq)"
    if "locked_lease d key = Inr (Some r)" "held_release r h (the ce) (the cr)" "unexpired r n1" "le_pending r = None"
      "release_lease n2 key h LrCOMPLETED ev d = (Inr rl, d1)" "lo_kind rl = LkAPPLIED"
      "canonical_key (lp_digest p) t = Inr key"
      "acquire_lease p n3 new_id None t succ ne nr (PyInt default_hold_seconds) d1 = (Inr aq, d2)" "lo_kind aq = LkAPPLIED"
    for key r rl d1 aq d2
  proof -
    have e: "entitled r h" "le_state r = ''held''" using held_release_entitled [OF that(2)] by simp_all
    have "r \<in> set d" using locked_lease_SomeD [OF that(1)] by simp
    with release_then_acquire [OF assms that(1) e that(5-9)] that(2-4) show ?thesis
      unfolding handed_to_def by metis
  qed
  then show ?thesis
    by (auto simp: handoff_shared_release_def split: sum.splits option.splits prod.splits)
qed

lemma handoff_frames:
  assumes "leases_ok d"
  shows "frames_kept d (snd (handoff_shared_release p n1 n2 n3 new_id t h succ ce ne cr nr ev d))"
proof -
  have "frames_kept d e" if made: "handed_to d e n x y z succ ne nr res" for e n x y z res
  proof -
    from made obtain r s where "r \<in> set d" "e = put_lease s d" "le_pending r = None" "le_id s = le_id r"
      unfolding handed_to_def by blast
    then show ?thesis using frames_put [OF assms, of r s] by simp
  qed
  with handoff_all [OF assms, of p n1 n2 n3 new_id t h succ ce ne cr nr ev] show ?thesis by auto
qed

text \<open>
  While a publication is pending on a target, no acquire, reconcile, release, further publication
  or handoff of anybody moves its row off: state, holder, generation, entry, revision held and pending
  digest stay, and neither acquisition time nor terminal evidence are rewritten.
\<close>

theorem pending_publication_is_kept:
  assumes "leases_ok d" "lease_race_ok d new_id race"
  shows "frames_kept d (snd (acquire_lease p now new_id race t h entry ref secs d))
     \<and> frames_kept d (snd (reconcile_lease now key expected evidence h hb window d))
     \<and> frames_kept d (snd (release_lease now key h reason evidence d))
     \<and> frames_kept d (snd (begin_shared_publication p now t h entry' ref' digest d))
     \<and> frames_kept d (snd (handoff_shared_release p n1 n2 n3 new_id t h succ ce ne cr nr evidence d))"
  using acquire_frames [OF assms] reconcile_frames release_frames begin_frames handoff_frames assms(1) by simp

definition publishing_lease :: lease_row where
  "publishing_lease = sample_lease\<lparr>le_pending := Some ''d1''\<rparr>"

theorem pending_publication_is_kept_witness:
  "frames_kept [publishing_lease] (snd (release_lease (Aware 50) sample_key sample_holder LrCOMPLETED (Some ''done'') [publishing_lease]))"
proof -
  have ok: "leases_ok [publishing_lease]"
    by (simp add: publishing_lease_def leases_ok_def unique_on_def lease_ok_def sample_lease_def)
  have free: "lease_race_ok [publishing_lease] ''l2'' None"
    by (simp add: lease_race_ok_def publishing_lease_def sample_lease_def)
  show ?thesis
    by (rule pending_publication_is_kept [OF ok free, THEN conjunct2, THEN conjunct2, THEN conjunct1])
qed

text \<open>
  A handoff is all or nothing: it either leaves the table alone, answering with an exception or
  the opaque refusal, or moves the one row that the caller held, in its generation, unexpired, under the current entry and
  revision and with nothing pending, to the successor under the next entry and revision.
\<close>

theorem handoff_is_all_or_nothing:
  assumes "leases_ok d"
    and "handoff_shared_release p n1 n2 n3 new_id t h succ ce ne cr nr ev d = (res, e)"
  shows "e = d \<and> (\<forall>o'. res = Inr o' \<longrightarrow> o' = held_conflict)
    \<or> handed_to d e n1 h (the ce) (the cr) succ ne nr res"
  using handoff_all [OF assms(1), of p n1 n2 n3 new_id t h succ ce ne cr nr ev] by (simp add: assms(2))

definition current_lease :: lease_row where
  "current_lease = sample_lease\<lparr>le_expires := Some (Naive 100), le_ref := Some (replicate 40 (CHR ''a''))\<rparr>"

definition sample_handoff :: "(pyexc + lease_outcome) \<times> lease_db" where
  "sample_handoff = handoff_shared_release sample_params (Aware 10) (Aware 11) (Aware 12) ''l2'' sample_target
     sample_holder (other_holder\<lparr>lh_org := ''o1''\<rparr>) (Some ''e1'') (Some ''e2'')
     (Some (replicate 40 (CHR ''a''))) (Some (replicate 40 (CHR ''b''))) (Some ''done'') [current_lease]"

lemma sample_handoff_applied: "map_sum id lo_kind (fst sample_handoff) = Inr LkAPPLIED"
  by code_simp

theorem handoff_is_all_or_nothing_witness:
  "handed_to [current_lease] (snd sample_handoff) (Aware 10) sample_holder ''e1'' (replicate 40 (CHR ''a''))
     (other_holder\<lparr>lh_org := ''o1''\<rparr>) (Some ''e2'') (Some (replicate 40 (CHR ''b''))) (fst sample_handoff)"
proof -
  have ok: "leases_ok [current_lease]"
    by (simp add: current_lease_def leases_ok_def unique_on_def lease_ok_def sample_lease_def)
  obtain w where w: "fst sample_handoff = Inr w" "lo_kind w = LkAPPLIED"
    using sample_handoff_applied by (cases "fst sample_handoff") auto
  have other: "w \<noteq> held_conflict" using w(2) by (auto simp: held_conflict_def)
  have run: "handoff_shared_release sample_params (Aware 10) (Aware 11) (Aware 12) ''l2'' sample_target
     sample_holder (other_holder\<lparr>lh_org := ''o1''\<rparr>) (Some ''e1'') (Some ''e2'')
     (Some (replicate 40 (CHR ''a''))) (Some (replicate 40 (CHR ''b''))) (Some ''done'') [current_lease]
     = (fst sample_handoff, snd sample_handoff)"
    unfolding prod.collapse by (rule sample_handoff_def [symmetric])
  show ?thesis using handoff_is_all_or_nothing [OF ok run] w(1) other by simp
qed

section \<open>Identity\<close>

lemma separated_eq:
  "c \<notin> set p \<Longrightarrow> c \<notin> set q \<Longrightarrow> p @ c # xs = q @ c # ys \<longleftrightarrow> p = q \<and> xs = ys"
proof (induction p arbitrary: q)
  case Nil
  then show ?case by (cases q) auto
next
  case (Cons a p)
  then show ?case by (cases q) auto
qed

lemma joined_inject:
  "length ps = length qs \<Longrightarrow> \<forall>p \<in> set ps \<union> set qs. c \<notin> set p \<Longrightarrow> joined [c] ps = joined [c] qs \<longleftrightarrow> ps = qs"
proof (induction "[c]" ps arbitrary: qs rule: joined.induct)
  case 1
  then show ?case by simp
next
  case (2 s)
  then show ?case by (cases qs) auto
next
  case (3 s s' ss)
  then obtain q q' qs' where qs: "qs = q # q' # qs'" by (cases qs; cases "tl qs") auto
  then show ?case using 3 by (simp add: separated_eq)
qed

definition target_parts :: "physical_target \<Rightarrow> string list" where
  "target_parts t = map key_part [pt_provider t, pt_account t, pt_region t, pt_kind t, pt_resource t]"

text \<open>
  Two targets get the same canonical key exactly when their normalized parts agree, or the digest
  collides on two different key texts: neither an alias, nor case or padding, nor text moved from one
  part to the next makes a difference of its own.
\<close>

theorem keys_tell_targets_apart:
  assumes "canonical_key kdg a = Inr k" "canonical_key kdg b = Inr m"
  shows "k = m \<longleftrightarrow> target_parts a = target_parts b
    \<or> (\<exists>x y. x \<noteq> y \<and> kdg x = kdg y \<and> k = ''v1:'' @ kdg x \<and> m = ''v1:'' @ kdg y)"
proof -
  let ?t = "\<lambda>x. joined [key_separator] (target_parts x)"
  have k: "k = ''v1:'' @ kdg (?t a)" and m: "m = ''v1:'' @ kdg (?t b)"
    and sep: "\<forall>p \<in> set (target_parts a) \<union> set (target_parts b). key_separator \<notin> set p"
    using assms
    by (auto simp: canonical_key_def canonical_target_key_def key_text_def target_parts_def Let_def split: if_splits)
  have "?t a = ?t b \<longleftrightarrow> target_parts a = target_parts b"
    using sep by (intro joined_inject) (simp_all add: target_parts_def)
  then show ?thesis unfolding k m by auto
qed

theorem keys_tell_targets_apart_witness:
  "canonical_key (\<lambda>s. s) (sample_target\<lparr>pt_region := ''EU ''\<rparr>) = canonical_key (\<lambda>s. s) sample_target
   \<and> target_parts (sample_target\<lparr>pt_region := ''EU ''\<rparr>) = target_parts sample_target"
proof -
  have a: "canonical_key (\<lambda>s. s) (sample_target\<lparr>pt_region := ''EU ''\<rparr>) = Inr sample_key"
    and b: "canonical_key (\<lambda>s. s) sample_target = Inr sample_key" by code_simp+
  show ?thesis using keys_tell_targets_apart [OF a b] a b by auto
qed

section \<open>A free target and the generation fence\<close>

lemma applied_ok: "fst w = None \<Longrightarrow> applied_row w d = (lease_answer LkAPPLIED (snd w) None, put_lease (snd w) d)"
  by (cases w) (simp add: applied_row_def)

text \<open>
  On a free target the acquisition compares no generation. A process of the recorded last
  action that has been superseded acquires the target, with APPLIED; the row keeps the later
  generation, so that the very process that now holds the target is refused as superseded when it
  hands it back.
\<close>

theorem superseded_process_takes_free_target:
  assumes "leases_ok d" "canonical_key (lp_digest p) t = Inr key" "locked_lease d key = Inr (Some r)"
    and "le_state r = ''free''" "same_action r h" "lh_generation h < le_generation r"
    and "\<not> blank_opt entry" "1 \<le> n"
    and "parse_evidence_time (lp_fromiso p) (te_verified_at (pt_evidence t)) = Inr v"
  shows "\<exists>s. acquire_lease p now new_id race t h entry ref (PyInt n) d = (lease_answer LkAPPLIED s None, put_lease s d)
     \<and> le_state s = ''held'' \<and> same_action s h \<and> le_generation s = le_generation r
     \<and> (\<forall>now' reason ev. \<not> blank_opt ev \<longrightarrow> release_lease now' key h reason ev (put_lease s d)
          = (lease_answer LkCONFLICT s (Some ''owner_generation_superseded''), put_lease s d))"
proof -
  let ?a = "\<lparr>aq_target = t, aq_holder = h, aq_entry = the entry, aq_ref = ref, aq_seconds = n\<rparr>"
  let ?w = "with_evidence (lp_fromiso p) (pt_evidence t) (taken_hold now ?a r)"
  let ?s = "snd ?w"
  have gen: "le_generation (taken_hold now ?a r) = le_generation r"
    using assms(5,6) by (simp add: taken_hold_def Let_def)
  have ok: "fst ?w = None" using assms(9) by (simp add: with_evidence_def Let_def)
  have acq: "acquire_lease p now new_id race t h entry ref (PyInt n) d = (lease_answer LkAPPLIED ?s None, put_lease ?s d)"
    using assms(2-4,7,8) applied_ok [OF ok]
    by (simp add: acquire_lease_def acquire_existing_def take_hold_def Let_def)
  have "locked_lease (put_lease ?s d) key = Inr (Some ?s)"
    using find_put_lease [OF assms(1,3), of ?s] by (simp add: locked_lease_def require_known_state_def enum_of_def)
  then have "release_lease now' key h reason ev (put_lease ?s d)
      = (lease_answer LkCONFLICT ?s (Some ''owner_generation_superseded''), put_lease ?s d)"
    if "\<not> blank_opt ev" for now' reason ev
    using that assms(6) gen by (simp add: release_lease_def same_action_def)
  with acq gen show ?thesis by (intro exI [of _ ?s]) (simp add: same_action_def)
qed

definition free_lease :: lease_row where
  "free_lease = freed (Aware 50) LrCOMPLETED ''done'' sample_lease"

theorem superseded_process_takes_free_target_witness:
  "\<exists>s. snd (acquire_lease sample_params (Aware 60) ''l2'' None sample_target (sample_holder\<lparr>lh_generation := 1\<rparr>)
       (Some ''e1'') None (PyInt 60) [free_lease]) = put_lease s [free_lease]
     \<and> le_state s = ''held'' \<and> le_generation s = 2"
proof -
  have ok: "leases_ok [free_lease]"
    by (simp add: leases_ok_def unique_on_def lease_ok_def free_lease_def sample_lease_def)
  have key: "canonical_key (lp_digest sample_params) sample_target = Inr sample_key"
    and time: "parse_evidence_time (lp_fromiso sample_params) (te_verified_at (pt_evidence sample_target)) = Inr (Aware 5)"
    and entry: "\<not> blank_opt (Some ''e1'')" by code_simp+
  have row: "locked_lease [free_lease] sample_key = Inr (Some free_lease)" "le_state free_lease = ''free''"
    "same_action free_lease (sample_holder\<lparr>lh_generation := 1\<rparr>)"
    "lh_generation (sample_holder\<lparr>lh_generation := 1\<rparr>) < le_generation free_lease"
    by (simp_all add: locked_lease_def require_known_state_def enum_of_def same_action_def free_lease_def
        sample_holder_def sample_lease_def)
  have "(1::int) \<le> 60" "le_generation free_lease = 2" by (simp_all add: free_lease_def sample_lease_def)
  with superseded_process_takes_free_target [OF ok key row entry this(1) time, of "Aware 60" "''l2''" None None]
  show ?thesis by auto
qed

end
