(* ===== verification/Plan_Graph.thy ===== *)
theory Plan_Graph
  imports Main
begin

text \<open>
  The three graph searches that plan validation rests on (\<open>orchestration/proposal.py\<close>): whether
  one node is reached from another (\<open>_reaches\<close>), a topological order by repeatedly removing the
  least node without open prerequisites (\<open>_topological_ranks\<close>) and one cycle by an iterative
  three-colour search (\<open>_find_cycle\<close>). Each is proved against the relation it searches, behind
  a contract (a locale) that its callers use.

  A graph is a dict from a node to the list of its successors; \<open>succs\<close> reads a missing key as no
  successors, and the graphs the program builds have every successor as a key (\<open>closed_adj\<close>).
\<close>

type_synonym 'n adj = "('n \<times> 'n list) list"

definition succs :: "'n adj \<Rightarrow> 'n \<Rightarrow> 'n list" where
  "succs adj n = (case map_of adj n of Some s \<Rightarrow> s | None \<Rightarrow> [])"

definition keys_of :: "'n adj \<Rightarrow> 'n list" where
  "keys_of adj = map fst adj"

definition targets_of :: "'n adj \<Rightarrow> 'n set" where
  "targets_of adj = (\<Union>p \<in> set adj. set (snd p))"

definition closed_adj :: "'n adj \<Rightarrow> bool" where
  "closed_adj adj \<longleftrightarrow> distinct (keys_of adj) \<and> targets_of adj \<subseteq> set (keys_of adj)"

text \<open>The dependency relation: the first node comes before the second.\<close>

definition before :: "'n adj \<Rightarrow> ('n \<times> 'n) set" where
  "before adj = {(u, v). v \<in> set (succs adj u)}"

lemma succs_targets: "v \<in> set (succs adj u) \<Longrightarrow> v \<in> targets_of adj"
  by (cases "map_of adj u") (force simp: succs_def targets_of_def dest: map_of_SomeD)+

lemma succs_key: "v \<in> set (succs adj u) \<Longrightarrow> u \<in> set (keys_of adj)"
  by (cases "map_of adj u") (force simp: succs_def keys_of_def dest: map_of_SomeD)+

lemma before_iff [simp]: "(u, v) \<in> before adj \<longleftrightarrow> v \<in> set (succs adj u)"
  by (simp add: before_def)

lemma finite_targets [simp]: "finite (targets_of adj)"
  by (simp add: targets_of_def)

section \<open>Reachability\<close>

text \<open>
  One round of the search: the successors of a node, in order. \<open>None\<close> is the early return with
  the target found; otherwise the nodes seen and the frontier, whose last element comes first.
\<close>

fun visit :: "'n \<Rightarrow> 'n list \<Rightarrow> 'n set \<Rightarrow> 'n list \<Rightarrow> ('n set \<times> 'n list) option" where
  "visit target [] seen frontier = Some (seen, frontier)"
| "visit target (s # ss) seen frontier =
     (if s = target then None
      else if s \<notin> seen then visit target ss (insert s seen) (s # frontier)
      else visit target ss seen frontier)"

lemma visit_None: "visit target ss seen frontier = None \<longleftrightarrow> target \<in> set ss"
  by (induction target ss seen frontier rule: visit.induct) auto

lemma visit_Some:
  "visit target ss seen frontier = Some (seen', frontier') \<Longrightarrow>
     \<exists>new. frontier' = new @ frontier \<and> seen' = seen \<union> set new \<and> set new \<subseteq> set ss
         \<and> set ss \<subseteq> seen' \<and> distinct new \<and> set new \<inter> seen = {} \<and> target \<notin> set ss"
proof (induction target ss seen frontier rule: visit.induct)
  case (1 target seen frontier)
  then show ?case by auto
next
  case (2 target s ss seen frontier)
  show ?case
  proof (cases "s \<in> seen")
    case True
    from 2(3) True have ne: "s \<noteq> target"
      and rec: "visit target ss seen frontier = Some (seen', frontier')"
      by (auto split: if_splits)
    from 2(2) [OF ne _ rec] True obtain new where "frontier' = new @ frontier"
      "seen' = seen \<union> set new" "set new \<subseteq> set ss" "set ss \<subseteq> seen'" "distinct new"
      "set new \<inter> seen = {}" "target \<notin> set ss" by blast
    with True ne show ?thesis by (intro exI [of _ new]) auto
  next
    case False
    from 2(3) False have ne: "s \<noteq> target"
      and rec: "visit target ss (insert s seen) (s # frontier) = Some (seen', frontier')"
      by (auto split: if_splits)
    from 2(1) [OF ne False rec] obtain new where "frontier' = new @ s # frontier"
      "seen' = insert s seen \<union> set new" "set new \<subseteq> set ss" "set ss \<subseteq> seen'" "distinct new"
      "set new \<inter> insert s seen = {}" "target \<notin> set ss" by blast
    with False ne show ?thesis by (intro exI [of _ "new @ [s]"]) auto
  qed
qed

function search :: "'n adj \<Rightarrow> 'n \<Rightarrow> 'n set \<Rightarrow> 'n list \<Rightarrow> bool" where
  "search adj target seen [] = False"
| "search adj target seen (n # frontier) =
     (case visit target (succs adj n) seen frontier of
        None \<Rightarrow> True
      | Some (seen', frontier') \<Rightarrow> search adj target seen' frontier')"
  by pat_completeness auto

lemma visit_measure:
  assumes "visit target (succs adj n) seen frontier = Some (seen', frontier')"
  shows "2 * card (targets_of adj - seen') + length frontier'
       < 2 * card (targets_of adj - seen) + length (n # frontier)"
proof -
  from visit_Some [OF assms] obtain new where new: "frontier' = new @ frontier"
    "seen' = seen \<union> set new" "set new \<subseteq> set (succs adj n)" "distinct new" "set new \<inter> seen = {}"
    by blast
  have "set new \<subseteq> targets_of adj - seen" using new(3,5) succs_targets by fast
  moreover have "targets_of adj - seen' = (targets_of adj - seen) - set new" using new(2) by auto
  ultimately have "card (targets_of adj - seen') = card (targets_of adj - seen) - card (set new)"
    "card (set new) \<le> card (targets_of adj - seen)"
    by (simp_all add: card_Diff_subset card_mono)
  then show ?thesis using new(1) distinct_card [OF new(4)] by simp
qed

termination search
proof (relation "measure (\<lambda>(adj, target, seen, frontier). 2 * card (targets_of adj - seen) + length frontier)")
  show "wf (measure (\<lambda>(adj, target, seen, frontier). 2 * card (targets_of adj - seen) + length frontier))"
    by simp
qed (use visit_measure in fastforce)

definition reaches :: "'n adj \<Rightarrow> 'n \<Rightarrow> 'n \<Rightarrow> bool" where
  "reaches adj source target = (source = target \<or> search adj target {source} [source])"

lemma search_sound:
  "search adj target seen frontier \<Longrightarrow> (\<And>n. n \<in> set frontier \<Longrightarrow> (source, n) \<in> (before adj)\<^sup>*)
     \<Longrightarrow> (source, target) \<in> (before adj)\<^sup>*"
proof (induction adj target seen frontier rule: search.induct)
  case (1 adj target seen)
  then show ?case by simp
next
  case (2 adj target seen n frontier)
  have step: "(source, v) \<in> (before adj)\<^sup>*" if "v \<in> set (succs adj n)" for v
    using 2(3) [of n] that by (auto intro: rtrancl_into_rtrancl)
  show ?case
  proof (cases "visit target (succs adj n) seen frontier")
    case None
    then show ?thesis using step by (simp add: visit_None)
  next
    case (Some p)
    then obtain seen' frontier' where v: "visit target (succs adj n) seen frontier = Some (seen', frontier')"
      by (cases p) auto
    from visit_Some [OF v] obtain new where "frontier' = new @ frontier" "set new \<subseteq> set (succs adj n)"
      by blast
    then have "(source, m) \<in> (before adj)\<^sup>*" if "m \<in> set frontier'" for m
      using 2(3) step that by auto
    then show ?thesis using 2(1) [OF v refl] 2(2) v by simp
  qed
qed

lemma search_complete:
  "\<not> search adj target seen frontier \<Longrightarrow> target \<notin> seen \<Longrightarrow> set frontier \<subseteq> seen
     \<Longrightarrow> (\<And>u. u \<in> seen - set frontier \<Longrightarrow> set (succs adj u) \<subseteq> seen)
     \<Longrightarrow> \<exists>S. seen \<subseteq> S \<and> target \<notin> S \<and> before adj `` S \<subseteq> S"
proof (induction adj target seen frontier rule: search.induct)
  case (1 adj target seen)
  then show ?case by (intro exI [of _ seen]) fastforce
next
  case (2 adj target seen n frontier)
  then obtain seen' frontier' where v: "visit target (succs adj n) seen frontier = Some (seen', frontier')"
    and rest: "\<not> search adj target seen' frontier'"
    by (auto split: option.splits)
  from visit_Some [OF v] obtain new where new: "frontier' = new @ frontier" "seen' = seen \<union> set new"
    "set new \<subseteq> set (succs adj n)" "set (succs adj n) \<subseteq> seen'" "target \<notin> set (succs adj n)" by blast
  have "target \<notin> seen'" "set frontier' \<subseteq> seen'" using new 2(3,4) by auto
  moreover have "set (succs adj u) \<subseteq> seen'" if "u \<in> seen' - set frontier'" for u
    using that new 2(5) [of u] by (cases "u = n") auto
  ultimately obtain S where "seen' \<subseteq> S" "target \<notin> S" "before adj `` S \<subseteq> S"
    using 2(1) [OF v refl rest] by blast
  then show ?case using new(2) by auto
qed

lemma reaches_iff: "reaches adj source target \<longleftrightarrow> (source, target) \<in> (before adj)\<^sup>*"
proof
  assume "reaches adj source target"
  then show "(source, target) \<in> (before adj)\<^sup>*"
    using search_sound [of adj target "{source}" "[source]" source] by (auto simp: reaches_def)
next
  assume path: "(source, target) \<in> (before adj)\<^sup>*"
  show "reaches adj source target"
  proof (rule ccontr)
    assume "\<not> reaches adj source target"
    then have "\<not> search adj target {source} [source]" "target \<notin> {source}" by (auto simp: reaches_def)
    from search_complete [OF this] obtain S where "source \<in> S" "target \<notin> S" "before adj `` S \<subseteq> S" by auto
    moreover have "target \<in> S"
      using path \<open>source \<in> S\<close> Image_closed_trancl [OF \<open>before adj `` S \<subseteq> S\<close>] by blast
    ultimately show False by blast
  qed
qed

section \<open>Topological order\<close>

text \<open>
  The counters of open prerequisites, the heap of nodes without any (kept sorted: \<open>heappop\<close>
  takes the least) and the order so far.
\<close>

definition indegrees :: "'n adj \<Rightarrow> 'n \<Rightarrow> int" where
  "indegrees adj = foldl (\<lambda>d p. foldl (\<lambda>d s. d(s := d s + 1)) d (snd p)) (\<lambda>_. 0) adj"

fun relax :: "'n::linorder list \<Rightarrow> ('n \<Rightarrow> int) \<Rightarrow> 'n list \<Rightarrow> ('n \<Rightarrow> int) \<times> 'n list" where
  "relax [] deg ready = (deg, ready)"
| "relax (s # ss) deg ready =
     (let deg' = deg(s := deg s - 1) in
      relax ss deg' (if deg' s = 0 then insort s ready else ready))"

function kahn :: "'n::linorder adj \<Rightarrow> ('n \<Rightarrow> int) \<Rightarrow> 'n list \<Rightarrow> 'n list \<Rightarrow> 'n list" where
  "kahn adj deg [] order = order"
| "kahn adj deg (n # ready) order =
     (case relax (succs adj n) deg ready of (deg', ready') \<Rightarrow> kahn adj deg' ready' (order @ [n]))"
  by pat_completeness auto

text \<open>Every node that becomes ready had exactly one open prerequisite left, and has none now.\<close>

lemma relax_measure:
  "relax ss deg ready = (deg', ready') \<Longrightarrow> finite A \<Longrightarrow> set ss \<subseteq> A
     \<Longrightarrow> card {v \<in> A. 0 < deg' v} + length ready' \<le> card {v \<in> A. 0 < deg v} + length ready"
proof (induction ss deg ready rule: relax.induct)
  case (1 deg ready)
  then show ?case by simp
next
  case (2 s ss deg ready)
  let ?d = "deg(s := deg s - 1)"
  let ?r = "if ?d s = 0 then insort s ready else ready"
  have rec: "relax ss ?d ?r = (deg', ready')" using 2(2) by (simp only: relax.simps Let_def)
  have sub: "set ss \<subseteq> A" using 2(4) by simp
  have "card {v \<in> A. 0 < deg' v} + length ready' \<le> card {v \<in> A. 0 < ?d v} + length ?r"
    using 2(1) [OF refl rec 2(3) sub] .
  also have "\<dots> \<le> card {v \<in> A. 0 < deg v} + length ready"
  proof (cases "deg s = 1")
    case True
    then have "{v \<in> A. 0 < ?d v} = {v \<in> A. 0 < deg v} - {s}" by auto
    moreover have "s \<in> {v \<in> A. 0 < deg v}" "finite {v \<in> A. 0 < deg v}" using True 2(3,4) by auto
    ultimately have "Suc (card {v \<in> A. 0 < ?d v}) = card {v \<in> A. 0 < deg v}" by (metis card_Suc_Diff1)
    then show ?thesis using True by simp
  next
    case False
    then have "{v \<in> A. 0 < ?d v} \<subseteq> {v \<in> A. 0 < deg v}" by auto
    then show ?thesis using False 2(3) by (auto intro: card_mono)
  qed
  finally show ?case .
qed

lemma relax_round:
  "(deg', ready') = relax (succs adj n) deg ready
     \<Longrightarrow> card {v \<in> targets_of adj. 0 < deg' v} + length ready'
       < card {v \<in> targets_of adj. 0 < deg v} + length (n # ready)"
  using relax_measure [OF sym finite_targets, of deg' ready' "succs adj n" deg ready adj] succs_targets
  by fastforce

termination kahn
proof (relation "measure (\<lambda>(adj, deg, ready, order). card {v \<in> targets_of adj. 0 < deg v} + length ready)")
  show "wf (measure (\<lambda>(adj, deg, ready, order). card {v \<in> targets_of adj. 0 < deg v} + length ready))"
    by simp
qed (use relax_round in fastforce)

text \<open>The position of each node in the order, or None when the order does not have them all.\<close>

definition topological_order :: "'n::linorder adj \<Rightarrow> 'n list option" where
  "topological_order adj =
     (let deg = indegrees adj; order = kahn adj deg (sort (filter (\<lambda>n. deg n = 0) (keys_of adj))) [] in
      if length order \<noteq> length adj then None else Some order)"

definition topological_ranks :: "'n::linorder adj \<Rightarrow> ('n \<times> nat) list option" where
  "topological_ranks adj = map_option (\<lambda>order. zip order [0..<length order]) (topological_order adj)"

subsection \<open>The counters\<close>

text \<open>The edges into a node from the nodes that are not yet ordered.\<close>

definition open_edges :: "'n adj \<Rightarrow> 'n set \<Rightarrow> 'n \<Rightarrow> int" where
  "open_edges adj placed v = (\<Sum>u \<in> set (keys_of adj) - placed. int (count_list (succs adj u) v))"

lemma count_inner:
  "foldl (\<lambda>d s. d(s := d s + 1)) d ss v = (d v :: int) + int (count_list ss v)"
  by (induction ss arbitrary: d) auto

lemma count_outer:
  "foldl (\<lambda>d p. foldl (\<lambda>d s. d(s := d s + 1)) d (snd p)) d adj v
     = (d v :: int) + sum_list (map (\<lambda>p. int (count_list (snd p) v)) adj)"
  by (induction adj arbitrary: d) (auto simp: count_inner)

lemma succs_entry: "distinct (keys_of adj) \<Longrightarrow> p \<in> set adj \<Longrightarrow> succs adj (fst p) = snd p"
  by (cases p) (simp add: succs_def keys_of_def)

lemma indegrees_open:
  assumes "distinct (keys_of adj)"
  shows "indegrees adj v = open_edges adj {} v"
proof -
  have "indegrees adj v = sum_list (map (\<lambda>p. int (count_list (snd p) v)) adj)"
    by (simp add: indegrees_def count_outer)
  also have "map (\<lambda>p. int (count_list (snd p) v)) adj = map (\<lambda>u. int (count_list (succs adj u) v)) (keys_of adj)"
    using succs_entry [OF assms] by (simp add: keys_of_def)
  also have "sum_list \<dots> = open_edges adj {} v"
    using assms by (simp add: open_edges_def sum_list_distinct_conv_sum_set)
  finally show ?thesis .
qed

lemma open_edges_nonneg [simp]: "0 \<le> open_edges adj placed v"
  by (simp add: open_edges_def sum_nonneg)

lemma open_edges_zero:
  "open_edges adj placed v = 0 \<longleftrightarrow> (\<forall>u. v \<in> set (succs adj u) \<longrightarrow> u \<in> placed)"
proof -
  have "open_edges adj placed v = 0
    \<longleftrightarrow> (\<forall>u \<in> set (keys_of adj) - placed. int (count_list (succs adj u) v) = 0)"
    unfolding open_edges_def by (rule sum_nonneg_eq_0_iff) auto
  also have "\<dots> \<longleftrightarrow> (\<forall>u. v \<in> set (succs adj u) \<longrightarrow> u \<in> placed)"
    using succs_key by (fastforce simp: count_list_0_iff)
  finally show ?thesis .
qed

lemma open_edges_place:
  assumes "n \<in> set (keys_of adj)" "n \<notin> placed"
  shows "open_edges adj (insert n placed) v = open_edges adj placed v - int (count_list (succs adj n) v)"
proof -
  have eq: "set (keys_of adj) - insert n placed = (set (keys_of adj) - placed) - {n}" by auto
  show ?thesis unfolding open_edges_def eq
    using assms by (subst sum_diff1) auto
qed

subsection \<open>One round\<close>

lemma relax_deg: "relax ss deg ready = (deg', ready') \<Longrightarrow> deg' v = deg v - int (count_list ss v)"
proof (induction ss deg ready rule: relax.induct)
  case (1 deg ready)
  then show ?case by simp
next
  case (2 s ss deg ready)
  then show ?case by (fastforce simp: Let_def)
qed

lemma relax_ready:
  "relax ss deg ready = (deg', ready') \<Longrightarrow> (\<And>v. int (count_list ss v) \<le> deg v)
     \<Longrightarrow> distinct ready \<Longrightarrow> set ready \<inter> set ss = {}
     \<Longrightarrow> distinct ready' \<and> set ready' = set ready \<union> {v \<in> set ss. deg' v = 0}"
proof (induction ss deg ready rule: relax.induct)
  case (1 deg ready)
  then show ?case by simp
next
  case (2 s ss deg ready)
  let ?d = "deg(s := deg s - 1)"
  let ?r = "if ?d s = 0 then insort s ready else ready"
  have rec: "relax ss ?d ?r = (deg', ready')" using 2(2) by (simp only: relax.simps Let_def)
  have cnt: "int (count_list ss v) \<le> ?d v" for v using 2(3) [of v] by (auto split: if_splits)
  have zero: "s \<notin> set ss" if "?d s = 0" using cnt [of s] that by (auto simp: count_list_0_iff)
  have final: "deg' s = 0 \<longleftrightarrow> ?d s = 0" if "s \<notin> set ss"
    using relax_deg [OF rec, of s] that by (simp add: count_list_0_iff)
  have "distinct ?r" "set ?r \<inter> set ss = {}"
    using 2(4,5) zero by (auto simp: distinct_insort set_insort_key)
  from 2(1) [OF refl rec cnt this]
  have "distinct ready'" "set ready' = set ?r \<union> {v \<in> set ss. deg' v = 0}" by auto
  moreover have "set ?r \<union> {v \<in> set ss. deg' v = 0} = set ready \<union> {v \<in> set (s # ss). deg' v = 0}"
    using zero final by (auto simp: set_insort_key)
  ultimately show ?case by simp
qed

subsection \<open>The whole order\<close>

text \<open>
  What holds between rounds: the counters count, the heap holds exactly the open nodes, and what
  is ordered contains the prerequisites of its nodes and never puts a node after one it precedes.
\<close>

definition well_placed :: "'n adj \<Rightarrow> 'n list \<Rightarrow> bool" where
  "well_placed adj order \<longleftrightarrow> distinct order \<and> set order \<subseteq> set (keys_of adj)
     \<and> (\<forall>v \<in> set order. \<forall>u. v \<in> set (succs adj u) \<longrightarrow> u \<in> set order)
     \<and> sorted_wrt (\<lambda>a b. a \<notin> set (succs adj b)) order \<and> (\<forall>v \<in> set order. v \<notin> set (succs adj v))"

definition kahn_state :: "'n adj \<Rightarrow> ('n \<Rightarrow> int) \<Rightarrow> 'n list \<Rightarrow> 'n list \<Rightarrow> bool" where
  "kahn_state adj deg ready order \<longleftrightarrow> well_placed adj order \<and> distinct ready
     \<and> (\<forall>v. deg v = open_edges adj (set order) v)
     \<and> set ready = {v \<in> set (keys_of adj) - set order. deg v = 0}"

lemma kahn_round:
  assumes adj: "closed_adj adj" and st: "kahn_state adj deg (n # ready) order"
    and round: "relax (succs adj n) deg ready = (deg', ready')"
  shows "kahn_state adj deg' ready' (order @ [n])"
proof -
  have wp: "well_placed adj order" and deg: "\<And>v. deg v = open_edges adj (set order) v"
    and ready: "distinct ready" "n \<notin> set ready"
      "insert n (set ready) = {v \<in> set (keys_of adj) - set order. deg v = 0}"
    using st by (auto simp: kahn_state_def)
  have n: "n \<in> set (keys_of adj)" "n \<notin> set order" "deg n = 0" using ready(3) by auto
  have pred: "u \<in> set order" if "n \<in> set (succs adj u)" for u
    using n(3) deg [of n] that by (simp add: open_edges_zero)
  have fresh: "v \<notin> set order" if "v \<in> set (succs adj n)" for v
    using wp n(2) that by (auto simp: well_placed_def)
  have loop: "n \<notin> set (succs adj n)" using pred n(2) by blast
  have deg': "deg' v = open_edges adj (set (order @ [n])) v" for v
    using relax_deg [OF round, of v] deg [of v] open_edges_place [OF n(1,2), of v] by simp
  have cnt: "int (count_list (succs adj n) v) \<le> deg v" for v
    using relax_deg [OF round, of v] deg' [of v] open_edges_nonneg [of adj "set (order @ [n])" v] by linarith
  have apart: "set ready \<inter> set (succs adj n) = {}"
  proof -
    have "v \<notin> set (succs adj n)" if "v \<in> set ready" for v
    proof -
      have "deg v = 0" using ready(3) that by auto
      then show ?thesis using cnt [of v] by (simp add: count_list_0_iff)
    qed
    then show ?thesis by auto
  qed
  from relax_ready [OF round cnt ready(1) apart]
  have new: "distinct ready'" "set ready' = set ready \<union> {v \<in> set (succs adj n). deg' v = 0}" by auto
  have keep: "deg' v = deg v" if "v \<notin> set (succs adj n)" for v
    using relax_deg [OF round, of v] that by (simp add: count_list_0_iff)
  have keys: "set (succs adj n) \<subseteq> set (keys_of adj)"
    using adj succs_targets by (fastforce simp: closed_adj_def)
  have "v \<in> set ready' \<longleftrightarrow> v \<in> {v \<in> set (keys_of adj) - set (order @ [n]). deg' v = 0}" for v
  proof -
    have r: "v \<in> set ready \<longleftrightarrow> v \<in> set (keys_of adj) \<and> v \<notin> set order \<and> v \<noteq> n \<and> deg v = 0"
    proof -
      have "v \<in> insert n (set ready) \<longleftrightarrow> v \<in> {v \<in> set (keys_of adj) - set order. deg v = 0}"
        by (simp only: ready(3))
      then show ?thesis using ready(2) by auto
    qed
    show ?thesis
    proof (cases "v \<in> set (succs adj n)")
      case True
      then have "v \<notin> set ready" "v \<in> set (keys_of adj)" "v \<notin> set order" "v \<noteq> n"
        using apart keys fresh loop by auto
      with True show ?thesis using new(2) by simp
    next
      case False
      then show ?thesis using new(2) r keep [OF False] by auto
    qed
  qed
  then have "set ready' = {v \<in> set (keys_of adj) - set (order @ [n]). deg' v = 0}" by blast
  moreover have "well_placed adj (order @ [n])"
    using wp n pred fresh loop by (auto simp: well_placed_def sorted_wrt_append)
  ultimately show ?thesis using new(1) deg' by (simp add: kahn_state_def)
qed

lemma kahn_result:
  "closed_adj adj \<Longrightarrow> kahn_state adj deg ready order \<Longrightarrow> \<exists>deg'. kahn_state adj deg' [] (kahn adj deg ready order)"
proof (induction adj deg ready order rule: kahn.induct)
  case (1 adj deg order)
  then show ?case by auto
next
  case (2 adj deg n ready order)
  obtain deg' ready' where r: "relax (succs adj n) deg ready = (deg', ready')" by force
  from 2(1) [OF r [symmetric] 2(2) kahn_round [OF 2(2,3) r]] r show ?case by simp
qed

lemma kahn_start:
  assumes "closed_adj adj"
  shows "kahn_state adj (indegrees adj) (sort (filter (\<lambda>n. indegrees adj n = 0) (keys_of adj))) []"
  using assms by (auto simp: kahn_state_def well_placed_def closed_adj_def indegrees_open)

subsection \<open>What the order decides\<close>

definition position :: "'n list \<Rightarrow> 'n \<Rightarrow> nat" where
  "position order v = length (takeWhile (\<lambda>x. x \<noteq> v) order)"

lemma position_split: "v \<notin> set xs \<Longrightarrow> position (xs @ v # ys) v = length xs"
  by (induction xs) (auto simp: position_def)

lemma position_before:
  assumes "well_placed adj order" "v \<in> set order" "v \<in> set (succs adj u)"
  shows "position order u < position order v"
proof -
  have u: "u \<in> set order" "u \<noteq> v" and d: "distinct order"
    and s: "sorted_wrt (\<lambda>a b. a \<notin> set (succs adj b)) order"
    using assms by (auto simp: well_placed_def)
  obtain xs ys where o: "order = xs @ u # ys" using split_list [OF u(1)] by blast
  then have "v \<notin> set xs" using s assms(3) by (auto simp: sorted_wrt_append)
  then have "v \<in> set ys" using assms(2) u(2) o by auto
  then obtain as bs where y: "ys = as @ v # bs" using split_list by metis
  have "position order u = length xs" using d o position_split [of u xs ys] by simp
  moreover have "position order v = length (xs @ u # as)"
    using d o y u(2) position_split [of v "xs @ u # as" bs] by auto
  ultimately show ?thesis by simp
qed

lemma finite_before [simp]: "finite (before adj)"
proof (rule finite_subset)
  show "before adj \<subseteq> set (keys_of adj) \<times> targets_of adj" using succs_key succs_targets by fastforce
qed simp

lemma order_found:
  assumes "closed_adj adj"
  obtains deg order where "kahn_state adj deg [] order"
    "topological_order adj = (if length order \<noteq> length adj then None else Some order)"
    "length order = length adj \<longleftrightarrow> set order = set (keys_of adj)"
proof -
  from kahn_result [OF assms kahn_start [OF assms]] obtain deg where st: "kahn_state adj deg []
    (kahn adj (indegrees adj) (sort (filter (\<lambda>n. indegrees adj n = 0) (keys_of adj))) [])" by blast
  let ?o = "kahn adj (indegrees adj) (sort (filter (\<lambda>n. indegrees adj n = 0) (keys_of adj))) []"
  have "distinct ?o" "set ?o \<subseteq> set (keys_of adj)" "distinct (keys_of adj)"
    using st assms by (auto simp: kahn_state_def well_placed_def closed_adj_def)
  then have "length ?o = length (keys_of adj) \<longleftrightarrow> set ?o = set (keys_of adj)"
    by (metis List.finite_set card_subset_eq distinct_card)
  then have "length ?o = length adj \<longleftrightarrow> set ?o = set (keys_of adj)" by (simp add: keys_of_def)
  moreover have "topological_order adj = (if length ?o \<noteq> length adj then None else Some ?o)"
    by (simp only: topological_order_def Let_def)
  ultimately show ?thesis using st that by blast
qed

lemma topological_order_Some:
  assumes "closed_adj adj" "topological_order adj = Some order"
  shows "well_placed adj order \<and> set order = set (keys_of adj)"
  using order_found [OF assms(1)] assms(2) by (metis kahn_state_def option.distinct(1) option.sel)

lemma well_placed_acyclic:
  assumes "well_placed adj order" "set order = set (keys_of adj)" "closed_adj adj"
  shows "acyclic (before adj)"
proof -
  have "before adj \<subseteq> measure (position order)"
    using position_before [OF assms(1)] assms(2,3) succs_targets by (fastforce simp: closed_adj_def)
  then show ?thesis using wf_acyclic wf_subset by blast
qed

lemma topological_order_None:
  assumes "closed_adj adj" "topological_order adj = None"
  shows "\<not> acyclic (before adj)"
proof
  assume "acyclic (before adj)"
  then have wf: "wf (before adj)" by (simp add: finite_acyclic_wf)
  obtain deg order where st: "kahn_state adj deg [] order"
    and "set order \<noteq> set (keys_of adj)"
    using order_found [OF assms(1)] assms(2) by (metis option.distinct(1))
  then obtain x where "x \<in> set (keys_of adj) - set order" by (auto simp: kahn_state_def well_placed_def)
  from wfE_min [OF wf this] obtain z where z: "z \<in> set (keys_of adj) - set order"
    and least: "\<And>y. (y, z) \<in> before adj \<Longrightarrow> y \<notin> set (keys_of adj) - set order" by blast
  have "deg z \<noteq> 0" using st z by (auto simp: kahn_state_def)
  then obtain u where "z \<in> set (succs adj u)" "u \<notin> set order"
    using st by (auto simp: kahn_state_def open_edges_zero)
  with least [of u] succs_key show False by fastforce
qed

lemma map_of_positions:
  "distinct order \<Longrightarrow> v \<in> set order \<Longrightarrow> map_of (zip order [0..<length order]) v = Some (position order v)"
proof -
  assume d: "distinct order" and v: "v \<in> set order"
  obtain xs ys where o: "order = xs @ v # ys" "v \<notin> set xs" using split_list_first [OF v] by blast
  have "(v, length xs) \<in> set (zip order [0..<length order])"
    unfolding set_zip o(1) by (auto intro!: exI [of _ "length xs"] simp: nth_append)
  then show ?thesis using d o position_split [OF o(2)] by (simp add: map_of_eq_Some_iff)
qed

text \<open>
  The contract of a ranking: it fails exactly on a cyclic graph, and otherwise ranks every node,
  lower ranks first. A caller may then order any nodes by their rank.
\<close>

locale ranking =
  fixes rank_all :: "'n::linorder adj \<Rightarrow> ('n \<times> nat) list option"
  assumes rank_None: "closed_adj adj \<Longrightarrow> rank_all adj = None \<longleftrightarrow> \<not> acyclic (before adj)"
    and rank_keys: "closed_adj adj \<Longrightarrow> rank_all adj = Some rs \<Longrightarrow> map_of rs v = None \<longleftrightarrow> v \<notin> set (keys_of adj)"
    and rank_before: "closed_adj adj \<Longrightarrow> rank_all adj = Some rs \<Longrightarrow> (u, v) \<in> before adj
        \<Longrightarrow> map_of rs u = Some i \<Longrightarrow> map_of rs v = Some j \<Longrightarrow> i < j"
begin

lemma rank_path:
  assumes "closed_adj adj" "rank_all adj = Some rs" "(u, v) \<in> (before adj)\<^sup>*"
    and "map_of rs u = Some i" "map_of rs v = Some j"
  shows "i \<le> j"
  using assms(3,5)
proof (induction arbitrary: j rule: rtrancl_induct)
  case base
  then show ?case using assms(4) by simp
next
  case (step y z)
  have "y \<in> set (keys_of adj)" using step.hyps(2) succs_key by fastforce
  then obtain k where k: "map_of rs y = Some k" using rank_keys [OF assms(1,2), of y] by auto
  with step.IH have "i \<le> k" by blast
  with rank_before [OF assms(1,2) step.hyps(2) k step.prems] show ?case by simp
qed

end

interpretation ranks: ranking topological_ranks
proof
  fix adj :: "'a::linorder adj" and rs u v i j
  assume adj: "closed_adj adj"
  show "topological_ranks adj = None \<longleftrightarrow> \<not> acyclic (before adj)"
    using topological_order_None [OF adj] topological_order_Some [OF adj] well_placed_acyclic adj
    by (cases "topological_order adj") (auto simp: topological_ranks_def)
  assume "topological_ranks adj = Some rs"
  then obtain order where o: "topological_order adj = Some order" "rs = zip order [0..<length order]"
    by (auto simp: topological_ranks_def)
  from topological_order_Some [OF adj o(1)] have wp: "well_placed adj order"
    and keys: "set order = set (keys_of adj)" by auto
  have d: "distinct order" using wp by (simp add: well_placed_def)
  show "map_of rs v = None \<longleftrightarrow> v \<notin> set (keys_of adj)"
    using keys by (simp add: o(2) map_of_eq_None_iff flip: set_map)
  assume "(u, v) \<in> before adj" and r: "map_of rs u = Some i" "map_of rs v = Some j"
  then have e: "v \<in> set (succs adj u)" by simp
  have v: "v \<in> set order" using succs_targets [OF e] adj keys by (auto simp: closed_adj_def)
  show "i < j"
    using r map_of_positions [OF d] succs_key [OF e] v keys position_before [OF wp v e] by (simp add: o(2))
qed

end
