(* ===== verification/Plan_Cycle.thy ===== *)
theory Plan_Cycle
  imports Plan_Graph
begin

text \<open>
  The iterative three-colour search for a cycle (\<open>_find_cycle\<close> in \<open>orchestration/proposal.py\<close>):
  it ends, what it returns is a cycle of the graph, and it returns none exactly when there is
  none. The two searches of the module therefore agree on which plans have an order.
\<close>

datatype colour = WHITE | GREY | BLACK

text \<open>
  One look at the iterator of a frame: the first successor on the path closes a cycle, the first
  unvisited one is entered (with what is left of the iterator), explored ones are passed over.
\<close>

datatype 'n turn = Closes 'n | Enters 'n "'n list" | Exhausted

fun next_turn :: "('n \<Rightarrow> colour) \<Rightarrow> 'n list \<Rightarrow> 'n turn" where
  "next_turn col [] = Exhausted"
| "next_turn col (s # ss) =
     (if col s = GREY then Closes s else if col s = WHITE then Enters s ss else next_turn col ss)"

lemma next_turn_Closes: "next_turn col ss = Closes s \<Longrightarrow> s \<in> set ss \<and> col s = GREY"
  by (induction col ss rule: next_turn.induct) (auto split: if_splits)

lemma next_turn_Enters:
  "next_turn col ss = Enters s rest
     \<Longrightarrow> col s = WHITE \<and> (\<exists>skipped. ss = skipped @ s # rest \<and> (\<forall>v \<in> set skipped. col v = BLACK))"
proof (induction col ss rule: next_turn.induct)
  case (1 col)
  then show ?case by simp
next
  case (2 col x ss)
  show ?case
  proof (cases "col x")
    case BLACK
    with 2 obtain skipped where "ss = skipped @ s # rest" "\<forall>v \<in> set skipped. col v = BLACK" "col s = WHITE"
      by auto
    with BLACK show ?thesis by (intro conjI exI [of _ "x # skipped"]) auto
  qed (use 2 in auto)
qed

lemma next_turn_Exhausted: "next_turn col ss = Exhausted \<Longrightarrow> \<forall>v \<in> set ss. col v = BLACK"
proof (induction col ss rule: next_turn.induct)
  case (2 col s ss)
  then show ?case by (cases "col s") auto
qed simp

text \<open>
  The inner loop of one root: the frames, innermost first, and the path they spell. A back edge
  ends it with the path from the node it leads to, closed (\<open>Inl\<close>); otherwise the colours are
  what is left (\<open>Inr\<close>).
\<close>

abbreviation pending_white :: "'n adj \<Rightarrow> ('n \<Rightarrow> colour) \<Rightarrow> ('n \<times> 'n list) list \<Rightarrow> 'n set" where
  "pending_white adj col frames \<equiv>
     {v \<in> targets_of adj \<union> (\<Union>f \<in> set frames. set (snd f)). col v = WHITE}"

function walk ::
    "'n adj \<Rightarrow> ('n \<Rightarrow> colour) \<Rightarrow> ('n \<times> 'n list) list \<Rightarrow> 'n list \<Rightarrow> 'n list + ('n \<Rightarrow> colour)" where
  "walk adj col [] path = Inr col"
| "walk adj col ((n, it) # frames) path =
     (case next_turn col it of
        Closes s \<Rightarrow> Inl (dropWhile (\<lambda>x. x \<noteq> s) path @ [s])
      | Enters s rest \<Rightarrow> walk adj (col(s := GREY)) ((s, succs adj s) # (n, rest) # frames) (path @ [s])
      | Exhausted \<Rightarrow> walk adj (col(n := BLACK)) frames (butlast path))"
  by pat_completeness auto

lemma entered_smaller:
  assumes "next_turn col it = Enters s rest"
  shows "card (pending_white adj (col(s := GREY)) ((s, succs adj s) # (n, rest) # frames))
       < card (pending_white adj col ((n, it) # frames))"
proof (rule psubset_card_mono)
  obtain skipped where s: "col s = WHITE" "it = skipped @ s # rest" using next_turn_Enters [OF assms] by blast
  show "pending_white adj (col(s := GREY)) ((s, succs adj s) # (n, rest) # frames)
      \<subset> pending_white adj col ((n, it) # frames)"
    using s succs_targets [of _ adj s] by (auto split: if_splits)
qed auto

lemma left_no_larger:
  "card (pending_white adj (col(n := BLACK)) frames) \<le> card (pending_white adj col ((n, it) # frames))"
  by (rule card_mono) auto

termination walk
proof (relation "inv_image (less_than <*lex*> less_than)
    (\<lambda>(adj, col, frames, path). (card (pending_white adj col frames), length frames))")
  show "wf (inv_image (less_than <*lex*> less_than)
    (\<lambda>(adj, col, frames, path). (card (pending_white adj col frames), length frames)))" by auto
next
  fix adj :: "'n adj" and col :: "'n \<Rightarrow> colour" and n :: 'n and it frames path s rest
  assume "next_turn col it = Enters s rest"
  from entered_smaller [OF this]
  show "((adj, col(s := GREY), (s, succs adj s) # (n, rest) # frames, path @ [s]), adj, col, (n, it) # frames, path)
    \<in> inv_image (less_than <*lex*> less_than)
      (\<lambda>(adj, col, frames, path). (card (pending_white adj col frames), length frames))" by simp
next
  fix adj :: "'n adj" and col :: "'n \<Rightarrow> colour" and n :: 'n and it frames path
  from left_no_larger [where adj = adj and col = col and n = n and frames = frames and it = it]
  show "((adj, col(n := BLACK), frames, butlast path), adj, col, (n, it) # frames, path)
    \<in> inv_image (less_than <*lex*> less_than)
      (\<lambda>(adj, col, frames, path). (card (pending_white adj col frames), length frames))"
    by (simp add: le_less)
qed

fun from_roots :: "'n adj \<Rightarrow> ('n \<Rightarrow> colour) \<Rightarrow> 'n list \<Rightarrow> 'n list option" where
  "from_roots adj col [] = None"
| "from_roots adj col (root # roots) =
     (if col root \<noteq> WHITE then from_roots adj col roots
      else (case walk adj (col(root := GREY)) [(root, succs adj root)] [root] of
              Inl cycle \<Rightarrow> Some cycle
            | Inr col' \<Rightarrow> from_roots adj col' roots))"

definition find_plan_cycle :: "'n adj \<Rightarrow> 'n list option" where
  "find_plan_cycle adj = from_roots adj (\<lambda>_. WHITE) (keys_of adj)"

section \<open>The invariant\<close>

text \<open>
  Of a frame on the path, what its iterator has passed is explored, apart from the node of the
  frame above it.
\<close>

fun frames_done :: "'n adj \<Rightarrow> ('n \<Rightarrow> colour) \<Rightarrow> 'n set \<Rightarrow> ('n \<times> 'n list) list \<Rightarrow> bool" where
  "frames_done adj col upper [] = True"
| "frames_done adj col upper ((n, it) # frames) =
     (set it \<subseteq> set (succs adj n) \<and> (\<forall>v \<in> set (succs adj n). v \<in> set it \<or> col v = BLACK \<or> v \<in> upper)
      \<and> frames_done adj col {n} frames)"

abbreviation explored :: "'n adj \<Rightarrow> ('n \<Rightarrow> colour) \<Rightarrow> ('n \<times> 'n) set" where
  "explored adj col \<equiv> {(u, v). col u = BLACK \<and> v \<in> set (succs adj u)}"

text \<open>The explored part is closed and has no cycle.\<close>

definition explored_ok :: "'n adj \<Rightarrow> ('n \<Rightarrow> colour) \<Rightarrow> bool" where
  "explored_ok adj col \<longleftrightarrow> (\<forall>(u, v) \<in> explored adj col. col v = BLACK) \<and> acyclic (explored adj col)"

definition walking :: "'n adj \<Rightarrow> ('n \<Rightarrow> colour) \<Rightarrow> ('n \<times> 'n list) list \<Rightarrow> 'n list \<Rightarrow> bool" where
  "walking adj col frames path \<longleftrightarrow> path = rev (map fst frames) \<and> distinct path
     \<and> (\<forall>v. col v = GREY \<longleftrightarrow> v \<in> set path) \<and> successively (\<lambda>a b. b \<in> set (succs adj a)) path
     \<and> frames_done adj col {} frames \<and> explored_ok adj col"

definition closed_walk :: "'n adj \<Rightarrow> 'n list \<Rightarrow> bool" where
  "closed_walk adj c \<longleftrightarrow> (\<exists>s ys. c = s # ys @ [s] \<and> distinct (s # ys)
     \<and> successively (\<lambda>a b. b \<in> set (succs adj a)) c)"

lemma frames_done_mono:
  assumes "frames_done adj col upper frames" "\<And>v. col v = BLACK \<Longrightarrow> col' v = BLACK"
    and "\<And>v. v \<in> upper \<Longrightarrow> v \<in> upper' \<or> col' v = BLACK"
  shows "frames_done adj col' upper' frames"
  using assms
proof (induction frames arbitrary: upper upper')
  case (Cons f frames)
  then show ?case by (cases f) (auto, metis)
qed simp

lemma acyclic_grown:
  assumes "acyclic r" "n \<notin> Range r" "n \<notin> A"
  shows "acyclic (r \<union> {n} \<times> A)"
proof (rule acyclicI, rule allI, rule notI)
  have old: "(a, b) \<in> r\<^sup>+" if "(a, b) \<in> (r \<union> {n} \<times> A)\<^sup>+" "a \<noteq> n" for a b
    using that
  proof (induction rule: trancl_induct)
    case (base b)
    then show ?case by auto
  next
    case (step b c)
    then have "(a, b) \<in> r\<^sup>+" by blast
    moreover from this have "b \<noteq> n" using assms(2) by (metis RangeI trancl_range)
    ultimately show ?case using step.hyps(2) by (auto intro: trancl_into_trancl)
  qed
  fix x assume cyc: "(x, x) \<in> (r \<union> {n} \<times> A)\<^sup>+"
  then have "x \<in> Range (r \<union> {n} \<times> A)" by (metis RangeI trancl_range)
  then have "x \<noteq> n" using assms(2,3) by auto
  with old [OF cyc] assms(1) show False by (simp add: acyclic_def)
qed

lemma explored_ok_finish:
  assumes "explored_ok adj col" "col n \<noteq> BLACK" "\<forall>v \<in> set (succs adj n). col v = BLACK"
  shows "explored_ok adj (col(n := BLACK))"
proof -
  have eq: "explored adj (col(n := BLACK)) = explored adj col \<union> {n} \<times> set (succs adj n)"
    by (auto split: if_splits)
  have "n \<notin> Range (explored adj col)" "n \<notin> set (succs adj n)"
    using assms by (auto simp: explored_ok_def)
  then have "acyclic (explored adj (col(n := BLACK)))"
    unfolding eq using assms(1) by (intro acyclic_grown) (simp_all add: explored_ok_def)
  then show ?thesis using assms(1,3) by (auto simp: explored_ok_def)
qed

lemma explored_ok_enter:
  assumes "explored_ok adj col" "col s = WHITE"
  shows "explored_ok adj (col(s := GREY))"
proof -
  have eq: "explored adj (col(s := GREY)) = explored adj col"
    using assms(2) by (auto split: if_splits)
  show ?thesis using assms unfolding explored_ok_def eq by fastforce
qed

lemma walking_enter:
  assumes st: "walking adj col ((n, it) # frames) path" and turn: "next_turn col it = Enters s rest"
  shows "walking adj (col(s := GREY)) ((s, succs adj s) # (n, rest) # frames) (path @ [s])"
proof -
  obtain skipped where s: "col s = WHITE" "it = skipped @ s # rest" "\<forall>v \<in> set skipped. col v = BLACK"
    using next_turn_Enters [OF turn] by blast
  have path: "path = rev (map fst frames) @ [n]" and g: "\<And>v. col v = GREY \<longleftrightarrow> v \<in> set path"
    and sub: "set it \<subseteq> set (succs adj n)"
    and past: "\<And>v. v \<in> set (succs adj n) \<Longrightarrow> v \<in> set it \<or> col v = BLACK"
    and low: "frames_done adj col {n} frames"
    using st by (auto simp: walking_def)
  have black: "(col(s := GREY)) v = BLACK" if "col v = BLACK" for v using that s(1) by auto
  have "frames_done adj (col(s := GREY)) {n} frames" by (rule frames_done_mono [OF low black]) auto
  moreover have "v \<in> set rest \<or> (col(s := GREY)) v = BLACK \<or> v = s" if "v \<in> set (succs adj n)" for v
    using past [OF that] s(2,3) black [of v] by auto
  ultimately have "frames_done adj (col(s := GREY)) {s} ((n, rest) # frames)" using sub s(2) by auto
  moreover have "successively (\<lambda>a b. b \<in> set (succs adj a)) (path @ [s])"
    using st path sub s(2) by (auto simp: walking_def successively_append_iff)
  moreover have fresh: "s \<notin> set path" using g [of s] s(1) by simp
  moreover have "n \<noteq> s" using fresh path by auto
  moreover have "distinct path" using st unfolding walking_def by blast
  moreover have "\<forall>v. (col(s := GREY)) v = GREY \<longleftrightarrow> v \<in> set (path @ [s])" using g by auto
  moreover have "explored_ok adj (col(s := GREY))"
    using st s(1) by (intro explored_ok_enter) (simp_all add: walking_def)
  ultimately show ?thesis using path by (simp add: walking_def)
qed

lemma walking_leave:
  assumes st: "walking adj col ((n, it) # frames) path" and turn: "next_turn col it = Exhausted"
  shows "walking adj (col(n := BLACK)) frames (butlast path)"
proof -
  have path: "path = rev (map fst frames) @ [n]" and g: "\<And>v. col v = GREY \<longleftrightarrow> v \<in> set path"
    and past: "\<And>v. v \<in> set (succs adj n) \<Longrightarrow> v \<in> set it \<or> col v = BLACK"
    and low: "frames_done adj col {n} frames"
    using st by (auto simp: walking_def)
  have d: "distinct path" using st unfolding walking_def by blast
  have all: "\<forall>v \<in> set (succs adj n). col v = BLACK" using past next_turn_Exhausted [OF turn] by blast
  have "col n \<noteq> BLACK" using g [of n] path by auto
  then have "explored_ok adj (col(n := BLACK))"
    using st all by (intro explored_ok_finish) (auto simp: walking_def)
  moreover have "frames_done adj (col(n := BLACK)) {} frames"
    by (rule frames_done_mono [OF low]) auto
  moreover have "\<forall>v. (col(n := BLACK)) v = GREY \<longleftrightarrow> v \<in> set (butlast path)"
    using g d path by auto
  moreover have "successively (\<lambda>a b. b \<in> set (succs adj a)) (butlast path)"
    using st path by (auto simp: walking_def successively_append_iff)
  ultimately show ?thesis using path d by (simp add: walking_def)
qed

lemma walking_closes:
  assumes st: "walking adj col ((n, it) # frames) path" and turn: "next_turn col it = Closes s"
  shows "closed_walk adj (dropWhile (\<lambda>x. x \<noteq> s) path @ [s])"
proof -
  have d: "distinct path" using st unfolding walking_def by blast
  have path: "path = rev (map fst frames) @ [n]"
    and sub: "set it \<subseteq> set (succs adj n)" and s: "s \<in> set path" "s \<in> set it"
    and succ: "successively (\<lambda>a b. b \<in> set (succs adj a)) path"
    using st next_turn_Closes [OF turn] by (auto simp: walking_def)
  obtain xs ys where o: "path = xs @ s # ys" "s \<notin> set xs" using split_list_first [OF s(1)] by blast
  then have drop: "dropWhile (\<lambda>x. x \<noteq> s) path = s # ys" by (simp add: dropWhile_append3 dropWhile_append)
  have "last (s # ys) = n" using o(1) path by (metis last_appendR last_snoc list.distinct(1))
  moreover have "s \<in> set (succs adj n)" using sub s(2) by blast
  moreover have "successively (\<lambda>a b. b \<in> set (succs adj a)) (s # ys)"
    using succ o(1) by (simp add: successively_append_iff)
  ultimately have "successively (\<lambda>a b. b \<in> set (succs adj a)) ((s # ys) @ [s])"
    by (simp only: successively_append_iff successively.simps list.sel) auto
  moreover have "distinct (s # ys)" using d o(1) by simp
  ultimately show ?thesis unfolding drop closed_walk_def by (intro exI [of _ s] exI [of _ ys]) simp
qed

lemma result_weaken:
  assumes "case w of Inl c \<Rightarrow> P c | Inr col' \<Rightarrow> Q col' \<and> (\<forall>v. now v \<noteq> WHITE \<longrightarrow> col' v \<noteq> WHITE)"
    and "\<And>v. col v \<noteq> WHITE \<Longrightarrow> now v \<noteq> WHITE"
  shows "case w of Inl c \<Rightarrow> P c | Inr col' \<Rightarrow> Q col' \<and> (\<forall>v. col v \<noteq> WHITE \<longrightarrow> col' v \<noteq> WHITE)"
  using assms by (auto split: sum.splits)

lemma walk_result:
  "walking adj col frames path \<Longrightarrow>
     (case walk adj col frames path of
        Inl c \<Rightarrow> closed_walk adj c
      | Inr col' \<Rightarrow> walking adj col' [] [] \<and> (\<forall>v. col v \<noteq> WHITE \<longrightarrow> col' v \<noteq> WHITE))"
proof (induction adj col frames path rule: walk.induct)
  case (1 adj col path)
  then show ?case by (simp add: walking_def)
next
  case (2 adj col n it frames path)
  show ?case
  proof (cases "next_turn col it")
    case (Closes s)
    then show ?thesis using walking_closes [OF 2(3)] by simp
  next
    case (Enters s rest)
    let ?w = "walk adj (col(s := GREY)) ((s, succs adj s) # (n, rest) # frames) (path @ [s])"
    have eq: "walk adj col ((n, it) # frames) path = ?w" by (subst walk.simps(2)) (simp only: Enters turn.case)
    show ?thesis unfolding eq
      by (rule result_weaken [OF 2(1) [OF Enters walking_enter [OF 2(3) Enters]]]) auto
  next
    case Exhausted
    let ?w = "walk adj (col(n := BLACK)) frames (butlast path)"
    have eq: "walk adj col ((n, it) # frames) path = ?w" by (subst walk.simps(2)) (simp only: Exhausted turn.case)
    show ?thesis unfolding eq
      by (rule result_weaken [OF 2(2) [OF Exhausted walking_leave [OF 2(3) Exhausted]]]) auto
  qed
qed

section \<open>What the search decides\<close>

text \<open>Between two roots nothing is on the path.\<close>

lemma roots_result:
  "walking adj col [] [] \<Longrightarrow>
     (case from_roots adj col roots of
        Some c \<Rightarrow> closed_walk adj c
      | None \<Rightarrow> \<exists>col'. walking adj col' [] [] \<and> (\<forall>v \<in> set roots. col' v \<noteq> WHITE)
                  \<and> (\<forall>v. col v \<noteq> WHITE \<longrightarrow> col' v \<noteq> WHITE))"
proof (induction adj col roots rule: from_roots.induct)
  case (1 adj col)
  then show ?case by auto
next
  case (2 adj col root roots)
  show ?case
  proof (cases "col root = WHITE")
    case False
    from 2(1) [OF False 2(3)] False show ?thesis by (auto split: option.splits)
  next
    case True
    have start: "walking adj (col(root := GREY)) [(root, succs adj root)] [root]"
      using 2(3) True explored_ok_enter [of adj col root] by (auto simp: walking_def)
    show ?thesis
    proof (cases "walk adj (col(root := GREY)) [(root, succs adj root)] [root]")
      case (Inl c)
      with walk_result [OF start] True show ?thesis by simp
    next
      case (Inr col')
      with walk_result [OF start] have next_ok: "walking adj col' [] []"
        and kept: "\<And>v. (col(root := GREY)) v \<noteq> WHITE \<Longrightarrow> col' v \<noteq> WHITE" by auto
      have more: "col' root \<noteq> WHITE" "\<And>v. col v \<noteq> WHITE \<Longrightarrow> col' v \<noteq> WHITE"
        using kept by (auto simp: True)
      have eq: "from_roots adj col (root # roots) = from_roots adj col' roots"
        using True Inr by simp
      show ?thesis unfolding eq
        using 2(2) [OF _ Inr next_ok] True more by (auto split: option.splits)
    qed
  qed
qed

lemma find_plan_cycle_Some: "find_plan_cycle adj = Some c \<Longrightarrow> closed_walk adj c"
proof -
  have "walking adj (\<lambda>_. WHITE) [] []" by (auto simp: walking_def explored_ok_def acyclic_def)
  from roots_result [OF this, of "keys_of adj"] show "find_plan_cycle adj = Some c \<Longrightarrow> closed_walk adj c"
    by (simp add: find_plan_cycle_def)
qed

lemma find_plan_cycle_None: "find_plan_cycle adj = None \<Longrightarrow> acyclic (before adj)"
proof -
  assume none: "find_plan_cycle adj = None"
  have "walking adj (\<lambda>_. WHITE) [] []" by (auto simp: walking_def explored_ok_def acyclic_def)
  from roots_result [OF this, of "keys_of adj"] none
  obtain col where col: "walking adj col [] []" "\<And>v. v \<in> set (keys_of adj) \<Longrightarrow> col v \<noteq> WHITE"
    by (auto simp: find_plan_cycle_def)
  have "col v = BLACK" if "v \<in> set (keys_of adj)" for v
    using col(1) col(2) [OF that] by (cases "col v") (auto simp: walking_def)
  then have "before adj = explored adj col" by (fastforce simp: before_def dest: succs_key)
  then show ?thesis using col(1) by (simp add: walking_def explored_ok_def)
qed

lemma closed_walk_cyclic: "closed_walk adj c \<Longrightarrow> \<not> acyclic (before adj)"
proof -
  assume "closed_walk adj c"
  then obtain s ys where c: "successively (\<lambda>a b. b \<in> set (succs adj a)) (s # ys @ [s])"
    by (auto simp: closed_walk_def)
  have "(a, b) \<in> (before adj)\<^sup>+" if "successively (\<lambda>a b. b \<in> set (succs adj a)) (a # zs @ [b])" for a b zs
    using that by (induction zs arbitrary: a) (auto intro: trancl_into_trancl2)
  from this [OF c] show ?thesis by (auto simp: acyclic_def)
qed

text \<open>
  The contract of a cycle check and what its clients use of it: where it finds none, in every set
  of nodes that have successors or prerequisites some node has no prerequisite in the set.
\<close>

locale cycle_check =
  fixes cycle_of :: "'n adj \<Rightarrow> 'n list option"
  assumes cycle_found: "cycle_of adj = Some c \<Longrightarrow> closed_walk adj c"
    and no_cycle: "cycle_of adj = None \<Longrightarrow> acyclic (before adj)"
begin

lemma cycle_iff: "cycle_of adj = None \<longleftrightarrow> acyclic (before adj)"
  using no_cycle cycle_found closed_walk_cyclic by (cases "cycle_of adj") blast+

lemma first_of:
  assumes "cycle_of adj = None" "x \<in> S"
  obtains z where "z \<in> S" "\<And>y. (y, z) \<in> before adj \<Longrightarrow> y \<notin> S"
proof -
  have "wf (before adj)" using no_cycle [OF assms(1)] by (simp add: finite_acyclic_wf)
  from wfE_min [OF this assms(2)] that show ?thesis by metis
qed

end

interpretation cycles: cycle_check find_plan_cycle
  by unfold_locales (auto intro: find_plan_cycle_Some find_plan_cycle_None)

end
