(* ===== verification/Execution_Policy.thy ===== *)
theory Execution_Policy
  imports Prelude Graph_Address Complex_Main
begin

text \<open>
  The authority a plan owner delegates and the one admission check every autonomous action
  passes (\<open>orchestration/execution_policy.py\<close>): the policy document with its validators, the
  server-side stamp, \<open>authorize_action\<close>, \<open>authorize_child_request\<close> and the owner's summary.

  Amounts of money are exact rationals. A decision keeps its typed reason; the sentence beside
  it is left out. Comparing a time that has a zone with one that has none raises in Python, so
  a check can also raise (\<open>Inl TypeError\<close>). The digest of the canonical dump of a document is a
  parameter.
\<close>

section \<open>Vocabulary\<close>

datatype action = DEVELOP | REVIEW | REPAIR | MERGE | DEPLOY | EVALUATE | OPERATE | COORDINATE

definition all_actions :: "action list" where
  "all_actions = [DEVELOP, REVIEW, REPAIR, MERGE, DEPLOY, EVALUATE, OPERATE, COORDINATE]"

datatype acceptance_mode = AmHUMAN | AmMACHINE

datatype credential_scope = SCOPED | USER_GRANTED | UNSCOPABLE | UNKNOWN

datatype deny_reason =
    SCHEMA_UNSUPPORTED | STALE_POLICY_VERSION | POLICY_EXPIRED | WALL_CLOCK_LIMIT_EXCEEDED
  | GRANT_REVOKED | MEMBERSHIP_REVOKED | ROLE_REVOKED | ORG_MISMATCH | TEAM_NOT_PERMITTED
  | ACTION_NOT_PERMITTED | HUMAN_GATE_REQUIRED | REPOSITORY_NOT_PERMITTED
  | ENVIRONMENT_NOT_PERMITTED | WORK_NOT_OWNED | CREDENTIAL_SCOPE_UNAVAILABLE | SPEND_UNKNOWN
  | BUDGET_UNAVAILABLE | SPEND_LIMIT_EXCEEDED | ATTEMPT_LIMIT_EXCEEDED
  | CONCURRENCY_LIMIT_EXCEEDED | MACHINE_ACCEPTANCE_NOT_PERMITTED | AUTHORITY_KIND_NOT_RECOGNIZED
  | COORDINATION_NOT_PERMITTED | COORDINATION_NODE_NOT_ASSIGNED | CHILD_PERSONA_NOT_PERMITTED
  | CHILD_ACTION_NOT_PERMITTED

datatype child_persona = DEVELOPER | REVIEWER

fun child_persona_value :: "child_persona \<Rightarrow> string" where
  "child_persona_value DEVELOPER = ''developer''"
| "child_persona_value REVIEWER = ''reviewer''"

definition parse_child_persona :: "string \<Rightarrow> child_persona option" where
  "parse_child_persona s = enum_of child_persona_value [DEVELOPER, REVIEWER] s"

interpretation persona_text: text_enum child_persona_value "[DEVELOPER, REVIEWER]"
proof
  show "e \<in> set [DEVELOPER, REVIEWER]" for e by (cases e) auto
qed simp

definition non_delegable_child_actions :: "action list" where
  "non_delegable_child_actions = [COORDINATE, MERGE, DEPLOY, EVALUATE, OPERATE]"

definition repository_actions :: "action list" where
  "repository_actions = [DEVELOP, REVIEW, REPAIR, MERGE, OPERATE]"

definition environment_actions :: "action list" where
  "environment_actions = [DEPLOY]"

definition supported_schema_versions :: "int list" where
  "supported_schema_versions = [1, 2, 3]"

definition coordination_schema_version :: int where
  "coordination_schema_version = 3"

definition user_credential_schema_versions :: "int list" where
  "user_credential_schema_versions = [2, coordination_schema_version]"

section \<open>The parts of a policy\<close>

definition max_wall_clock_seconds :: int where
  "max_wall_clock_seconds = 30 * 86400"

record policy_limits =
  li_wall_clock :: int
  li_spend :: rat
  li_attempts :: int
  li_concurrent :: int

definition limits_ok :: "policy_limits \<Rightarrow> bool" where
  "limits_ok l \<longleftrightarrow> 0 < li_wall_clock l \<and> li_wall_clock l \<le> max_wall_clock_seconds
     \<and> 0 < li_spend l \<and> li_spend l \<le> 100000 \<and> 0 < li_attempts l \<and> li_attempts l \<le> 100
     \<and> 0 < li_concurrent l \<and> li_concurrent l \<le> 100"

text \<open>The two literal fields of the credential authority have one value each and are left out.\<close>

record user_authority =
  ua_credentials :: "string list"
  ua_roles :: "string list"
  ua_actions :: "action list"

text \<open>\<open>arn:aws(?:-[a-z-]+)?:iam::[0-9]{12}:role/[a-zA-Z0-9+=,.@_/-]+\<close>, in full.\<close>

definition partition_ok :: "string \<Rightarrow> bool" where
  "partition_ok p \<longleftrightarrow> p = ''aws'' \<or> (take 4 p = ''aws-'' \<and> drop 4 p \<noteq> []
     \<and> list_all (\<lambda>c. c \<in> set ''abcdefghijklmnopqrstuvwxyz-'') (drop 4 p))"

definition iam_role_ok :: "string \<Rightarrow> bool" where
  "iam_role_ok s \<longleftrightarrow> (case split_on (CHR '':'') s of
       [arn, partn, iam, region, account, resource] \<Rightarrow>
         arn = ''arn'' \<and> partition_ok partn \<and> iam = ''iam'' \<and> region = []
         \<and> length account = 12 \<and> list_all (\<lambda>c. c \<in> set ''0123456789'') account
         \<and> take 5 resource = ''role/'' \<and> drop 5 resource \<noteq> []
         \<and> list_all (\<lambda>c. alnum c \<or> c \<in> set ''+=,.@_/-'') (drop 5 resource)
     | _ \<Rightarrow> False)"

definition user_authority_ok :: "user_authority \<Rightarrow> bool" where
  "user_authority_ok u \<longleftrightarrow>
     length (ua_credentials u) \<le> 64 \<and> length (ua_roles u) \<le> 32
     \<and> ua_actions u \<noteq> [] \<and> length (ua_actions u) \<le> length all_actions
     \<and> (ua_credentials u \<noteq> [] \<or> ua_roles u \<noteq> [])
     \<and> distinct (ua_credentials u) \<and> distinct (ua_roles u) \<and> distinct (ua_actions u)
     \<and> list_all (\<lambda>v. \<not> blank v \<and> length v \<le> 255) (ua_credentials u)
     \<and> list_all iam_role_ok (ua_roles u)"

record coordination_scope =
  cs_nodes :: "string list"
  cs_personas :: "child_persona list"
  cs_actions :: "action list"

definition coordination_ok :: "coordination_scope \<Rightarrow> bool" where
  "coordination_ok c \<longleftrightarrow>
     cs_nodes c \<noteq> [] \<and> length (cs_nodes c) \<le> 512 \<and> cs_personas c \<noteq> [] \<and> length (cs_personas c) \<le> 2
     \<and> cs_actions c \<noteq> [] \<and> length (cs_actions c) \<le> length all_actions
     \<and> distinct (cs_nodes c) \<and> distinct (cs_personas c) \<and> distinct (cs_actions c)
     \<and> list_all address_matches (cs_nodes c)
     \<and> COORDINATE \<notin> set (cs_actions c)
     \<and> list_all (\<lambda>a. a \<notin> set non_delegable_child_actions) (cs_actions c)"

section \<open>The policy\<close>

text \<open>
  The document, the three fields the server stamps, and the two of the private attributes that the
  admission check reads. \<open>ep_repair_scope\<close> is whether the repair scope is the whole repository.
\<close>

record execution_policy =
  ep_schema :: int
  ep_credentials :: "user_authority option"
  ep_coordination :: "coordination_scope option"
  ep_repair_scope :: bool
  ep_repair_paths :: "string list"
  ep_repair_checks :: "string list"
  ep_org :: string
  ep_teams :: "string list"
  ep_repositories :: "string list"
  ep_environments :: "string list"
  ep_actions :: "action list"
  ep_gates :: "action list"
  ep_acceptance :: "(string \<times> acceptance_mode) list"
  ep_expires :: pydt
  ep_limits :: policy_limits
  ep_policy_id :: "string option"
  ep_policy_hash :: "string option"
  ep_principal :: "string option"
  ep_budget_enforced :: bool
  ep_accounting_incomplete :: bool

definition repair_path_ok :: "string \<Rightarrow> bool" where
  "repair_path_ok p \<longleftrightarrow> 0 < length p \<and> length p \<le> 1024 \<and> CHR 0x5C \<notin> set p \<and> CHR '':'' \<notin> set p
     \<and> list_all (\<lambda>part. part \<notin> {[], ''.'', ''..'', ''.git''}) (split_on (CHR ''/'') p)"

definition repair_check_ok :: "string \<Rightarrow> bool" where
  "repair_check_ok n \<longleftrightarrow> n \<noteq> [] \<and> length n \<le> 128 \<and> list_all (\<lambda>c. 32 \<le> (of_char c :: nat)) n"

definition repair_authority :: "execution_policy \<Rightarrow> bool" where
  "repair_authority p \<longleftrightarrow> ep_schema p = 3 \<and> OPERATE \<in> set (ep_actions p) \<and> REPAIR \<in> set (ep_actions p)"

definition repair_bounded :: "execution_policy \<Rightarrow> bool" where
  "repair_bounded p \<longleftrightarrow>
     (ep_repair_scope p \<longrightarrow> repair_authority p \<and> ep_repair_paths p = [])
     \<and> (ep_repair_paths p \<noteq> [] \<longrightarrow>
          repair_authority p \<and> distinct (ep_repair_paths p) \<and> list_all repair_path_ok (ep_repair_paths p))
     \<and> (ep_repair_checks p \<noteq> [] \<longrightarrow>
          ep_schema p = 3 \<and> (ep_repair_paths p \<noteq> [] \<or> ep_repair_scope p)
          \<and> distinct (ep_repair_checks p) \<and> list_all repair_check_ok (ep_repair_checks p))"

definition coordination_bounded :: "execution_policy \<Rightarrow> bool" where
  "coordination_bounded p \<longleftrightarrow>
     (case ep_coordination p of
        None \<Rightarrow> COORDINATE \<notin> set (ep_actions p)
      | Some c \<Rightarrow> ep_schema p = coordination_schema_version \<and> COORDINATE \<in> set (ep_actions p)
          \<and> set (cs_actions c) \<subseteq> set (ep_actions p) \<and> set (cs_actions c) \<inter> set (ep_gates p) = {})"

definition credentials_bounded :: "execution_policy \<Rightarrow> bool" where
  "credentials_bounded p \<longleftrightarrow>
     (case ep_credentials p of None \<Rightarrow> True
      | Some u \<Rightarrow> ep_schema p \<in> set user_credential_schema_versions
          \<and> set (ua_actions u) \<subseteq> set (ep_actions p))"

definition fields_ok :: "execution_policy \<Rightarrow> bool" where
  "fields_ok p \<longleftrightarrow> ep_schema p \<in> set supported_schema_versions
     \<and> length (ep_repair_paths p) \<le> 256 \<and> length (ep_repair_checks p) \<le> 64 \<and> ep_org p \<noteq> []
     \<and> length (ep_teams p) \<le> 64 \<and> ep_repositories p \<noteq> [] \<and> length (ep_repositories p) \<le> 256
     \<and> length (ep_environments p) \<le> 64
     \<and> ep_actions p \<noteq> [] \<and> length (ep_actions p) \<le> length all_actions
     \<and> length (ep_gates p) \<le> length all_actions \<and> length (ep_acceptance p) \<le> 512
     \<and> limits_ok (ep_limits p)"

definition no_duplicates :: "execution_policy \<Rightarrow> bool" where
  "no_duplicates p \<longleftrightarrow> distinct (ep_teams p) \<and> distinct (ep_repositories p)
     \<and> distinct (ep_environments p) \<and> distinct (ep_actions p) \<and> distinct (ep_gates p)"

text \<open>Parsing a submitted document: the fields, the nested models, then the validators in order.\<close>

definition make_policy :: "execution_policy \<Rightarrow> pyexc + execution_policy" where
  "make_policy p =
     (if fields_ok p
       \<and> (case ep_credentials p of None \<Rightarrow> True | Some u \<Rightarrow> user_authority_ok u)
       \<and> (case ep_coordination p of None \<Rightarrow> True | Some c \<Rightarrow> coordination_ok c)
       \<and> repair_bounded p \<and> coordination_bounded p \<and> credentials_bounded p
       \<and> set (ep_gates p) \<subseteq> set (ep_actions p)
       \<and> list_all (\<lambda>e. address_matches (fst e)) (ep_acceptance p)
       \<and> no_duplicates p
      then Inr p else Inl ValueError)"

definition permits :: "execution_policy \<Rightarrow> action \<Rightarrow> bool" where
  "permits p a \<longleftrightarrow> a \<in> set (ep_actions p) \<and> a \<notin> set (ep_gates p)"

section \<open>The stamp\<close>

type_synonym policy_digest = "execution_policy \<Rightarrow> string"

text \<open>
  What the canonical dump of \<open>policy_hash\<close> covers: everything but the stamped fields and the
  private attributes.
\<close>

definition policy_content :: "execution_policy \<Rightarrow> execution_policy" where
  "policy_content p = p\<lparr>ep_policy_id := None, ep_policy_hash := None, ep_principal := None,
     ep_budget_enforced := True, ep_accounting_incomplete := False\<rparr>"

definition policy_hash :: "policy_digest \<Rightarrow> execution_policy \<Rightarrow> string" where
  "policy_hash dg p = dg (policy_content p)"

definition stamp_policy ::
    "policy_digest \<Rightarrow> execution_policy \<Rightarrow> string \<Rightarrow> string \<Rightarrow> pyexc + execution_policy" where
  "stamp_policy dg p principal_id org_id =
     (if ep_policy_hash p \<noteq> None \<or> ep_policy_id p \<noteq> None \<or> ep_principal p \<noteq> None
      then Inl (PolicyRejectedError ''stamped_field_declared'')
      else if principal_id = [] then Inl (PolicyRejectedError ''principal_required'')
      else if ep_org p \<noteq> org_id then Inl (PolicyRejectedError ''org_mismatch'')
      else
        let bound = p\<lparr>ep_principal := Some principal_id\<rparr>; digest = policy_hash dg bound in
        Inr (bound\<lparr>ep_policy_hash := Some digest, ep_policy_id := Some (''pol_'' @ take 32 digest)\<rparr>))"

definition flow_budget_binding :: "string \<Rightarrow> pyexc + string" where
  "flow_budget_binding flow_id = (if flow_id = [] then Inl ValueError else Inr (''flow:'' @ flow_id))"

section \<open>One admission decision\<close>

record resource_ref =
  rr_repository :: "string option"
  rr_environment :: "string option"
  rr_address :: "string option"
  rr_org :: "string option"
  rr_credential :: "string option"
  rr_role :: "string option"

datatype evaluation_operation = ACCEPT | COLLECT

record auth_context =
  ax_policy :: execution_policy
  ax_accepted :: int
  ax_in_force :: int
  ax_principal :: string
  ax_member_org :: "string option"
  ax_member_teams :: "string set"
  ax_can_authorize :: bool
  ax_revoked :: bool
  ax_operation :: evaluation_operation
  ax_now :: "pydt option"
  ax_scope :: credential_scope
  ax_spend :: "rat option"
  ax_attempts :: int
  ax_concurrency :: int
  ax_work_owned :: bool

record decision =
  permitted :: bool
  reason :: "deny_reason option"

text \<open>\<open>Decision.__post_init__\<close>: a permit has no reason, a block has one.\<close>

definition make_decision :: "bool \<Rightarrow> deny_reason option \<Rightarrow> pyexc + decision" where
  "make_decision ok why =
     (if ok \<and> why \<noteq> None then Inl ValueError else if \<not> ok \<and> why = None then Inl ValueError
      else Inr \<lparr>permitted = ok, reason = why\<rparr>)"

definition permit :: "pyexc + decision" where
  "permit = make_decision True None"

definition block :: "deny_reason \<Rightarrow> pyexc + decision" where
  "block r = make_decision False (Some r)"

text \<open>\<open>now >= expires\<close> of two datetimes.\<close>

definition not_before :: "pydt \<Rightarrow> pydt \<Rightarrow> pyexc + bool" where
  "not_before now limit =
     (if tz_aware now = tz_aware limit then Inr (stamp limit \<le> stamp now) else Inl TypeError)"

definition user_granted :: "auth_context \<Rightarrow> action \<Rightarrow> resource_ref \<Rightarrow> bool" where
  "user_granted cx a r \<longleftrightarrow>
     (let p = ax_policy cx in
      ax_scope cx = USER_GRANTED \<and> ep_schema p \<in> set user_credential_schema_versions
      \<and> (case ep_credentials p of None \<Rightarrow> False
         | Some u \<Rightarrow> a \<in> set (ua_actions u)
             \<and> (rr_credential r \<noteq> None \<or> rr_role r \<noteq> None)
             \<and> (case rr_credential r of None \<Rightarrow> True | Some c \<Rightarrow> c \<in> set (ua_credentials u))
             \<and> (case rr_role r of None \<Rightarrow> True | Some arn \<Rightarrow> arn \<in> set (ua_roles u))))"

definition listed :: "string option \<Rightarrow> string list \<Rightarrow> bool" where
  "listed x xs = (case x of None \<Rightarrow> False | Some s \<Rightarrow> s \<in> set xs)"

text \<open>Who acts and where: membership, tenant, team, role and the flow of the work.\<close>

definition identity_block :: "auth_context \<Rightarrow> resource_ref \<Rightarrow> deny_reason option" where
  "identity_block cx r =
     (let p = ax_policy cx in
      if ax_member_org cx = None then Some MEMBERSHIP_REVOKED
      else if ax_member_org cx \<noteq> Some (ep_org p) then Some ORG_MISMATCH
      else if rr_org r \<noteq> None \<and> rr_org r \<noteq> Some (ep_org p) then Some ORG_MISMATCH
      else if ep_teams p \<noteq> [] \<and> ax_member_teams cx \<inter> set (ep_teams p) = {} then Some TEAM_NOT_PERMITTED
      else if \<not> ax_can_authorize cx then Some ROLE_REVOKED
      else if \<not> ax_work_owned cx then Some WORK_NOT_OWNED
      else None)"

text \<open>What is delegated: the action, the human gate, the coordinator's nodes, the evaluation mode.\<close>

definition authority_block :: "auth_context \<Rightarrow> action \<Rightarrow> resource_ref \<Rightarrow> deny_reason option" where
  "authority_block cx a r =
     (let p = ax_policy cx in
      if a \<notin> set (ep_actions p) then Some ACTION_NOT_PERMITTED
      else if a \<in> set (ep_gates p) then Some HUMAN_GATE_REQUIRED
      else if a = COORDINATE then
        (case ep_coordination p of None \<Rightarrow> Some COORDINATION_NOT_PERMITTED
         | Some sc \<Rightarrow> if \<not> listed (rr_address r) (cs_nodes sc) then Some COORDINATION_NODE_NOT_ASSIGNED else None)
      else if a = EVALUATE then
        (let mode = (if truthy (rr_address r) then map_of (ep_acceptance p) (the (rr_address r)) else None) in
         if mode \<noteq> Some AmMACHINE \<and> \<not> (mode = Some AmHUMAN \<and> ax_operation cx = COLLECT)
         then Some MACHINE_ACCEPTANCE_NOT_PERMITTED else None)
      else None)"

text \<open>What it touches: repository, environment and the credential.\<close>

definition scope_block :: "auth_context \<Rightarrow> action \<Rightarrow> resource_ref \<Rightarrow> deny_reason option" where
  "scope_block cx a r =
     (let p = ax_policy cx in
      if a \<in> set repository_actions \<and> \<not> listed (rr_repository r) (ep_repositories p)
      then Some REPOSITORY_NOT_PERMITTED
      else if a \<in> set environment_actions \<and> \<not> listed (rr_environment r) (ep_environments p)
      then Some ENVIRONMENT_NOT_PERMITTED
      else if ax_scope cx \<noteq> SCOPED \<and> \<not> user_granted cx a r then Some CREDENTIAL_SCOPE_UNAVAILABLE
      else None)"

text \<open>The limits, unknown spend before exceeded spend.\<close>

definition limit_block :: "auth_context \<Rightarrow> deny_reason option" where
  "limit_block cx =
     (let p = ax_policy cx in
      if ep_budget_enforced p \<and> (ax_spend cx = None \<or> ep_accounting_incomplete p) then Some SPEND_UNKNOWN
      else if ep_budget_enforced p \<and> li_spend (ep_limits p) \<le> the (ax_spend cx) then Some SPEND_LIMIT_EXCEEDED
      else if li_attempts (ep_limits p) \<le> ax_attempts cx then Some ATTEMPT_LIMIT_EXCEEDED
      else if li_concurrent (ep_limits p) \<le> ax_concurrency cx then Some CONCURRENCY_LIMIT_EXCEEDED
      else None)"

fun first_block :: "deny_reason option list \<Rightarrow> deny_reason option" where
  "first_block [] = None"
| "first_block (Some r # bs) = Some r"
| "first_block (None # bs) = first_block bs"

definition authorize_action ::
    "auth_context \<Rightarrow> action \<Rightarrow> resource_ref \<Rightarrow> int \<Rightarrow> pyexc + decision" where
  "authorize_action cx a r policy_version =
     (let p = ax_policy cx in
      if ep_schema p \<notin> set supported_schema_versions then block SCHEMA_UNSUPPORTED
      else if policy_version \<noteq> ax_in_force cx \<or> ax_accepted cx \<noteq> ax_in_force cx
      then block STALE_POLICY_VERSION
      else if ax_revoked cx then block GRANT_REVOKED
      else (case ax_now cx of None \<Rightarrow> block POLICY_EXPIRED
       | Some now \<Rightarrow>
           (case not_before now (ep_expires p) of
              Inl e \<Rightarrow> Inl e
            | Inr expired \<Rightarrow>
                if expired then block POLICY_EXPIRED
                else (case first_block [identity_block cx r, authority_block cx a r, scope_block cx a r, limit_block cx] of
                        Some why \<Rightarrow> block why
                      | None \<Rightarrow> permit))))"

text \<open>The persona of a request is a text from its body.\<close>

definition authorize_child_request ::
    "auth_context \<Rightarrow> string \<Rightarrow> action \<Rightarrow> resource_ref \<Rightarrow> int \<Rightarrow> pyexc + decision" where
  "authorize_child_request cx child_persona child_action r policy_version =
     (case authorize_action cx COORDINATE r policy_version of
        Inl e \<Rightarrow> Inl e
      | Inr coordinator \<Rightarrow>
         if \<not> permitted coordinator then Inr coordinator
         else (case ep_coordination (ax_policy cx) of None \<Rightarrow> block COORDINATION_NOT_PERMITTED
           | Some sc \<Rightarrow>
              (case parse_child_persona child_persona of None \<Rightarrow> block CHILD_PERSONA_NOT_PERMITTED
               | Some persona \<Rightarrow>
                  if persona \<notin> set (cs_personas sc) then block CHILD_PERSONA_NOT_PERMITTED
                  else if child_action \<notin> set (cs_actions sc) then block CHILD_ACTION_NOT_PERMITTED
                  else if child_action \<in> set non_delegable_child_actions then block CHILD_ACTION_NOT_PERMITTED
                  else if child_action \<notin> set (ep_actions (ax_policy cx)) \<or> child_action \<in> set (ep_gates (ax_policy cx))
                  then block CHILD_ACTION_NOT_PERMITTED
                  else permit)))"

section \<open>The owner's summary\<close>

record policy_summary =
  su_repositories :: "string list"
  su_credentials :: "(nat \<times> nat \<times> action list) option"
  su_environments :: "string list"
  su_teams :: "string list"
  su_autonomous :: "action list"
  su_human :: "action list"
  su_machine :: nat
  su_coordination :: "(nat \<times> child_persona list \<times> action list) option"
  su_repair_scope :: "string option"
  su_repair_paths :: nat
  su_expires :: pydt
  su_limits :: policy_limits

definition summarize_policy :: "execution_policy \<Rightarrow> policy_summary" where
  "summarize_policy p = \<lparr>su_repositories = ep_repositories p,
     su_credentials = map_option (\<lambda>u. (length (ua_credentials u), length (ua_roles u), ua_actions u)) (ep_credentials p),
     su_environments = ep_environments p, su_teams = ep_teams p,
     su_autonomous = filter (permits p) all_actions,
     su_human = filter (\<lambda>a. a \<in> set (ep_gates p)) all_actions,
     su_machine = length (filter (\<lambda>e. snd e = AmMACHINE) (ep_acceptance p)),
     su_coordination = map_option (\<lambda>c. (length (cs_nodes c),
        filter (\<lambda>x. x \<in> set (cs_personas c)) [DEVELOPER, REVIEWER],
        filter (\<lambda>a. a \<in> set (cs_actions c)) all_actions)) (ep_coordination p),
     su_repair_scope = (if ep_repair_scope p then Some ''repository''
        else if ep_repair_paths p \<noteq> [] then Some ''paths'' else None),
     su_repair_paths = length (ep_repair_paths p), su_expires = ep_expires p, su_limits = ep_limits p\<rparr>"

end
