(* ===== verification/Policy_Properties.thy ===== *)
theory Policy_Properties
  imports Execution_Policy
begin

text \<open>
  What the admission check guarantees: when exactly an action is admitted, that a human gate and
  the delegation limits hold for any document whatever, that narrowing a policy never adds
  authority, and what acceptance binds into a policy.
\<close>

lemma permit_value [simp]: "permit = Inr \<lparr>permitted = True, reason = None\<rparr>"
  by (simp add: permit_def make_decision_def)

lemma block_value [simp]: "block r = Inr \<lparr>permitted = False, reason = Some r\<rparr>"
  by (simp add: block_def make_decision_def)

lemma first_block_None: "first_block bs = None \<longleftrightarrow> (\<forall>b \<in> set bs. b = None)"
  by (induction bs rule: first_block.induct) auto

abbreviation admitted :: "pyexc + decision \<Rightarrow> bool" where
  "admitted x \<equiv> x = Inr \<lparr>permitted = True, reason = None\<rparr>"

text \<open>Every decision the check returns carries a reason exactly when it blocks.\<close>

lemma decision_shape:
  "authorize_action cx a r v = Inr d \<Longrightarrow> permitted d \<longleftrightarrow> reason d = None"
  by (auto simp: authorize_action_def Let_def split: if_splits option.splits sum.splits)

lemma admitted_cases:
  "admitted (authorize_action cx a r v) \<longleftrightarrow>
     ep_schema (ax_policy cx) \<in> set supported_schema_versions
     \<and> v = ax_in_force cx \<and> ax_accepted cx = ax_in_force cx \<and> \<not> ax_revoked cx
     \<and> (\<exists>now. ax_now cx = Some now \<and> not_before now (ep_expires (ax_policy cx)) = Inr False)
     \<and> identity_block cx r = None \<and> authority_block cx a r = None
     \<and> scope_block cx a r = None \<and> limit_block cx = None"
proof -
  obtain fb where fb: "fb = first_block [identity_block cx r, authority_block cx a r, scope_block cx a r, limit_block cx]"
    by simp
  have none: "identity_block cx r = None \<and> authority_block cx a r = None
      \<and> scope_block cx a r = None \<and> limit_block cx = None \<longleftrightarrow> fb = None"
    unfolding fb by (simp add: first_block_None)
  show ?thesis
    unfolding none authorize_action_def Let_def fb [symmetric]
    by (cases fb) (auto split: option.splits sum.splits)
qed

section \<open>When an action is admitted\<close>

text \<open>The owner's and the caller's conditions, side by side.\<close>

definition in_time :: "auth_context \<Rightarrow> bool" where
  "in_time cx \<longleftrightarrow> (\<exists>now. ax_now cx = Some now \<and> tz_aware now = tz_aware (ep_expires (ax_policy cx))
     \<and> stamp now < stamp (ep_expires (ax_policy cx)))"

definition acts_for_tenant :: "auth_context \<Rightarrow> resource_ref \<Rightarrow> bool" where
  "acts_for_tenant cx r \<longleftrightarrow>
     (let p = ax_policy cx in
      ax_member_org cx = Some (ep_org p) \<and> rr_org r \<in> {None, Some (ep_org p)}
      \<and> (ep_teams p = [] \<or> ax_member_teams cx \<inter> set (ep_teams p) \<noteq> {})
      \<and> ax_can_authorize cx \<and> ax_work_owned cx)"

definition delegated :: "auth_context \<Rightarrow> action \<Rightarrow> resource_ref \<Rightarrow> bool" where
  "delegated cx a r \<longleftrightarrow>
     (let p = ax_policy cx in
      a \<in> set (ep_actions p) \<and> a \<notin> set (ep_gates p)
      \<and> (a \<noteq> COORDINATE \<or> (\<exists>sc addr. ep_coordination p = Some sc \<and> rr_address r = Some addr \<and> addr \<in> set (cs_nodes sc)))
      \<and> (a \<noteq> EVALUATE \<or> (\<exists>addr. rr_address r = Some addr \<and> addr \<noteq> []
           \<and> (map_of (ep_acceptance p) addr = Some AmMACHINE
              \<or> (map_of (ep_acceptance p) addr = Some AmHUMAN \<and> ax_operation cx = COLLECT)))))"

text \<open>The credential is scoped by the platform, or one that the owner granted for this action.\<close>

definition credential_covered :: "auth_context \<Rightarrow> action \<Rightarrow> resource_ref \<Rightarrow> bool" where
  "credential_covered cx a r \<longleftrightarrow> ax_scope cx = SCOPED
     \<or> (ax_scope cx = USER_GRANTED \<and> ep_schema (ax_policy cx) \<in> {2, 3}
        \<and> (\<exists>u. ep_credentials (ax_policy cx) = Some u \<and> a \<in> set (ua_actions u)
             \<and> (\<exists>x. rr_credential r = Some x \<or> rr_role r = Some x)
             \<and> rr_credential r \<in> insert None (Some ` set (ua_credentials u))
             \<and> rr_role r \<in> insert None (Some ` set (ua_roles u))))"

definition within_scope :: "auth_context \<Rightarrow> action \<Rightarrow> resource_ref \<Rightarrow> bool" where
  "within_scope cx a r \<longleftrightarrow>
     (let p = ax_policy cx in
      (a \<notin> {DEVELOP, REVIEW, REPAIR, MERGE, OPERATE} \<or> rr_repository r \<in> Some ` set (ep_repositories p))
      \<and> (a \<noteq> DEPLOY \<or> rr_environment r \<in> Some ` set (ep_environments p))
      \<and> credential_covered cx a r)"

definition within_limits :: "auth_context \<Rightarrow> bool" where
  "within_limits cx \<longleftrightarrow>
     (let p = ax_policy cx; l = ep_limits p in
      (\<not> ep_budget_enforced p \<or> (\<not> ep_accounting_incomplete p \<and> (\<exists>s. ax_spend cx = Some s \<and> s < li_spend l)))
      \<and> ax_attempts cx < li_attempts l \<and> ax_concurrency cx < li_concurrent l)"

lemma not_before_False:
  "not_before now limit = Inr False \<longleftrightarrow> tz_aware now = tz_aware limit \<and> stamp now < stamp limit"
  by (auto simp: not_before_def)

lemma identity_block_None: "identity_block cx r = None \<longleftrightarrow> acts_for_tenant cx r"
  by (auto simp: identity_block_def acts_for_tenant_def Let_def)

lemma listed_iff: "listed x xs \<longleftrightarrow> x \<in> Some ` set xs"
  by (cases x) (auto simp: listed_def)

lemma authority_block_None: "authority_block cx a r = None \<longleftrightarrow> delegated cx a r"
  by (cases "rr_address r") (auto simp: authority_block_def delegated_def Let_def permits_def listed_def
      split: option.splits if_splits)

lemma covered_iff: "credential_covered cx a r \<longleftrightarrow> ax_scope cx = SCOPED \<or> user_granted cx a r"
  by (cases "rr_credential r"; cases "rr_role r"; cases "ep_credentials (ax_policy cx)")
    (auto simp: credential_covered_def user_granted_def Let_def user_credential_schema_versions_def
      coordination_schema_version_def)

lemma scope_block_None: "scope_block cx a r = None \<longleftrightarrow> within_scope cx a r"
  by (auto simp: covered_iff scope_block_def within_scope_def Let_def listed_iff repository_actions_def environment_actions_def)

lemma limit_block_None: "limit_block cx = None \<longleftrightarrow> within_limits cx"
  by (cases "ax_spend cx") (auto simp: limit_block_def within_limits_def Let_def)

text \<open>
  C28: An autonomous action is admitted exactly when the policy is one this build reads, it is the
  accepted policy of the plan in force, the grant is not revoked and the policy not expired; the
  principal is a current member of the policy's tenant and teams who may authorize, acting on work
  of that tenant and flow; the action is listed, not gated to a human, and within the assigned
  nodes or the accepted evaluation mode; the repository and the environment are within its scope; the
  credential is scoped, or it is a user's, under schema 2 or 3, and the policy grants the action, the
  named credential and the named role, at least one of which is named; attempts and concurrency are
  below their limits; and, where the policy enforces its budget, the accounting is complete and the
  spend known and below the limit (without enforcement the spend is not looked at).
\<close>

theorem admitted_exactly_when:
  "admitted (authorize_action cx a r v) \<longleftrightarrow>
     ep_schema (ax_policy cx) \<in> {1, 2, 3} \<and> v = ax_in_force cx \<and> ax_accepted cx = ax_in_force cx
     \<and> \<not> ax_revoked cx \<and> in_time cx \<and> acts_for_tenant cx r \<and> delegated cx a r
     \<and> within_scope cx a r \<and> within_limits cx"
  by (auto simp: admitted_cases identity_block_None authority_block_None scope_block_None
      limit_block_None in_time_def not_before_False supported_schema_versions_def)

section \<open>Gates and delegation\<close>

lemma child_admitted:
  "admitted (authorize_child_request cx persona ca r v) \<longleftrightarrow>
     admitted (authorize_action cx COORDINATE r v)
     \<and> (\<exists>sc pe. ep_coordination (ax_policy cx) = Some sc \<and> parse_child_persona persona = Some pe
          \<and> pe \<in> set (cs_personas sc) \<and> ca \<in> set (cs_actions sc))
     \<and> ca \<notin> set non_delegable_child_actions \<and> permits (ax_policy cx) ca"
proof (cases "admitted (authorize_action cx COORDINATE r v)")
  case True
  then show ?thesis
    by (auto simp: authorize_child_request_def permits_def split: option.splits)
next
  case False
  then have "\<not> admitted (authorize_child_request cx persona ca r v)"
    using decision_shape [of cx COORDINATE r v]
    by (cases "authorize_action cx COORDINATE r v") (auto simp: authorize_child_request_def)
  then show ?thesis using False by simp
qed

text \<open>
  C29: Whatever the policy document says, also one that no validator has seen, an action gated to a
  human is never admitted and never admitted as a coordinator's child, and a child that merges,
  deploys, evaluates, operates or coordinates is never admitted; an admitted child is one the
  policy itself permits, requested from a node assigned to the coordinator.
\<close>

theorem gates_hold:
  "(a \<in> set (ep_gates (ax_policy cx)) \<longrightarrow>
      \<not> admitted (authorize_action cx a r v) \<and> \<not> admitted (authorize_child_request cx persona a r v))
   \<and> (admitted (authorize_child_request cx persona a r v) \<longrightarrow>
      a \<in> {DEVELOP, REVIEW, REPAIR} \<and> permits (ax_policy cx) a
      \<and> (\<exists>sc addr. ep_coordination (ax_policy cx) = Some sc \<and> rr_address r = Some addr
            \<and> addr \<in> set (cs_nodes sc)))"
proof -
  have "a \<in> {DEVELOP, REVIEW, REPAIR}" if "a \<notin> set non_delegable_child_actions"
    using that by (cases a) (simp_all add: non_delegable_child_actions_def)
  then show ?thesis
    by (auto simp: admitted_cases authority_block_None child_admitted delegated_def permits_def Let_def)
qed

section \<open>Narrowing\<close>

text \<open>
  One policy grants no more than another: fewer teams (none means every team), repositories,
  environments, actions, nodes, credentials and accepted evaluations, more gates, an earlier expiry
  and smaller limits, and no check that is switched off or incomplete only there.
\<close>

definition narrower_credentials :: "user_authority option \<Rightarrow> user_authority option \<Rightarrow> bool" where
  "narrower_credentials c d \<longleftrightarrow> (case c of None \<Rightarrow> True | Some u \<Rightarrow>
     (case d of None \<Rightarrow> False
      | Some w \<Rightarrow> set (ua_actions u) \<subseteq> set (ua_actions w) \<and> set (ua_credentials u) \<subseteq> set (ua_credentials w)
          \<and> set (ua_roles u) \<subseteq> set (ua_roles w)))"

definition narrower_coordination :: "coordination_scope option \<Rightarrow> coordination_scope option \<Rightarrow> bool" where
  "narrower_coordination c d \<longleftrightarrow> (case c of None \<Rightarrow> True | Some s \<Rightarrow>
     (case d of None \<Rightarrow> False
      | Some t \<Rightarrow> set (cs_nodes s) \<subseteq> set (cs_nodes t) \<and> set (cs_personas s) \<subseteq> set (cs_personas t)
          \<and> set (cs_actions s) \<subseteq> set (cs_actions t)))"

definition narrower :: "execution_policy \<Rightarrow> execution_policy \<Rightarrow> bool" where
  "narrower p q \<longleftrightarrow>
     ep_schema p = ep_schema q \<and> ep_org p = ep_org q
     \<and> (ep_teams q = [] \<or> (ep_teams p \<noteq> [] \<and> set (ep_teams p) \<subseteq> set (ep_teams q)))
     \<and> set (ep_repositories p) \<subseteq> set (ep_repositories q)
     \<and> set (ep_environments p) \<subseteq> set (ep_environments q)
     \<and> set (ep_actions p) \<subseteq> set (ep_actions q) \<and> set (ep_gates q) \<subseteq> set (ep_gates p)
     \<and> map_of (ep_acceptance p) \<subseteq>\<^sub>m map_of (ep_acceptance q)
     \<and> narrower_credentials (ep_credentials p) (ep_credentials q)
     \<and> narrower_coordination (ep_coordination p) (ep_coordination q)
     \<and> tz_aware (ep_expires p) = tz_aware (ep_expires q) \<and> stamp (ep_expires p) \<le> stamp (ep_expires q)
     \<and> li_spend (ep_limits p) \<le> li_spend (ep_limits q)
     \<and> li_attempts (ep_limits p) \<le> li_attempts (ep_limits q)
     \<and> li_concurrent (ep_limits p) \<le> li_concurrent (ep_limits q)
     \<and> (\<not> ep_budget_enforced q \<or> ep_budget_enforced p)
     \<and> (\<not> ep_accounting_incomplete q \<or> ep_accounting_incomplete p)"

lemma narrower_delegated:
  assumes "narrower (ax_policy cx) q" "delegated cx a r"
  shows "delegated (cx\<lparr>ax_policy := q\<rparr>) a r"
proof -
  have perm: "permits q a" using assms by (auto simp: narrower_def delegated_def permits_def Let_def)
  have modes: "map_of (ep_acceptance q) addr = Some m" if "map_of (ep_acceptance (ax_policy cx)) addr = Some m" for addr m
    using assms(1) that by (auto simp: narrower_def map_le_def dom_def)
  have "\<exists>sc. ep_coordination q = Some sc \<and> addr \<in> set (cs_nodes sc)"
    if "ep_coordination (ax_policy cx) = Some s" "addr \<in> set (cs_nodes s)" for s addr
    using assms(1) that by (cases "ep_coordination q") (auto simp: narrower_def narrower_coordination_def)
  then show ?thesis using assms(2) perm [unfolded permits_def] modes unfolding delegated_def Let_def by simp blast
qed

lemma narrower_scope:
  assumes "narrower (ax_policy cx) q" "within_scope cx a r"
  shows "within_scope (cx\<lparr>ax_policy := q\<rparr>) a r"
proof -
  have "user_granted (cx\<lparr>ax_policy := q\<rparr>) a r" if "user_granted cx a r"
    using assms(1) that by (cases "ep_credentials (ax_policy cx)"; cases "ep_credentials q")
      (auto simp: user_granted_def narrower_def narrower_credentials_def Let_def split: option.splits)
  moreover have "set (ep_repositories (ax_policy cx)) \<subseteq> set (ep_repositories q)"
    "set (ep_environments (ax_policy cx)) \<subseteq> set (ep_environments q)"
    using assms(1) by (simp_all add: narrower_def)
  ultimately show ?thesis using assms(2) unfolding within_scope_def Let_def covered_iff by auto
qed

lemma narrower_rest:
  assumes "narrower (ax_policy cx) q"
  shows "acts_for_tenant cx r \<Longrightarrow> acts_for_tenant (cx\<lparr>ax_policy := q\<rparr>) r"
    and "in_time cx \<Longrightarrow> in_time (cx\<lparr>ax_policy := q\<rparr>)"
    and "within_limits cx \<Longrightarrow> within_limits (cx\<lparr>ax_policy := q\<rparr>)"
  using assms by (auto simp: acts_for_tenant_def in_time_def within_limits_def narrower_def Let_def)

lemma admitted_iff:
  "admitted (authorize_action cx a r v) \<longleftrightarrow>
     ep_schema (ax_policy cx) \<in> set supported_schema_versions \<and> v = ax_in_force cx
     \<and> ax_accepted cx = ax_in_force cx \<and> \<not> ax_revoked cx \<and> in_time cx \<and> acts_for_tenant cx r
     \<and> delegated cx a r \<and> within_scope cx a r \<and> within_limits cx"
  by (auto simp: admitted_cases identity_block_None authority_block_None scope_block_None
      limit_block_None in_time_def not_before_False)

lemma narrower_admits:
  assumes "narrower (ax_policy cx) q" "admitted (authorize_action cx a r v)"
  shows "admitted (authorize_action (cx\<lparr>ax_policy := q\<rparr>) a r v)"
  using assms narrower_rest [OF assms(1)] narrower_scope [OF assms(1)] narrower_delegated [OF assms(1)]
  by (auto simp: admitted_iff narrower_def)

text \<open>
  Narrowing a policy never adds authority: what a narrower policy admits, an action or the
  request for a child, the wider one admits in the same circumstances.
\<close>

theorem narrowing_never_adds:
  assumes "narrower (ax_policy cx) q"
  shows "(admitted (authorize_action cx a r v) \<longrightarrow> admitted (authorize_action (cx\<lparr>ax_policy := q\<rparr>) a r v))
    \<and> (admitted (authorize_child_request cx persona a r v)
         \<longrightarrow> admitted (authorize_child_request (cx\<lparr>ax_policy := q\<rparr>) persona a r v))"
proof -
  have "\<exists>sc. ep_coordination q = Some sc \<and> pe \<in> set (cs_personas sc) \<and> a \<in> set (cs_actions sc)"
    if "ep_coordination (ax_policy cx) = Some s" "pe \<in> set (cs_personas s)" "a \<in> set (cs_actions s)" for s pe
    using assms that by (cases "ep_coordination q") (auto simp: narrower_def narrower_coordination_def)
  moreover have "permits (ax_policy cx) a \<Longrightarrow> permits q a"
    using assms by (auto simp: narrower_def permits_def)
  ultimately show ?thesis
    using narrower_admits [OF assms] by (auto simp: child_admitted)
qed

section \<open>Acceptance\<close>

lemma stamped_form:
  "stamp_policy dg p who org =
     (if ep_policy_id p \<noteq> None \<or> ep_policy_hash p \<noteq> None \<or> ep_principal p \<noteq> None
      then Inl (PolicyRejectedError ''stamped_field_declared'')
      else if who = [] then Inl (PolicyRejectedError ''principal_required'')
      else if ep_org p \<noteq> org then Inl (PolicyRejectedError ''org_mismatch'')
      else Inr (p\<lparr>ep_principal := Some who, ep_policy_hash := Some (policy_hash dg p),
        ep_policy_id := Some (''pol_'' @ take 32 (policy_hash dg p))\<rparr>))"
  by (simp add: stamp_policy_def Let_def policy_hash_def policy_content_def)

lemma stamped_content: "policy_content (p\<lparr>ep_principal := w, ep_policy_hash := h, ep_policy_id := x\<rparr>) = policy_content p"
  by (simp add: policy_content_def)

lemma stamped_valid:
  assumes "make_policy p = Inr p"
  shows "make_policy (p\<lparr>ep_principal := w, ep_policy_hash := h, ep_policy_id := x\<rparr>)
    = Inr (p\<lparr>ep_principal := w, ep_policy_hash := h, ep_policy_id := x\<rparr>)"
  using assms by (auto simp: make_policy_def fields_ok_def repair_bounded_def repair_authority_def coordination_bounded_def
    credentials_bounded_def no_duplicates_def split: if_splits cong: option.case_cong)

text \<open>
  C32: Stamping binds a submitted policy to the acceptor and to its content alone. It is refused
  exactly if any one of the three stamped fields (id, hash, principal) is already present, the acceptor
  is empty or the policy is another tenant's, with the reason that applies first. Otherwise the accepted
  document is still a valid policy with the same content, names the acceptor, carries the hash that
  it still has afterwards and the id derived from it, and cannot be stamped again, not even with two of
  its stamped fields taken off. The hash and the id do not depend on who accepts.
\<close>

theorem stamp_binds_content:
  assumes "make_policy p = Inr p"
  shows "case stamp_policy dg p who org of
      Inl e \<Rightarrow> e = PolicyRejectedError ''stamped_field_declared''
            \<and> (ep_policy_id p \<noteq> None \<or> ep_policy_hash p \<noteq> None \<or> ep_principal p \<noteq> None)
        \<or> ep_policy_id p = None \<and> ep_policy_hash p = None \<and> ep_principal p = None
          \<and> (e = PolicyRejectedError ''principal_required'' \<and> who = []
             \<or> e = PolicyRejectedError ''org_mismatch'' \<and> who \<noteq> [] \<and> ep_org p \<noteq> org)
    | Inr q \<Rightarrow> ep_policy_id p = None \<and> ep_policy_hash p = None \<and> ep_principal p = None
        \<and> make_policy q = Inr q \<and> policy_content q = policy_content p \<and> ep_org q = org
        \<and> ep_principal q = Some who \<and> who \<noteq> [] \<and> ep_policy_hash q = Some (policy_hash dg q)
        \<and> ep_policy_id q = Some (''pol_'' @ take 32 (policy_hash dg p))
        \<and> (\<forall>other. \<exists>e. stamp_policy dg q other org = Inl e)
        \<and> (\<forall>other. \<exists>e. stamp_policy dg (q\<lparr>ep_policy_hash := None, ep_principal := None\<rparr>) other org = Inl e)
        \<and> (\<forall>other. \<exists>e. stamp_policy dg (q\<lparr>ep_policy_id := None, ep_principal := None\<rparr>) other org = Inl e)
        \<and> (\<forall>other. \<exists>e. stamp_policy dg (q\<lparr>ep_policy_id := None, ep_policy_hash := None\<rparr>) other org = Inl e)
        \<and> (\<forall>other. other \<noteq> [] \<longrightarrow> stamp_policy dg p other org = Inr (q\<lparr>ep_principal := Some other\<rparr>))"
  using stamped_valid [OF assms] by (simp add: stamped_form stamped_content policy_hash_def)

text \<open>
  C31: For a policy the validators have accepted, the checks the child request repeats never fire:
  it admits exactly what the coordinator's own admission, the personas and the child actions of the
  accepted scope admit.
\<close>

theorem child_request_equivalence:
  assumes "make_policy (ax_policy cx) = Inr (ax_policy cx)"
  shows "admitted (authorize_child_request cx persona ca r v) \<longleftrightarrow>
     admitted (authorize_action cx COORDINATE r v)
     \<and> (\<exists>sc pe. ep_coordination (ax_policy cx) = Some sc \<and> parse_child_persona persona = Some pe
          \<and> pe \<in> set (cs_personas sc) \<and> ca \<in> set (cs_actions sc))"
proof -
  have "ca \<notin> set non_delegable_child_actions \<and> permits (ax_policy cx) ca"
    if "ep_coordination (ax_policy cx) = Some sc" "ca \<in> set (cs_actions sc)" for sc
    using assms that
    by (auto simp: make_policy_def coordination_ok_def coordination_bounded_def permits_def list_all_iff split: if_splits)
  then show ?thesis unfolding child_admitted by blast
qed

section \<open>Witnesses\<close>

definition sample_limits :: policy_limits where
  "sample_limits = \<lparr>li_wall_clock = 3600, li_spend = 10, li_attempts = 3, li_concurrent = 2\<rparr>"

definition sample_policy :: execution_policy where
  "sample_policy = \<lparr>ep_schema = 3, ep_credentials = None,
     ep_coordination = Some \<lparr>cs_nodes = [''f/e/w/n''], cs_personas = [DEVELOPER], cs_actions = [DEVELOP]\<rparr>,
     ep_repair_scope = False, ep_repair_paths = [], ep_repair_checks = [], ep_org = ''o'', ep_teams = [],
     ep_repositories = [''r''], ep_environments = [], ep_actions = [DEVELOP, MERGE, EVALUATE, COORDINATE],
     ep_gates = [MERGE], ep_acceptance = [(''f/e/w/v'', AmMACHINE)], ep_expires = Aware 100,
     ep_limits = sample_limits, ep_policy_id = None, ep_policy_hash = None, ep_principal = None,
     ep_budget_enforced = True, ep_accounting_incomplete = False\<rparr>"

definition sample_context :: auth_context where
  "sample_context = \<lparr>ax_policy = sample_policy, ax_accepted = 1, ax_in_force = 1, ax_principal = ''u'',
     ax_member_org = Some ''o'', ax_member_teams = {}, ax_can_authorize = True, ax_revoked = False,
     ax_operation = ACCEPT, ax_now = Some (Aware 5), ax_scope = SCOPED, ax_spend = Some 1, ax_attempts = 0,
     ax_concurrency = 0, ax_work_owned = True\<rparr>"

definition sample_resource :: resource_ref where
  "sample_resource = \<lparr>rr_repository = Some ''r'', rr_environment = None, rr_address = Some ''f/e/w/n'',
     rr_org = Some ''o'', rr_credential = None, rr_role = None\<rparr>"

definition sample_policy_digest :: policy_digest where
  "sample_policy_digest p = ''0''"

lemma sample_admitted:
  "admitted (authorize_action sample_context DEVELOP sample_resource 1)"
  "admitted (authorize_child_request sample_context ''developer'' DEVELOP sample_resource 1)"
  "authorize_action sample_context MERGE sample_resource 1 = Inr \<lparr>permitted = False, reason = Some HUMAN_GATE_REQUIRED\<rparr>"
  by code_simp+

lemma sample_policy_valid: "make_policy sample_policy = Inr sample_policy"
  by code_simp

text \<open>The same authority with a second repository, a later expiry and no gate on merging.\<close>

definition wider_policy :: execution_policy where
  "wider_policy = sample_policy\<lparr>ep_repositories := [''r'', ''s''], ep_gates := [], ep_expires := Aware 200\<rparr>"

theorem narrowing_never_adds_witness:
  "admitted (authorize_action (sample_context\<lparr>ax_policy := wider_policy\<rparr>) DEVELOP sample_resource 1)"
proof -
  have "narrower (ax_policy sample_context) wider_policy"
    by (auto simp: narrower_def wider_policy_def sample_context_def sample_policy_def narrower_credentials_def
        narrower_coordination_def)
  from narrowing_never_adds [OF this] sample_admitted(1) show ?thesis by blast
qed

theorem stamp_binds_content_witness:
  "\<exists>q. stamp_policy sample_policy_digest sample_policy ''u'' ''o'' = Inr q \<and> make_policy q = Inr q"
proof -
  have "\<exists>q. stamp_policy sample_policy_digest sample_policy ''u'' ''o'' = Inr q"
    by (simp add: stamp_policy_def sample_policy_def Let_def)
  then obtain q where q: "stamp_policy sample_policy_digest sample_policy ''u'' ''o'' = Inr q" ..
  from stamp_binds_content [OF sample_policy_valid, where dg = sample_policy_digest and who = "''u''" and org = "''o''"]
  have "make_policy q = Inr q" unfolding q sum.case by blast
  with q show ?thesis by blast
qed

theorem child_request_equivalence_witness:
  "admitted (authorize_child_request sample_context ''developer'' DEVELOP sample_resource 1)
   \<and> \<not> admitted (authorize_child_request sample_context ''reviewer'' DEVELOP sample_resource 1)"
proof -
  have v: "make_policy (ax_policy sample_context) = Inr (ax_policy sample_context)"
    using sample_policy_valid by (simp add: sample_context_def)
  have "parse_child_persona ''reviewer'' = Some REVIEWER" by code_simp
  then show ?thesis
    using child_request_equivalence [OF v] sample_admitted(2) by (simp add: sample_context_def sample_policy_def)
qed

lemma gates_hold_witness:
  "\<not> admitted (authorize_action sample_context MERGE sample_resource 1)
   \<and> \<not> admitted (authorize_child_request sample_context ''developer'' MERGE sample_resource 1)
   \<and> permits (ax_policy sample_context) DEVELOP"
proof -
  have "MERGE \<in> set (ep_gates (ax_policy sample_context))" by (simp add: sample_context_def sample_policy_def)
  then show ?thesis
    using gates_hold [of MERGE sample_context sample_resource 1 "''developer''"]
      gates_hold [of DEVELOP sample_context sample_resource 1 "''developer''"] sample_admitted(2) by blast
qed

end
