(* ===== verification/Loop_Proposal.thy ===== *)
theory Loop_Proposal
  imports Plan_Cycle Execution_Policy "HOL-Library.Product_Lexorder"
begin

text \<open>
  A proposed plan and the rules that decide whether it is well-formed
  (\<open>orchestration/proposal.py\<close>): the document as far as the rules read it, and every rule of
  \<open>validate_proposal\<close>, each returning all violations it finds. A violation keeps its rule and
  where it is; the message is left out.

  \<^item> \<open>listing\<close> is the order in which Python enumerates a set of addresses, which it does not
    specify: any duplicate-free list of the same elements (\<open>set_order\<close>).
  \<^item> The evaluation contract is loaded from a package outside the module at run time, so
    \<open>specification\<close> is a parameter: what it parses from a document, or None where it raises.
    The digest of the installed evaluation harness is a parameter too.
\<close>

section \<open>The document\<close>

record named_input =
  ni_name :: string
  ni_source :: string

record release_binding =
  rb_predecessors :: "string list"
  rb_repository :: string
  rb_workflows :: "string list"

record proposed_node =
  pn_address :: string
  pn_kind :: string
  pn_issue :: "string option"
  pn_lineage :: "string option list option"
  pn_labels :: "(string \<times> string) list"
  pn_evaluation :: "json option"
  pn_repository :: "string option"
  pn_repository_id :: "int option"
  pn_installation :: "int option"
  pn_criteria :: "string list"
  pn_inputs :: "named_input list"
  pn_evidence :: "string list"
  pn_release :: "release_binding option"
  pn_role :: "string option"
  pn_title :: string

record proposed_edge =
  pe_from :: string
  pe_to :: string

record proposal =
  lp_slug :: string
  lp_org :: string
  lp_spec_revision :: string
  lp_nodes :: "proposed_node list"
  lp_edges :: "proposed_edge list"
  lp_epics :: "string list"
  lp_waves :: "(string \<times> string) list"
  lp_policy :: "execution_policy option"
  lp_proposed_policy :: "execution_policy option"
  lp_title :: string
  lp_product :: "string option"
  lp_origin :: json
  lp_trackers :: json

record violation =
  vi_rule :: string
  vi_where :: "string option"

definition violation_at :: "string \<Rightarrow> string \<Rightarrow> violation" where
  "violation_at rule place = \<lparr>vi_rule = rule, vi_where = Some place\<rparr>"

definition executable_kinds :: "string list" where
  "executable_kinds = [''story'', ''eval'', ''gate'']"

definition container_kinds :: "string list" where
  "container_kinds = [''wave'', ''epic'', ''flow'']"

definition issue_consuming_kinds :: "string list" where
  "issue_consuming_kinds = [''story'', ''eval'']"

definition declared :: "proposal \<Rightarrow> string list" where
  "declared p = map pn_address (lp_nodes p)"

type_synonym listing = "string list \<Rightarrow> string list"

definition set_order :: "listing \<Rightarrow> bool" where
  "set_order listing \<longleftrightarrow> (\<forall>xs. distinct (listing xs) \<and> set (listing xs) = set xs)"

definition starts :: "string \<Rightarrow> string \<Rightarrow> bool" where
  "starts pre s \<longleftrightarrow> take (length pre) s = pre"

section \<open>The dependency graph of a proposal\<close>

definition add_successor :: "string \<Rightarrow> string \<Rightarrow> string adj \<Rightarrow> string adj" where
  "add_successor u v adj = map (\<lambda>(k, vs). if k = u then (k, vs @ [v]) else (k, vs)) adj"

definition input_edges :: "proposal \<Rightarrow> (string \<times> string) list" where
  "input_edges p = concat (map (\<lambda>n. concat (map (\<lambda>i. let source = strip (ni_source i) in
      if starts ''node:'' source \<and> drop 5 source \<in> set (declared p)
      then [(drop 5 source, pn_address n)] else []) (pn_inputs n))) (lp_nodes p))"

definition plan_edges :: "proposal \<Rightarrow> (string \<times> string) list" where
  "plan_edges p = map (\<lambda>e. (pe_from e, pe_to e))
     (filter (\<lambda>e. pe_from e \<noteq> pe_to e \<and> pe_from e \<in> set (declared p) \<and> pe_to e \<in> set (declared p)) (lp_edges p))"

definition resolvable_adjacency :: "listing \<Rightarrow> proposal \<Rightarrow> string adj" where
  "resolvable_adjacency listing p =
     fold (\<lambda>(u, v) adj. add_successor u v adj) (plan_edges p @ input_edges p)
       (map (\<lambda>a. (a, [])) (listing (declared p)))"

section \<open>Rules 1 to 3: addresses, kinds, edges\<close>

fun check_addresses_from :: "string \<Rightarrow> string list \<Rightarrow> proposed_node list \<Rightarrow> violation list" where
  "check_addresses_from slug seen [] = []"
| "check_addresses_from slug seen (n # ns) =
     (let a = pn_address n in
      if \<not> address_matches a then violation_at ''address_form'' a # check_addresses_from slug seen ns
      else (if a \<in> set seen then [violation_at ''duplicate_address'' a] else [])
         @ (if takeWhile (\<lambda>c. c \<noteq> CHR ''/'') a \<noteq> slug then [violation_at ''flow_segment_mismatch'' a] else [])
         @ check_addresses_from slug (a # seen) ns)"

definition check_addresses :: "proposal \<Rightarrow> violation list" where
  "check_addresses p = check_addresses_from (lp_slug p) [] (lp_nodes p)"

definition check_kinds :: "proposal \<Rightarrow> violation list" where
  "check_kinds p = concat (map (\<lambda>n.
     if pn_kind n \<in> set executable_kinds then []
     else if pn_kind n \<in> set container_kinds then [violation_at ''container_as_node'' (pn_address n)]
     else [violation_at ''unknown_kind'' (pn_address n)]) (lp_nodes p))"

definition edge_label :: "proposed_edge \<Rightarrow> string" where
  "edge_label e = pe_from e @ '' -> '' @ pe_to e"

definition check_edges :: "listing \<Rightarrow> proposal \<Rightarrow> violation list" where
  "check_edges listing p =
     concat (map (\<lambda>e.
       (if pe_from e \<notin> set (declared p) then [violation_at ''dangling_edge'' (edge_label e)] else [])
       @ (if pe_to e \<notin> set (declared p) then [violation_at ''dangling_edge'' (edge_label e)] else [])
       @ (if pe_from e = pe_to e then [violation_at ''self_edge'' (edge_label e)] else [])) (lp_edges p))
     @ (case find_plan_cycle (resolvable_adjacency listing p) of None \<Rightarrow> []
        | Some c \<Rightarrow> [violation_at ''cycle'' (joined '' -> '' c)])"

section \<open>Rule 4: one evaluation per wave with stories\<close>

definition wave_of :: "proposed_node \<Rightarrow> (string \<times> string) option" where
  "wave_of n = map_option (\<lambda>(f, e, w, k). (e, w)) (split_address (pn_address n))"

definition kind_count :: "proposal \<Rightarrow> string \<Rightarrow> string \<times> string \<Rightarrow> nat" where
  "kind_count p kind key = length (filter (\<lambda>n. wave_of n = Some key \<and> pn_kind n = kind) (lp_nodes p))"

definition check_wave_evals :: "proposal \<Rightarrow> violation list" where
  "check_wave_evals p = concat (map (\<lambda>key.
     if kind_count p ''story'' key = 0 then []
     else if kind_count p ''eval'' key \<noteq> 1
     then [violation_at ''wave_eval_cardinality'' (lp_slug p @ ''/'' @ fst key @ ''/'' @ snd key)] else [])
     (sort (remdups (List.map_filter wave_of (lp_nodes p)))))"

section \<open>Rule 5: declarations\<close>

definition check_declarations :: "proposal \<Rightarrow> violation list" where
  "check_declarations p =
     (if blank (lp_org p) then [\<lparr>vi_rule = ''missing_org_id'', vi_where = None\<rparr>] else [])
     @ (if blank (lp_spec_revision p) then [\<lparr>vi_rule = ''missing_spec_revision'', vi_where = None\<rparr>] else [])
     @ (if lp_nodes p = [] then [\<lparr>vi_rule = ''empty_plan'', vi_where = None\<rparr>] else [])"

section \<open>Rule 6: one issue, one order\<close>

text \<open>\<open>int(str(ref).lstrip("#"))\<close> of a non-empty reference, when positive.\<close>

definition work_identity :: "string option \<Rightarrow> string option" where
  "work_identity ref =
     (if \<not> truthy ref then None
      else (case py_int (dropWhile (\<lambda>c. c = CHR ''#'') (the ref)) of None \<Rightarrow> None
            | Some i \<Rightarrow> if 0 < i then Some (int_text i) else None))"

definition work_key :: "proposed_node \<Rightarrow> (int option \<times> string) option" where
  "work_key n = (if pn_kind n \<in> set issue_consuming_kinds
     then map_option (\<lambda>i. (pn_repository_id n, i)) (work_identity (pn_issue n)) else None)"

definition work_keys :: "proposal \<Rightarrow> (int option \<times> string) list" where
  "work_keys p = sort_key (\<lambda>(repo, i). (i, case repo of None \<Rightarrow> 0 | Some r \<Rightarrow> r))
     (rev (remdups (rev (List.map_filter work_key (lp_nodes p)))))"

definition addresses_on :: "proposal \<Rightarrow> int option \<times> string \<Rightarrow> string list" where
  "addresses_on p key = map pn_address (filter (\<lambda>n. work_key n = Some key) (lp_nodes p))"

definition rank_of :: "(string \<times> nat) list \<Rightarrow> string \<Rightarrow> nat" where
  "rank_of ranks a = the (map_of ranks a)"

fun first_unordered :: "string adj \<Rightarrow> string list \<Rightarrow> (string \<times> string) option" where
  "first_unordered adj (a # b # rest) = (if reaches adj a b then first_unordered adj (b # rest) else Some (a, b))"
| "first_unordered adj _ = None"

definition check_same_issue_ordering :: "listing \<Rightarrow> proposal \<Rightarrow> violation list" where
  "check_same_issue_ordering listing p =
     (let adj = resolvable_adjacency listing p; ranks = topological_ranks adj in
      concat (map (\<lambda>key. let addresses = addresses_on p key in
        if length addresses < 2 then []
        else (case ranks of None \<Rightarrow> []
          | Some rs \<Rightarrow> (case first_unordered adj (sort_key (rank_of rs) (sort addresses)) of None \<Rightarrow> []
              | Some (a, b) \<Rightarrow> [violation_at ''unordered_same_issue'' (a @ '' | '' @ b)])))
        (work_keys p)))"

section \<open>Evaluation specifications\<close>

text \<open>
  A parsed specification, as far as the rules read it. \<open>sp_harness\<close> is the repository, its id and
  the installation of a multi-repository harness; \<open>sp_required\<close>, \<open>sp_external\<close>, \<open>sp_workflow\<close> and
  \<open>sp_qualification\<close> are the criteria its mandatory checks cover.
\<close>

record evaluation_spec =
  sp_machine :: bool
  sp_schema :: string
  sp_predecessors :: "(string \<times> int option) list"
  sp_harness :: "string \<times> int option \<times> int option"
  sp_environment :: "string option"
  sp_connection :: string
  sp_runner_repository :: string
  sp_runner_digest :: string
  sp_adapter :: string
  sp_harness_policy :: string
  sp_producer :: bool
  sp_required :: "string list"
  sp_external :: "string list"
  sp_workflow :: "string list"
  sp_qualification :: "string list"

type_synonym spec_parser = "json \<Rightarrow> evaluation_spec option"

definition native_harness_compatible :: "evaluation_spec \<Rightarrow> string \<Rightarrow> bool" where
  "native_harness_compatible sp installed \<longleftrightarrow> sp_runner_digest sp = installed
     \<or> (sp_schema sp = ''repository-evaluation/v1'' \<and> sp_adapter sp = ''engine-repository-evidence-v1''
        \<and> sp_harness_policy sp = ''contract'' \<and> \<not> sp_producer sp)"

definition multi_schema :: string where
  "multi_schema = ''multi-repository-evaluation/v1''"

definition native_schemas :: "string list" where
  "native_schemas = [''repository-evaluation/v1'', ''workflow-evaluation/v1'']"

definition machine_policy :: "execution_policy option \<Rightarrow> string \<Rightarrow> bool" where
  "machine_policy pol a \<longleftrightarrow> (case pol of None \<Rightarrow> False
     | Some q \<Rightarrow> EVALUATE \<in> set (ep_actions q) \<and> map_of (ep_acceptance q) a = Some AmMACHINE)"

text \<open>\<open>{item.address: value for item in nodes}\<close>: the last node with an address wins.\<close>

definition node_at :: "proposal \<Rightarrow> string \<Rightarrow> proposed_node option" where
  "node_at p a = find (\<lambda>n. pn_address n = a) (rev (lp_nodes p))"

definition story_parents :: "proposal \<Rightarrow> string \<Rightarrow> string set" where
  "story_parents p a = {pe_from e | e. e \<in> set (lp_edges p) \<and> pe_to e = a
     \<and> map_option pn_kind (node_at p (pe_from e)) = Some ''story''}"

lemma story_parents_code [code]:
  "story_parents p a = set (map pe_from (filter (\<lambda>e. pe_to e = a
     \<and> map_option pn_kind (node_at p (pe_from e)) = Some ''story'') (lp_edges p)))"
  by (auto simp: story_parents_def)

definition predecessor_violations :: "proposal \<Rightarrow> proposed_node \<Rightarrow> evaluation_spec \<Rightarrow> violation list" where
  "predecessor_violations p n sp =
     (if sp_schema sp \<in> set native_schemas \<or> sp_schema sp = multi_schema then
        (if story_parents p (pn_address n) \<noteq> set (map fst (sp_predecessors sp))
         then [violation_at ''evaluation_predecessor_mismatch'' (pn_address n)] else [])
        @ (if sp_schema sp = multi_schema then
             (case sp_harness sp of (repo, repo_id, installation) \<Rightarrow>
                if pn_repository n \<noteq> Some repo \<or> pn_repository_id n \<noteq> repo_id
                  \<or> pn_installation n = None \<or> pn_installation n \<noteq> installation
                then [violation_at ''evaluation_harness_binding_mismatch'' (pn_address n)] else [])
             @ (if \<exists>item \<in> set (sp_predecessors sp).
                    Option.bind (node_at p (fst item)) pn_repository_id \<noteq> snd item
                then [violation_at ''evaluation_source_repository_mismatch'' (pn_address n)] else [])
           else [])
      else [])"

definition machine_violations :: "proposal \<Rightarrow> proposed_node \<Rightarrow> evaluation_spec \<Rightarrow> violation list" where
  "machine_violations p n sp =
     (if \<not> sp_machine sp then []
      else (case (case lp_policy p of Some q \<Rightarrow> Some q | None \<Rightarrow> lp_proposed_policy p) of
          None \<Rightarrow> [violation_at ''evaluation_policy_mode_mismatch'' (pn_address n)]
        | Some q \<Rightarrow>
            if map_of (ep_acceptance q) (pn_address n) \<noteq> Some AmMACHINE
            then [violation_at ''evaluation_policy_mode_mismatch'' (pn_address n)]
            else if sp_schema sp = multi_schema then
              (if fst (sp_harness sp) \<notin> set (ep_repositories q)
               then [violation_at ''evaluation_repository_not_permitted'' (pn_address n)] else [])
              @ (case sp_environment sp of None \<Rightarrow> []
                 | Some c \<Rightarrow> if c \<notin> set (ep_environments q)
                     then [violation_at ''evaluation_connection_not_permitted'' (pn_address n)] else [])
            else if sp_runner_repository sp \<notin> set (ep_repositories q)
            then [violation_at ''evaluation_repository_not_permitted'' (pn_address n)]
            else if sp_schema sp \<noteq> ''repository-evaluation/v1'' \<and> sp_connection sp \<notin> set (ep_environments q)
            then [violation_at ''evaluation_connection_not_permitted'' (pn_address n)]
            else []))"

definition node_spec_violations ::
    "spec_parser \<Rightarrow> string \<Rightarrow> string set \<Rightarrow> proposal \<Rightarrow> proposed_node \<Rightarrow> violation list" where
  "node_spec_violations parse installed settled p n =
     (let a = pn_address n in
      case pn_evaluation n of
        None \<Rightarrow> if pn_kind n = ''eval'' \<and> machine_policy (lp_policy p) a
                then [violation_at ''evaluation_specification_missing'' a] else []
      | Some doc \<Rightarrow>
          if pn_kind n \<noteq> ''eval'' then [violation_at ''evaluation_node_kind'' a]
          else (case parse doc of
              None \<Rightarrow> [violation_at ''evaluation_specification_invalid'' a]
            | Some sp \<Rightarrow>
                (if machine_policy (lp_policy p) a \<and> \<not> sp_machine sp
                 then [violation_at ''evaluation_policy_mode_mismatch'' a] else [])
                @ (if sp_schema sp \<in> set native_schemas \<and> a \<notin> settled
                     \<and> \<not> native_harness_compatible sp installed
                   then [violation_at ''evaluation_harness_mismatch'' a] else [])
                @ predecessor_violations p n sp @ machine_violations p n sp))"

definition check_evaluation_specs :: "spec_parser \<Rightarrow> string \<Rightarrow> string set \<Rightarrow> proposal \<Rightarrow> violation list" where
  "check_evaluation_specs parse installed settled p =
     concat (map (node_spec_violations parse installed settled p) (lp_nodes p))"

section \<open>Criteria and their evidence\<close>

definition parents_in :: "string adj \<Rightarrow> string \<Rightarrow> string list" where
  "parents_in adj a = filter (\<lambda>k. a \<in> set (succs adj k)) (keys_of adj)"

lemma set_parents_in: "set (parents_in adj a) = {u. (u, a) \<in> before adj}"
  using succs_key by (fastforce simp: parents_in_def)

text \<open>The search upstream of an evaluation for a gate in its own wave.\<close>

definition same_wave_gate :: "proposal \<Rightarrow> string \<Rightarrow> string \<Rightarrow> bool" where
  "same_wave_gate p wave a \<longleftrightarrow>
     (case node_at p a of None \<Rightarrow> False | Some n \<Rightarrow> pn_kind n = ''gate'' \<and> starts (wave @ ''/'') a)"

function behind_gate :: "(string \<Rightarrow> bool) \<Rightarrow> string adj \<Rightarrow> string set \<Rightarrow> string list \<Rightarrow> bool" where
  "behind_gate gate adj seen [] = False"
| "behind_gate gate adj seen (a # pending) =
     (if a \<in> seen then behind_gate gate adj seen pending
      else if gate a then True
      else behind_gate gate adj (insert a seen) (rev (parents_in adj a) @ pending))"
  by pat_completeness auto

lemma behind_gate_measure:
  assumes "a \<notin> seen"
  shows "card (set (keys_of adj) \<union> set (rev (parents_in adj a) @ pending) - insert a seen)
       < card (set (keys_of adj) \<union> set (a # pending) - seen)"
  using assms by (intro psubset_card_mono) (auto simp: parents_in_def)

termination behind_gate
proof (relation "inv_image (less_than <*lex*> less_than)
    (\<lambda>(gate, adj, seen, pending). (card (set (keys_of adj) \<union> set pending - seen), length pending))")
  fix gate :: "string \<Rightarrow> bool" and adj seen a pending
  have "card (set (keys_of adj) \<union> set pending - seen) \<le> card (set (keys_of adj) \<union> set (a # pending) - seen)"
    by (rule card_mono) auto
  then show "((gate, adj, seen, pending), gate, adj, seen, a # pending) \<in> inv_image (less_than <*lex*> less_than)
    (\<lambda>(gate, adj, seen, pending). (card (set (keys_of adj) \<union> set pending - seen), length pending))"
    by (simp add: le_less)
qed (use behind_gate_measure in auto)

definition operating :: "proposed_node \<Rightarrow> bool" where
  "operating n \<longleftrightarrow> pn_kind n = ''story'' \<and> pn_role n = Some ''operate''"

definition name_shape :: "nat option \<Rightarrow> string \<Rightarrow> string \<Rightarrow> bool" where
  "name_shape bound extra s \<longleftrightarrow> (case s of [] \<Rightarrow> False
     | c # cs \<Rightarrow> alnum c \<and> list_all (\<lambda>x. alnum x \<or> x \<in> set extra) cs
         \<and> (case bound of None \<Rightarrow> True | Some k \<Rightarrow> length cs \<le> k))"

text \<open>\<open>[A-Za-z0-9][A-Za-z0-9_.-]*\.ya?ml\<close>, in full.\<close>

definition workflow_name :: "string \<Rightarrow> bool" where
  "workflow_name s \<longleftrightarrow> list_ex (\<lambda>ext. length ext < length s \<and> drop (length s - length ext) s = ext
     \<and> name_shape None ''_.-'' (take (length s - length ext) s)) [''.yml'', ''.yaml'']"

definition operate_source :: "string \<Rightarrow> bool" where
  "operate_source s \<longleftrightarrow>
     (starts ''deployment_workflow:'' s \<and> workflow_name (drop 20 s))
     \<or> list_ex (\<lambda>pre. starts pre s \<and> length (drop (length pre) s) = 40
          \<and> list_all (\<lambda>c. c \<in> set ''0123456789abcdef'') (drop (length pre) s))
        [''deployment_source_revision:'', ''deployment_definition_revision:'']
     \<or> (starts ''deployment_branch:'' s \<and> name_shape (Some 127) ''_-'' (drop 18 s))"

definition input_violations :: "proposed_node \<Rightarrow> violation list" where
  "input_violations n = concat (map (\<lambda>i.
     if operating n \<and> operate_source (ni_source i) then []
     else if list_ex (\<lambda>pre. starts pre (ni_source i)) [''environment:'', ''environment_connection:'', ''repository:'', ''node:'']
     then [] else [violation_at ''required_input_source_unsupported'' (pn_address n)]) (pn_inputs n))"

definition release_violations :: "string adj \<Rightarrow> proposed_node \<Rightarrow> violation list" where
  "release_violations adj n =
     (case pn_release n of None \<Rightarrow> []
      | Some b \<Rightarrow>
          let sources = map ni_source (pn_inputs n);
              workflows = set (map (drop 20) (filter (starts ''deployment_workflow:'') sources)) in
          if \<not> operating n \<or> Some (rb_repository b) \<noteq> pn_repository n
            \<or> list_ex (\<lambda>s. list_ex (\<lambda>pre. starts pre s)
                [''deployment_source_revision:'', ''deployment_definition_revision:'', ''deployment_branch:'']) sources
            \<or> workflows \<noteq> set (rb_workflows b)
            \<or> \<not> list_all (\<lambda>a. ''node:'' @ a \<in> set sources \<and> reaches adj a (pn_address n)) (rb_predecessors b)
          then [violation_at ''operational_release_binding_invalid'' (pn_address n)] else [])"

definition covered_criteria :: "evaluation_spec \<Rightarrow> string set" where
  "covered_criteria sp = set (sp_required sp) \<union> set (sp_external sp) \<union> set (map fst (sp_predecessors sp))
     \<union> set (sp_workflow sp) \<union> set (sp_qualification sp)"

definition producer_violations :: "spec_parser \<Rightarrow> proposed_node \<Rightarrow> violation list" where
  "producer_violations parse n =
     (let a = pn_address n; eval = pn_kind n = ''eval'' in
      (if eval \<and> (pn_criteria n \<noteq> [] \<or> pn_evidence n \<noteq> []) \<and> pn_evaluation n = None
       then [violation_at ''criterion_producer_missing'' a] else [])
      @ (if pn_kind n = ''gate'' \<and> pn_criteria n \<noteq> [] then [violation_at ''criterion_producer_missing'' a] else [])
      @ (if eval \<and> pn_evaluation n \<noteq> None then
           (case parse (the (pn_evaluation n)) of None \<Rightarrow> []
            | Some sp \<Rightarrow>
                (if \<not> set (pn_criteria n) \<subseteq> covered_criteria sp
                 then [violation_at ''criterion_producer_missing'' a] else [])
                @ (if ''trusted-live-observation'' \<in> set (pn_evidence n)
                     \<and> (sp_schema sp \<in> set native_schemas \<or> sp_schema sp = multi_schema)
                   then [violation_at ''evidence_expectation_unsupported'' a] else []))
         else []))"

definition allowed_expectations :: "proposed_node \<Rightarrow> string list" where
  "allowed_expectations n =
     (if operating n \<and> list_ex (starts ''runtime_verified:'') (pn_evidence n) then []
      else if pn_kind n = ''story'' then [''verified-merge'']
      else if pn_kind n = ''eval'' then [''trusted-evaluation'', ''trusted-live-observation'']
      else if pn_kind n = ''gate'' then [''human-approval''] else [])"

definition expectation_violations :: "proposed_node \<Rightarrow> violation list" where
  "expectation_violations n = concat (map (\<lambda>x.
     if operating n \<and> starts ''runtime_verified:'' x \<and> name_shape (Some 127) ''_.-'' (drop 17 x) then []
     else if x \<notin> set (allowed_expectations n)
     then [violation_at ''evidence_expectation_unsupported'' (pn_address n)] else []) (pn_evidence n))"

definition wave_prefix :: "string \<Rightarrow> string" where
  "wave_prefix a = joined ''/'' (take 3 (split_on (CHR ''/'') a))"

definition gate_violations :: "string adj \<Rightarrow> proposal \<Rightarrow> proposed_node \<Rightarrow> violation list" where
  "gate_violations adj p n =
     (if pn_kind n = ''eval'' \<and> (pn_criteria n \<noteq> [] \<or> pn_evidence n \<noteq> [])
        \<and> behind_gate (same_wave_gate p (wave_prefix (pn_address n))) adj {} (rev (parents_in adj (pn_address n)))
      then [violation_at ''validation_behind_result_gate'' (pn_address n)] else [])"

definition check_criterion_coverage :: "listing \<Rightarrow> spec_parser \<Rightarrow> proposal \<Rightarrow> violation list" where
  "check_criterion_coverage listing parse p =
     (let adj = resolvable_adjacency listing p in
      concat (map (\<lambda>n. input_violations n @ release_violations adj n @ producer_violations parse n
          @ expectation_violations n @ gate_violations adj p n) (lp_nodes p))
      @ concat (map (\<lambda>c. if 1 < length (filter (\<lambda>x. x = c) (concat (map pn_criteria (lp_nodes p))))
           then [violation_at ''criterion_producer_ambiguous'' c] else [])
         (sort (remdups (concat (map pn_criteria (lp_nodes p)))))))"

section \<open>Display metadata and labels\<close>

fun repeated_and_unknown :: "string \<Rightarrow> string \<Rightarrow> ('k \<Rightarrow> string) \<Rightarrow> 'k set \<Rightarrow> 'k list \<Rightarrow> 'k list \<Rightarrow> violation list" where
  "repeated_and_unknown dup unk text known seen [] = []"
| "repeated_and_unknown dup unk text known seen (k # ks) =
     (if k \<in> set seen then [violation_at dup (text k)] else [])
     @ (if k \<notin> known then [violation_at unk (text k)] else [])
     @ repeated_and_unknown dup unk text known (k # seen) ks"

definition check_display_metadata :: "proposal \<Rightarrow> violation list" where
  "check_display_metadata p =
     (let waves = set (List.map_filter wave_of (lp_nodes p)) in
      repeated_and_unknown ''duplicate_epic_metadata'' ''unknown_epic_metadata'' id (fst ` waves) [] (lp_epics p)
      @ repeated_and_unknown ''duplicate_wave_metadata'' ''unknown_wave_metadata'' (\<lambda>(e, w). e @ ''/'' @ w)
          waves [] (lp_waves p))"

text \<open>The controlled vocabulary of \<open>lineage_vocabulary.yaml\<close>.\<close>

definition label_keys :: "string list" where
  "label_keys = [''source'', ''component'', ''workstream'', ''domain'', ''priority'', ''product'', ''initiative'',
     ''repository'', ''stage'', ''scope'', ''tracking'', ''experiment'', ''team'', ''cohort'', ''risk'', ''delivery'']"

definition check_node_metadata :: "proposal \<Rightarrow> violation list" where
  "check_node_metadata p = concat (map (\<lambda>n.
     (case pn_lineage n of None \<Rightarrow> []
      | Some vs \<Rightarrow> if list_ex (\<lambda>v. case v of None \<Rightarrow> False | Some s \<Rightarrow> blank s \<or> 128 < length s) vs
          then [violation_at ''lineage_invalid'' (pn_address n)] else [])
     @ (if 16 < length (pn_labels n) then [violation_at ''labels_too_many'' (pn_address n)] else [])
     @ concat (map (\<lambda>(k, v).
         (if k = [] \<or> 32 < length k \<or> k \<notin> set label_keys then [violation_at ''label_key_unknown'' (pn_address n)] else [])
         @ (if blank v \<or> 128 < length v then [violation_at ''labels_invalid'' (pn_address n)] else []))
         (pn_labels n))) (lp_nodes p))"

section \<open>All rules\<close>

definition validate_proposal ::
    "listing \<Rightarrow> spec_parser \<Rightarrow> string \<Rightarrow> string set \<Rightarrow> proposal \<Rightarrow> violation list" where
  "validate_proposal listing parse installed settled p =
     check_declarations p @ check_node_metadata p @ check_evaluation_specs parse installed settled p
     @ check_addresses p @ check_display_metadata p @ check_kinds p @ check_edges listing p
     @ check_wave_evals p @ check_same_issue_ordering listing p @ check_criterion_coverage listing parse p"

end
