(* ===== verification/Proposal_Properties.thy ===== *)
theory Proposal_Properties
  imports Loop_Proposal
begin

text \<open>
  What a proposal without violations is: its dependency graph is the one its edges and inputs
  declare and has an order, the order of two nodes on one issue is decided, and no evaluation waits
  behind a gate of its own wave. The rules decide this exactly, whatever order Python enumerates a
  set in.
\<close>

section \<open>The graph a proposal declares\<close>

definition depends :: "proposal \<Rightarrow> (string \<times> string) set" where
  "depends p = set (plan_edges p) \<union> set (input_edges p)"

lemma keys_add_successor [simp]: "keys_of (add_successor u v adj) = keys_of adj"
  by (induction adj) (auto simp: add_successor_def keys_of_def)

lemma map_of_add_successor:
  "map_of (add_successor u v adj) k
     = (if k = u then map_option (\<lambda>vs. vs @ [v]) (map_of adj u) else map_of adj k)"
  by (induction adj) (auto simp: add_successor_def)

lemma keys_map_of: "k \<in> set (keys_of adj) \<longleftrightarrow> map_of adj k \<noteq> None"
  by (simp add: keys_of_def map_of_eq_None_iff)

lemma succs_add_successor:
  "succs (add_successor u v adj) k
     = (if k = u \<and> u \<in> set (keys_of adj) then succs adj u @ [v] else succs adj k)"
  by (cases "map_of adj u") (auto simp: succs_def map_of_add_successor keys_map_of split: option.splits)

lemma fold_successors:
  "set (map fst es) \<subseteq> set (keys_of adj) \<Longrightarrow>
     keys_of (fold (\<lambda>(u, v) a. add_successor u v a) es adj) = keys_of adj
     \<and> before (fold (\<lambda>(u, v) a. add_successor u v a) es adj) = before adj \<union> set es"
proof (induction es arbitrary: adj)
  case Nil
  then show ?case by simp
next
  case (Cons e es)
  obtain u v where e: "e = (u, v)" by force
  have "set (map fst es) \<subseteq> set (keys_of (add_successor u v adj))" using Cons.prems by auto
  moreover have "before (add_successor u v adj) = insert (u, v) (before adj)"
    using Cons.prems e by (auto simp: before_def succs_add_successor split: if_splits)
  ultimately show ?case using Cons.IH [of "add_successor u v adj"] e by auto
qed

lemma edges_declared:
  "(u, v) \<in> depends p \<Longrightarrow> u \<in> set (declared p) \<and> v \<in> set (declared p)"
  by (auto simp: depends_def plan_edges_def input_edges_def Let_def declared_def split: if_splits)

lemma adjacency:
  assumes "set_order listing"
  shows "keys_of (resolvable_adjacency listing p) = listing (declared p)"
    and "before (resolvable_adjacency listing p) = depends p"
    and "closed_adj (resolvable_adjacency listing p)"
proof -
  let ?base = "map (\<lambda>a. (a, [])) (listing (declared p)) :: string adj"
  have base: "keys_of ?base = listing (declared p)" by (simp add: keys_of_def comp_def)
  have "succs ?base k = []" for k
    using succs_targets [of _ ?base k] by (cases "succs ?base k") (auto simp: targets_of_def)
  then have none: "before ?base = {}" by (simp add: before_def)
  have "set (map fst (plan_edges p @ input_edges p)) \<subseteq> set (keys_of ?base)"
    using edges_declared assms by (force simp: base depends_def set_order_def)
  from fold_successors [OF this]
  show k: "keys_of (resolvable_adjacency listing p) = listing (declared p)"
    and b: "before (resolvable_adjacency listing p) = depends p"
    unfolding resolvable_adjacency_def base none by (auto simp: depends_def)
  have "targets_of adj \<subseteq> snd ` before adj" if "distinct (keys_of adj)" for adj :: "string adj"
  proof
    fix v assume "v \<in> targets_of adj"
    then obtain q where "q \<in> set adj" "v \<in> set (snd q)" by (auto simp: targets_of_def)
    then have "(fst q, v) \<in> before adj" using succs_entry [OF that] by simp
    then show "v \<in> snd ` before adj" by (metis image_eqI snd_conv)
  qed
  from this [of "resolvable_adjacency listing p"]
  show "closed_adj (resolvable_adjacency listing p)"
    using edges_declared assms unfolding closed_adj_def k b set_order_def by fastforce
qed

section \<open>Rule 3\<close>

lemma check_edges_nil:
  assumes "set_order listing"
  shows "check_edges listing p = [] \<longleftrightarrow>
    (\<forall>e \<in> set (lp_edges p). pe_from e \<in> set (declared p) \<and> pe_to e \<in> set (declared p) \<and> pe_from e \<noteq> pe_to e)
    \<and> acyclic (depends p)"
  unfolding check_edges_def
  using cycles.cycle_iff [of "resolvable_adjacency listing p"] adjacency(2) [OF assms, of p]
  by (auto split: option.splits)

section \<open>Rule 6\<close>

lemma first_unordered_None:
  "first_unordered adj xs = None \<longleftrightarrow> successively (\<lambda>a b. (a, b) \<in> (before adj)\<^sup>*) xs"
  by (induction adj xs rule: first_unordered.induct) (auto simp: reaches_iff)

text \<open>
  Along a chain sorted by rank, consecutive reachability is an order of every pair, and a gap is a
  pair without an order.
\<close>

lemma chain_all_pairs:
  "successively (\<lambda>a b. (a, b) \<in> r\<^sup>*) xs \<Longrightarrow> a \<in> set xs \<Longrightarrow> b \<in> set xs \<Longrightarrow> (a, b) \<in> r\<^sup>* \<or> (b, a) \<in> r\<^sup>*"
proof -
  assume s: "successively (\<lambda>a b. (a, b) \<in> r\<^sup>*) xs" and ab: "a \<in> set xs" "b \<in> set xs"
  have "sorted_wrt (\<lambda>a b. (a, b) \<in> r\<^sup>*) xs"
    using s by (subst successively_conv_sorted_wrt [symmetric]) (auto simp: transp_def intro: rtrancl_trans)
  then show ?thesis using ab
  proof (induction xs)
    case (Cons x xs)
    then show ?case by auto
  qed simp
qed

lemma ranked_chain:
  assumes adj: "closed_adj adj" and rs: "topological_ranks adj = Some rs"
    and keys: "set xs \<subseteq> set (keys_of adj)"
    and pairs: "\<And>a b. a \<in> set xs \<Longrightarrow> b \<in> set xs \<Longrightarrow> (a, b) \<in> (before adj)\<^sup>* \<or> (b, a) \<in> (before adj)\<^sup>*"
  shows "successively (\<lambda>a b. (a, b) \<in> (before adj)\<^sup>*) (sort_key (rank_of rs) xs)"
proof -
  have ranked: "\<exists>i. map_of rs a = Some i" if "a \<in> set (keys_of adj)" for a
    using ranks.rank_keys [OF adj rs, of a] that by auto
  have le: "(a, b) \<in> (before adj)\<^sup>*"
    if ab: "a \<in> set xs" "b \<in> set xs" "rank_of rs a \<le> rank_of rs b" for a b
  proof (rule ccontr)
    assume no: "(a, b) \<notin> (before adj)\<^sup>*"
    then have ba: "(b, a) \<in> (before adj)\<^sup>*" and ne: "a \<noteq> b" using pairs ab by auto
    then obtain c where c: "(b, c) \<in> before adj" "(c, a) \<in> (before adj)\<^sup>*" by (blast elim: converse_rtranclE)
    have "c \<in> set (keys_of adj)" using c(1) adj succs_targets by (fastforce simp: closed_adj_def)
    from ranked [OF this] obtain k where k: "map_of rs c = Some k" ..
    have "a \<in> set (keys_of adj)" "b \<in> set (keys_of adj)" using keys ab by auto
    then obtain i j where "map_of rs a = Some i" "map_of rs b = Some j" using ranked by metis
    note i = this k
    have "j < k" using ranks.rank_before [OF adj rs c(1) i(2,3)] .
    moreover have "k \<le> i" using ranks.rank_path [OF adj rs c(2) i(3,1)] .
    ultimately show False using ab(3) i by (simp add: rank_of_def)
  qed
  have "sorted_wrt (\<lambda>a b. rank_of rs a \<le> rank_of rs b) (sort_key (rank_of rs) xs)"
    using sorted_sort_key [of "rank_of rs" xs] by (simp add: sorted_map)
  then have "sorted_wrt (\<lambda>a b. (a, b) \<in> (before adj)\<^sup>*) (sort_key (rank_of rs) xs)"
    by (rule sorted_wrt_mono_rel [rotated]) (auto intro: le)
  then show ?thesis
    by (rule successively_if_sorted_wrt)
qed

lemma set_map_filter: "set (List.map_filter f xs) = {y. \<exists>x \<in> set xs. f x = Some y}"
  by (force simp: List.map_filter_def image_iff)

lemma set_work_keys: "set (work_keys p) = {k. \<exists>n \<in> set (lp_nodes p). work_key n = Some k}"
  by (simp add: work_keys_def set_map_filter)

text \<open>Two nodes on one issue, and the order between them.\<close>

definition issues_ordered :: "proposal \<Rightarrow> bool" where
  "issues_ordered p \<longleftrightarrow> (\<forall>n \<in> set (lp_nodes p). \<forall>m \<in> set (lp_nodes p).
     work_key n \<noteq> None \<and> work_key n = work_key m \<longrightarrow>
       (pn_address n, pn_address m) \<in> (depends p)\<^sup>* \<or> (pn_address m, pn_address n) \<in> (depends p)\<^sup>*)"

lemma one_key_ordered:
  assumes l: "set_order listing" and rs: "topological_ranks (resolvable_adjacency listing p) = Some rs"
  shows "first_unordered (resolvable_adjacency listing p) (sort_key (rank_of rs) (sort (addresses_on p k))) = None
    \<longleftrightarrow> (\<forall>a \<in> set (addresses_on p k). \<forall>b \<in> set (addresses_on p k).
          (a, b) \<in> (depends p)\<^sup>* \<or> (b, a) \<in> (depends p)\<^sup>*)"
proof -
  let ?adj = "resolvable_adjacency listing p"
  have keys: "set (sort (addresses_on p k)) \<subseteq> set (keys_of ?adj)"
    using l by (auto simp: adjacency(1) [OF l] set_order_def addresses_on_def declared_def)
  show ?thesis
    unfolding first_unordered_None adjacency(2) [OF l]
    using ranked_chain [OF adjacency(3) [OF l] rs keys, unfolded adjacency(2) [OF l]]
      chain_all_pairs [of "depends p" "sort_key (rank_of rs) (sort (addresses_on p k))"]
    by auto
qed

lemma same_issue_nil:
  assumes l: "set_order listing" and ac: "acyclic (depends p)"
  shows "check_same_issue_ordering listing p = [] \<longleftrightarrow> issues_ordered p"
proof -
  let ?adj = "resolvable_adjacency listing p"
  obtain rs where rs: "topological_ranks ?adj = Some rs"
    using ranks.rank_None [OF adjacency(3) [OF l], of p] ac adjacency(2) [OF l, of p]
    by (cases "topological_ranks ?adj") auto
  have each: "(if length (addresses_on p k) < 2 then []
      else (case first_unordered ?adj (sort_key (rank_of rs) (sort (addresses_on p k))) of None \<Rightarrow> []
            | Some (a, b) \<Rightarrow> [violation_at ''unordered_same_issue'' (a @ '' | '' @ b)])) = []
    \<longleftrightarrow> (\<forall>a \<in> set (addresses_on p k). \<forall>b \<in> set (addresses_on p k).
          (a, b) \<in> (depends p)\<^sup>* \<or> (b, a) \<in> (depends p)\<^sup>*)" for k
  proof (cases "length (addresses_on p k) < 2")
    case True
    then have "a = b" if "a \<in> set (addresses_on p k)" "b \<in> set (addresses_on p k)" for a b
      using that by (cases "addresses_on p k") (auto simp: numeral_2_eq_2 less_Suc_eq)
    then show ?thesis using True by auto
  next
    case False
    then show ?thesis using one_key_ordered [OF l rs, of k] by (auto split: option.splits)
  qed
  have "check_same_issue_ordering listing p = [] \<longleftrightarrow> (\<forall>k \<in> set (work_keys p).
      \<forall>a \<in> set (addresses_on p k). \<forall>b \<in> set (addresses_on p k).
        (a, b) \<in> (depends p)\<^sup>* \<or> (b, a) \<in> (depends p)\<^sup>*)"
    unfolding check_same_issue_ordering_def Let_def rs option.case concat_eq_Nil_conv
    using each by (auto simp only: set_map ball_simps)
  also have "\<dots> \<longleftrightarrow> issues_ordered p"
    (is "?L = _")
  proof
    assume all: ?L
    show "issues_ordered p"
      unfolding issues_ordered_def
    proof (intro ballI impI)
      fix n m assume nm: "n \<in> set (lp_nodes p)" "m \<in> set (lp_nodes p)"
        and k: "work_key n \<noteq> None \<and> work_key n = work_key m"
      from k obtain i where "work_key n = Some i" by blast
      with k have "work_key n = Some i" "work_key m = Some i" by simp_all
      then obtain k where k: "work_key n = Some k" "work_key m = Some k" by blast
      then have "k \<in> set (work_keys p)" "pn_address n \<in> set (addresses_on p k)" "pn_address m \<in> set (addresses_on p k)"
        using nm by (auto simp: set_work_keys addresses_on_def)
      with all show "(pn_address n, pn_address m) \<in> (depends p)\<^sup>* \<or> (pn_address m, pn_address n) \<in> (depends p)\<^sup>*"
        by blast
    qed
  next
    assume ord: "issues_ordered p"
    show ?L
    proof (intro ballI)
      fix k a b assume "a \<in> set (addresses_on p k)" "b \<in> set (addresses_on p k)"
      then obtain n m where "n \<in> set (lp_nodes p)" "m \<in> set (lp_nodes p)" "work_key n = Some k" "work_key m = Some k"
        "a = pn_address n" "b = pn_address m" by (auto simp: addresses_on_def)
      then show "(a, b) \<in> (depends p)\<^sup>* \<or> (b, a) \<in> (depends p)\<^sup>*"
        using ord by (simp add: issues_ordered_def)
    qed
  qed
  finally show ?thesis .
qed

section \<open>The gate search\<close>

lemma behind_gate_sound:
  "behind_gate gate adj seen pending \<Longrightarrow> \<exists>a x. gate a \<and> x \<in> set pending \<and> (a, x) \<in> (before adj)\<^sup>*"
proof (induction gate adj seen pending rule: behind_gate.induct)
  case (1 gate adj seen)
  then show ?case by simp
next
  case (2 gate adj seen a pending)
  show ?case
  proof (cases "a \<in> seen")
    case True
    with 2 show ?thesis by auto
  next
    case False
    show ?thesis
    proof (cases "gate a")
      case True
      then show ?thesis by (intro exI [of _ a]) auto
    next
      case no: False
      with 2(2) [OF False no] 2(3) False obtain b x where b: "gate b" "(b, x) \<in> (before adj)\<^sup>*"
        "x \<in> set (rev (parents_in adj a) @ pending)" by auto
      show ?thesis
      proof (cases "x \<in> set pending")
        case True
        with b show ?thesis by auto
      next
        case False
        with b(3) have "(x, a) \<in> before adj" using set_parents_in [of adj a] by auto
        with b show ?thesis by (meson list.set_intros(1) rtrancl.rtrancl_into_rtrancl)
      qed
    qed
  qed
qed

lemma behind_gate_complete:
  "\<not> behind_gate gate adj seen pending \<Longrightarrow> \<forall>x \<in> seen. \<not> gate x
     \<Longrightarrow> \<forall>x \<in> seen. {u. (u, x) \<in> before adj} \<subseteq> seen \<union> set pending
     \<Longrightarrow> \<exists>S. seen \<union> set pending \<subseteq> S \<and> (\<forall>x \<in> S. \<not> gate x \<and> {u. (u, x) \<in> before adj} \<subseteq> S)"
proof (induction gate adj seen pending rule: behind_gate.induct)
  case (1 gate adj seen)
  then show ?case by (intro exI [of _ seen]) auto
next
  case (2 gate adj seen a pending)
  show ?case
  proof (cases "a \<in> seen")
    case True
    with 2 show ?thesis by (auto simp: insert_absorb)
  next
    case False
    then have no: "\<not> gate a" using 2(3) by auto
    have rest: "\<not> behind_gate gate adj (insert a seen) (rev (parents_in adj a) @ pending)"
      using 2(3) False no by simp
    have "\<forall>x \<in> insert a seen. {u. (u, x) \<in> before adj} \<subseteq> insert a seen \<union> set (rev (parents_in adj a) @ pending)"
      using 2(5) set_parents_in [of adj a] by auto
    then obtain S where "insert a seen \<union> set (rev (parents_in adj a) @ pending) \<subseteq> S"
      "\<forall>x \<in> S. \<not> gate x \<and> {u. (u, x) \<in> before adj} \<subseteq> S"
      using 2(2) [OF False no rest] 2(4) no by blast
    then show ?thesis by (intro exI [of _ S]) auto
  qed
qed

lemma behind_gate_iff:
  "behind_gate gate adj {} (rev (parents_in adj a)) \<longleftrightarrow> (\<exists>g. gate g \<and> (g, a) \<in> (before adj)\<^sup>+)"
proof
  assume "behind_gate gate adj {} (rev (parents_in adj a))"
  from behind_gate_sound [OF this] obtain g x where "gate g" "x \<in> set (parents_in adj a)" "(g, x) \<in> (before adj)\<^sup>*"
    by auto
  moreover from this have "(x, a) \<in> before adj" using set_parents_in [of adj a] by blast
  ultimately show "\<exists>g. gate g \<and> (g, a) \<in> (before adj)\<^sup>+" by (meson rtrancl_into_trancl1)
next
  assume "\<exists>g. gate g \<and> (g, a) \<in> (before adj)\<^sup>+"
  then obtain g where g: "gate g" "(g, a) \<in> (before adj)\<^sup>+" by blast
  show "behind_gate gate adj {} (rev (parents_in adj a))"
  proof (rule ccontr)
    assume "\<not> behind_gate gate adj {} (rev (parents_in adj a))"
    from behind_gate_complete [OF this] obtain S where S: "set (parents_in adj a) \<subseteq> S"
      "\<forall>x \<in> S. \<not> gate x \<and> {u. (u, x) \<in> before adj} \<subseteq> S" by auto
    obtain y where y: "(y, a) \<in> before adj" "(g, y) \<in> (before adj)\<^sup>*" using g(2) by (meson tranclD2)
    have "y \<in> S" using y(1) S(1) set_parents_in [of adj a] by auto
    with y(2) have "g \<in> S"
    proof (induction rule: converse_rtrancl_induct)
      case (step u v)
      then show ?case using S(2) by blast
    qed
    with S(2) g(1) show False by blast
  qed
qed

lemma gate_violations_nil:
  assumes "set_order listing"
  shows "gate_violations (resolvable_adjacency listing p) p n = [] \<longleftrightarrow>
    (pn_kind n = ''eval'' \<and> (pn_criteria n \<noteq> [] \<or> pn_evidence n \<noteq> []) \<longrightarrow>
      \<not> (\<exists>g. same_wave_gate p (wave_prefix (pn_address n)) g \<and> (g, pn_address n) \<in> (depends p)\<^sup>+))"
  by (auto simp: gate_violations_def behind_gate_iff adjacency(2) [OF assms])

lemma release_violations_graph:
  assumes "set_order listing" "set_order listing'"
  shows "release_violations (resolvable_adjacency listing p) n = release_violations (resolvable_adjacency listing' p) n"
proof -
  have "reaches (resolvable_adjacency listing p) = reaches (resolvable_adjacency listing' p)"
    by (intro ext) (simp add: reaches_iff adjacency(2) [OF assms(1)] adjacency(2) [OF assms(2)])
  then show ?thesis by (simp only: release_violations_def)
qed

lemma coverage_graph:
  assumes "set_order listing" "set_order listing'"
  shows "check_criterion_coverage listing parse p = check_criterion_coverage listing' parse p"
proof -
  have "gate_violations (resolvable_adjacency listing p) p = gate_violations (resolvable_adjacency listing' p) p"
    by (intro ext) (simp add: gate_violations_def behind_gate_iff adjacency(2) [OF assms(1)] adjacency(2) [OF assms(2)])
  moreover have "release_violations (resolvable_adjacency listing p) = release_violations (resolvable_adjacency listing' p)"
    by (intro ext release_violations_graph assms)
  ultimately show ?thesis by (simp only: check_criterion_coverage_def Let_def)
qed

section \<open>Rules 1, 2 and 4\<close>

lemma check_addresses_nil:
  "check_addresses_from slug seen ns = [] \<longleftrightarrow>
     distinct (map pn_address ns) \<and> set (map pn_address ns) \<inter> set seen = {}
     \<and> (\<forall>n \<in> set ns. address_matches (pn_address n) \<and> takeWhile (\<lambda>c. c \<noteq> CHR ''/'') (pn_address n) = slug)"
  by (induction slug seen ns rule: check_addresses_from.induct) (auto simp: Let_def)

lemma flow_of_segments: "segment f \<Longrightarrow> takeWhile (\<lambda>c. c \<noteq> CHR ''/'') (f @ ''/'' @ r) = f"
proof -
  assume "segment f"
  then have "\<forall>c \<in> set f. c \<noteq> CHR ''/''" using segment_chars [of f] by metis
  then show ?thesis by (simp add: takeWhile_append2)
qed

lemma address_parts:
  assumes m: "address_matches a" and slug: "takeWhile (\<lambda>c. c \<noteq> CHR ''/'') a = slug"
  shows "\<exists>e w k. split_address a = Some (slug, e, w, k)"
proof -
  obtain f e w k where s: "split_address a = Some (f, e, w, k)" using matches_split [OF m] by blast
  then have a: "a = f @ ''/'' @ e @ ''/'' @ w @ ''/'' @ k" and f: "segment f" unfolding split_address_iff by blast+
  have "slug = f" using flow_of_segments [OF f, of "e @ ''/'' @ w @ ''/'' @ k"] a slug by metis
  with s show ?thesis by blast
qed

lemma check_kinds_nil:
  "check_kinds p = [] \<longleftrightarrow> (\<forall>n \<in> set (lp_nodes p). pn_kind n \<in> {''story'', ''eval'', ''gate''})"
proof -
  have "check_kinds p = [] \<longleftrightarrow> (\<forall>n \<in> set (lp_nodes p). pn_kind n \<in> set executable_kinds)"
    unfolding check_kinds_def concat_eq_Nil_conv set_map ball_simps by (simp split: if_split)
  then show ?thesis by (simp only: executable_kinds_def list.set)
qed

lemma kind_count_pos: "kind_count p kind key \<noteq> 0 \<longleftrightarrow>
    (\<exists>n \<in> set (lp_nodes p). wave_of n = Some key \<and> pn_kind n = kind)"
  by (auto simp: kind_count_def filter_empty_conv)

lemma check_wave_evals_nil:
  "check_wave_evals p = [] \<longleftrightarrow>
     (\<forall>key. kind_count p ''story'' key \<noteq> 0 \<longrightarrow> kind_count p ''eval'' key = 1)"
proof -
  have "check_wave_evals p = [] \<longleftrightarrow> (\<forall>key \<in> {k. \<exists>n \<in> set (lp_nodes p). wave_of n = Some k}.
      kind_count p ''story'' key \<noteq> 0 \<longrightarrow> kind_count p ''eval'' key = 1)"
    by (auto simp: check_wave_evals_def set_map_filter split: if_splits)
  also have "\<dots> \<longleftrightarrow> (\<forall>key. kind_count p ''story'' key \<noteq> 0 \<longrightarrow> kind_count p ''eval'' key = 1)"
    using kind_count_pos [of p "''story''"] by blast
  finally show ?thesis .
qed

section \<open>What validation decides\<close>

lemma validate_nil:
  assumes "set_order listing"
  shows "validate_proposal listing parse installed settled p = [] \<longleftrightarrow>
    check_declarations p = [] \<and> check_node_metadata p = []
    \<and> check_evaluation_specs parse installed settled p = [] \<and> check_addresses p = []
    \<and> check_display_metadata p = [] \<and> check_kinds p = []
    \<and> (\<forall>e \<in> set (lp_edges p). pe_from e \<in> set (declared p) \<and> pe_to e \<in> set (declared p) \<and> pe_from e \<noteq> pe_to e)
    \<and> acyclic (depends p) \<and> check_wave_evals p = [] \<and> issues_ordered p
    \<and> check_criterion_coverage listing parse p = []"
  unfolding validate_proposal_def using check_edges_nil [OF assms] same_issue_nil [OF assms] by auto

text \<open>
  The verdict on a plan does not depend on the order in which Python enumerates the set of its
  addresses, although the cycle that is named may.
\<close>

theorem verdict_ignores_set_order:
  assumes "set_order listing" "set_order listing'"
  shows "validate_proposal listing parse installed settled p = []
    \<longleftrightarrow> validate_proposal listing' parse installed settled p = []"
  unfolding validate_nil [OF assms(1)] validate_nil [OF assms(2)] coverage_graph [OF assms, of parse p] by simp

text \<open>
  C27: A plan that passes validation can be executed as written: every address is unique, well-formed
  and of this flow, every node is a story, an evaluation or a gate, every edge joins two different
  declared nodes, the dependencies through edges and inputs have no cycle, every wave with stories
  has exactly one evaluation, two nodes on one issue are ordered, and no evaluation with criteria
  waits for a gate of its own wave.
\<close>

theorem validated_plan_is_executable:
  assumes "set_order listing" "validate_proposal listing parse installed settled p = []"
  shows "distinct (declared p) \<and> declared p \<noteq> []
    \<and> (\<forall>n \<in> set (lp_nodes p). pn_kind n \<in> {''story'', ''eval'', ''gate''}
        \<and> (\<exists>e w k. split_address (pn_address n) = Some (lp_slug p, e, w, k)))
    \<and> (\<forall>e \<in> set (lp_edges p). (pe_from e, pe_to e) \<in> depends p) \<and> acyclic (depends p)
    \<and> (\<forall>key. kind_count p ''story'' key \<noteq> 0 \<longrightarrow> kind_count p ''eval'' key = 1) \<and> issues_ordered p
    \<and> (\<forall>n \<in> set (lp_nodes p). pn_kind n = ''eval'' \<and> pn_criteria n \<noteq> [] \<longrightarrow>
        \<not> (\<exists>g. same_wave_gate p (wave_prefix (pn_address n)) g \<and> (g, pn_address n) \<in> (depends p)\<^sup>+))"
proof -
  note v = validate_nil [OF assms(1), THEN iffD1, OF assms(2)]
  have addr: "distinct (declared p)" "\<forall>n \<in> set (lp_nodes p). address_matches (pn_address n)
      \<and> takeWhile (\<lambda>c. c \<noteq> CHR ''/'') (pn_address n) = lp_slug p"
    using v check_addresses_nil [of "lp_slug p" "[]" "lp_nodes p"] by (simp_all add: check_addresses_def declared_def)
  have "lp_nodes p \<noteq> []" using v by (auto simp: check_declarations_def)
  then have ne: "declared p \<noteq> []" by (simp add: declared_def)
  have edges: "\<forall>e \<in> set (lp_edges p). (pe_from e, pe_to e) \<in> depends p"
    using v by (auto simp: depends_def plan_edges_def)
  have gates: "\<forall>n \<in> set (lp_nodes p). gate_violations (resolvable_adjacency listing p) p n = []"
    using v by (auto simp: check_criterion_coverage_def Let_def)
  show ?thesis
    using v addr ne edges gates check_kinds_nil [of p] check_wave_evals_nil [of p] address_parts
      gate_violations_nil [OF assms(1), of p] by auto
qed

text \<open>
  C30: The two graph searches agree: the three-colour search names a cycle exactly when there is no
  topological order, what it names is a closed walk of declared dependencies, and a topological
  order ranks every prerequisite below what needs it.
\<close>

theorem searches_agree:
  assumes "set_order listing"
  shows "(find_plan_cycle (resolvable_adjacency listing p) = None
      \<longleftrightarrow> topological_ranks (resolvable_adjacency listing p) \<noteq> None)
    \<and> (\<forall>c. find_plan_cycle (resolvable_adjacency listing p) = Some c \<longrightarrow>
          2 \<le> length c \<and> hd c = last c \<and> successively (\<lambda>a b. (a, b) \<in> depends p) c)
    \<and> (\<forall>rs u v. topological_ranks (resolvable_adjacency listing p) = Some rs \<and> (u, v) \<in> depends p
          \<longrightarrow> rank_of rs u < rank_of rs v)"
proof -
  let ?adj = "resolvable_adjacency listing p"
  note adj = adjacency(2,3) [OF assms, of p]
  have "2 \<le> length c \<and> hd c = last c \<and> successively (\<lambda>a b. (a, b) \<in> depends p) c"
    if "find_plan_cycle ?adj = Some c" for c
    using cycles.cycle_found [OF that] unfolding adj(1) [symmetric] by (auto simp: closed_walk_def)
  moreover have "rank_of rs u < rank_of rs v"
    if rs: "topological_ranks ?adj = Some rs" and e: "(u, v) \<in> depends p" for rs u v
  proof -
    have "u \<in> set (keys_of ?adj)" "v \<in> set (keys_of ?adj)"
      using edges_declared [OF e] assms by (auto simp: adjacency(1) [OF assms] set_order_def)
    then obtain i j where "map_of rs u = Some i" "map_of rs v = Some j"
      using ranks.rank_keys [OF adj(2) rs] by (metis option.exhaust)
    then show ?thesis
      using ranks.rank_before [OF adj(2) rs, of u v i j] e adj(1) by (simp add: rank_of_def)
  qed
  ultimately show ?thesis
    using cycles.cycle_iff [of ?adj] ranks.rank_None [OF adj(2)] adj(1) by auto
qed

section \<open>A sample plan\<close>

definition sample_node :: "string \<Rightarrow> string \<Rightarrow> string option \<Rightarrow> proposed_node" where
  "sample_node a kind issue = \<lparr>pn_address = a, pn_kind = kind, pn_issue = issue, pn_lineage = None,
     pn_labels = [], pn_evaluation = None, pn_repository = Some ''r'', pn_repository_id = Some 1,
     pn_installation = None, pn_criteria = [], pn_inputs = [], pn_evidence = [], pn_release = None,
     pn_role = None, pn_title = ''t''\<rparr>"

definition sample_plan :: proposal where
  "sample_plan = \<lparr>lp_slug = ''f'', lp_org = ''o'', lp_spec_revision = ''1'',
     lp_nodes = [sample_node ''f/e/w/b'' ''story'' (Some ''#7''), sample_node ''f/e/w/a'' ''story'' (Some ''7''),
       sample_node ''f/e/w/v'' ''eval'' None],
     lp_edges = [\<lparr>pe_from = ''f/e/w/a'', pe_to = ''f/e/w/b''\<rparr>, \<lparr>pe_from = ''f/e/w/b'', pe_to = ''f/e/w/v''\<rparr>],
     lp_epics = [''e''], lp_waves = [(''e'', ''w'')], lp_policy = None, lp_proposed_policy = None,
     lp_title = ''t'', lp_product = None, lp_origin = JNull, lp_trackers = JNull\<rparr>"

definition sample_parser :: spec_parser where
  "sample_parser doc = None"

lemma remdups_set_order: "set_order remdups"
  by (simp add: set_order_def)

lemma reversed_set_order: "set_order (\<lambda>xs. rev (remdups xs))"
  by (simp add: set_order_def)

lemma sample_plan_valid: "validate_proposal remdups sample_parser ''d'' {} sample_plan = []"
  by code_simp

lemma verdict_ignores_set_order_witness:
  "validate_proposal (\<lambda>xs. rev (remdups xs)) sample_parser ''d'' {} sample_plan = []"
  using verdict_ignores_set_order [OF remdups_set_order reversed_set_order] sample_plan_valid by blast

lemma validated_plan_is_executable_witness: "acyclic (depends sample_plan) \<and> issues_ordered sample_plan"
  using validated_plan_is_executable [OF remdups_set_order sample_plan_valid] by blast

lemma searches_agree_witness: "find_plan_cycle (resolvable_adjacency remdups sample_plan) = None"
proof -
  have "topological_ranks (resolvable_adjacency remdups sample_plan) \<noteq> None" by code_simp
  with searches_agree [OF remdups_set_order, of sample_plan] show ?thesis by blast
qed

end
