(* ===== verification/Accepted_Node.thy ===== *)
theory Accepted_Node
  imports Execution_Store Loop_Proposal
begin

text \<open>
  What the accepted plan says of a node, and which of its required inputs are not available yet
  (\<open>orchestration/accepted_node.py\<close>, with \<open>repository.get_accepted_plan\<close>).

  The parsers of a stored node and of a stored policy (pydantic), the environment switch of the
  operations executor and the two verifiers of a release predecessor are parameters
  (\<open>node_services\<close>); a verifier answers with the exception it raises, if any.
\<close>

section \<open>The plan in force\<close>

definition accepted_plan :: "db \<Rightarrow> string \<Rightarrow> string \<Rightarrow> pyexc + plan_row option" where
  "accepted_plan d org fid =
     (case current_plans d org fid of [] \<Rightarrow> Inr None | [p] \<Rightarrow> Inr (Some p) | _ \<Rightarrow> Inl MultipleResultsFound)"

text \<open>\<open>(plan.plan_document or {})\<close> and its \<open>.get("nodes", [])\<close>.\<close>

definition doc_fields :: "json \<Rightarrow> pyexc + fields" where
  "doc_fields doc = (if \<not> jtruthy doc then Inr []
     else case jfields doc of None \<Rightarrow> Inl AttributeError | Some fs \<Rightarrow> Inr fs)"

definition doc_nodes :: "fields \<Rightarrow> pyexc + json list" where
  "doc_nodes fs = (case map_of fs ''nodes'' of None \<Rightarrow> Inr []
     | Some v \<Rightarrow> (case iter_json v of None \<Rightarrow> Inl TypeError | Some xs \<Rightarrow> Inr xs))"

section \<open>The contract of a node\<close>

record node_contract =
  nc_version :: int
  nc_node :: proposed_node
  nc_environments :: "string list"
  nc_repositories :: "string list"

record node_services =
  ns_node :: "fields \<Rightarrow> proposed_node option"
  ns_policy :: "json \<Rightarrow> execution_policy option"
  ns_executor :: bool
  ns_release :: "db \<Rightarrow> node_row \<Rightarrow> node_contract \<Rightarrow> string \<Rightarrow> pyexc option"

definition entries_of :: "string \<Rightarrow> json list \<Rightarrow> fields list" where
  "entries_of addr items =
     filter (\<lambda>fs. map_of fs ''address'' = Some (JStr addr)) (List.map_filter jfields items)"

definition contract_from_plan ::
    "node_services \<Rightarrow> flow_row option \<Rightarrow> node_row \<Rightarrow> plan_row option \<Rightarrow> pyexc + node_contract option" where
  "contract_from_plan sv flow n plan =
     (case (flow, plan) of
        (Some fl, Some p) \<Rightarrow>
          if fl_org fl \<noteq> nd_org n \<or> fl_id fl \<noteq> nd_flow n \<or> pl_org p \<noteq> nd_org n
             \<or> pl_flow p \<noteq> nd_flow n \<or> pl_superseded p \<noteq> None
          then Inl ValueError
          else and_then (doc_fields (pl_document p)) (\<lambda>doc.
            and_then (doc_nodes doc) (\<lambda>items.
              (case entries_of (node_address fl n) items of
                 [entry] \<Rightarrow>
                   (case ns_node sv entry of None \<Rightarrow> Inr None
                    | Some node \<Rightarrow>
                        let raw = jget doc ''execution_policy'';
                            policy = (if raw = JNull then None else ns_policy sv raw) in
                        Inr (Some \<lparr>nc_version = pl_version p, nc_node = node,
                          nc_environments = (case policy of None \<Rightarrow> [] | Some q \<Rightarrow> ep_environments q),
                          nc_repositories = (case policy of None \<Rightarrow> [] | Some q \<Rightarrow> ep_repositories q)\<rparr>))
               | _ \<Rightarrow> Inr None)))
      | _ \<Rightarrow> Inr None)"

definition accepted_node_contract :: "node_services \<Rightarrow> db \<Rightarrow> node_row \<Rightarrow> pyexc + node_contract option" where
  "accepted_node_contract sv d n =
     and_then (accepted_plan d (nd_org n) (nd_flow n)) (\<lambda>plan.
       contract_from_plan sv (flow_for d (nd_org n) (nd_flow n)) n plan)"

section \<open>Required inputs\<close>

definition revision_sources :: "(string \<times> string \<times> (string \<Rightarrow> bool)) list" where
  "revision_sources =
     (let sha = (\<lambda>s. length s = 40 \<and> list_all (\<lambda>c. c \<in> set ''0123456789abcdef'') s) in
      [(''source_revision'', ''deployment_source_revision:'', sha),
       (''definition_revision'', ''deployment_definition_revision:'', sha),
       (''default_branch'', ''deployment_branch:'', name_shape (Some 127) ''_-'')])"

text \<open>The pins found so far, or None once one repeats or is malformed.\<close>

fun pin_source :: "string \<Rightarrow> string \<times> string \<times> (string \<Rightarrow> bool) \<Rightarrow> (string \<times> string) list option
    \<Rightarrow> (string \<times> string) list option" where
  "pin_source source (name, pre, ok) None = None"
| "pin_source source (name, pre, ok) (Some pins) =
     (if \<not> starts pre source then Some pins
      else let value = drop (length pre) source in
        if name \<in> set (map fst pins) \<or> \<not> ok value then None else Some (pins @ [(name, value)]))"

definition operational_revision_inputs :: "node_contract \<Rightarrow> (string \<times> string) list option" where
  "operational_revision_inputs c =
     (case fold (\<lambda>i. fold (pin_source (ni_source i)) revision_sources) (pn_inputs (nc_node c)) (Some []) of
        None \<Rightarrow> None
      | Some pins \<Rightarrow> if length pins = length revision_sources then Some pins else None)"

text \<open>\<open>source.split(":", 1)[1]\<close> of a source with a known prefix.\<close>

definition after_colon :: "string \<Rightarrow> string" where
  "after_colon s = drop 1 (dropWhile (\<lambda>c. c \<noteq> CHR '':'') s)"

text \<open>The states by address of the flow's nodes; a later row with an address wins.\<close>

definition states_by_address :: "db \<Rightarrow> node_row \<Rightarrow> string \<Rightarrow> string option" where
  "states_by_address d n a =
     (case flow_for d (nd_org n) (nd_flow n) of None \<Rightarrow> None
      | Some fl \<Rightarrow> map_option nd_state (find (\<lambda>m. nd_org m = nd_org n \<and> nd_flow m = nd_flow n
          \<and> node_address fl m = a) (rev (nodes d))))"

definition predecessor_input :: "node_services \<Rightarrow> db \<Rightarrow> node_row \<Rightarrow> node_contract \<Rightarrow> string \<Rightarrow> pyexc + bool" where
  "predecessor_input sv d n c a =
     (if states_by_address d n a \<noteq> Some ''passed'' then Inr False
      else (case pn_release (nc_node c) of None \<Rightarrow> Inr True
        | Some b \<Rightarrow>
            if a \<notin> set (rb_predecessors b) then Inr True
            else (case ns_release sv d n c a of None \<Rightarrow> Inr True
              | Some (CycleBlockedError _) \<Rightarrow> Inr False
              | Some e \<Rightarrow> Inl e)))"

definition input_available :: "node_services \<Rightarrow> db \<Rightarrow> node_row \<Rightarrow> node_contract \<Rightarrow> named_input \<Rightarrow> pyexc + bool" where
  "input_available sv d n c i =
     (let source = strip (ni_source i); rest = after_colon source in
      if starts ''environment:'' source \<or> starts ''environment_connection:'' source
      then Inr (rest \<in> set (nc_environments c))
      else if starts ''repository:'' source
      then Inr (rest \<in> set (nc_repositories c) \<or> Some rest = pn_repository (nc_node c))
      else if list_ex (\<lambda>pre. starts pre source)
        [''deployment_source_revision:'', ''deployment_definition_revision:'', ''deployment_branch:'']
      then Inr (operational_revision_inputs c \<noteq> None)
      else if starts ''deployment_workflow:'' source
      then Inr (ns_executor sv \<and> pn_role (nc_node c) = Some ''operate'' \<and> workflow_name rest)
      else if starts ''node:'' source then predecessor_input sv d n c rest
      else Inr False)"

fun unresolved_among :: "(named_input \<Rightarrow> pyexc + bool) \<Rightarrow> named_input list \<Rightarrow> pyexc + named_input list" where
  "unresolved_among ok [] = Inr []"
| "unresolved_among ok (i # is) =
     and_then (ok i) (\<lambda>available. and_then (unresolved_among ok is) (\<lambda>rest.
       Inr (if available then rest else i # rest)))"

definition unresolved_contract_inputs ::
    "node_services \<Rightarrow> db \<Rightarrow> node_row \<Rightarrow> node_contract option \<Rightarrow> pyexc + named_input list" where
  "unresolved_contract_inputs sv d n contract =
     (case contract of None \<Rightarrow> Inr []
      | Some c \<Rightarrow> unresolved_among (input_available sv d n c) (pn_inputs (nc_node c)))"

definition unresolved_required_inputs :: "node_services \<Rightarrow> db \<Rightarrow> node_row \<Rightarrow> pyexc + named_input list" where
  "unresolved_required_inputs sv d n =
     and_then (accepted_node_contract sv d n) (unresolved_contract_inputs sv d n)"

lemma unresolved_among_iff:
  "unresolved_among ok is = Inr [] \<longleftrightarrow> (\<forall>i \<in> set is. ok i = Inr True)"
proof (induction "is")
  case (Cons i "is")
  then show ?case
    by (cases "ok i"; cases "unresolved_among ok is") (auto split: if_splits)
qed simp

end
