(* ===== verification/Evaluation_Plan.thy ===== *)
theory Evaluation_Plan
  imports Accepted_Node
begin

text \<open>
  Which evaluation contract an accepted plan gives a node, who concludes it, and the evidence a
  human gate was last presented with (\<open>orchestration/evaluation_plan.py\<close>).

  Parameters (\<open>eval_services\<close>): the attached contract of an acceptance decision
  (\<open>evaluation_acceptance.accepted_contract\<close>), the parser of a specification
  (\<open>evaluation_contract.specification\<close>), whether the installed adapter supports it
  (\<open>repository_mode_supported\<close>), the evidence collected for a human gate
  (\<open>human_gate_evidence\<close>), whether every predecessor has a current deployment
  (\<open>predecessor_deployments\<close>), and whether the flow has no accepted policy history
  (\<open>load_in_force_policy\<close>). All of them read the store and may raise.
\<close>

record eval_services =
  es_attached :: "db \<Rightarrow> node_row \<Rightarrow> plan_row \<Rightarrow> pyexc + evaluation_spec option"
  es_parse :: "json \<Rightarrow> pyexc + evaluation_spec"
  es_supported :: "evaluation_spec \<Rightarrow> bool"
  es_evidence :: "db \<Rightarrow> node_row \<Rightarrow> plan_row \<Rightarrow> evaluation_spec option \<Rightarrow> pyexc + json"
  es_deployed :: "db \<Rightarrow> node_row \<Rightarrow> int \<Rightarrow> pyexc + bool"
  es_no_policy :: "db \<Rightarrow> node_row \<Rightarrow> pyexc + bool"

section \<open>Reading the plan document\<close>

text \<open>\<open>[item for item in document.get("nodes", []) if item.get("address") == address]\<close>.\<close>

definition entries_named :: "string \<Rightarrow> json list \<Rightarrow> pyexc + fields list" where
  "entries_named addr items =
     (case traverse jfields items of None \<Rightarrow> Inl AttributeError
      | Some fss \<Rightarrow> Inr (filter (\<lambda>fs. map_of fs ''address'' = Some (JStr addr)) fss))"

definition plan_entries :: "plan_row \<Rightarrow> string \<Rightarrow> pyexc + fields list" where
  "plan_entries p addr =
     and_then (doc_fields (pl_document p)) (\<lambda>doc. and_then (doc_nodes doc) (entries_named addr))"

text \<open>\<open>policy.get("evaluation_acceptance", {}).get(address) == "machine"\<close>.\<close>

definition machine_in :: "fields \<Rightarrow> string \<Rightarrow> pyexc + bool" where
  "machine_in policy addr =
     (case (case map_of policy ''evaluation_acceptance'' of None \<Rightarrow> Some [] | Some v \<Rightarrow> jfields v) of
        None \<Rightarrow> Inl AttributeError
      | Some m \<Rightarrow> Inr (map_of m addr = Some (JStr ''machine'')))"

text \<open>\<open>document.get("execution_policy") or {}\<close>.\<close>

definition policy_fields :: "plan_row \<Rightarrow> pyexc + fields" where
  "policy_fields p = and_then (doc_fields (pl_document p)) (\<lambda>doc. doc_fields (jget doc ''execution_policy''))"

definition has_policy :: "plan_row \<Rightarrow> pyexc + bool" where
  "has_policy p = and_then (doc_fields (pl_document p)) (\<lambda>doc. Inr (jtruthy (jget doc ''execution_policy'')))"

definition flow_of_node :: "db \<Rightarrow> node_row \<Rightarrow> pyexc + flow_row" where
  "flow_of_node d n =
     (case get_flow d (nd_flow n) of
        Some fl \<Rightarrow> if fl_org fl = nd_org n then Inr fl else Inl (CycleBlockedError ''evaluation_flow_missing'')
      | None \<Rightarrow> Inl (CycleBlockedError ''evaluation_flow_missing''))"

text \<open>The only entry of the plan at an address, if there is one.\<close>

definition single_entry :: "plan_row \<Rightarrow> string \<Rightarrow> pyexc + fields option" where
  "single_entry p addr = and_then (plan_entries p addr) (\<lambda>rows.
     (case rows of [] \<Rightarrow> Inr None | [r] \<Rightarrow> Inr (Some r)
      | _ \<Rightarrow> Inl (CycleBlockedError ''evaluation_accepted_node_ambiguous'')))"

section \<open>The accepted evaluation of a node\<close>

definition attached_schemas :: "string list" where
  "attached_schemas = [''repository-evaluation/v1'', ''cli-live-evaluation/v1'', ''workflow-evaluation/v1'', multi_schema]"

text \<open>\<open>raw is None or raw.get("evidence_schema") in {...}\<close>.\<close>

definition may_be_attached :: "json \<Rightarrow> pyexc + bool" where
  "may_be_attached raw =
     (if raw = JNull then Inr True
      else case jfields raw of None \<Rightarrow> Inl AttributeError
        | Some fs \<Rightarrow> (let s = jget fs ''evidence_schema'' in
            if \<not> hashable s then Inl TypeError else Inr (s \<in> JStr ` set attached_schemas)))"

definition selected_spec ::
    "eval_services \<Rightarrow> db \<Rightarrow> node_row \<Rightarrow> plan_row \<Rightarrow> json \<Rightarrow> pyexc + evaluation_spec option" where
  "selected_spec sv d n p raw =
     and_then (may_be_attached raw) (\<lambda>look.
     and_then (if look then es_attached sv d n p else Inr None) (\<lambda>attached.
       (case attached of Some sp \<Rightarrow> Inr (Some sp)
        | None \<Rightarrow> if raw = JNull then Inr None
                  else and_then (es_parse sv raw) (\<lambda>sp. Inr (Some sp)))))"

definition accepted_evaluation ::
    "eval_services \<Rightarrow> db \<Rightarrow> node_row \<Rightarrow> pyexc + (plan_row \<times> evaluation_spec) option" where
  "accepted_evaluation sv d n =
     (if nd_kind n \<noteq> ''eval'' then Inr None
      else and_then (accepted_plan d (nd_org n) (nd_flow n)) (\<lambda>plan.
        (case plan of None \<Rightarrow> Inr None
         | Some p \<Rightarrow> and_then (flow_of_node d n) (\<lambda>fl. let addr = node_address fl n in
             and_then (single_entry p addr) (\<lambda>entry.
               (case entry of None \<Rightarrow> Inr None
                | Some row \<Rightarrow> and_then (selected_spec sv d n p (jget row ''evaluation'')) (\<lambda>spec.
                    (case spec of None \<Rightarrow> Inr None
                     | Some sp \<Rightarrow> and_then (policy_fields p) (\<lambda>policy. and_then (machine_in policy addr) (\<lambda>machine.
                         if machine \<and> \<not> sp_machine sp
                         then Inl (CycleBlockedError ''evaluation_acceptance_mode_changed'')
                         else Inr (Some (p, sp))))))))))))"

section \<open>Human and managed evaluations\<close>

definition human_evaluation ::
    "eval_services \<Rightarrow> db \<Rightarrow> node_row \<Rightarrow> pyexc + (plan_row \<times> evaluation_spec option) option" where
  "human_evaluation sv d n =
     (if nd_kind n \<noteq> ''eval'' then Inr None
      else and_then (accepted_plan d (nd_org n) (nd_flow n)) (\<lambda>plan.
        (case plan of None \<Rightarrow> Inr None
         | Some p \<Rightarrow> and_then (has_policy p) (\<lambda>governed.
             if \<not> governed then Inr None
             else and_then (flow_of_node d n) (\<lambda>fl.
               if fl_state fl \<notin> {''pending'', ''running''} then Inl (CycleBlockedError ''evaluation_flow_not_active'')
               else if fl_paused fl then Inl (CycleBlockedError ''evaluation_flow_paused'')
               else let addr = node_address fl n in
                 and_then (single_entry p addr) (\<lambda>entry.
                   (case entry of None \<Rightarrow> Inr None
                    | Some row \<Rightarrow>
                        if jget row ''kind'' \<noteq> JStr ''eval'' then Inr None
                        else and_then (policy_fields p) (\<lambda>policy. and_then (machine_in policy addr) (\<lambda>machine.
                          if machine then Inr None
                          else and_then (accepted_evaluation sv d n) (\<lambda>acc.
                            (case acc of
                               None \<Rightarrow> Inr (if jget row ''evaluation'' = JNull then Some (p, None) else None)
                             | Some (q, sp) \<Rightarrow> Inr (if sp_machine sp then None else Some (p, Some sp)))))))))))))"

text \<open>The newest decision of a node among some kinds, by time and then id.\<close>

definition latest_decision :: "db \<Rightarrow> node_row \<Rightarrow> string list \<Rightarrow> decision_row option" where
  "latest_decision d n kinds =
     (case rev (sort_key (\<lambda>r. (stamp (dc_created r), dc_id r))
        (filter (\<lambda>r. dc_org r = nd_org n \<and> dc_flow r = nd_flow n \<and> dc_node r = Some (nd_id n)
            \<and> dc_kind r \<in> set kinds) (decisions d))) of
        [] \<Rightarrow> None | r # _ \<Rightarrow> Some r)"

text \<open>\<open>json.loads(row.reason)\<close>.\<close>

definition loads :: "jtext option \<Rightarrow> pyexc + json" where
  "loads t = (case t of None \<Rightarrow> Inl TypeError
     | Some x \<Rightarrow> (case decoded x of None \<Rightarrow> Inl ValueError | Some j \<Rightarrow> Inr j))"

definition latest_human_gate_evidence :: "db \<Rightarrow> node_row \<Rightarrow> pyexc + (decision_row \<times> json) option" where
  "latest_human_gate_evidence d n =
     (case latest_decision d n [''human_evaluation_evidence''] of None \<Rightarrow> Inr None
      | Some r \<Rightarrow> and_then (loads (dc_reason r)) (\<lambda>j. Inr (Some (r, j))))"

definition legacy_worker_gate :: "eval_services \<Rightarrow> db \<Rightarrow> node_row \<Rightarrow> pyexc + bool" where
  "legacy_worker_gate sv d n =
     and_then (es_no_policy sv d n) (\<lambda>none. and_then (latest_human_gate_evidence d n) (\<lambda>rec.
       Inr (none \<and> rec = None)))"

definition managed_evaluation :: "eval_services \<Rightarrow> db \<Rightarrow> node_row \<Rightarrow> pyexc + bool" where
  "managed_evaluation sv d n =
     (if nd_kind n \<noteq> ''eval'' then Inr False
      else and_then (accepted_evaluation sv d n) (\<lambda>acc.
        and_then (case acc of None \<Rightarrow> Inr False | Some (p, sp) \<Rightarrow> has_policy p) (\<lambda>governed.
          if governed then Inr True
          else and_then (human_evaluation sv d n) (\<lambda>human.
            if human \<noteq> None then Inr True
            else and_then (accepted_plan d (nd_org n) (nd_flow n)) (\<lambda>plan.
              (case plan of None \<Rightarrow> Inr False
               | Some p \<Rightarrow> and_then (has_policy p) (\<lambda>g.
                   if \<not> g then Inr False
                   else (case get_flow d (nd_flow n) of None \<Rightarrow> Inr False
                     | Some fl \<Rightarrow>
                         if fl_org fl \<noteq> nd_org n then Inr False
                         else and_then (policy_fields p) (\<lambda>policy. machine_in policy (node_address fl n))))))))))"

end
