(* ===== verification/Evaluation_Waiver.thy ===== *)
theory Evaluation_Waiver
  imports Evaluation_Plan Work_Claims Node_State
begin

text \<open>
  The attributed exception for one unexecuted evaluation
  (\<open>orchestration/evaluation_waiver.py\<close>, with \<open>evaluation_acceptance.current_target\<close>,
  \<open>plan_lineage.receipt_plan\<close> and \<open>pr_bindings.binding_snapshot\<close>): the record a human leaves, and
  the check that it still holds before it can satisfy a dependency.

  \<open>waiver_services\<close> are the policy in force of a shared continuation
  (\<open>shared_policy.shared_inputs\<close>), the attached contract of the evaluation
  (\<open>evaluation_acceptance.accepted_contract\<close>) and the name-based uuid of a request. \<open>digest\<close> is
  the SHA-256 of a canonical dump.
\<close>

section \<open>Requests\<close>

record waiver_request =
  wr_node :: string
  wr_version :: int
  wr_hash :: string
  wr_criteria :: "string list"
  wr_reason :: string
  wr_snapshot :: "string option"

record approval =
  ap_actor :: string
  ap_role :: string
  ap_kind :: actor_kind
  ap_org :: string

record waiver_services =
  ws_policy :: "db \<Rightarrow> string \<Rightarrow> string \<Rightarrow> pyexc + execution_policy"
  ws_attached :: "db \<Rightarrow> node_row \<Rightarrow> plan_row \<Rightarrow> pyexc + evaluation_spec option"
  ws_uuid :: "json \<Rightarrow> string"

definition hex64 :: "string \<Rightarrow> bool" where
  "hex64 s \<longleftrightarrow> length s = 64 \<and> list_all (\<lambda>c. c \<in> set ''0123456789abcdef'') s"

definition make_waiver_request :: "waiver_request \<Rightarrow> pyexc + waiver_request" where
  "make_waiver_request r =
     (if wr_node r \<noteq> [] \<and> length (wr_node r) \<le> 36 \<and> 0 < wr_version r \<and> hex64 (wr_hash r)
        \<and> wr_criteria r \<noteq> [] \<and> length (wr_criteria r) \<le> 200
        \<and> 8 \<le> length (wr_reason r) \<and> length (wr_reason r) \<le> 4000
        \<and> (case wr_snapshot r of None \<Rightarrow> True | Some s \<Rightarrow> hex64 s)
      then Inr r else Inl ValueError)"

text \<open>\<open>require\<close> of the acceptance modules: the refusal with its code.\<close>

definition requires :: "bool \<Rightarrow> string \<Rightarrow> (pyexc + 'a) \<Rightarrow> pyexc + 'a" where
  "requires c code k = (if c then k else Inl (EvaluationAcceptanceError code))"

lemma requires_Inr [simp]: "requires c code k = Inr y \<longleftrightarrow> c \<and> k = Inr y"
  by (simp add: requires_def)

section \<open>What the waiver binds\<close>

definition binding_snapshot :: "binding_row \<Rightarrow> json" where
  "binding_snapshot b = JObj
     [(''id'', JStr (pb_id b)), (''revision'', JInt (pb_revision b)), (''org_id'', JStr (pb_org b)),
      (''flow_id'', JStr (pb_flow b)), (''node_id'', JStr (pb_node b)), (''attempt'', JInt (pb_attempt b)),
      (''run_id'', jopt (pb_run b)), (''provider_repository_id'', JInt (pb_repo_id b)),
      (''provider_pr_node_id'', JStr (pb_pr_node b)), (''repo'', JStr (pb_repo b)),
      (''pr_number'', JInt (pb_pr_number b)), (''installation_id'', JInt (pb_installation b)),
      (''head_sha'', JStr (pb_head_sha b)), (''role'', JStr (pb_role b)), (''state'', JStr (pb_state b)),
      (''registered_by'', JStr (pb_registered_by b)), (''registered_by_kind'', JStr (pb_registered_kind b)),
      (''recovery_reason'', jopt (pb_recovery b)), (''superseded_reason'', jopt (pb_superseded b)),
      (''accepted_scope'', jopt (map_option raw_text (pb_scope b)))]"

definition waiver_parents :: "db \<Rightarrow> node_row \<Rightarrow> node_row list" where
  "waiver_parents d n =
     take 129 (sort_key nd_id (map snd (filter (\<lambda>(e, m). nd_id m = ed_from e \<and> ed_org e = nd_org n
        \<and> ed_flow e = nd_flow n \<and> ed_to e = nd_id n \<and> nd_org m = nd_org n \<and> nd_flow m = nd_flow n)
       (List.product (edges d) (nodes d)))))"

definition parent_binding :: "db \<Rightarrow> string \<Rightarrow> node_row \<Rightarrow> pyexc + binding_row option" where
  "parent_binding d org m =
     (case active_binding_for_node d org (nd_id m) (nd_attempts m) of
        Inl (BindingError _) \<Rightarrow> Inl (EvaluationAcceptanceError ''waiver_predecessor_binding_ambiguous'')
      | r \<Rightarrow> r)"

text \<open>\<open>kind != "story" or (binding is not None and state == "active" and scope matches)\<close>.\<close>

definition parent_bound :: "node_row \<Rightarrow> binding_row option \<Rightarrow> pyexc + bool" where
  "parent_bound m b =
     (if nd_kind m \<noteq> ''story'' then Inr True
      else case b of None \<Rightarrow> Inr False
        | Some x \<Rightarrow> if pb_state x \<noteq> ''active'' then Inr False else binding_scope_matches x m)"

definition predecessor_entry :: "flow_row \<Rightarrow> node_row \<Rightarrow> binding_row option \<Rightarrow> json" where
  "predecessor_entry fl m b = JObj
     [(''node_id'', JStr (nd_id m)), (''address'', JStr (node_address fl m)), (''scope'', node_scope m),
      (''state'', JStr (nd_state m)), (''attempt'', JInt (nd_attempts m)),
      (''binding'', case b of None \<Rightarrow> JNull | Some x \<Rightarrow> binding_snapshot x)]"

fun predecessor_entries :: "db \<Rightarrow> string \<Rightarrow> flow_row \<Rightarrow> node_row list \<Rightarrow> pyexc + json list" where
  "predecessor_entries d org fl [] = Inr []"
| "predecessor_entries d org fl (m # ms) =
     and_then (parent_binding d org m) (\<lambda>b. and_then (parent_bound m b) (\<lambda>ok.
       requires ok ''waiver_predecessor_binding_missing''
         (and_then (predecessor_entries d org fl ms) (\<lambda>rest. Inr (predecessor_entry fl m b # rest)))))"

definition waiver_predecessors :: "db \<Rightarrow> node_row \<Rightarrow> flow_row \<Rightarrow> pyexc + json" where
  "waiver_predecessors d n fl =
     (let parents = waiver_parents d n in
      requires (parents \<noteq> [] \<and> length parents \<le> 128) ''waiver_predecessors_missing_or_excessive''
        (requires (list_all (\<lambda>m. nd_state m = ''passed'') parents) ''waiver_predecessors_not_complete''
          (and_then (predecessor_entries d (nd_org n) fl parents) (\<lambda>es. Inr (JArr es)))))"

section \<open>The check before a dependency is satisfied\<close>

definition waiver_kind :: string where
  "waiver_kind = ''evaluation_waived''"

definition latest_waiver :: "db \<Rightarrow> node_row \<Rightarrow> decision_row option" where
  "latest_waiver d n = latest_decision d n [waiver_kind]"

definition receipt_plan :: "digest \<Rightarrow> db \<Rightarrow> plan_row \<Rightarrow> fields \<Rightarrow> string \<Rightarrow> plan_row option" where
  "receipt_plan dg d plan data node_id =
     (case jget data ''plan_version'' of
        JInt v \<Rightarrow>
          (case ancestor_plan dg d plan v (Some node_id) of None \<Rightarrow> None
           | Some original \<Rightarrow>
               if jget data ''plan_hash'' \<noteq> JStr (pl_hash original) then None
               else (case map_of data ''plan_id'' of None \<Rightarrow> Some original
                 | Some i \<Rightarrow> if i = JStr (pl_id original) then Some original else None))
      | _ \<Rightarrow> None)"

definition waiver_scope :: "plan_row \<Rightarrow> node_row \<Rightarrow> flow_row \<Rightarrow> fields" where
  "waiver_scope p n fl =
     [(''contract'', JStr ''evaluation-waiver/v1''), (''plan_id'', JStr (pl_id p)),
      (''plan_version'', JInt (pl_version p)), (''plan_hash'', JStr (pl_hash p)), (''node_id'', JStr (nd_id n)),
      (''node_scope'', node_scope n), (''address'', JStr (node_address fl n)),
      (''evaluation_executed'', JBool False), (''machine_pass_claimed'', JBool False)]"

definition scope_holds :: "fields \<Rightarrow> fields \<Rightarrow> bool" where
  "scope_holds content expected \<longleftrightarrow> list_all (\<lambda>(k, v). jeq (jget content k) v) expected"

text \<open>What the try block of \<open>valid_waiver\<close> computes, and the exceptions it turns into None.\<close>

definition waiver_content_holds ::
    "digest \<Rightarrow> db \<Rightarrow> node_row \<Rightarrow> plan_row \<Rightarrow> flow_row \<Rightarrow> decision_row \<Rightarrow> pyexc + bool" where
  "waiver_content_holds dg d n plan fl r =
     and_then (loads (dc_reason r)) (\<lambda>j.
       (case jfields j of None \<Rightarrow> Inl AttributeError
        | Some content \<Rightarrow>
           (case receipt_plan dg d plan content (nd_id n) of None \<Rightarrow> Inr False
            | Some p \<Rightarrow>
               if \<not> scope_holds content (waiver_scope p n fl) then Inr False
               else (case map_of content ''predecessors'' of None \<Rightarrow> Inl KeyError
                 | Some was \<Rightarrow> and_then (waiver_predecessors d n fl) (\<lambda>is. Inr (jeq was is))))))"

definition valid_waiver :: "digest \<Rightarrow> db \<Rightarrow> node_row \<Rightarrow> pyexc + decision_row option" where
  "valid_waiver dg d n =
     (if nd_kind n \<noteq> ''eval'' \<or> nd_state n \<noteq> ''waived'' \<or> nd_attempts n \<noteq> 0 then Inr None
      else (case latest_waiver d n of None \<Rightarrow> Inr None
        | Some r \<Rightarrow>
            if dc_actor_kind r \<noteq> ''human'' \<or> dc_actor_id r = [] \<or> dc_to r \<noteq> Some ''waived'' then Inr None
            else and_then (accepted_plan d (nd_org n) (nd_flow n)) (\<lambda>plan.
              (case (plan, flow_for d (nd_org n) (nd_flow n)) of
                 (Some p, Some fl) \<Rightarrow>
                   (case waiver_content_holds dg d n p fl r of
                      Inr ok \<Rightarrow> Inr (if ok then Some r else None)
                    | Inl e \<Rightarrow> if is_value_error e \<or> e = KeyError \<or> e = TypeError then Inr None else Inl e)
               | _ \<Rightarrow> Inr None))))"

section \<open>Preview and acceptance\<close>

definition current_target ::
    "db \<Rightarrow> string \<Rightarrow> approval \<Rightarrow> waiver_request \<Rightarrow> pyexc + flow_row \<times> plan_row \<times> node_row" where
  "current_target d fid ap rq =
     requires (ap_kind ap = HUMAN \<and> ap_actor ap \<noteq> []) ''human_plan_approver_required''
      (case flow_for d (ap_org ap) fid of None \<Rightarrow> Inl (EvaluationAcceptanceError ''flow_not_found'')
       | Some fl \<Rightarrow>
          (case current_plans d (ap_org ap) fid of [] \<Rightarrow> Inl (EvaluationAcceptanceError ''accepted_plan_changed'')
           | p # _ \<Rightarrow>
              requires (pl_version p = wr_version rq \<and> pl_hash p = wr_hash rq) ''accepted_plan_changed''
               (case find (\<lambda>n. nd_org n = ap_org ap \<and> nd_flow n = fid \<and> nd_id n = wr_node rq) (nodes d) of
                  None \<Rightarrow> Inl (EvaluationAcceptanceError ''evaluation_not_found'')
                | Some n \<Rightarrow> requires (nd_kind n = ''eval'') ''evaluation_not_found'' (Inr (fl, p, n)))))"

definition waiver_content ::
    "plan_row \<Rightarrow> node_row \<Rightarrow> flow_row \<Rightarrow> waiver_request \<Rightarrow> json \<Rightarrow> fields" where
  "waiver_content p n fl rq preds =
     [(''contract'', JStr ''evaluation-waiver/v1''), (''plan_id'', JStr (pl_id p)),
      (''plan_version'', JInt (pl_version p)), (''plan_hash'', JStr (pl_hash p)), (''node_id'', JStr (nd_id n)),
      (''node_scope'', node_scope n), (''address'', JStr (node_address fl n)),
      (''criterion_ids'', JArr (map JStr (wr_criteria rq))), (''reason'', JStr (wr_reason rq)),
      (''predecessors'', preds), (''evaluation_executed'', JBool False), (''machine_pass_claimed'', JBool False)]"

definition scope_of_row :: "fields \<Rightarrow> node_row \<Rightarrow> bool" where
  "scope_of_row row n \<longleftrightarrow> jget row ''kind'' = JStr (nd_kind n) \<and> jget row ''title'' = JStr (nd_title n)
     \<and> jget row ''issue_ref'' = jopt (nd_issue n)"

text \<open>The accepted plan's only entry for the evaluation.\<close>

definition waiver_entry :: "plan_row \<Rightarrow> node_row \<Rightarrow> string \<Rightarrow> pyexc + fields" where
  "waiver_entry p n addr =
     (case jfields (pl_document p) of None \<Rightarrow> Inl AttributeError
      | Some doc \<Rightarrow> and_then (doc_nodes doc) (\<lambda>items. and_then (entries_named addr items) (\<lambda>rows.
          (case rows of [row] \<Rightarrow> requires (scope_of_row row n) ''accepted_node_changed'' (Inr row)
           | _ \<Rightarrow> Inl (EvaluationAcceptanceError ''accepted_node_changed'')))))"

definition preview_waiver ::
    "waiver_services \<Rightarrow> digest \<Rightarrow> pydt \<Rightarrow> string \<Rightarrow> approval \<Rightarrow> waiver_request \<Rightarrow> db \<Rightarrow> pyexc + string \<times> fields" where
  "preview_waiver sv dg now fid ap rq d =
     and_then (current_target d fid ap rq) (\<lambda>(fl, p, n).
      requires (fl_state fl \<in> {''pending'', ''running''}) ''flow_not_active''
      (requires (nd_state n \<in> {''pending'', ''ready'', ''waived''} \<and> nd_attempts n = 0)
         ''waiver_requires_unexecuted_evaluation''
      (requires (\<not> list_ex (\<lambda>x. ex_org x = nd_org n \<and> ex_node x = nd_id n) (executions d))
         ''waiver_evaluation_execution_exists''
      (requires (distinct (wr_criteria rq)
          \<and> list_all (\<lambda>c. strip c \<noteq> [] \<and> length (strip c) \<le> 128) (wr_criteria rq)) ''waiver_criterion_ids_invalid''
      (and_then (ws_policy sv d (ap_org ap) fid) (\<lambda>policy.
       requires (ep_principal policy = Some (ap_actor ap)) ''existing_policy_owner_required''
       (and_then (not_before now (ep_expires policy)) (\<lambda>expired.
        requires (\<not> expired) ''execution_policy_expired''
        (let addr = node_address fl n in
         and_then (waiver_entry p n addr) (\<lambda>row.
          requires (map_of (ep_acceptance policy) addr = Some AmMACHINE) ''waiver_requires_machine_evaluation''
          (requires (EVALUATE \<notin> set (ep_gates policy)) ''explicit_human_gate_preserved''
          (requires (jget row ''evaluation'' = JNull) ''waiver_requires_unconfigured_evaluation''
          (and_then (ws_attached sv d n p) (\<lambda>attached.
           requires (attached = None) ''waiver_evaluation_contract_exists''
           (and_then (waiver_predecessors d n fl) (\<lambda>preds.
             let content = waiver_content p n fl rq preds;
                 previous = jopt (map_option dc_id (latest_waiver d n)) in
             Inr (dg (JObj [(''content'', JObj content), (''actor_id'', JStr (ap_actor ap)),
                 (''node_state'', JStr (nd_state n)), (''previous_id'', previous)]), content)))))))))))))))))"

definition waiver_identity :: "waiver_services \<Rightarrow> string \<Rightarrow> approval \<Rightarrow> waiver_request \<Rightarrow> string" where
  "waiver_identity sv fid ap rq = ws_uuid sv (JObj
     [(''kind'', JStr waiver_kind), (''org_id'', JStr (ap_org ap)), (''flow_id'', JStr fid),
      (''actor_id'', JStr (ap_actor ap)),
      (''request'', JObj [(''node_id'', JStr (wr_node rq)), (''expected_plan_version'', JInt (wr_version rq)),
         (''expected_plan_hash'', JStr (wr_hash rq)), (''criterion_ids'', JArr (map JStr (wr_criteria rq))),
         (''reason'', JStr (wr_reason rq))])])"

record waiver_receipt =
  wv_created :: bool
  wv_decision :: string
  wv_content :: json

definition waiver_decision ::
    "string \<Rightarrow> pydt \<Rightarrow> string \<Rightarrow> approval \<Rightarrow> node_row \<Rightarrow> fields \<Rightarrow> decision_row" where
  "waiver_decision ident now fid ap n content =
     \<lparr>dc_id = ident, dc_org = ap_org ap, dc_flow = fid, dc_node = Some (nd_id n), dc_kind = waiver_kind,
      dc_actor_id = ap_actor ap, dc_actor_role = ap_role ap, dc_actor_kind = ''human'',
      dc_reason = Some (dumped (JObj content)), dc_rejection = None, dc_from = Some (nd_state n),
      dc_to = Some ''waived'', dc_created = now\<rparr>"

definition put_node :: "node_row \<Rightarrow> db \<Rightarrow> db" where
  "put_node r d = d\<lparr>nodes := update_where (\<lambda>x. nd_id x = nd_id r) (\<lambda>_. r) (nodes d)\<rparr>"

definition accept_waiver ::
    "waiver_services \<Rightarrow> digest \<Rightarrow> pydt \<Rightarrow> pydt \<Rightarrow> string \<Rightarrow> approval \<Rightarrow> waiver_request \<Rightarrow> (db, waiver_receipt) op" where
  "accept_waiver sv dg now written fid ap rq d =
     (if wr_snapshot rq = None then (Inl (EvaluationAcceptanceError ''preview_snapshot_required''), d)
      else (case current_target d fid ap rq of Inl e \<Rightarrow> (Inl e, d)
       | Inr (fl, p, n) \<Rightarrow>
          let ident = waiver_identity sv fid ap rq in
          (case get_decision d ident of
             Some old \<Rightarrow>
               (and_then (valid_waiver dg d n) (\<lambda>v.
                  requires (map_option dc_id v = Some (dc_id old)) ''waiver_superseded_or_invalid''
                   (and_then (loads (dc_reason old)) (\<lambda>j.
                      Inr \<lparr>wv_created = False, wv_decision = ident, wv_content = j\<rparr>))), d)
           | None \<Rightarrow>
               (case preview_waiver sv dg now fid ap rq d of Inl e \<Rightarrow> (Inl e, d)
                | Inr (snapshot, content) \<Rightarrow>
                    if wr_snapshot rq \<noteq> Some snapshot
                    then (Inl (EvaluationAcceptanceError ''waiver_snapshot_changed''), d)
                    else (case (if nd_state n = ''waived'' then Inr True
                        else map_sum id allowed (transition_raw no_proofs (nd_state n) ''waived''
                               (actor_kind_value (ap_kind ap)) (wr_reason rq))) of
                       Inl e \<Rightarrow> (Inl e, d)
                     | Inr False \<Rightarrow> (Inl (EvaluationAcceptanceError ''waiver_transition_refused''), d)
                     | Inr True \<Rightarrow>
                         let d1 = put_node (n\<lparr>nd_state := ''waived''\<rparr>) d in
                         (Inr \<lparr>wv_created = True, wv_decision = ident, wv_content = JObj content\<rparr>,
                          d1\<lparr>decisions := decisions d1 @ [waiver_decision ident written fid ap n content]\<rparr>))))))"

end
