(* ===== verification/Tick.thy ===== *)
theory Tick
  imports Evaluation_Waiver
begin

text \<open>
  The engine's heartbeat (\<open>orchestration/tick.py\<close>): pages of candidate nodes, the predecessors
  that hold each one back, the guarded transition, the presentation of a human gate, the release of
  successors inside an acceptance, and the report.

  \<^item> The caller owns the transaction and a savepoint surrounds each node: a node whose step raises
    leaves the store as it was. Rows that another transaction has locked are skipped when a page is
    read (\<open>te_locked\<close>); a page that cannot be read at all is \<open>te_unreadable\<close>. Both are given per page.
  \<^item> A new decision row takes its id and its time from \<open>te_id\<close> and \<open>te_now\<close> at its position in the
    table.
  \<^item> Ids are compared as texts. The engine stores uuids, for which this is the order of the
    database.
\<close>

record tick_env =
  te_digest :: digest
  te_nodes :: node_services
  te_evals :: eval_services
  te_id :: "nat \<Rightarrow> string"
  te_now :: "nat \<Rightarrow> pydt"
  te_locked :: "nat \<Rightarrow> string \<Rightarrow> bool"
  te_unreadable :: "nat \<Rightarrow> bool"

definition page_size :: nat where
  "page_size = 500"

definition item_backstop :: nat where
  "item_backstop = 10000"

section \<open>The report\<close>

datatype counter = NodesExamined | TransitionsEffected | TransitionsRejected | Errors | LostRaces

type_synonym counts = "counter \<Rightarrow> nat"

record tick_report =
  tp_counts :: counts
  tp_orgs :: "(string \<times> counts) list"
  tp_pages :: nat
  tp_truncated :: bool
  tp_blocked :: "(string \<times> string list) list"

definition empty_report :: tick_report where
  "empty_report = \<lparr>tp_counts = (\<lambda>_. 0), tp_orgs = [], tp_pages = 0, tp_truncated = False, tp_blocked = []\<rparr>"

definition success :: "tick_report \<Rightarrow> bool" where
  "success r \<longleftrightarrow> tp_counts r Errors = 0"

definition count_up :: "counter \<Rightarrow> nat \<Rightarrow> counts \<Rightarrow> counts" where
  "count_up k n c = c(k := c k + n)"

definition org_counts :: "tick_report \<Rightarrow> string \<Rightarrow> counts" where
  "org_counts r org = (case map_of (tp_orgs r) org of None \<Rightarrow> (\<lambda>_. 0) | Some c \<Rightarrow> c)"

definition tally :: "string \<Rightarrow> counter \<Rightarrow> nat \<Rightarrow> tick_report \<Rightarrow> tick_report" where
  "tally org k n r = r\<lparr>tp_counts := count_up k n (tp_counts r),
     tp_orgs := dict_set org (count_up k n (org_counts r org)) (tp_orgs r)\<rparr>"

definition held_back :: "string \<Rightarrow> string list \<Rightarrow> tick_report \<Rightarrow> tick_report" where
  "held_back node why r = r\<lparr>tp_blocked := dict_set node why (tp_blocked r)\<rparr>"

definition all_counters :: "counter list" where
  "all_counters = [NodesExamined, TransitionsEffected, TransitionsRejected, Errors, LostRaces]"

text \<open>Adding a node's own report to the tick's.\<close>

definition merged_report :: "tick_report \<Rightarrow> tick_report \<Rightarrow> tick_report" where
  "merged_report own r =
     (let counted = fold (\<lambda>(org, c). fold (\<lambda>k. tally org k (c k)) all_counters) (tp_orgs own) r in
      counted\<lparr>tp_blocked := fold (\<lambda>(n, why). dict_set n why) (tp_blocked own) (tp_blocked counted)\<rparr>)"

section \<open>Candidates\<close>

record candidate =
  ca_node :: string
  ca_org :: string
  ca_flow :: string
  ca_state :: string
  ca_kind :: string

definition candidate_of :: "node_row \<Rightarrow> candidate" where
  "candidate_of n = \<lparr>ca_node = nd_id n, ca_org = nd_org n, ca_flow = nd_flow n, ca_state = nd_state n,
     ca_kind = nd_kind n\<rparr>"

definition is_candidate :: "db \<Rightarrow> node_row \<Rightarrow> bool" where
  "is_candidate d n \<longleftrightarrow>
     list_ex (\<lambda>f. fl_id f = nd_flow n \<and> fl_org f = nd_org n \<and> fl_archived f = None) (flows d)
     \<and> (nd_state n = ''pending'' \<or> nd_kind n = ''gate'' \<and> nd_state n = ''ready''
        \<or> nd_kind n = ''eval'' \<and> nd_state n = ''ready'' \<or> nd_kind n = ''eval'' \<and> nd_state n = ''awaiting_gate'')"

definition candidate_page ::
    "(string \<Rightarrow> bool) \<Rightarrow> db \<Rightarrow> string option \<Rightarrow> nat \<Rightarrow> candidate list" where
  "candidate_page locked d after limit =
     map candidate_of (take limit (sort_key nd_id (filter (\<lambda>n. is_candidate d n \<and> \<not> locked (nd_id n)
        \<and> (case after of None \<Rightarrow> True | Some a \<Rightarrow> a < nd_id n)) (nodes d))))"

section \<open>Predecessors\<close>

definition satisfied_states :: "node_state list" where
  "satisfied_states = [PASSED, WAIVED]"

definition predecessor_rows :: "db \<Rightarrow> string \<Rightarrow> string \<Rightarrow> (string \<times> string) list" where
  "predecessor_rows d org node =
     map (\<lambda>(e, n). (ed_from e, nd_state n)) (filter (\<lambda>(e, n). nd_id n = ed_from e \<and> ed_org e = org
        \<and> ed_to e = node \<and> nd_org n = org) (List.product (edges d) (nodes d)))"

text \<open>A waived predecessor counts as pending unless its waiver still holds.\<close>

definition verified_state :: "digest \<Rightarrow> db \<Rightarrow> string \<times> string \<Rightarrow> pyexc + string \<times> string" where
  "verified_state dg d row =
     (if snd row \<noteq> ''waived'' then Inr row
      else (case get_node d (fst row) of None \<Rightarrow> Inr (fst row, ''pending'')
        | Some parent \<Rightarrow> and_then (valid_waiver dg d parent) (\<lambda>w.
            Inr (if w = None then (fst row, ''pending'') else row))))"

fun verified_states :: "digest \<Rightarrow> db \<Rightarrow> (string \<times> string) list \<Rightarrow> pyexc + (string \<times> string) list" where
  "verified_states dg d [] = Inr []"
| "verified_states dg d (r # rs) =
     and_then (verified_state dg d r) (\<lambda>v. and_then (verified_states dg d rs) (\<lambda>vs. Inr (v # vs)))"

definition predecessor_states :: "digest \<Rightarrow> db \<Rightarrow> string \<Rightarrow> string \<Rightarrow> pyexc + (string \<times> string) list" where
  "predecessor_states dg d org node =
     (let rows = predecessor_rows d org node in
      if list_ex (\<lambda>r. snd r = ''waived'') rows then verified_states dg d rows else Inr rows)"

definition unsatisfied :: "(string \<times> string) list \<Rightarrow> string list" where
  "unsatisfied rows = map fst (filter (\<lambda>r. case parse_node_state (snd r) of None \<Rightarrow> True
     | Some s \<Rightarrow> s \<notin> set satisfied_states) rows)"

section \<open>The guarded transition\<close>

definition tick_decision ::
    "tick_env \<Rightarrow> db \<Rightarrow> candidate \<Rightarrow> string \<Rightarrow> jtext \<Rightarrow> string option \<Rightarrow> string option \<Rightarrow> string option \<Rightarrow> decision_row" where
  "tick_decision env d c kind why rejection from to =
     \<lparr>dc_id = te_id env (length (decisions d)), dc_org = ca_org c, dc_flow = ca_flow c, dc_node = Some (ca_node c),
      dc_kind = kind, dc_actor_id = ''system:orchestration-tick'', dc_actor_role = ''engine'',
      dc_actor_kind = ''service'', dc_reason = Some why, dc_rejection = rejection, dc_from = from, dc_to = to,
      dc_created = te_now env (length (decisions d))\<rparr>"

definition add_decision :: "decision_row \<Rightarrow> db \<Rightarrow> db" where
  "add_decision r d = d\<lparr>decisions := decisions d @ [r]\<rparr>"

text \<open>A sentence in a text column; nothing reads it as JSON.\<close>

definition plain :: "string \<Rightarrow> jtext" where
  "plain s = \<lparr>raw_text = s, decoded = None\<rparr>"

text \<open>\<open>UPDATE ... WHERE id = :id AND org_id = :org AND state = :observed\<close>.\<close>

definition guarded :: "string \<Rightarrow> string \<Rightarrow> string \<Rightarrow> node_row \<Rightarrow> bool" where
  "guarded node org observed n \<longleftrightarrow> nd_id n = node \<and> nd_org n = org \<and> nd_state n = observed"

definition apply_guarded_transition ::
    "tick_env \<Rightarrow> candidate \<Rightarrow> string \<Rightarrow> node_state \<Rightarrow> string \<Rightarrow> (db, nat \<times> bool) op" where
  "apply_guarded_transition env c observed to why d =
     (case transition_raw no_proofs observed (node_state_value to) ''service'' why of
        Inl e \<Rightarrow> (Inl e, d)
      | Inr result \<Rightarrow>
          if \<not> allowed result
          then (Inr (0, False), add_decision (tick_decision env d c ''transition_rejected'' (plain why)
                  (rejection_reason result) (Some (node_state_value (from_state result)))
                  (Some (node_state_value (to_state result)))) d)
          else
            let hit = guarded (ca_node c) (ca_org c) observed;
                rows = length (filter hit (nodes d));
                d1 = d\<lparr>nodes := update_where hit (\<lambda>n. n\<lparr>nd_state := node_state_value to\<rparr>) (nodes d)\<rparr> in
            (Inr (rows, True),
             if rows \<noteq> 0 \<and> to = AWAITING_GATE
             then add_decision (tick_decision env d1 c ''gate_presented'' (plain why) None (Some observed)
                    (Some (node_state_value to))) d1
             else d1))"

section \<open>Why an evaluation waits\<close>

definition evaluation_wait_codes :: "string list" where
  "evaluation_wait_codes = [''verified_deployment_required'', ''evaluation_predecessor_evidence_missing'',
     ''evaluation_merge_evidence_missing_or_ambiguous'', ''evaluation_predecessor_binding_changed'',
     ''evaluation_merge_plan_changed'', ''evaluation_specification_missing'', ''evaluation_flow_paused'',
     ''evaluation_flow_not_active'', ''evaluation_evidence_unverifiable'', ''deployment_authority_unverifiable'']"

definition wait_scope :: "node_row \<Rightarrow> plan_row option \<Rightarrow> string option \<Rightarrow> json" where
  "wait_scope n plan code = JObj [(''attempt'', JInt (nd_attempts n)), (''block_code'', jopt code),
     (''plan_version'', case plan of None \<Rightarrow> JNull | Some p \<Rightarrow> JInt (pl_version p))]"

text \<open>\<open>json.loads(previous.reason or "{}")\<close>.\<close>

definition loads_or_object :: "jtext option \<Rightarrow> pyexc + json" where
  "loads_or_object t = (case t of None \<Rightarrow> Inr (JObj [])
     | Some x \<Rightarrow> if raw_text x = [] then Inr (JObj []) else loads t)"

definition record_evaluation_wait :: "tick_env \<Rightarrow> node_row \<Rightarrow> string option \<Rightarrow> (db, unit) op" where
  "record_evaluation_wait env n raw d =
     (let code = (case raw of None \<Rightarrow> None
            | Some s \<Rightarrow> Some (if s \<in> set evaluation_wait_codes then s else ''evaluation_evidence_unverifiable''));
          previous = latest_decision d n [''evaluation_evidence_wait'', ''evaluation_evidence_ready''];
          row = (\<lambda>scope. tick_decision env d (candidate_of n)
            (if code \<noteq> None then ''evaluation_evidence_wait'' else ''evaluation_evidence_ready'')
            (dumped scope) None None None) in
      if code = None \<and> previous = None then (Inr (), d)
      else (case accepted_plan d (nd_org n) (nd_flow n) of Inl e \<Rightarrow> (Inl e, d)
       | Inr plan \<Rightarrow>
           let scope = wait_scope n plan code in
           (case previous of None \<Rightarrow> (Inr (), add_decision (row scope) d)
            | Some r \<Rightarrow>
                (case loads_or_object (dc_reason r) of Inl e \<Rightarrow> (Inl e, d)
                 | Inr j \<Rightarrow> if jeq j scope then (Inr (), d) else (Inr (), add_decision (row scope) d)))))"

section \<open>What an evaluation needs\<close>

datatype evaluation_choice =
    EvBlocked string
  | EvHuman "(plan_row \<times> evaluation_spec option)" json
  | EvEngine

definition deployment_free_schemas :: "string list" where
  "deployment_free_schemas = [''repository-evaluation/v1'', ''cli-live-evaluation/v1'', ''workflow-evaluation/v1'', multi_schema]"

definition choose_evaluation :: "tick_env \<Rightarrow> db \<Rightarrow> candidate \<Rightarrow> node_row \<Rightarrow> pyexc + evaluation_choice" where
  "choose_evaluation env d c n =
     (let sv = te_evals env in
      and_then (accepted_evaluation sv d n) (\<lambda>selected.
       (let multi = (case selected of None \<Rightarrow> False | Some (_, sp) \<Rightarrow> sp_schema sp = multi_schema) in
        if multi \<and> \<not> es_supported sv (snd (the selected))
        then Inl (CycleBlockedError ''evaluation_adapter_unavailable'')
        else and_then (human_evaluation sv d n) (\<lambda>found.
          (case (if multi \<and> ca_state c \<noteq> ''awaiting_gate'' then None else found) of
             Some (p, spec) \<Rightarrow> and_then (es_evidence sv d n p spec) (\<lambda>evidence. Inr (EvHuman (p, spec) evidence))
           | None \<Rightarrow> and_then (managed_evaluation sv d n) (\<lambda>managed.
               if \<not> managed then Inr EvEngine
               else and_then (accepted_evaluation sv d n) (\<lambda>accepted.
                 (case accepted of None \<Rightarrow> Inr (EvBlocked ''evaluation_specification_missing'')
                  | Some (p, sp) \<Rightarrow>
                      if sp_schema sp \<in> set deployment_free_schemas then Inr EvEngine
                      else and_then (es_deployed sv d n (pl_version p)) (\<lambda>deployed.
                        Inr (if deployed then EvEngine else EvBlocked ''verified_deployment_required''))))))))))"

text \<open>The two except clauses.\<close>

definition caught_choice :: "pyexc + evaluation_choice \<Rightarrow> pyexc + evaluation_choice" where
  "caught_choice r = (case r of
       Inl (CycleBlockedError code) \<Rightarrow> Inr (EvBlocked code)
     | Inl (EvaluationVersionError code) \<Rightarrow> Inr (EvBlocked code)
     | Inl e \<Rightarrow> if is_value_error e then Inr (EvBlocked ''deployment_authority_unverifiable'') else Inl e
     | Inr x \<Rightarrow> Inr x)"

section \<open>One node\<close>

text \<open>The targets of one step and their sequence; the raised error rolls the sequence back.\<close>

definition step_targets :: "candidate \<Rightarrow> bool \<Rightarrow> node_state list" where
  "step_targets c human =
     (if ca_state c = ''pending'' then [READY] else [])
     @ (if ca_kind c = ''gate'' \<or> human then [RUNNING, AWAITING_GATE] else [])"

definition record_human_gate_evidence :: "tick_env \<Rightarrow> candidate \<Rightarrow> json \<Rightarrow> db \<Rightarrow> db" where
  "record_human_gate_evidence env c evidence d =
     add_decision (tick_decision env d c ''human_evaluation_evidence'' (dumped evidence) None None None) d"

fun take_steps ::
    "tick_env \<Rightarrow> candidate \<Rightarrow> json option \<Rightarrow> string \<Rightarrow> string \<Rightarrow> node_state list \<Rightarrow> (nat \<times> bool) option
     \<Rightarrow> (db, (nat \<times> bool) option) op" where
  "take_steps env c evidence why observed [] result d = (Inr result, d)"
| "take_steps env c evidence why observed (to # rest) result d =
     (case apply_guarded_transition env c observed to why d of
        (Inl e, d1) \<Rightarrow> (Inl e, d1)
      | (Inr (rows, ok), d1) \<Rightarrow>
          if \<not> ok \<or> rows \<noteq> 1
          then (if observed \<noteq> ca_state c then Inl RuntimeError else Inr (Some (rows, ok)), d1)
          else take_steps env c evidence why (node_state_value to) rest (Some (rows, ok))
                 (case evidence of Some j \<Rightarrow> if to = AWAITING_GATE then record_human_gate_evidence env c j d1 else d1
                  | None \<Rightarrow> d1))"

definition step_reason :: "candidate \<Rightarrow> bool \<Rightarrow> nat \<Rightarrow> string" where
  "step_reason c human n = ''all '' @ nat_text n @ '' predecessor(s) satisfied; ''
     @ (if ca_kind c = ''gate'' \<or> human then ''human decision required'' else ''ready for execution'')"

definition effect_step ::
    "tick_env \<Rightarrow> candidate \<Rightarrow> json option \<Rightarrow> nat \<Rightarrow> tick_report \<Rightarrow> (db, tick_report) op" where
  "effect_step env c evidence preds r d =
     (let human = evidence \<noteq> None in
      case nested (take_steps env c evidence (step_reason c human preds) (ca_state c) (step_targets c human) None) d of
        (Inl e, d1) \<Rightarrow> (Inl e, d1)
      | (Inr None, d1) \<Rightarrow> (Inl UnboundLocalError, d1)
      | (Inr (Some (rows, ok)), d1) \<Rightarrow>
          (Inr (tally (ca_org c) (if \<not> ok then TransitionsRejected
             else if rows = 1 then TransitionsEffected else LostRaces) 1 r), d1))"

text \<open>An evaluation that waits at its human gate: new evidence refreshes it, nothing answers it.\<close>

definition refresh_gate ::
    "tick_env \<Rightarrow> candidate \<Rightarrow> node_row \<Rightarrow> json option \<Rightarrow> tick_report \<Rightarrow> (db, tick_report) op" where
  "refresh_gate env c n evidence r d =
     (case evidence of
        None \<Rightarrow> (case legacy_worker_gate (te_evals env) d n of Inl e \<Rightarrow> (Inl e, d)
          | Inr legacy \<Rightarrow> (Inr (if legacy then r
              else held_back (ca_node c) [''evaluation_human_contract_changed''] r), d))
      | Some j \<Rightarrow>
          (case latest_human_gate_evidence d n of Inl e \<Rightarrow> (Inl e, d)
           | Inr bound \<Rightarrow>
               if (case bound of None \<Rightarrow> False | Some (_, b) \<Rightarrow> jeq b j) then (Inr r, d)
               else let d1 = record_human_gate_evidence env c j d in
                 (Inr (tally (ca_org c) TransitionsEffected 1 r),
                  add_decision (tick_decision env d1 c ''gate_refreshed''
                    (plain ''Human evaluation evidence changed; review the refreshed gate before approving.'')
                    None None None) d1)))"

text \<open>The evaluation part of a step: blocked, or the human evidence if a human concludes it.\<close>

definition evaluation_step ::
    "tick_env \<Rightarrow> candidate \<Rightarrow> node_row \<Rightarrow> (db, string + json option) op" where
  "evaluation_step env c n d =
     (case caught_choice (choose_evaluation env d c n) of
        Inl e \<Rightarrow> (Inl e, d)
      | Inr (EvBlocked why) \<Rightarrow>
          (case record_evaluation_wait env n (Some why) d of (Inl e, d1) \<Rightarrow> (Inl e, d1)
           | (Inr _, d1) \<Rightarrow> (Inr (Inl why), d1))
      | Inr choice \<Rightarrow>
          (case record_evaluation_wait env n None d of (Inl e, d1) \<Rightarrow> (Inl e, d1)
           | (Inr _, d1) \<Rightarrow> (Inr (Inr (case choice of EvHuman _ j \<Rightarrow> Some j | _ \<Rightarrow> None)), d1)))"

definition own_node :: "db \<Rightarrow> candidate \<Rightarrow> node_row option" where
  "own_node d c = (case get_node d (ca_node c) of None \<Rightarrow> None
     | Some n \<Rightarrow> if nd_org n = ca_org c then Some n else None)"

definition advance_evaluation ::
    "tick_env \<Rightarrow> candidate \<Rightarrow> nat \<Rightarrow> tick_report \<Rightarrow> (db, tick_report) op" where
  "advance_evaluation env c preds r d =
     (case own_node d c of
        None \<Rightarrow>
          if ca_state c = ''awaiting_gate''
          then (Inr (held_back (ca_node c) [''evaluation_human_contract_changed''] r), d)
          else if ca_state c = ''ready'' then (Inr r, d)
          else effect_step env c None preds r d
      | Some n \<Rightarrow>
          (case evaluation_step env c n d of
             (Inl e, d1) \<Rightarrow> (Inl e, d1)
           | (Inr (Inl why), d1) \<Rightarrow> (Inr (held_back (ca_node c) [why] r), d1)
           | (Inr (Inr evidence), d1) \<Rightarrow>
               if ca_state c = ''awaiting_gate'' then refresh_gate env c n evidence r d1
               else if ca_state c = ''ready'' \<and> evidence = None then (Inr r, d1)
               else effect_step env c evidence preds r d1))"

definition input_text :: "named_input \<Rightarrow> string" where
  "input_text i = ''required_input:'' @ ni_name i @ '':'' @ ni_source i"

definition advance_node :: "tick_env \<Rightarrow> candidate \<Rightarrow> tick_report \<Rightarrow> (db, tick_report) op" where
  "advance_node env c r d =
     (case flow_for d (ca_org c) (ca_flow c) of
        None \<Rightarrow> (Inr (held_back (ca_node c) [''flow_archived''] r), d)
      | Some fl \<Rightarrow>
          if fl_archived fl \<noteq> None then (Inr (held_back (ca_node c) [''flow_archived''] r), d)
          else (case predecessor_states (te_digest env) d (ca_org c) (ca_node c) of
             Inl e \<Rightarrow> (Inl e, d)
           | Inr preds \<Rightarrow>
               if unsatisfied preds \<noteq> [] then (Inr (held_back (ca_node c) (unsatisfied preds) r), d)
               else (case (case own_node d c of None \<Rightarrow> Inr []
                        | Some n \<Rightarrow> unresolved_required_inputs (te_nodes env) d n) of
                  Inl e \<Rightarrow> (Inl e, d)
                | Inr missing \<Rightarrow>
                    if missing \<noteq> [] then (Inr (held_back (ca_node c) (map input_text missing) r), d)
                    else if ca_kind c = ''eval'' then advance_evaluation env c (length preds) r d
                    else effect_step env c None (length preds) r d)))"

section \<open>Release inside an acceptance\<close>

definition open_successors :: "db \<Rightarrow> node_row \<Rightarrow> node_row list" where
  "open_successors d n =
     take 129 (sort_key nd_id (map snd (filter (\<lambda>(e, m). ed_to e = nd_id m \<and> ed_org e = nd_org n
        \<and> ed_from e = nd_id n \<and> nd_org m = nd_org n \<and> nd_flow m = nd_flow n
        \<and> nd_state m \<in> {''pending'', ''ready''}) (List.product (edges d) (nodes d)))))"

fun release_each :: "tick_env \<Rightarrow> node_row list \<Rightarrow> tick_report \<Rightarrow> (db, tick_report) op" where
  "release_each env [] r d = (Inr r, d)"
| "release_each env (m # ms) r d =
     (if nd_state m = ''ready'' \<and> nd_kind m \<noteq> ''gate'' then release_each env ms r d
      else (case advance_node env (candidate_of m) r d of
         (Inl e, d1) \<Rightarrow> (Inl e, d1)
       | (Inr r1, d1) \<Rightarrow> release_each env ms r1 d1))"

definition release_satisfied_successors :: "tick_env \<Rightarrow> node_row \<Rightarrow> (db, tick_report) op" where
  "release_satisfied_successors env n d =
     (let rows = open_successors d n in
      if 128 < length rows then (Inl ValueError, d) else release_each env rows empty_report d)"

section \<open>One tick\<close>

definition tick_node :: "tick_env \<Rightarrow> candidate \<Rightarrow> tick_report \<times> db \<Rightarrow> tick_report \<times> db" where
  "tick_node env c s =
     (let (r, d) = s; r1 = tally (ca_org c) NodesExamined 1 r in
      case nested (advance_node env c empty_report) d of
        (Inl e, d1) \<Rightarrow> (tally (ca_org c) Errors 1 r1, d1)
      | (Inr own, d1) \<Rightarrow> (merged_report own r1, d1))"

definition tick_page :: "tick_env \<Rightarrow> candidate list \<Rightarrow> tick_report \<times> db \<Rightarrow> tick_report \<times> db" where
  "tick_page env page s = fold (tick_node env) page s"

definition examined :: "tick_report \<Rightarrow> nat" where
  "examined r = tp_counts r NodesExamined"

definition page_failed :: "tick_report \<Rightarrow> tick_report" where
  "page_failed r = r\<lparr>tp_counts := count_up Errors 1 (tp_counts r)\<rparr>"

definition page_of :: "tick_env \<Rightarrow> tick_report \<Rightarrow> string option \<Rightarrow> db \<Rightarrow> candidate list" where
  "page_of env r after d =
     candidate_page (te_locked env (tp_pages r)) d after (min page_size (item_backstop - examined r))"

lemma examined_tally: "examined (tally org k n r) = examined r + (if k = NodesExamined then n else 0)"
  by (simp add: examined_def tally_def count_up_def)

lemma examined_fold_tally:
  "examined r \<le> examined (fold (\<lambda>k. tally org k (c k)) ks r)"
proof (induction ks arbitrary: r)
  case (Cons k ks)
  then show ?case using Cons [of "tally org k (c k) r"] by (simp add: examined_tally)
qed simp

lemma examined_merged: "examined r \<le> examined (merged_report own r)"
proof -
  have "examined r \<le> examined (fold (\<lambda>(org, c). fold (\<lambda>k. tally org k (c k)) all_counters) os r)" for os r
  proof (induction os arbitrary: r)
    case (Cons oc os)
    obtain org c where "oc = (org, c)" by force
    then show ?case
      using Cons [of "fold (\<lambda>k. tally org k (c k)) all_counters r"] examined_fold_tally [of r org c all_counters]
      by simp
  qed simp
  then show ?thesis by (simp add: merged_report_def examined_def Let_def)
qed

lemma examined_tick_node: "Suc (examined r) \<le> examined (fst (tick_node env c (r, d)))"
proof (cases "nested (advance_node env c empty_report) d")
  case (Pair x d1)
  then show ?thesis
    using examined_merged [of "tally (ca_org c) NodesExamined 1 r"]
    by (cases x) (simp_all add: tick_node_def Let_def examined_tally)
qed

lemma examined_tick_page: "length page + examined (fst s) \<le> examined (fst (tick_page env page s))"
proof (induction page arbitrary: s)
  case (Cons c page)
  obtain r d where "s = (r, d)" by force
  with Cons [of "tick_node env c s"] examined_tick_node [of r env c d] show ?case
    by (simp add: tick_page_def)
qed (simp add: tick_page_def)

function run_pages :: "tick_env \<Rightarrow> string option \<Rightarrow> tick_report \<times> db \<Rightarrow> tick_report \<times> db" where
  "run_pages env after (r, d) =
     (if item_backstop \<le> examined r then (r\<lparr>tp_truncated := True\<rparr>, d)
      else if te_unreadable env (tp_pages r) then (page_failed r, d)
      else let page = page_of env r after d in
        if page = [] then (r, d)
        else let s1 = tick_page env page (r\<lparr>tp_pages := tp_pages r + 1\<rparr>, d) in
          if length page < page_size then s1 else run_pages env (Some (ca_node (last page))) s1)"
  by pat_completeness auto
termination run_pages
proof (relation "measure (\<lambda>(env, after, r, d). item_backstop - examined r)")
  fix env after r d page s1
  assume left: "\<not> item_backstop \<le> examined r" and page: "page = page_of env r after d" "page \<noteq> []"
    and s1: "s1 = tick_page env page (r\<lparr>tp_pages := tp_pages r + 1\<rparr>, d)"
  have "examined (r\<lparr>tp_pages := tp_pages r + 1\<rparr>) = examined r" by (simp add: examined_def)
  then have "examined r < examined (fst s1)"
    using examined_tick_page [of page "(r\<lparr>tp_pages := tp_pages r + 1\<rparr>, d)" env] page(2) s1
    by (cases page) simp_all
  with left show "((env, Some (ca_node (last page)), s1), env, after, r, d)
      \<in> measure (\<lambda>(env, after, r, d). item_backstop - examined r)"
    by (cases s1) simp
qed simp

definition run_tick :: "tick_env \<Rightarrow> db \<Rightarrow> tick_report \<times> db" where
  "run_tick env d = run_pages env None (empty_report, d)"

declare run_pages.simps [simp del]

end
