(* ===== verification/Tick_Laws.thy ===== *)
theory Tick_Laws
  imports Tick
begin

text \<open>
  What the parts of a tick do to the store: every step keeps all tables but nodes and decisions,
  only appends decisions, and changes at most the state of its own node, by a move it observed and
  was allowed.
\<close>

section \<open>Frames\<close>

definition rest_kept :: "db \<Rightarrow> db \<Rightarrow> bool" where
  "rest_kept d e \<longleftrightarrow> flows e = flows d \<and> edges e = edges d \<and> plans e = plans d \<and> claims e = claims d
     \<and> bindings e = bindings d \<and> executions e = executions d \<and> actions e = actions d
     \<and> (\<exists>ds. decisions e = decisions d @ ds)"

lemma rest_kept_refl [simp]: "rest_kept d d"
  by (simp add: rest_kept_def)

lemma rest_kept_trans [trans]: "rest_kept d e \<Longrightarrow> rest_kept e f \<Longrightarrow> rest_kept d f"
  by (auto simp: rest_kept_def)

lemma add_decision_kept [simp]: "rest_kept d (add_decision r d)" "nodes (add_decision r d) = nodes d"
  by (simp_all add: rest_kept_def add_decision_def)

lemma rest_kept_add [simp]: "rest_kept d e \<Longrightarrow> rest_kept d (add_decision r e)"
  by (auto simp: rest_kept_def add_decision_def)

lemma nodes_kept [simp]: "rest_kept d (d\<lparr>nodes := ns\<rparr>)"
  by (simp add: rest_kept_def)

definition set_state :: "string \<Rightarrow> string \<Rightarrow> node_row list \<Rightarrow> node_row list" where
  "set_state node t = update_where (\<lambda>m. nd_id m = node) (\<lambda>m. m\<lparr>nd_state := t\<rparr>)"

lemma unique_set_state [simp]: "unique_on nd_id (set_state node t ns) \<longleftrightarrow> unique_on nd_id ns"
  unfolding set_state_def by (rule unique_on_update) simp

lemma set_state_twice [simp]: "set_state node t (set_state node s ns) = set_state node t ns"
  by (simp add: set_state_def update_where_def)

text \<open>The store has the candidate's row in the observed state.\<close>

definition observed_now :: "candidate \<Rightarrow> string \<Rightarrow> db \<Rightarrow> bool" where
  "observed_now c s d \<longleftrightarrow> (\<exists>n \<in> set (nodes d). guarded (ca_node c) (ca_org c) s n)"

lemma observed_set_state:
  assumes "observed_now c s d" "nodes e = set_state (ca_node c) t (nodes d)"
  shows "observed_now c t e"
proof -
  obtain n where n: "n \<in> set (nodes d)" "nd_id n = ca_node c" "nd_org n = ca_org c"
    using assms(1) by (auto simp: observed_now_def guarded_def)
  then have "n\<lparr>nd_state := t\<rparr> \<in> set (nodes e)"
    unfolding assms(2) set_state_def set_update_where by blast
  then show ?thesis unfolding observed_now_def guarded_def using n by (intro bexI) simp_all
qed

lemma guarded_only:
  assumes "unique_on nd_id (nodes d)" "n \<in> set (nodes d)" "guarded node org s n" "m \<in> set (nodes d)"
  shows "guarded node org s m \<longleftrightarrow> nd_id m = node"
proof
  show "nd_id m = node" if "guarded node org s m" using that by (simp add: guarded_def)
  show "guarded node org s m" if "nd_id m = node"
    using unique_onD [OF assms(1,2,4)] that assms(3) unfolding guarded_def by metis
qed

lemma guarded_rows:
  assumes "unique_on nd_id (nodes d)"
  shows "length (filter (guarded (ca_node c) (ca_org c) s) (nodes d)) = (if observed_now c s d then 1 else 0)"
    and "observed_now c s d \<Longrightarrow>
      update_where (guarded (ca_node c) (ca_org c) s) (\<lambda>n. n\<lparr>nd_state := t\<rparr>) (nodes d) = set_state (ca_node c) t (nodes d)"
    and "\<not> observed_now c s d \<Longrightarrow>
      update_where (guarded (ca_node c) (ca_org c) s) (\<lambda>n. n\<lparr>nd_state := t\<rparr>) (nodes d) = nodes d"
proof -
  have "distinct (filter (guarded (ca_node c) (ca_org c) s) (nodes d))"
    using assms by (auto simp: unique_on_def distinct_map)
  then have len: "length (filter (guarded (ca_node c) (ca_org c) s) (nodes d))
      = card {n \<in> set (nodes d). guarded (ca_node c) (ca_org c) s n}"
    using distinct_card by fastforce
  show "length (filter (guarded (ca_node c) (ca_org c) s) (nodes d)) = (if observed_now c s d then 1 else 0)"
  proof (cases "observed_now c s d")
    case True
    then obtain n where n: "n \<in> set (nodes d)" "guarded (ca_node c) (ca_org c) s n" by (auto simp: observed_now_def)
    have "m = n" if "m \<in> set (nodes d)" "guarded (ca_node c) (ca_org c) s m" for m
      using unique_onD [OF assms that(1) n(1)] that(2) n(2) by (simp add: guarded_def)
    then have "{n \<in> set (nodes d). guarded (ca_node c) (ca_org c) s n} = {n}" using n by blast
    with len True show ?thesis by simp
  next
    case False
    then show ?thesis by (auto simp: observed_now_def filter_empty_conv)
  qed
  show "update_where (guarded (ca_node c) (ca_org c) s) (\<lambda>n. n\<lparr>nd_state := t\<rparr>) (nodes d) = set_state (ca_node c) t (nodes d)"
    if "observed_now c s d"
  proof -
    from that obtain n where n: "n \<in> set (nodes d)" "guarded (ca_node c) (ca_org c) s n"
      unfolding observed_now_def by blast
    show ?thesis
      unfolding set_state_def update_where_def
      by (rule map_cong [OF refl]) (simp only: guarded_only [OF assms n])
  qed
  show "update_where (guarded (ca_node c) (ca_org c) s) (\<lambda>n. n\<lparr>nd_state := t\<rparr>) (nodes d) = nodes d"
    if "\<not> observed_now c s d"
    by (rule update_where_id) (use that observed_now_def in blast)
qed

section \<open>The guarded transition\<close>

definition service_move :: "string \<Rightarrow> node_state \<Rightarrow> bool" where
  "service_move s to \<longleftrightarrow> (\<exists>fr. s = node_state_value fr \<and> allowed (transition no_proofs fr to SERVICE []))"

lemma allowed_any_reason: "allowed (transition pf fr to k r) = allowed (transition pf fr to k q)"
  by (simp add: transition_cases)

lemma service_raw:
  "transition_raw no_proofs s (node_state_value to) ''service'' why = Inr result \<Longrightarrow>
     allowed result \<longleftrightarrow> service_move s to"
proof -
  assume raw: "transition_raw no_proofs s (node_state_value to) ''service'' why = Inr result"
  have actor: "parse_actor_kind ''service'' = Some SERVICE"
    unfolding parse_actor_kind_def actor_text.parse_iff by simp
  have target: "parse_node_state (node_state_value to) = Some to"
    unfolding parse_node_state_def node_text.parse_iff by simp
  from raw obtain fr where fr: "parse_node_state s = Some fr" "result = transition no_proofs fr to SERVICE why"
    by (auto simp: transition_raw_def actor target split: option.splits)
  then have s: "s = node_state_value fr" unfolding parse_node_state_def node_text.parse_iff by simp
  show ?thesis
    unfolding service_move_def s fr(2) using allowed_any_reason node_text.val_inject by metis
qed

text \<open>A refusal is recorded; an allowed move writes exactly the row that is still as observed.\<close>

lemma guarded_transition_cases:
  assumes "unique_on nd_id (nodes d)" "apply_guarded_transition env c s to why d = (Inr (rows, ok), e)"
  shows "(ok \<longleftrightarrow> service_move s to) \<and> rows = (if ok \<and> observed_now c s d then 1 else 0) \<and> rest_kept d e
    \<and> nodes e = (if rows = 1 then set_state (ca_node c) (node_state_value to) (nodes d) else nodes d)
    \<and> (ok \<and> rows = 0 \<longrightarrow> e = d)"
proof -
  obtain result where raw: "transition_raw no_proofs s (node_state_value to) ''service'' why = Inr result"
    using assms(2) by (auto simp: apply_guarded_transition_def split: sum.splits)
  note ok = service_raw [OF raw]
  show ?thesis
  proof (cases "allowed result")
    case False
    then show ?thesis using assms(2) ok raw by (auto simp: apply_guarded_transition_def)
  next
    case True
    note r = guarded_rows [OF assms(1), of c s]
    show ?thesis
    proof (cases "observed_now c s d")
      case seen: True
      let ?d1 = "d\<lparr>nodes := set_state (ca_node c) (node_state_value to) (nodes d)\<rparr>"
      have "rows = 1 \<and> ok \<and> (e = ?d1 \<or> (\<exists>r. e = add_decision r ?d1))"
        using assms(2) raw True seen r(1) r(2) [OF seen]
        by (auto simp: apply_guarded_transition_def Let_def split: if_splits)
      then show ?thesis
        using seen True ok nodes_kept rest_kept_trans [OF nodes_kept add_decision_kept(1)] by auto
    next
      case gone: False
      then have "rows = 0 \<and> ok \<and> e = d"
        using assms(2) raw True r(1) r(3) [OF gone] by (auto simp: apply_guarded_transition_def Let_def split: if_splits)
      then show ?thesis using gone True ok by simp
    qed
  qed
qed

section \<open>A sequence of moves\<close>

lemma evidence_kept [simp]:
  "rest_kept d (record_human_gate_evidence env c j d)" "nodes (record_human_gate_evidence env c j d) = nodes d"
  by (simp_all add: record_human_gate_evidence_def)

text \<open>Once the first move has been made, the rest is all or an exception.\<close>

lemma take_steps_rest:
  assumes "take_steps env c ev why s ts (Some (1, True)) d = (Inr res, e)" "unique_on nd_id (nodes d)"
    and "ca_state c \<notin> insert s (node_state_value ` set (butlast ts))"
  shows "res = Some (1, True) \<and> rest_kept d e
    \<and> nodes e = (if ts = [] then nodes d else set_state (ca_node c) (node_state_value (last ts)) (nodes d))"
  using assms
proof (induction ts arbitrary: s d)
  case Nil
  then show ?case by simp
next
  case (Cons to ts)
  obtain x d1 where g: "apply_guarded_transition env c s to why d = (x, d1)" by force
  from Cons.prems(1) g obtain rows ok where x: "x = Inr (rows, ok)" by (cases x) auto
  note cases = guarded_transition_cases [OF Cons.prems(2) g [unfolded x]]
  have ok: "ok" "rows = 1" using Cons.prems(1,3) g x by (auto split: if_splits)
  define d2 where "d2 = (case ev of Some j \<Rightarrow> if to = AWAITING_GATE then record_human_gate_evidence env c j d1 else d1
                  | None \<Rightarrow> d1)"
  have d2: "rest_kept d1 d2" "nodes d2 = nodes d1" by (simp_all add: d2_def split: option.splits)
  have n1: "nodes d2 = set_state (ca_node c) (node_state_value to) (nodes d)" using cases ok d2(2) by simp
  have rest: "take_steps env c ev why (node_state_value to) ts (Some (1, True)) d2 = (Inr res, e)"
    using Cons.prems(1) g x ok by (simp add: d2_def)
  have u: "unique_on nd_id (nodes d2)" using Cons.prems(2) n1 by simp
  have k: "rest_kept d d2" using cases d2(1) rest_kept_trans by blast
  show ?case
  proof (cases "ts = []")
    case True
    with rest n1 k show ?thesis by simp
  next
    case False
    then have "ca_state c \<notin> insert (node_state_value to) (node_state_value ` set (butlast ts))"
      using Cons.prems(3) by auto
    from Cons.IH [OF rest u this] n1 k False show ?thesis using rest_kept_trans by auto
  qed
qed

text \<open>The first move decides: refused, lost to another process, or the whole sequence.\<close>

lemma take_steps_cases:
  assumes "take_steps env c ev why (ca_state c) (to # ts) None d = (Inr res, e)" "unique_on nd_id (nodes d)"
    and "ca_state c \<notin> node_state_value ` set (to # ts)"
  shows "rest_kept d e \<and> (\<exists>rows ok. res = Some (rows, ok) \<and> (ok \<longleftrightarrow> service_move (ca_state c) to)
    \<and> rows = (if ok \<and> observed_now c (ca_state c) d then 1 else 0)
    \<and> nodes e = (if rows = 1 then set_state (ca_node c) (node_state_value (last (to # ts))) (nodes d) else nodes d))"
proof -
  obtain x d1 where g: "apply_guarded_transition env c (ca_state c) to why d = (x, d1)" by force
  from assms(1) g obtain rows ok where x: "x = Inr (rows, ok)" by (cases x) auto
  note cases = guarded_transition_cases [OF assms(2) g [unfolded x]]
  show ?thesis
  proof (cases "ok \<and> rows = 1")
    case False
    then have "res = Some (rows, ok)" "e = d1" using assms(1) g x by auto
    then show ?thesis using cases False by auto
  next
    case True
    define d2 where "d2 = (case ev of Some j \<Rightarrow> if to = AWAITING_GATE then record_human_gate_evidence env c j d1 else d1
                  | None \<Rightarrow> d1)"
    have d2: "rest_kept d1 d2" "nodes d2 = nodes d1" by (simp_all add: d2_def split: option.splits)
    have n1: "nodes d2 = set_state (ca_node c) (node_state_value to) (nodes d)" using cases True d2(2) by simp
    have rest: "take_steps env c ev why (node_state_value to) ts (Some (1, True)) d2 = (Inr res, e)"
      using assms(1) g x True by (simp add: d2_def)
    have u: "unique_on nd_id (nodes d2)" using assms(2) n1 by simp
    have "ca_state c \<notin> insert (node_state_value to) (node_state_value ` set (butlast ts))"
      using assms(3) by (auto dest: in_set_butlastD)
    note tail = take_steps_rest [OF rest u this]
    have k: "rest_kept d e" using cases d2(1) tail rest_kept_trans by blast
    have fin: "nodes e = set_state (ca_node c) (node_state_value (last (to # ts))) (nodes d)"
      using tail n1 by auto
    have res: "res = Some (1, True)" using tail by blast
    have mv: "service_move (ca_state c) to" using cases True by blast
    have "rows = (if ok \<and> observed_now c (ca_state c) d then 1 else 0)" using cases by blast
    then have ob: "observed_now c (ca_state c) d" using True by (metis zero_neq_one)
    show ?thesis
      by (intro conjI k exI [of _ 1] exI [of _ True] res) (simp_all add: mv ob fin)
  qed
qed

section \<open>What a step may do\<close>

text \<open>
  The candidate's own row, still in the observed state, moves to \<open>t\<close>; or no row changes.
\<close>

definition step_effect :: "candidate \<Rightarrow> bool \<Rightarrow> db \<Rightarrow> db \<Rightarrow> bool" where
  "step_effect c human d e \<longleftrightarrow> rest_kept d e \<and> (nodes e = nodes d \<or>
     (observed_now c (ca_state c) d
      \<and> nodes e = set_state (ca_node c) (node_state_value (last (step_targets c human))) (nodes d)
      \<and> ca_state c \<in> {''pending'', ''ready''} \<and> step_targets c human \<noteq> []))"

lemma service_move_pending: "service_move ''pending'' READY"
  unfolding service_move_def by (intro exI [of _ PENDING]) (simp add: transition_unfold no_proofs_def)

lemma service_move_ready: "service_move ''ready'' RUNNING"
  unfolding service_move_def by (intro exI [of _ READY]) (simp add: transition_unfold no_proofs_def)

lemma service_move_to_running: "service_move s RUNNING \<Longrightarrow> s = ''ready''"
proof -
  assume "service_move s RUNNING"
  then obtain fr where fr: "s = node_state_value fr" "allowed (transition no_proofs fr RUNNING SERVICE [])"
    by (auto simp: service_move_def)
  from fr(2) have "fr = READY" by (cases fr) (auto simp: transition_unfold no_proofs_def)
  with fr(1) show ?thesis by simp
qed

text \<open>The report of a step never counts examined nodes or errors of its own.\<close>

definition quiet :: "tick_report \<Rightarrow> bool" where
  "quiet r \<longleftrightarrow> (\<forall>(org, c) \<in> set (tp_orgs r). c NodesExamined = 0 \<and> c Errors = 0)"

lemma quiet_empty [simp]: "quiet empty_report"
  by (simp add: quiet_def empty_report_def)

lemma quiet_held_back [simp]: "quiet (held_back n why r) = quiet r"
  by (simp add: quiet_def held_back_def)

lemma set_dict_set: "set (dict_set k v fs) \<subseteq> insert (k, v) (set fs)"
  by (induction k v fs rule: dict_set.induct) auto

lemma quiet_tally:
  assumes "quiet r" "k \<noteq> NodesExamined" "k \<noteq> Errors"
  shows "quiet (tally org k n r)"
proof -
  have "org_counts r org NodesExamined = 0 \<and> org_counts r org Errors = 0"
    using assms(1) by (auto simp: quiet_def org_counts_def dest: map_of_SomeD split: option.splits)
  then show ?thesis
    using assms set_dict_set [of org "count_up k n (org_counts r org)" "tp_orgs r"]
    by (fastforce simp: quiet_def tally_def count_up_def)
qed

lemma step_target_values:
  assumes "ca_state c = ''pending'' \<or> ca_state c = ''ready''"
  shows "ca_state c \<notin> node_state_value ` set (step_targets c human)"
proof (cases "ca_state c = ''pending''")
  case True
  then show ?thesis by (cases "ca_kind c = ''gate'' \<or> human") (simp_all only: step_targets_def, simp_all)
next
  case False
  with assms have "ca_state c = ''ready''" by blast
  then show ?thesis by (cases "ca_kind c = ''gate'' \<or> human") (simp_all only: step_targets_def, simp_all)
qed

lemma step_first:
  assumes "step_targets c human = to # ts"
  shows "to = READY \<and> ca_state c = ''pending'' \<or> to = RUNNING \<and> ca_state c \<noteq> ''pending''"
  using assms by (simp add: step_targets_def split: if_splits)

lemma effect_step_effect:
  assumes "effect_step env c ev preds r d = (Inr r', e)" "unique_on nd_id (nodes d)"
  shows "step_effect c (ev \<noteq> None) d e \<and> (quiet r \<longrightarrow> quiet r')"
proof -
  let ?ts = "step_targets c (ev \<noteq> None)"
  from assms(1) obtain rows ok where
    t: "take_steps env c ev (step_reason c (ev \<noteq> None) preds) (ca_state c) ?ts None d = (Inr (Some (rows, ok)), e)"
    and r': "r' = tally (ca_org c) (if \<not> ok then TransitionsRejected
             else if rows = 1 then TransitionsEffected else LostRaces) 1 r"
    by (auto simp: effect_step_def nested_def Let_def split: prod.splits sum.splits option.splits)
  have q: "quiet r \<longrightarrow> quiet r'" using r' quiet_tally by auto
  obtain to ts where ts: "?ts = to # ts" using t by (cases ?ts) auto
  have open_state: "ca_state c = ''pending'' \<or> ca_state c = ''ready''" if "service_move (ca_state c) to"
    using step_first [OF ts] that service_move_to_running by blast
  have "step_effect c (ev \<noteq> None) d e"
  proof (cases "ca_state c \<notin> node_state_value ` set (to # ts)")
    case True
    note cases = take_steps_cases [OF t [unfolded ts] assms(2) True]
    show ?thesis
    proof (cases "service_move (ca_state c) to \<and> observed_now c (ca_state c) d")
      case True
      then have "nodes e = set_state (ca_node c) (node_state_value (last (to # ts))) (nodes d)" using cases by auto
      then show ?thesis unfolding step_effect_def ts using cases True open_state by blast
    next
      case False
      then have "nodes e = nodes d" using cases by auto
      then show ?thesis unfolding step_effect_def using cases by blast
    qed
  next
    case False
    obtain x d1 where g: "apply_guarded_transition env c (ca_state c) to (step_reason c (ev \<noteq> None) preds) d = (x, d1)"
      by force
    from t ts g obtain rows1 ok1 where x: "x = Inr (rows1, ok1)" by (cases x) auto
    note first = guarded_transition_cases [OF assms(2) g [unfolded x]]
    have "\<not> service_move (ca_state c) to"
      using False open_state step_target_values [of c "ev \<noteq> None"] unfolding ts by blast
    then have "\<not> ok1" "e = d1" using first t ts g x by auto
    with first show ?thesis by (simp add: step_effect_def)
  qed
  with q show ?thesis by simp
qed

section \<open>One node\<close>

lemma wait_kept:
  "record_evaluation_wait env n code d = (x, e) \<Longrightarrow> rest_kept d e \<and> nodes e = nodes d"
  unfolding record_evaluation_wait_def Let_def
  by (auto split: if_splits sum.splits option.splits)

lemma refresh_kept:
  "refresh_gate env c n ev r d = (Inr r', e) \<Longrightarrow> rest_kept d e \<and> nodes e = nodes d \<and> (quiet r \<longrightarrow> quiet r')"
  unfolding refresh_gate_def Let_def
  by (auto simp: quiet_tally split: if_splits sum.splits option.splits)

lemma evaluation_step_kept:
  "evaluation_step env c n d = (x, e) \<Longrightarrow> rest_kept d e \<and> nodes e = nodes d"
  unfolding evaluation_step_def
  by (auto dest!: wait_kept split: sum.splits evaluation_choice.splits prod.splits)

lemma step_effect_refl: "rest_kept d e \<Longrightarrow> nodes e = nodes d \<Longrightarrow> step_effect c human d e"
  by (simp add: step_effect_def)

lemma step_effect_after:
  "rest_kept d d1 \<Longrightarrow> nodes d1 = nodes d \<Longrightarrow> step_effect c human d1 e \<Longrightarrow> step_effect c human d e"
  using rest_kept_trans [of d d1 e] by (simp add: step_effect_def observed_now_def)

lemma advance_evaluation_effect:
  assumes "advance_evaluation env c preds r d = (Inr r', e)" "unique_on nd_id (nodes d)"
  shows "(\<exists>human. step_effect c human d e) \<and> (quiet r \<longrightarrow> quiet r')"
proof (cases "own_node d c")
  case None
  then consider "e = d" "quiet r' = quiet r" | "effect_step env c None preds r d = (Inr r', e)"
    using assms(1) by (auto simp: advance_evaluation_def split: if_splits)
  then show ?thesis
    using effect_step_effect [OF _ assms(2)] step_effect_refl [OF rest_kept_refl refl] by cases blast+
next
  case (Some n)
  obtain x d1 where ev: "evaluation_step env c n d = (x, d1)" by force
  note k = evaluation_step_kept [OF ev]
  have u: "unique_on nd_id (nodes d1)" using k assms(2) by simp
  from assms(1) Some ev consider "e = d1" "quiet r' = quiet r"
    | evd where "refresh_gate env c n evd r d1 = (Inr r', e)"
    | evd where "effect_step env c evd preds r d1 = (Inr r', e)"
    by (auto simp: advance_evaluation_def split: sum.splits if_splits)
  then show ?thesis
  proof cases
    case 1
    with k show ?thesis using step_effect_refl by blast
  next
    case 2
    from refresh_kept [OF this] k show ?thesis using step_effect_refl rest_kept_trans by metis
  next
    case 3
    from effect_step_effect [OF this u] k show ?thesis using step_effect_after by blast
  qed
qed

text \<open>When a candidate may move: its flow is open and every predecessor is satisfied.\<close>

definition flow_open :: "db \<Rightarrow> candidate \<Rightarrow> bool" where
  "flow_open d c \<longleftrightarrow> (\<exists>fl. flow_for d (ca_org c) (ca_flow c) = Some fl \<and> fl_archived fl = None)"

definition released_now :: "tick_env \<Rightarrow> db \<Rightarrow> candidate \<Rightarrow> bool" where
  "released_now env d c \<longleftrightarrow> flow_open d c
     \<and> (\<exists>preds. predecessor_states (te_digest env) d (ca_org c) (ca_node c) = Inr preds \<and> unsatisfied preds = [])"

lemma advance_node_effect:
  assumes "advance_node env c r d = (Inr r', e)" "unique_on nd_id (nodes d)"
  shows "rest_kept d e \<and> (nodes e = nodes d \<or> released_now env d c \<and> (\<exists>human. step_effect c human d e))
    \<and> (quiet r \<longrightarrow> quiet r')"
proof -
  have same: ?thesis if "e = d" "quiet r' = quiet r" using that by simp
  show ?thesis
  proof (cases "released_now env d c")
    case False
    then have "e = d \<and> quiet r' = quiet r"
      using assms(1) by (auto simp: advance_node_def released_now_def flow_open_def split: option.splits sum.splits if_splits)
    then show ?thesis using same by blast
  next
    case True
    from assms(1) consider "e = d" "quiet r' = quiet r"
      | preds where "advance_evaluation env c preds r d = (Inr r', e)"
      | preds where "effect_step env c None preds r d = (Inr r', e)"
      by (auto simp: advance_node_def split: option.splits sum.splits if_splits)
    then show ?thesis
    proof cases
      case 1
      then show ?thesis by (rule same)
    next
      case 2
      from advance_evaluation_effect [OF this assms(2)] True show ?thesis
        by (auto simp: step_effect_def)
    next
      case 3
      from effect_step_effect [OF this assms(2)] True show ?thesis
        by (auto simp: step_effect_def)
    qed
  qed
qed

end
