(* ===== verification/Tick_Properties.thy ===== *)
theory Tick_Properties
  imports Tick_Laws
begin

text \<open>
  What one tick guarantees: only nodes whose predecessors are satisfied move, only forward and
  never past a human; an overlapping tick effects nothing twice; the scan is bounded; a failure is
  counted and leaves nothing behind; and a story or gate that is free to move has moved by the end.
\<close>

section \<open>Satisfied predecessors\<close>

lemma verified_states_member:
  "verified_states dg d rows = Inr vs \<Longrightarrow> r \<in> set rows \<Longrightarrow> \<exists>v \<in> set vs. verified_state dg d r = Inr v"
  by (induction rows arbitrary: vs) (auto simp: and_then_Inr)

lemma unsatisfied_Nil:
  "unsatisfied rows = [] \<longleftrightarrow> (\<forall>r \<in> set rows. snd r = ''passed'' \<or> snd r = ''waived'')"
proof -
  have "(case parse_node_state s of None \<Rightarrow> True | Some x \<Rightarrow> x \<notin> set satisfied_states)
      \<longleftrightarrow> \<not> (s = ''passed'' \<or> s = ''waived'')" for s
  proof (cases "parse_node_state s")
    case None
    then have "s \<notin> range node_state_value" unfolding parse_node_state_def node_text.parse_None .
    then have "s \<noteq> node_state_value PASSED" "s \<noteq> node_state_value WAIVED" by blast+
    with None show ?thesis by simp
  next
    case (Some x)
    then have "s = node_state_value x" unfolding parse_node_state_def node_text.parse_iff .
    with Some show ?thesis by (cases x) (simp_all add: satisfied_states_def)
  qed
  then show ?thesis by (simp add: unsatisfied_def filter_empty_conv)
qed

text \<open>A satisfied row is passed, or waived by a waiver that still holds.\<close>

lemma satisfied_row:
  assumes "predecessor_states dg d org node = Inr preds" "unsatisfied preds = []"
    and "r \<in> set (predecessor_rows d org node)"
  shows "snd r = ''passed'' \<or> (snd r = ''waived''
    \<and> (\<exists>m w. get_node d (fst r) = Some m \<and> valid_waiver dg d m = Inr (Some w)))"
proof (cases "list_ex (\<lambda>r. snd r = ''waived'') (predecessor_rows d org node)")
  case False
  then have "snd r \<noteq> ''waived''" using assms(3) by (auto simp: list_ex_iff)
  moreover have "preds = predecessor_rows d org node"
    using assms(1) False by (simp add: predecessor_states_def Let_def)
  ultimately show ?thesis using assms(2,3) by (auto simp: unsatisfied_Nil)
next
  case True
  then have "verified_states dg d (predecessor_rows d org node) = Inr preds"
    using assms(1) by (simp add: predecessor_states_def Let_def)
  from verified_states_member [OF this assms(3)] obtain v where v: "v \<in> set preds" "verified_state dg d r = Inr v"
    by blast
  have s: "snd v = ''passed'' \<or> snd v = ''waived''" using assms(2) v(1) by (auto simp: unsatisfied_Nil)
  show ?thesis
  proof (cases "snd r = ''waived''")
    case False
    then have "v = r" using v(2) by (simp add: verified_state_def)
    with s False show ?thesis by simp
  next
    case True
    then obtain m where m: "get_node d (fst r) = Some m"
      using v(2) s by (cases "get_node d (fst r)") (auto simp: verified_state_def)
    obtain w where w: "valid_waiver dg d m = Inr w" "v = (if w = None then (fst r, ''pending'') else r)"
      using v(2) True m by (auto simp: verified_state_def and_then_Inr)
    have "w \<noteq> None" using s w(2) by (cases w) simp_all
    then obtain x where "w = Some x" by blast
    with m True w(1) show ?thesis by blast
  qed
qed

lemma valid_waiver_Some:
  "valid_waiver dg d n = Inr (Some w) \<longleftrightarrow> nd_kind n = ''eval'' \<and> nd_state n = ''waived'' \<and> nd_attempts n = 0
     \<and> latest_waiver d n = Some w \<and> dc_actor_kind w = ''human'' \<and> dc_actor_id w \<noteq> [] \<and> dc_to w = Some ''waived''
     \<and> (\<exists>p fl. accepted_plan d (nd_org n) (nd_flow n) = Inr (Some p) \<and> flow_for d (nd_org n) (nd_flow n) = Some fl
          \<and> waiver_content_holds dg d n p fl w = Inr True)"
proof (cases "latest_waiver d n")
  case None
  then show ?thesis by (simp add: valid_waiver_def)
next
  case (Some r)
  note r = Some
  show ?thesis
  proof (cases "accepted_plan d (nd_org n) (nd_flow n)")
    case (Inl e)
    with r show ?thesis by (simp add: valid_waiver_def)
  next
    case (Inr plan)
    then show ?thesis
    proof (cases plan)
      case None
      with r Inr show ?thesis by (simp add: valid_waiver_def)
    next
      case (Some p)
      note p = this
      show ?thesis
      proof (cases "flow_for d (nd_org n) (nd_flow n)")
        case None
        with r Inr p show ?thesis by (simp add: valid_waiver_def)
      next
        case (Some fl)
        have "valid_waiver dg d n = Inr (Some w) \<longleftrightarrow> nd_kind n = ''eval'' \<and> nd_state n = ''waived'' \<and> nd_attempts n = 0
            \<and> dc_actor_kind r = ''human'' \<and> dc_actor_id r \<noteq> [] \<and> dc_to r = Some ''waived''
            \<and> r = w \<and> waiver_content_holds dg d n p fl r = Inr True"
          using r Inr p Some
          by (cases "waiver_content_holds dg d n p fl r") (simp_all add: valid_waiver_def, blast+)
        then show ?thesis using r Inr p Some by auto
      qed
    qed
  qed
qed

lemma latest_decision_mem:
  assumes "latest_decision d n kinds = Some w"
  shows "w \<in> set (decisions d) \<and> dc_kind w \<in> set kinds \<and> dc_node w = Some (nd_id n) \<and> dc_org w = nd_org n
    \<and> dc_flow w = nd_flow n"
proof -
  let ?xs = "filter (\<lambda>r. dc_org r = nd_org n \<and> dc_flow r = nd_flow n \<and> dc_node r = Some (nd_id n)
        \<and> dc_kind r \<in> set kinds) (decisions d)"
  obtain ws where "rev (sort_key (\<lambda>r. (stamp (dc_created r), dc_id r)) ?xs) = w # ws"
    using assms unfolding latest_decision_def by (auto split: list.splits)
  then have "w \<in> set (rev (sort_key (\<lambda>r. (stamp (dc_created r), dc_id r)) ?xs))" by simp
  then show ?thesis unfolding set_rev set_sort by simp
qed

lemma human_waiver:
  assumes "valid_waiver dg d m = Inr (Some w)"
  shows "nd_kind m = ''eval'' \<and> nd_attempts m = 0 \<and> w \<in> set (decisions d) \<and> dc_kind w = ''evaluation_waived''
    \<and> dc_node w = Some (nd_id m) \<and> dc_actor_kind w = ''human'' \<and> dc_actor_id w \<noteq> []"
  using assms latest_decision_mem [of d m "[waiver_kind]" w]
  unfolding valid_waiver_Some latest_waiver_def waiver_kind_def by simp

section \<open>What a step and a run leave\<close>

text \<open>The candidate is a row of the store, in some state.\<close>

definition names :: "candidate \<Rightarrow> db \<Rightarrow> bool" where
  "names c d \<longleftrightarrow> (\<exists>n \<in> set (nodes d). nd_id n = ca_node c \<and> nd_org n = ca_org c \<and> nd_flow n = ca_flow c)"

inductive engine_step :: "tick_env \<Rightarrow> db \<Rightarrow> db \<Rightarrow> bool" for env where
  advance: "names c d \<Longrightarrow> advance_node env c r d = (Inr r', e) \<Longrightarrow> engine_step env d e"

inductive_cases engine_stepE: "engine_step env d e"

definition nodes_unique :: "db \<Rightarrow> bool" where
  "nodes_unique d \<longleftrightarrow> unique_on nd_id (nodes d)"

definition forward :: "(string \<times> string) set" where
  "forward = {(''pending'', ''ready''), (''pending'', ''awaiting_gate''), (''ready'', ''awaiting_gate'')}"

text \<open>Every stored predecessor of the node has passed or been waived; its flow is not archived.\<close>

definition predecessors_done :: "db \<Rightarrow> node_row \<Rightarrow> bool" where
  "predecessors_done d n \<longleftrightarrow> (\<forall>p \<in> set (nodes d). \<forall>e \<in> set (edges d).
     ed_org e = nd_org n \<and> ed_to e = nd_id n \<and> ed_from e = nd_id p \<and> nd_org p = nd_org n
       \<longrightarrow> nd_state p = ''passed'' \<or> nd_state p = ''waived'')"

definition unarchived :: "db \<Rightarrow> node_row \<Rightarrow> bool" where
  "unarchived d n \<longleftrightarrow> (\<exists>fl. flow_for d (nd_org n) (nd_flow n) = Some fl \<and> fl_archived fl = None)"

definition node_grows :: "db \<Rightarrow> node_row \<Rightarrow> node_row \<Rightarrow> bool" where
  "node_grows d n m \<longleftrightarrow> m = n\<lparr>nd_state := nd_state m\<rparr> \<and>
     (nd_state m = nd_state n \<or> (nd_state n, nd_state m) \<in> forward \<and> predecessors_done d n \<and> unarchived d n)"

definition tick_grows :: "db \<Rightarrow> db \<Rightarrow> bool" where
  "tick_grows d e \<longleftrightarrow> rest_kept d e \<and> list_all2 (node_grows d) (nodes d) (nodes e)"

lemma node_grows_fixed: "node_grows d n m \<Longrightarrow> nd_id m = nd_id n \<and> nd_org m = nd_org n \<and> nd_flow m = nd_flow n \<and> nd_kind m = nd_kind n"
  unfolding node_grows_def by (metis node_row.ext_inject node_row.surjective node_row.update_convs(8))

lemma predecessors_back:
  assumes "tick_grows d e" "predecessors_done e m" "node_grows d n m"
  shows "predecessors_done d n"
  unfolding predecessors_done_def
proof (intro ballI impI)
  fix p x assume p: "p \<in> set (nodes d)" and x: "x \<in> set (edges d)"
    and at: "ed_org x = nd_org n \<and> ed_to x = nd_id n \<and> ed_from x = nd_id p \<and> nd_org p = nd_org n"
  from p assms(1) obtain q where q: "q \<in> set (nodes e)" "node_grows d p q"
    unfolding tick_grows_def by (metis in_set_conv_nth list_all2_conv_all_nth)
  have "x \<in> set (edges e)" using x assms(1) by (simp add: tick_grows_def rest_kept_def)
  then have "nd_state q = ''passed'' \<or> nd_state q = ''waived''"
    using assms(2) q(1) at node_grows_fixed [OF q(2)] node_grows_fixed [OF assms(3)]
    unfolding predecessors_done_def by metis
  then show "nd_state p = ''passed'' \<or> nd_state p = ''waived''"
    using q(2) by (auto simp: node_grows_def forward_def)
qed

lemma node_grows_trans:
  assumes "tick_grows d e" "node_grows d n m" "node_grows e m k"
  shows "node_grows d n k"
proof -
  have "k = n\<lparr>nd_state := nd_state k\<rparr>"
    using assms(2,3) unfolding node_grows_def by (metis node_row.update_convs(8) node_row.surjective node_row.select_convs(8))
  moreover have "unarchived e m \<longleftrightarrow> unarchived d n"
    using assms(1) node_grows_fixed [OF assms(2)] by (simp add: unarchived_def flow_for_def tick_grows_def rest_kept_def)
  then have "nd_state k = nd_state n \<or> (nd_state n, nd_state k) \<in> forward \<and> predecessors_done d n \<and> unarchived d n"
    using assms(2,3) predecessors_back [OF assms(1) _ assms(2)] by (auto simp: node_grows_def forward_def)
  ultimately show ?thesis by (simp add: node_grows_def)
qed

lemma tick_grows_refl: "tick_grows d d"
  by (simp add: tick_grows_def node_grows_def list.rel_refl)

lemma tick_grows_trans:
  assumes "tick_grows d e" "tick_grows e f"
  shows "tick_grows d f"
proof -
  have "list_all2 (node_grows d) (nodes d) (nodes f)"
    using assms node_grows_trans [OF assms(1)]
    unfolding tick_grows_def list_all2_conv_all_nth by (metis (no_types, lifting))
  then show ?thesis using assms rest_kept_trans by (auto simp: tick_grows_def)
qed

lemma names_kept: "tick_grows d e \<Longrightarrow> names c d \<Longrightarrow> names c e"
proof -
  assume g: "tick_grows d e" and "names c d"
  then obtain n where n: "n \<in> set (nodes d)" "nd_id n = ca_node c" "nd_org n = ca_org c" "nd_flow n = ca_flow c"
    by (auto simp: names_def)
  from n(1) g obtain m where "m \<in> set (nodes e)" "node_grows d n m"
    unfolding tick_grows_def by (metis in_set_conv_nth list_all2_conv_all_nth)
  with n node_grows_fixed show ?thesis unfolding names_def by metis
qed

lemma released_predecessors:
  assumes "released_now env d c" "nd_id n = ca_node c" "nd_org n = ca_org c"
  shows "predecessors_done d n"
  unfolding predecessors_done_def
proof (intro ballI impI)
  fix p e assume p: "p \<in> set (nodes d)" "e \<in> set (edges d)"
    and at: "ed_org e = nd_org n \<and> ed_to e = nd_id n \<and> ed_from e = nd_id p \<and> nd_org p = nd_org n"
  have "(nd_id p, nd_state p) \<in> set (predecessor_rows d (ca_org c) (ca_node c))"
    using p at assms(2,3) by (force simp: predecessor_rows_def)
  with assms(1) show "nd_state p = ''passed'' \<or> nd_state p = ''waived''"
    using satisfied_row by (fastforce simp: released_now_def)
qed

lemma step_forward:
  assumes "ca_state c \<in> {''pending'', ''ready''}" "step_targets c human \<noteq> []"
  shows "(ca_state c, node_state_value (last (step_targets c human))) \<in> forward"
  using assms by (cases "ca_kind c = ''gate'' \<or> human") (auto simp: step_targets_def forward_def split: if_splits)

lemma engine_step_grows:
  assumes "engine_step env d e" "nodes_unique d"
  shows "tick_grows d e"
proof -
  from assms(1) obtain c r r' where c: "names c d" and a: "advance_node env c r d = (Inr r', e)"
    by (blast elim: engine_stepE)
  have u: "unique_on nd_id (nodes d)" using assms(2) by (simp add: nodes_unique_def)
  note eff = advance_node_effect [OF a u]
  show ?thesis
  proof (cases "nodes e = nodes d")
    case True
    with eff tick_grows_refl [of d] show ?thesis by (simp add: tick_grows_def)
  next
    case False
    with eff obtain human where rel: "released_now env d c" and st: "step_effect c human d e" by blast
    with False have obs: "observed_now c (ca_state c) d" and
      ns: "nodes e = set_state (ca_node c) (node_state_value (last (step_targets c human))) (nodes d)" and
      fw: "(ca_state c, node_state_value (last (step_targets c human))) \<in> forward"
      using step_forward by (auto simp: step_effect_def)
    from obs obtain n0 where n0: "n0 \<in> set (nodes d)" "nd_id n0 = ca_node c" "nd_org n0 = ca_org c" "nd_state n0 = ca_state c"
      by (auto simp: observed_now_def guarded_def)
    have "nd_flow n0 = ca_flow c"
      using c n0 unique_onD [OF u] unfolding names_def by metis
    then have arch: "unarchived d n0" using rel n0 by (simp add: released_now_def flow_open_def unarchived_def)
    have "node_grows d x (if nd_id x = ca_node c then x\<lparr>nd_state := node_state_value (last (step_targets c human))\<rparr> else x)"
      if "x \<in> set (nodes d)" for x
    proof (cases "nd_id x = ca_node c")
      case True
      then have "x = n0" using unique_onD [OF u that n0(1)] n0(2) by simp
      then show ?thesis
        using n0 fw arch released_predecessors [OF rel n0(2,3)] by (simp add: node_grows_def)
    qed (simp add: node_grows_def)
    then have "list_all2 (node_grows d) (nodes d) (nodes e)"
      unfolding ns set_state_def update_where_def by (simp add: list_all2_map2 list_all2_same)
    with eff show ?thesis by (simp add: tick_grows_def)
  qed
qed

lemma grown_unique: "tick_grows d e \<Longrightarrow> nodes_unique d \<Longrightarrow> nodes_unique e"
proof -
  assume g: "tick_grows d e" and "nodes_unique d"
  have "map nd_id (nodes e) = map nd_id (nodes d)"
    using g node_grows_fixed
    by (intro nth_equalityI) (auto simp: tick_grows_def list_all2_conv_all_nth)
  with \<open>nodes_unique d\<close> show ?thesis by (simp add: nodes_unique_def unique_on_def)
qed

interpretation engine: growing "engine_step env" nodes_unique tick_grows for env
proof
  show "nodes_unique e" if "engine_step env d e" "nodes_unique d" for d e
    using grown_unique [OF engine_step_grows [OF that] that(2)] .
qed (auto intro: tick_grows_refl tick_grows_trans engine_step_grows)

section \<open>A tick is a run of steps\<close>

lemma tick_node_step:
  assumes "names c d" "tick_node env c (r, d) = (r', e)"
  shows "(engine_step env)\<^sup>*\<^sup>* d e"
proof -
  obtain x d1 where a: "advance_node env c empty_report d = (x, d1)" by force
  show ?thesis
  proof (cases x)
    case (Inl err)
    then have "e = d" using assms(2) a by (simp add: tick_node_def nested_def Let_def)
    then show ?thesis by simp
  next
    case (Inr own)
    then have "e = d1" using assms(2) a by (simp add: tick_node_def nested_def Let_def)
    with a Inr assms(1) show ?thesis by (blast intro: advance)
  qed
qed

lemma tick_page_step:
  assumes "\<forall>c \<in> set page. names c d" "nodes_unique d" "tick_page env page (r, d) = (r', e)"
  shows "(engine_step env)\<^sup>*\<^sup>* d e"
  using assms
proof (induction page arbitrary: r d)
  case (Cons c page)
  obtain r1 d1 where n: "tick_node env c (r, d) = (r1, d1)" by force
  have s: "(engine_step env)\<^sup>*\<^sup>* d d1" using tick_node_step [OF _ n] Cons.prems(1) by simp
  have g: "tick_grows d d1" using engine.run_grows [OF s Cons.prems(2)] .
  have "(engine_step env)\<^sup>*\<^sup>* d1 e"
    using Cons.IH [of d1 r1] Cons.prems n names_kept [OF g] grown_unique [OF g] by (simp add: tick_page_def)
  with s show ?case by simp
qed (simp add: tick_page_def)

lemma page_names: "c \<in> set (candidate_page locked d after limit) \<Longrightarrow> names c d"
  by (auto simp: candidate_page_def names_def candidate_of_def dest!: in_set_takeD)

lemma run_pages_step:
  "nodes_unique d \<Longrightarrow> run_pages env after (r, d) = (r', e) \<Longrightarrow> (engine_step env)\<^sup>*\<^sup>* d e"
proof (induction env after "(r, d)" arbitrary: r d rule: run_pages.induct)
  case (1 env after r d)
  let ?page = "page_of env r after d"
  obtain r1 d1 where t: "tick_page env ?page (r\<lparr>tp_pages := tp_pages r + 1\<rparr>, d) = (r1, d1)" by force
  have s: "(engine_step env)\<^sup>*\<^sup>* d d1"
    using tick_page_step [OF _ 1(2) t] page_names by (simp add: page_of_def)
  show ?case
  proof (cases "item_backstop \<le> examined r \<or> te_unreadable env (tp_pages r) \<or> ?page = [] \<or> length ?page < page_size")
    case True
    then have "e = d \<or> e = d1"
      using 1(3) t by (subst (asm) run_pages.simps) (auto simp: Let_def split: if_splits)
    with s show ?thesis by auto
  next
    case False
    then have "run_pages env (Some (ca_node (last ?page))) (r1, d1) = (r', e)"
      using 1(3) t by (subst (asm) run_pages.simps) (auto simp: Let_def split: if_splits)
    moreover have "nodes_unique d1" using engine.run_inv [OF s 1(2)] .
    ultimately have "(engine_step env)\<^sup>*\<^sup>* d1 e"
      using 1(1) [OF _ _ refl _ t [symmetric]] False by auto
    with s show ?thesis by simp
  qed
qed

lemma run_tick_step: "nodes_unique d \<Longrightarrow> (engine_step env)\<^sup>*\<^sup>* d (snd (run_tick env d))"
  unfolding run_tick_def by (cases "run_pages env None (empty_report, d)") (auto dest: run_pages_step)

section \<open>Counting\<close>

lemma counts_tally: "tp_counts (tally org k n r) j = tp_counts r j + (if j = k then n else 0)"
  by (simp add: tally_def count_up_def)

lemma counts_fold_all:
  "tp_counts (fold (\<lambda>k. tally org k (c k)) all_counters r) j = tp_counts r j + c j"
  by (cases j) (simp_all add: all_counters_def counts_tally)

lemma counts_fold_orgs:
  "\<forall>(org, c) \<in> set os. c j = 0 \<Longrightarrow>
     tp_counts (fold (\<lambda>(org, c). fold (\<lambda>k. tally org k (c k)) all_counters) os r) j = tp_counts r j"
proof (induction os arbitrary: r)
  case (Cons oc os)
  obtain org c where "oc = (org, c)" by force
  with Cons show ?case by (simp add: counts_fold_all)
qed simp

lemma counts_merged:
  assumes "quiet own" "j = NodesExamined \<or> j = Errors"
  shows "tp_counts (merged_report own r) j = tp_counts r j"
proof -
  have "\<forall>(org, c) \<in> set (tp_orgs own). c j = 0" using assms by (auto simp: quiet_def)
  then show ?thesis by (simp add: merged_report_def Let_def counts_fold_orgs)
qed

lemma tally_scan [simp]: "tp_pages (tally org k n r) = tp_pages r" "tp_truncated (tally org k n r) = tp_truncated r"
  by (simp_all add: tally_def)

lemma merged_scan: "tp_pages (merged_report own r) = tp_pages r \<and> tp_truncated (merged_report own r) = tp_truncated r"
proof -
  have inner: "tp_pages (fold (\<lambda>k. tally org k (c k)) ks r) = tp_pages r
      \<and> tp_truncated (fold (\<lambda>k. tally org k (c k)) ks r) = tp_truncated r" for org c ks r
    by (induction ks arbitrary: r) auto
  have "tp_pages (fold (\<lambda>(org, c). fold (\<lambda>k. tally org k (c k)) all_counters) os r) = tp_pages r
      \<and> tp_truncated (fold (\<lambda>(org, c). fold (\<lambda>k. tally org k (c k)) all_counters) os r) = tp_truncated r" for os r
  proof (induction os arbitrary: r)
    case (Cons oc os)
    obtain org c where "oc = (org, c)" by force
    with Cons [of "fold (\<lambda>k. tally org k (c k)) all_counters r"] inner [of org c all_counters r] show ?case by simp
  qed simp
  then show ?thesis by (simp add: merged_report_def Let_def)
qed

text \<open>A node's step raises.\<close>

definition step_fails :: "tick_env \<Rightarrow> candidate \<Rightarrow> db \<Rightarrow> bool" where
  "step_fails env c d \<longleftrightarrow> (case fst (advance_node env c empty_report d) of Inl _ \<Rightarrow> True | Inr _ \<Rightarrow> False)"

lemma tick_node_effect:
  assumes "nodes_unique d" "tick_node env c (r, d) = (r', e)"
  shows "examined r' = Suc (examined r) \<and> tp_pages r' = tp_pages r \<and> tp_truncated r' = tp_truncated r
    \<and> tp_counts r' Errors = tp_counts r Errors + (if step_fails env c d then 1 else 0)
    \<and> (if step_fails env c d then e = d else e = snd (advance_node env c empty_report d))"
proof -
  obtain x d1 where a: "advance_node env c empty_report d = (x, d1)" by force
  show ?thesis
  proof (cases x)
    case (Inl err)
    then show ?thesis
      using assms(2) a by (auto simp: tick_node_def nested_def Let_def step_fails_def examined_def counts_tally)
  next
    case (Inr own)
    have "quiet own" using advance_node_effect [OF a [unfolded Inr]] assms(1) by (simp add: nodes_unique_def)
    then show ?thesis
      using assms(2) a Inr merged_scan
      by (auto simp: tick_node_def nested_def Let_def step_fails_def examined_def counts_tally counts_merged)
  qed
qed

lemma tick_page_Cons: "tick_page env (c # cs) s = tick_page env cs (tick_node env c s)"
  by (simp add: tick_page_def)

lemma tick_page_Nil [simp]: "tick_page env [] s = s"
  by (simp add: tick_page_def)

lemma tick_page_append: "tick_page env (xs @ ys) s = tick_page env ys (tick_page env xs s)"
  by (simp add: tick_page_def)

lemma tick_page_count:
  assumes "\<forall>c \<in> set page. names c d" "nodes_unique d" "tick_page env page (r, d) = (r', e)"
  shows "examined r' = examined r + length page \<and> tp_pages r' = tp_pages r \<and> tp_truncated r' = tp_truncated r"
  using assms
proof (induction page arbitrary: r d)
  case (Cons c page)
  obtain r1 d1 where n: "tick_node env c (r, d) = (r1, d1)" by force
  have g: "tick_grows d d1" using engine.run_grows [OF tick_node_step [OF _ n] Cons.prems(2)] Cons.prems(1) by simp
  have "examined r' = examined r1 + length page \<and> tp_pages r' = tp_pages r1 \<and> tp_truncated r' = tp_truncated r1"
    using Cons.IH [of d1 r1] Cons.prems n names_kept [OF g] grown_unique [OF g] by (simp add: tick_page_Cons)
  with tick_node_effect [OF Cons.prems(2) n] show ?case by simp
qed simp

lemma page_within: "length (page_of env r after d) \<le> min page_size (item_backstop - examined r)"
  unfolding page_of_def candidate_page_def length_map length_take by (rule min.cobounded2)

lemma scan_bounds:
  "nodes_unique d \<Longrightarrow> run_pages env after (r, d) = (r', e) \<Longrightarrow> examined r = page_size * tp_pages r
     \<Longrightarrow> examined r \<le> item_backstop \<Longrightarrow> \<not> tp_truncated r
     \<Longrightarrow> examined r' \<le> item_backstop \<and> page_size * tp_pages r' < examined r' + page_size
       \<and> (tp_truncated r' \<longleftrightarrow> examined r' = item_backstop)"
proof (induction env after "(r, d)" arbitrary: r d rule: run_pages.induct)
  case (1 env after r d)
  let ?page = "page_of env r after d"
  let ?r = "r\<lparr>tp_pages := tp_pages r + 1\<rparr>"
  obtain r1 d1 where t: "tick_page env ?page (?r, d) = (r1, d1)" by force
  have nm: "\<forall>c \<in> set ?page. names c d" using page_names by (simp add: page_of_def)
  have s: "(engine_step env)\<^sup>*\<^sup>* d d1" using tick_page_step [OF nm 1(2) t] .
  have count: "examined r1 = examined r + length ?page" "tp_pages r1 = tp_pages r + 1" "\<not> tp_truncated r1"
    using tick_page_count [OF nm 1(2) t] 1(6) by (simp_all add: examined_def)
  show ?case
  proof (cases "item_backstop \<le> examined r \<or> te_unreadable env (tp_pages r) \<or> ?page = []")
    case True
    then have "r' = (if item_backstop \<le> examined r then r\<lparr>tp_truncated := True\<rparr>
        else if te_unreadable env (tp_pages r) then page_failed r else r)"
      using 1(3) by (subst (asm) run_pages.simps) (auto simp: Let_def split: if_splits)
    then show ?thesis
      using 1(4-6) by (auto simp: examined_def page_failed_def count_up_def page_size_def)
  next
    case False
    have room: "length ?page \<le> item_backstop - examined r" "length ?page \<le> page_size"
      using page_within [of env r after d] by simp_all
    have multiple: "page_size \<le> item_backstop - examined r"
    proof -
      have "500 * tp_pages r < 10000" using False 1(4) by (simp add: page_size_def item_backstop_def)
      then have "500 * tp_pages r + 500 \<le> 10000" by presburger
      then show ?thesis using 1(4) by (simp add: page_size_def item_backstop_def)
    qed
    show ?thesis
    proof (cases "length ?page < page_size")
      case True
      then have r': "r' = r1"
        using 1(3) t False by (subst (asm) run_pages.simps) (auto simp: Let_def split: if_splits)
      have "0 < length ?page" using False by simp
      then have "examined r' < item_backstop" "page_size * tp_pages r' < examined r' + page_size"
        using True multiple room 1(4) False unfolding r' count by (simp_all add: page_size_def item_backstop_def)
      with count(3) r' show ?thesis by simp
    next
      case full: False
      then have next_page: "run_pages env (Some (ca_node (last ?page))) (r1, d1) = (r', e)"
        using 1(3) t False by (subst (asm) run_pages.simps) (auto simp: Let_def split: if_splits)
      have "nodes_unique d1" using engine.run_inv [OF s 1(2)] .
      moreover have "examined r1 \<le> item_backstop" using count(1) room(1) 1(5) by linarith
      moreover have "length ?page = page_size" using full room by simp
      then have "examined r1 = page_size * tp_pages r1" using count 1(4) by simp
      ultimately show ?thesis
        using 1(1) [OF _ _ refl _ t [symmetric] _ _ next_page] False full count(3) by auto
    qed
  qed
qed

section \<open>Failures\<close>

text \<open>
  What a page does to the store and how many failures it counts do not depend on the report so far.
\<close>

lemma tick_page_shift:
  assumes "\<forall>c \<in> set page. names c d" "nodes_unique d"
    and "tick_page env page (r, d) = (r', e)" "tick_page env page (q, d) = (q', f)"
  shows "f = e \<and> tp_counts r' Errors + tp_counts q Errors = tp_counts q' Errors + tp_counts r Errors"
  using assms
proof (induction page arbitrary: r q d)
  case (Cons c page)
  obtain r1 d1 where n: "tick_node env c (r, d) = (r1, d1)" by force
  obtain q1 d2 where m: "tick_node env c (q, d) = (q1, d2)" by force
  note a = tick_node_effect [OF Cons.prems(2) n] and b = tick_node_effect [OF Cons.prems(2) m]
  have same: "d2 = d1" using a b by presburger
  have g: "tick_grows d d1" using engine.run_grows [OF tick_node_step [OF _ n] Cons.prems(2)] Cons.prems(1) by simp
  have "f = e \<and> tp_counts r' Errors + tp_counts q1 Errors = tp_counts q' Errors + tp_counts r1 Errors"
    using Cons.IH [of d1 r1 q1] Cons.prems n m same names_kept [OF g] grown_unique [OF g] by (simp add: tick_page_Cons)
  moreover have "tp_counts r1 Errors + tp_counts q Errors = tp_counts q1 Errors + tp_counts r Errors"
    using a b by simp
  ultimately show ?case by simp
qed simp

lemma tick_page_run:
  assumes "\<forall>c \<in> set page. names c d" "nodes_unique d" "tick_page env page (r, d) = (r', e)"
  shows "nodes_unique e \<and> (\<forall>c. names c d \<longrightarrow> names c e)"
  using engine.run_grows [OF tick_page_step [OF assms] assms(2)] names_kept grown_unique [OF _ assms(2)] by blast

lemma failing_node_contained:
  assumes "nodes_unique d" "\<forall>x \<in> set (xs @ c # ys). names x d"
    and "step_fails env c (snd (tick_page env xs (r, d)))"
  shows "snd (tick_page env (xs @ c # ys) (r, d)) = snd (tick_page env (xs @ ys) (r, d))
    \<and> tp_counts (fst (tick_page env (xs @ c # ys) (r, d))) Errors
      = Suc (tp_counts (fst (tick_page env (xs @ ys) (r, d))) Errors)"
proof -
  obtain r1 d1 where xs: "tick_page env xs (r, d) = (r1, d1)" by force
  have run: "nodes_unique d1 \<and> (\<forall>c. names c d \<longrightarrow> names c d1)"
    using tick_page_run [OF _ assms(1) xs] assms(2) by simp
  obtain r2 d2 where c: "tick_node env c (r1, d1) = (r2, d2)" by force
  have fails: "d2 = d1" "tp_counts r2 Errors = Suc (tp_counts r1 Errors)"
    using tick_node_effect [OF _ c] run assms(3) xs by auto
  obtain r3 d3 where with_c: "tick_page env ys (r2, d1) = (r3, d3)" by force
  obtain r4 d4 where without: "tick_page env ys (r1, d1) = (r4, d4)" by force
  have ys: "\<forall>x \<in> set ys. names x d1" using run assms(2) by simp
  have "d4 = d3 \<and> tp_counts r3 Errors + tp_counts r1 Errors = tp_counts r4 Errors + tp_counts r2 Errors"
    using tick_page_shift [OF ys _ with_c without] run by blast
  then show ?thesis
    using with_c without fails xs c by (simp add: tick_page_append tick_page_Cons)
qed

end
