(* ===== verification/Tick_Progress.thy ===== *)
theory Tick_Progress
  imports Tick_Properties
begin

text \<open>
  The tick gets there: a story or gate that is free to move has moved when the tick returns, however
  many pages lie before it, and what other nodes do in between does not hold it up.
\<close>

section \<open>A free node moves at its turn\<close>

fun service_path :: "string \<Rightarrow> node_state list \<Rightarrow> bool" where
  "service_path s [] \<longleftrightarrow> True"
| "service_path s (to # ts) \<longleftrightarrow> service_move s to \<and> service_path (node_state_value to) ts"

lemma service_move_running: "service_move ''running'' AWAITING_GATE"
  unfolding service_move_def by (intro exI [of _ RUNNING]) (simp add: transition_unfold no_proofs_def)

lemma service_move_changes: "service_move s to \<Longrightarrow> s \<noteq> node_state_value to"
proof
  assume "service_move s to" "s = node_state_value to"
  then have "allowed (transition no_proofs to to SERVICE [])"
    unfolding service_move_def using node_text.val_inject by metis
  then show False by (cases to) (auto simp: transition_unfold no_proofs_def)
qed

lemma guarded_transition_answers:
  assumes "service_move s to"
  shows "\<exists>rows ok e. apply_guarded_transition env c s to why d = (Inr (rows, ok), e)"
proof -
  obtain fr where fr: "s = node_state_value fr" using assms by (auto simp: service_move_def)
  have "parse_actor_kind ''service'' = Some SERVICE" unfolding parse_actor_kind_def actor_text.parse_iff by simp
  moreover have "parse_node_state (node_state_value to) = Some to" "parse_node_state s = Some fr"
    unfolding parse_node_state_def node_text.parse_iff fr by simp_all
  ultimately obtain result where "transition_raw no_proofs s (node_state_value to) ''service'' why = Inr result"
    by (simp add: transition_raw_def)
  then show ?thesis by (cases "allowed result") (simp_all add: apply_guarded_transition_def Let_def, blast+)
qed

lemma guarded_transition_runs:
  assumes "unique_on nd_id (nodes d)" "service_move s to" "observed_now c s d"
  shows "\<exists>e. apply_guarded_transition env c s to why d = (Inr (1, True), e) \<and> observed_now c (node_state_value to) e
    \<and> unique_on nd_id (nodes e)"
proof -
  obtain rows ok e where a: "apply_guarded_transition env c s to why d = (Inr (rows, ok), e)"
    using guarded_transition_answers [OF assms(2)] by blast
  note k = guarded_transition_cases [OF assms(1) a]
  have one: "ok" "rows = 1" using k assms(2,3) by simp_all
  then have n: "nodes e = set_state (ca_node c) (node_state_value to) (nodes d)" using k by simp
  show ?thesis
    using a one observed_set_state [OF assms(3) n] assms(1) n by auto
qed

lemma take_steps_runs:
  assumes "unique_on nd_id (nodes d)" "service_path s ts" "observed_now c s d"
  shows "\<exists>e. take_steps env c None why s ts res d = (Inr (if ts = [] then res else Some (1, True)), e)"
  using assms
proof (induction ts arbitrary: s res d)
  case (Cons to ts)
  from Cons.prems obtain d1 where d1: "apply_guarded_transition env c s to why d = (Inr (1, True), d1)"
      "observed_now c (node_state_value to) d1" "unique_on nd_id (nodes d1)"
    using guarded_transition_runs [OF Cons.prems(1)] by fastforce
  from Cons.IH [OF d1(3) _ d1(2), of "Some (1, True)"] Cons.prems(2) d1(1) show ?case by simp
qed simp

text \<open>
  When a required input is available, kind by kind, independently of the code's search for it. A
  predecessor's output needs that every node of the flow at the address has passed and, where the
  address is a predecessor of the node's release binding, that its verifier is content with it, also
  after what the tick may do meanwhile.
\<close>

inductive input_met :: "tick_env \<Rightarrow> db \<Rightarrow> node_row \<Rightarrow> node_contract \<Rightarrow> named_input \<Rightarrow> bool"
  for env d n k i where
  environment_met: "strip (ni_source i) = pre @ r \<Longrightarrow> pre \<in> {''environment:'', ''environment_connection:''}
    \<Longrightarrow> r \<in> set (nc_environments k) \<Longrightarrow> input_met env d n k i"
| repository_met: "strip (ni_source i) = ''repository:'' @ r
    \<Longrightarrow> r \<in> set (nc_repositories k) \<or> pn_repository (nc_node k) = Some r \<Longrightarrow> input_met env d n k i"
| revisions_met: "strip (ni_source i) = pre @ r
    \<Longrightarrow> pre \<in> {''deployment_source_revision:'', ''deployment_definition_revision:'', ''deployment_branch:''}
    \<Longrightarrow> operational_revision_inputs k = Some pins \<Longrightarrow> input_met env d n k i"
| workflow_met: "strip (ni_source i) = ''deployment_workflow:'' @ r \<Longrightarrow> ns_executor (te_nodes env)
    \<Longrightarrow> pn_role (nc_node k) = Some ''operate'' \<Longrightarrow> workflow_name r \<Longrightarrow> input_met env d n k i"
| predecessor_met: "strip (ni_source i) = ''node:'' @ a \<Longrightarrow> flow_for d (nd_org n) (nd_flow n) = Some fl
    \<Longrightarrow> \<exists>m \<in> set (nodes d). nd_org m = nd_org n \<and> nd_flow m = nd_flow n \<and> node_address fl m = a
    \<Longrightarrow> \<forall>m \<in> set (nodes d). nd_org m = nd_org n \<and> nd_flow m = nd_flow n \<and> node_address fl m = a
          \<longrightarrow> nd_state m = ''passed''
    \<Longrightarrow> \<forall>b. pn_release (nc_node k) = Some b \<and> a \<in> set (rb_predecessors b)
          \<longrightarrow> (\<forall>e. tick_grows d e \<longrightarrow> ns_release (te_nodes env) e n k a = None)
    \<Longrightarrow> input_met env d n k i"

text \<open>Everything that the accepted plan of the node requires of it is available.\<close>

definition inputs_met :: "tick_env \<Rightarrow> db \<Rightarrow> node_row \<Rightarrow> bool" where
  "inputs_met env d n \<longleftrightarrow> (\<exists>contract. accepted_node_contract (te_nodes env) d n = Inr contract
     \<and> (\<forall>k. contract = Some k \<longrightarrow> (\<forall>i \<in> set (pn_inputs (nc_node k)). input_met env d n k i)))"

definition free_to_move :: "tick_env \<Rightarrow> db \<Rightarrow> node_row \<Rightarrow> bool" where
  "free_to_move env d n \<longleftrightarrow> nd_state n = ''pending'' \<and> nd_kind n \<noteq> ''eval'' \<and> unarchived d n
     \<and> (\<forall>r \<in> set (predecessor_rows d (nd_org n) (nd_id n)). snd r = ''passed'') \<and> inputs_met env d n"

lemma prefix_arms [simp]:
  "starts ''node:'' (''node:'' @ r)" "starts ''repository:'' (''repository:'' @ r)"
  "starts ''deployment_workflow:'' (''deployment_workflow:'' @ r)"
  "after_colon (''node:'' @ r) = r" "after_colon (''repository:'' @ r) = r"
  "after_colon (''deployment_workflow:'' @ r) = r"
  "after_colon (''environment:'' @ r) = r" "after_colon (''environment_connection:'' @ r) = r"
  by (simp_all add: starts_def after_colon_def)

lemma passed_address:
  assumes "flow_for d (nd_org n) (nd_flow n) = Some fl"
    and "\<exists>m \<in> set (nodes d). nd_org m = nd_org n \<and> nd_flow m = nd_flow n \<and> node_address fl m = a"
    and "\<forall>m \<in> set (nodes d). nd_org m = nd_org n \<and> nd_flow m = nd_flow n \<and> node_address fl m = a
      \<longrightarrow> nd_state m = ''passed''"
  shows "states_by_address d n a = Some ''passed''"
proof (cases "find (\<lambda>m. nd_org m = nd_org n \<and> nd_flow m = nd_flow n \<and> node_address fl m = a) (rev (nodes d))")
  case None
  then show ?thesis using assms(2) by (auto simp: find_None_iff)
next
  case (Some m)
  then have "nd_state m = ''passed''" using assms(3) find_SomeD [OF Some] by simp
  then show ?thesis using assms(1) Some by (simp add: states_by_address_def)
qed

lemma input_met_available:
  assumes "input_met env d n k i" "tick_grows d d"
  shows "input_available (te_nodes env) d n k i = Inr True"
  using assms(1)
proof cases
  case (predecessor_met a fl)
  then have "states_by_address d n a = Some ''passed''" using passed_address by metis
  moreover have "ns_release (te_nodes env) d n k a = None"
    if "pn_release (nc_node k) = Some b" "a \<in> set (rb_predecessors b)" for b
    using predecessor_met(5) that assms(2) by blast
  ultimately have "predecessor_input (te_nodes env) d n k a = Inr True"
    by (simp add: predecessor_input_def split: option.splits)
  then show ?thesis by (simp add: input_available_def predecessor_met(1) starts_def after_colon_def)
qed (auto simp: input_available_def starts_def after_colon_def)

definition moved :: "node_row \<Rightarrow> node_row" where
  "moved n = n\<lparr>nd_state := if nd_kind n = ''gate'' then ''awaiting_gate'' else ''ready''\<rparr>"

lemma moved_id [simp]: "nd_id (moved n) = nd_id n"
  by (simp add: moved_def)

lemma own_candidate: "nodes_unique d \<Longrightarrow> n \<in> set (nodes d) \<Longrightarrow> own_node d (candidate_of n) = Some n"
proof -
  assume "nodes_unique d" "n \<in> set (nodes d)"
  then have "get_node d (nd_id n) = Some n"
    unfolding get_node_def nodes_unique_def by (intro find_unique) auto
  then show ?thesis by (simp add: own_node_def candidate_of_def)
qed

lemma all_passed_satisfied:
  assumes "\<forall>r \<in> set (predecessor_rows d org x). snd r = ''passed''"
  shows "\<exists>preds. predecessor_states dg d org x = Inr preds \<and> unsatisfied preds = []"
proof -
  have "\<not> list_ex (\<lambda>r. snd r = ''waived'') (predecessor_rows d org x)"
    using assms by (auto simp: list_ex_iff)
  moreover have "unsatisfied (predecessor_rows d org x) = []" unfolding unsatisfied_Nil using assms by blast
  ultimately show ?thesis by (simp add: predecessor_states_def Let_def)
qed

lemma free_moves:
  assumes "nodes_unique d" "n \<in> set (nodes d)" "free_to_move env d n"
  shows "\<exists>r' e. advance_node env (candidate_of n) r d = (Inr r', e)
    \<and> nodes e = set_state (nd_id n) (nd_state (moved n)) (nodes d)"
proof -
  let ?c = "candidate_of n"
  have pend: "ca_state ?c = ''pending''" "ca_kind ?c \<noteq> ''eval''" "ca_kind ?c = nd_kind n" "ca_node ?c = nd_id n"
      "ca_org ?c = nd_org n" "ca_flow ?c = nd_flow n"
    using assms(3) by (simp_all add: candidate_of_def free_to_move_def)
  have u: "unique_on nd_id (nodes d)" using assms(1) by (simp add: nodes_unique_def)
  obtain fl where fl: "flow_for d (nd_org n) (nd_flow n) = Some fl" "fl_archived fl = None"
    using assms(3) by (auto simp: free_to_move_def unarchived_def)
  obtain preds where preds: "predecessor_states (te_digest env) d (nd_org n) (nd_id n) = Inr preds"
      "unsatisfied preds = []"
    using assms(3) all_passed_satisfied unfolding free_to_move_def by blast
  obtain k where k: "accepted_node_contract (te_nodes env) d n = Inr k"
      "\<forall>x. k = Some x \<longrightarrow> (\<forall>i \<in> set (pn_inputs (nc_node x)). input_met env d n x i)"
    using assms(3) by (auto simp: free_to_move_def inputs_met_def)
  have missing: "unresolved_required_inputs (te_nodes env) d n = Inr []"
    using k input_met_available [OF _ tick_grows_refl] by (cases k)
      (simp_all add: unresolved_required_inputs_def unresolved_contract_inputs_def unresolved_among_iff)
  have start: "advance_node env ?c r d = effect_step env ?c None (length preds) r d"
    using fl preds missing pend own_candidate [OF assms(1,2)] by (simp add: advance_node_def)
  let ?ts = "step_targets ?c False"
  have ts: "?ts = READY # (if nd_kind n = ''gate'' then [RUNNING, AWAITING_GATE] else [])"
    using pend by (simp add: step_targets_def)
  have path: "service_path (ca_state ?c) ?ts"
    using pend service_move_pending service_move_ready service_move_running by (simp add: ts)
  have seen: "observed_now ?c (ca_state ?c) d"
    using assms(2) unfolding observed_now_def guarded_def by (auto simp: candidate_of_def)
  obtain e where e: "take_steps env ?c None (step_reason ?c False (length preds)) (ca_state ?c) ?ts None d
      = (Inr (Some (1, True)), e)"
    using take_steps_runs [OF u path seen] ts by fastforce
  then have "\<exists>r'. advance_node env ?c r d = (Inr r', e)"
    by (simp add: start effect_step_def nested_def)
  moreover have "nodes e = set_state (nd_id n) (nd_state (moved n)) (nodes d)"
  proof -
    have "ca_state ?c \<notin> node_state_value ` set ?ts"
      using step_target_values [of ?c False] pend by simp
    from take_steps_cases [OF e [unfolded ts] u this [unfolded ts]]
    have "nodes e = set_state (ca_node ?c) (node_state_value (last ?ts)) (nodes d)" unfolding ts by simp
    then show ?thesis using pend by (simp add: ts moved_def)
  qed
  ultimately show ?thesis by blast
qed

section \<open>What others do in between\<close>

lemma contract_kept:
  assumes "rest_kept d e"
  shows "accepted_node_contract sv e n = accepted_node_contract sv d n"
  using assms unfolding accepted_node_contract_def accepted_plan_def current_plans_def flow_for_def rest_kept_def by simp

lemma grown_from: "tick_grows d e \<Longrightarrow> m \<in> set (nodes e) \<Longrightarrow> \<exists>n \<in> set (nodes d). node_grows d n m"
  unfolding tick_grows_def by (metis in_set_conv_nth list_all2_conv_all_nth)

lemma grown_to: "tick_grows d e \<Longrightarrow> n \<in> set (nodes d) \<Longrightarrow> \<exists>m \<in> set (nodes e). node_grows d n m"
  unfolding tick_grows_def by (metis in_set_conv_nth list_all2_conv_all_nth)

lemma grown_place:
  assumes "node_grows d n m"
  shows "nd_org m = nd_org n" "nd_flow m = nd_flow n" "node_address fl m = node_address fl n"
    "nd_state n = ''passed'' \<Longrightarrow> nd_state m = ''passed''"
proof -
  have m: "m = n\<lparr>nd_state := nd_state m\<rparr>" using assms by (simp add: node_grows_def)
  show "nd_org m = nd_org n" "nd_flow m = nd_flow n" "node_address fl m = node_address fl n"
    by (subst m, simp add: node_address_def)+
  show "nd_state m = ''passed''" if "nd_state n = ''passed''"
    using assms that by (auto simp: node_grows_def forward_def)
qed

lemma input_met_kept:
  assumes g: "tick_grows d e" and "input_met env d n k i"
  shows "input_met env e n k i"
  using assms(2)
proof cases
  case (predecessor_met a fl)
  show ?thesis
  proof (rule input_met.predecessor_met [where fl = fl])
    show "strip (ni_source i) = ''node:'' @ a" by fact
    show "flow_for e (nd_org n) (nd_flow n) = Some fl"
      using predecessor_met(2) g by (simp add: tick_grows_def rest_kept_def flow_for_def)
    show "\<exists>m \<in> set (nodes e). nd_org m = nd_org n \<and> nd_flow m = nd_flow n \<and> node_address fl m = a"
      using predecessor_met(3) grown_to [OF g] grown_place(1-3) by metis
    show "\<forall>m \<in> set (nodes e). nd_org m = nd_org n \<and> nd_flow m = nd_flow n \<and> node_address fl m = a
        \<longrightarrow> nd_state m = ''passed''"
    proof (intro ballI impI)
      fix m assume m: "m \<in> set (nodes e)" "nd_org m = nd_org n \<and> nd_flow m = nd_flow n \<and> node_address fl m = a"
      obtain m0 where m0: "m0 \<in> set (nodes d)" "node_grows d m0 m" using grown_from [OF g m(1)] by blast
      have "nd_org m0 = nd_org n \<and> nd_flow m0 = nd_flow n \<and> node_address fl m0 = a"
        using grown_place(1,2) [OF m0(2)] grown_place(3) [OF m0(2), of fl] m(2) by simp
      then show "nd_state m = ''passed''" using predecessor_met(4) m0(1) grown_place(4) [OF m0(2)] by blast
    qed
    show "\<forall>b. pn_release (nc_node k) = Some b \<and> a \<in> set (rb_predecessors b)
        \<longrightarrow> (\<forall>f. tick_grows e f \<longrightarrow> ns_release (te_nodes env) f n k a = None)"
      using predecessor_met(5) tick_grows_trans [OF g] by blast
  qed
qed (auto intro: input_met.intros)

lemma passed_kept:
  assumes "tick_grows d e" "\<forall>r \<in> set (predecessor_rows d org x). snd r = ''passed''"
  shows "\<forall>r \<in> set (predecessor_rows e org x). snd r = ''passed''"
proof
  fix r assume "r \<in> set (predecessor_rows e org x)"
  then obtain a m where am: "a \<in> set (edges e)" "m \<in> set (nodes e)" "r = (ed_from a, nd_state m)"
      "nd_id m = ed_from a" "ed_org a = org" "ed_to a = x" "nd_org m = org"
    unfolding predecessor_rows_def by auto
  from am(2) assms(1) obtain n where n: "n \<in> set (nodes d)" "node_grows d n m"
    unfolding tick_grows_def by (metis in_set_conv_nth list_all2_conv_all_nth)
  have ids: "nd_id n = ed_from a" "nd_org n = org" "a \<in> set (edges d)"
    using node_grows_fixed [OF n(2)] am assms(1) by (simp_all add: tick_grows_def rest_kept_def)
  have "(ed_from a, nd_state n) \<in> set (predecessor_rows d org x)"
    unfolding predecessor_rows_def using ids n(1) am(5,6) by force
  then have "nd_state n = ''passed''" using assms(2) by fastforce
  then show "snd r = ''passed''" using n(2) am(3) by (simp add: node_grows_def forward_def)
qed

lemma free_kept:
  assumes "tick_grows d e" "free_to_move env d n"
  shows "free_to_move env e n"
proof -
  have k: "rest_kept d e" using assms(1) by (simp add: tick_grows_def)
  then have "unarchived e n = unarchived d n" by (simp add: unarchived_def flow_for_def rest_kept_def)
  then show ?thesis
    using assms(2) passed_kept [OF assms(1)] contract_kept [OF k] input_met_kept [OF assms(1)]
    unfolding free_to_move_def inputs_met_def by metis
qed

definition row_of :: "db \<Rightarrow> string \<Rightarrow> node_row list" where
  "row_of d x = filter (\<lambda>m. nd_id m = x) (nodes d)"

lemma filter_key: "distinct (map f xs) \<Longrightarrow> x \<in> set xs \<Longrightarrow> filter (\<lambda>y. f y = f x) xs = [x]"
proof (induction xs)
  case (Cons a xs)
  show ?case
  proof (cases "x = a")
    case True
    with Cons.prems have "\<forall>y \<in> set xs. f y \<noteq> f x" by (auto simp: image_iff)
    with True show ?thesis by (simp add: filter_empty_conv)
  next
    case False
    with Cons show ?thesis by force
  qed
qed simp

lemma row_of_unique: "nodes_unique d \<Longrightarrow> n \<in> set (nodes d) \<Longrightarrow> row_of d (nd_id n) = [n]"
  unfolding row_of_def nodes_unique_def unique_on_def by (rule filter_key)

lemma row_of_mem: "row_of d x = [n] \<Longrightarrow> n \<in> set (nodes d) \<and> nd_id n = x"
proof -
  assume "row_of d x = [n]"
  then have "n \<in> set (filter (\<lambda>m. nd_id m = x) (nodes d))" unfolding row_of_def by simp
  then show ?thesis by simp
qed

lemma row_of_set_state: "row_of (d\<lparr>nodes := set_state y t (nodes d)\<rparr>) x
    = (if x = y then map (\<lambda>m. m\<lparr>nd_state := t\<rparr>) (row_of d x) else row_of d x)"
proof -
  have "filter (\<lambda>m. nd_id m = x) (set_state y t ns)
      = (if x = y then map (\<lambda>m. m\<lparr>nd_state := t\<rparr>) (filter (\<lambda>m. nd_id m = x) ns)
         else filter (\<lambda>m. nd_id m = x) ns)" for ns
    by (induction ns) (auto simp: set_state_def update_where_def)
  then show ?thesis by (simp add: row_of_def)
qed

lemma row_of_nodes: "nodes e = set_state y t (nodes d) \<Longrightarrow>
    row_of e x = (if x = y then map (\<lambda>m. m\<lparr>nd_state := t\<rparr>) (row_of d x) else row_of d x)"
  using row_of_set_state [where d = d and y = y and t = t and x = x] by (simp add: row_of_def)

lemma others_keep:
  assumes "nodes_unique d" "tick_node env c (r, d) = (r', e)" "ca_node c \<noteq> x"
  shows "row_of e x = row_of d x"
proof (cases "step_fails env c d")
  case True
  then show ?thesis using tick_node_effect [OF assms(1,2)] by simp
next
  case False
  then obtain own where a: "advance_node env c empty_report d = (Inr own, e)"
    using tick_node_effect [OF assms(1,2)]
    by (cases "advance_node env c empty_report d") (auto simp: step_fails_def split: sum.splits)
  from advance_node_effect [OF a] assms(1)
  have "nodes e = nodes d \<or> (\<exists>t. nodes e = set_state (ca_node c) t (nodes d))"
    by (auto simp: nodes_unique_def step_effect_def)
  then show ?thesis
    using row_of_nodes [where e = e and d = d and y = "ca_node c" and x = x] assms(3) by (auto simp: row_of_def)
qed

lemma page_keeps:
  assumes "\<forall>c \<in> set page. names c d" "nodes_unique d" "tick_page env page (r, d) = (r', e)"
    and "x \<notin> ca_node ` set page"
  shows "row_of e x = row_of d x"
  using assms
proof (induction page arbitrary: r d)
  case (Cons c page)
  obtain r1 d1 where n: "tick_node env c (r, d) = (r1, d1)" by force
  have run: "nodes_unique d1 \<and> (\<forall>c. names c d \<longrightarrow> names c d1)"
    using tick_page_run [of "[c]" d env r r1 d1] Cons.prems(1,2) n by (simp add: tick_page_Cons)
  have "row_of e x = row_of d1 x"
    using Cons.IH [of d1 r1] Cons.prems n run by (simp add: tick_page_Cons)
  then show ?case using others_keep [OF Cons.prems(2) n] Cons.prems(4) by auto
qed simp

lemma page_moves:
  assumes "\<forall>c \<in> set page. names c d" "nodes_unique d" "tick_page env page (r, d) = (r', e)"
    and "distinct (map ca_node page)" "n \<in> set (nodes d)" "free_to_move env d n" "candidate_of n \<in> set page"
  shows "row_of e (nd_id n) = [moved n]"
proof -
  let ?c = "candidate_of n" and ?x = "nd_id n"
  obtain xs ys where p: "page = xs @ ?c # ys" using assms(7) by (meson split_list)
  have c: "ca_node ?c = ?x" by (simp add: candidate_of_def)
  have apart: "?x \<notin> ca_node ` set xs" "?x \<notin> ca_node ` set ys" using assms(4) c by (auto simp: p)
  obtain r1 d1 where xs: "tick_page env xs (r, d) = (r1, d1)" by force
  obtain r2 d2 where n: "tick_node env ?c (r1, d1) = (r2, d2)" by force
  have nx: "\<forall>c \<in> set xs. names c d" using assms(1) p by simp
  note run = tick_page_run [OF nx assms(2) xs]
  have g: "tick_grows d d1" using engine.run_grows [OF tick_page_step [OF nx assms(2) xs] assms(2)] .
  have row1: "row_of d1 ?x = [n]"
    using page_keeps [OF nx assms(2) xs apart(1)] row_of_unique [OF assms(2,5)] by simp
  then have mem: "n \<in> set (nodes d1)" using row_of_mem by blast
  obtain own e1 where a: "advance_node env ?c empty_report d1 = (Inr own, e1)"
      "nodes e1 = set_state ?x (nd_state (moved n)) (nodes d1)"
    using free_moves [OF _ mem free_kept [OF g assms(6)]] run by blast
  have "e1 = d2" using tick_node_effect [OF _ n] run a(1) by (simp add: step_fails_def)
  then have row2: "row_of d2 ?x = [moved n]"
    using row_of_nodes [OF a(2), where x = ?x] row1 by (simp add: moved_def)
  have nn: "\<forall>c \<in> set [?c]. names c d1" using run assms(1) p by simp
  have run2: "nodes_unique d2 \<and> (\<forall>c. names c d1 \<longrightarrow> names c d2)"
    using tick_page_run [OF nn _, of env r1 r2 d2] run n by (simp add: tick_page_Cons)
  have "tick_page env ys (r2, d2) = (r', e)"
    using assms(3) xs n by (simp add: p tick_page_append tick_page_Cons)
  then have "row_of e ?x = row_of d2 ?x"
    using page_keeps [of ys d2 env r2 r' e ?x] run run2 assms(1) p apart(2) by auto
  with row2 show ?thesis by simp
qed

section \<open>Every page in turn\<close>

definition is_after :: "string option \<Rightarrow> string \<Rightarrow> bool" where
  "is_after after x \<longleftrightarrow> (case after of None \<Rightarrow> True | Some a \<Rightarrow> a < x)"

definition waiting :: "db \<Rightarrow> string option \<Rightarrow> node_row list" where
  "waiting d after = filter (\<lambda>m. is_candidate d m \<and> is_after after (nd_id m)) (nodes d)"

definition page_rows :: "tick_env \<Rightarrow> nat \<Rightarrow> string option \<Rightarrow> db \<Rightarrow> node_row list" where
  "page_rows env p after d = sort_key nd_id (filter (\<lambda>m. \<not> te_locked env p (nd_id m)) (waiting d after))"

lemma page_of_rows:
  "page_of env r after d = map candidate_of (take (min page_size (item_backstop - examined r)) (page_rows env (tp_pages r) after d))"
  unfolding page_of_def candidate_page_def page_rows_def waiting_def is_after_def filter_filter
  by (metis (no_types, lifting))

lemma page_rows_facts:
  assumes "nodes_unique d"
  shows "set (page_rows env p after d) = {m \<in> set (waiting d after). \<not> te_locked env p (nd_id m)}"
    and "sorted (map nd_id (page_rows env p after d))" "distinct (map nd_id (page_rows env p after d))"
    and "length (page_rows env p after d) \<le> length (waiting d after)"
proof -
  show "set (page_rows env p after d) = {m \<in> set (waiting d after). \<not> te_locked env p (nd_id m)}"
    unfolding page_rows_def set_sort by auto
  show "sorted (map nd_id (page_rows env p after d))" unfolding page_rows_def by (rule sorted_sort_key)
  show "length (page_rows env p after d) \<le> length (waiting d after)"
    unfolding page_rows_def length_sort by (rule length_filter_le)
  have "distinct (map nd_id (filter P (nodes d)))" for P
    using assms distinct_map_filter unfolding nodes_unique_def unique_on_def by blast
  then have "distinct (map nd_id (filter (\<lambda>m. \<not> te_locked env p (nd_id m)) (waiting d after)))"
    unfolding waiting_def filter_filter .
  then show "distinct (map nd_id (page_rows env p after d))"
    unfolding page_rows_def by (simp add: distinct_map distinct_sort)
qed

lemma page_ids:
  assumes "nodes_unique d"
  shows "distinct (map ca_node (page_of env r after d))"
    and "c \<in> set (page_of env r after d) \<Longrightarrow> is_after after (ca_node c)"
proof -
  have "map ca_node (map candidate_of xs) = map nd_id xs" for xs by (simp add: candidate_of_def)
  then show "distinct (map ca_node (page_of env r after d))"
    unfolding page_of_rows using distinct_take [OF page_rows_facts(3) [OF assms]] by (metis take_map)
  show "is_after after (ca_node c)" if "c \<in> set (page_of env r after d)"
    using that page_rows_facts(1) [OF assms] unfolding page_of_rows
    by (auto simp: candidate_of_def waiting_def dest!: in_set_takeD)
qed

text \<open>Rows behind the keyset are never touched again.\<close>

lemma run_pages_keep:
  "nodes_unique d \<Longrightarrow> run_pages env after (r, d) = (r', e) \<Longrightarrow> \<not> is_after after x
     \<Longrightarrow> row_of e x = row_of d x"
proof (induction env after "(r, d)" arbitrary: r d rule: run_pages.induct)
  case (1 env after r d)
  let ?page = "page_of env r after d"
  obtain r1 d1 where t: "tick_page env ?page (r\<lparr>tp_pages := tp_pages r + 1\<rparr>, d) = (r1, d1)" by force
  have nm: "\<forall>c \<in> set ?page. names c d" using page_names by (simp add: page_of_def)
  have x: "x \<notin> ca_node ` set ?page" using page_ids(2) [OF 1(2)] 1(4) by blast
  have k: "row_of d1 x = row_of d x" using page_keeps [OF nm 1(2) t x] .
  show ?case
  proof (cases "item_backstop \<le> examined r \<or> te_unreadable env (tp_pages r) \<or> ?page = [] \<or> length ?page < page_size")
    case True
    then have "e = d \<or> e = d1"
      using 1(3) t by (subst (asm) run_pages.simps) (auto simp: Let_def split: if_splits)
    with k show ?thesis by auto
  next
    case False
    then have rest: "run_pages env (Some (ca_node (last ?page))) (r1, d1) = (r', e)"
      using 1(3) t by (subst (asm) run_pages.simps) (auto simp: Let_def split: if_splits)
    have u: "nodes_unique d1" using tick_page_run [OF nm 1(2) t] by blast
    have "is_after after (ca_node (last ?page))" using page_ids(2) [OF 1(2) last_in_set] False by blast
    then have "\<not> is_after (Some (ca_node (last ?page))) x"
      using 1(4) by (auto simp: is_after_def split: option.splits)
    then have "row_of e x = row_of d1 x"
      using 1(1) [OF _ _ refl _ t [symmetric] _ u rest] False by blast
    with k show ?thesis by simp
  qed
qed

lemma length_filter_list_all2:
  "list_all2 P xs ys \<Longrightarrow> (\<And>x y. P x y \<Longrightarrow> R y \<Longrightarrow> Q x) \<Longrightarrow> length (filter R ys) \<le> length (filter Q xs)"
  by (induction rule: list_all2_induct) (auto intro: le_SucI)

lemma candidate_before:
  assumes "tick_grows d e" "node_grows d n m" "is_candidate e m"
  shows "is_candidate d n"
proof -
  have f: "flows e = flows d" using assms(1) by (simp add: tick_grows_def rest_kept_def)
  show ?thesis
    using assms(3) node_grows_fixed [OF assms(2)] assms(2) f unfolding is_candidate_def node_grows_def forward_def by auto
qed

lemma waiting_shrinks:
  assumes "tick_grows d e"
  shows "length (waiting e after) \<le> length (waiting d after)"
  unfolding waiting_def
proof (rule length_filter_list_all2)
  show "list_all2 (node_grows d) (nodes d) (nodes e)" using assms by (simp add: tick_grows_def)
  show "is_candidate d n \<and> is_after after (nd_id n)" if "node_grows d n m" "is_candidate e m \<and> is_after after (nd_id m)" for n m
    using that candidate_before [OF assms that(1)] node_grows_fixed [OF that(1)] by simp
qed

text \<open>A full page takes its rows off what is waiting.\<close>

lemma waiting_rest:
  assumes "nodes_unique d" "set xs \<subseteq> set (waiting d after)" "distinct xs" "is_after after a" "\<forall>m \<in> set xs. nd_id m \<le> a"
  shows "length xs + length (waiting d (Some a)) \<le> length (waiting d after)"
proof -
  have dist: "distinct (waiting d b)" for b
    using assms(1) by (auto simp: waiting_def nodes_unique_def unique_on_def distinct_map)
  have sub: "set (waiting d (Some a)) \<subseteq> set (waiting d after)"
    using assms(4) by (auto simp: waiting_def is_after_def split: option.splits)
  have "set xs \<inter> set (waiting d (Some a)) = {}"
    using assms(5) by (auto simp: waiting_def is_after_def)
  then have "card (set xs \<union> set (waiting d (Some a))) = length xs + length (waiting d (Some a))"
    using distinct_card [OF assms(3)] distinct_card [OF dist [of "Some a"]] by (simp add: card_Un_disjoint)
  moreover have "card (set xs \<union> set (waiting d (Some a))) \<le> card (set (waiting d after))"
    using assms(2) sub by (intro card_mono) auto
  ultimately show ?thesis using distinct_card [OF dist [of after]] by simp
qed

lemma sorted_take_split:
  fixes f :: "'a \<Rightarrow> 'b::linorder"
  assumes "sorted (map f xs)" "take k xs \<noteq> []"
  shows "(\<forall>m \<in> set (take k xs). f m \<le> f (last (take k xs)))
    \<and> (\<forall>m \<in> set xs. m \<notin> set (take k xs) \<longrightarrow> f (last (take k xs)) \<le> f m)"
proof -
  have "sorted (map f (take k xs @ drop k xs))" using assms(1) by simp
  then have s: "sorted (map f (take k xs))" "\<forall>m \<in> set (take k xs). \<forall>y \<in> set (drop k xs). f m \<le> f y"
    unfolding map_append sorted_append by auto
  have "sorted (map f (butlast (take k xs) @ [last (take k xs)]))" using s(1) assms(2) by simp
  then have "\<forall>m \<in> set (butlast (take k xs)). f m \<le> f (last (take k xs))" unfolding map_append sorted_append by auto
  moreover have "set (take k xs) = insert (last (take k xs)) (set (butlast (take k xs)))"
    using assms(2) by (metis append_butlast_last_id list.simps(15) rotate1.simps(2) set_rotate1)
  moreover have "set xs = set (take k xs) \<union> set (drop k xs)" by (metis append_take_drop_id set_append)
  ultimately show ?thesis using s(2) assms(2) by auto
qed

text \<open>
  While the free node is still ahead of the keyset, and fewer rows wait than the backstop leaves.
\<close>

lemma run_pages_reach:
  "nodes_unique d \<Longrightarrow> run_pages env after (r, d) = (r', e) \<Longrightarrow> n \<in> set (nodes d) \<Longrightarrow> free_to_move env d n
     \<Longrightarrow> is_after after (nd_id n) \<Longrightarrow> (\<forall>p. \<not> te_unreadable env p \<and> \<not> te_locked env p (nd_id n))
     \<Longrightarrow> examined r + length (waiting d after) < item_backstop
     \<Longrightarrow> row_of e (nd_id n) = [moved n]"
proof (induction env after "(r, d)" arbitrary: r d rule: run_pages.induct)
  case (1 env after r d)
  let ?rows = "page_rows env (tp_pages r) after d"
  let ?page = "page_of env r after d"
  let ?x = "nd_id n"
  obtain r1 d1 where t: "tick_page env ?page (r\<lparr>tp_pages := tp_pages r + 1\<rparr>, d) = (r1, d1)" by force
  note facts = page_rows_facts [OF 1(2), of env "tp_pages r" after]
  have nm: "\<forall>c \<in> set ?page. names c d" using page_names by (simp add: page_of_def)
  have g: "tick_grows d d1" using engine.run_grows [OF tick_page_step [OF nm 1(2) t] 1(2)] .
  have u: "nodes_unique d1" using tick_page_run [OF nm 1(2) t] by blast
  have cand: "is_candidate d n"
  proof -
    obtain fl where "flow_for d (nd_org n) (nd_flow n) = Some fl" "fl_archived fl = None"
      using 1(5) by (auto simp: free_to_move_def unarchived_def)
    then have "list_ex (\<lambda>f. fl_id f = nd_flow n \<and> fl_org f = nd_org n \<and> fl_archived f = None) (flows d)"
      using find_SomeD [of _ "flows d" fl] by (auto simp: flow_for_def list_ex_iff)
    then show ?thesis using 1(5) by (simp add: is_candidate_def free_to_move_def)
  qed
  then have in_rows: "n \<in> set ?rows" using facts(1) 1(4,6,7) by (simp add: waiting_def)
  have room: "\<not> item_backstop \<le> examined r" "length ?rows < item_backstop - examined r"
    using 1(8) facts(4) by linarith+
  have page: "?page = map candidate_of (take page_size ?rows)"
    unfolding page_of_rows using room(2) by (simp add: min_def)
  have "?page \<noteq> []" using in_rows unfolding page by (auto simp: page_size_def)
  have open_page: "\<not> (item_backstop \<le> examined r \<or> te_unreadable env (tp_pages r) \<or> ?page = [])"
    using room(1) 1(7) \<open>?page \<noteq> []\<close> by blast
  have next_page: "run_pages env (Some (ca_node (last ?page))) (r1, d1) = (r', e)" if "\<not> length ?page < page_size"
    using 1(3) t open_page that by (subst (asm) run_pages.simps) (auto simp: Let_def split: if_splits)
  have stop: "e = d1" if "length ?page < page_size"
    using 1(3) t open_page that by (subst (asm) run_pages.simps) (auto simp: Let_def split: if_splits)
  let ?take = "take page_size ?rows"
  have some: "?take \<noteq> []" using \<open>?page \<noteq> []\<close> by (simp add: page)
  have last_page: "ca_node (last ?page) = nd_id (last ?take)"
    unfolding page last_map [OF some] by (simp add: candidate_of_def)
  note split = sorted_take_split [OF facts(2) some]
  show ?case
  proof (cases "n \<in> set ?take")
    case True
    then have "candidate_of n \<in> set ?page" by (simp add: page)
    then have now: "row_of d1 ?x = [moved n]"
      using page_moves [OF nm 1(2) t page_ids(1) [OF 1(2)] 1(4,5)] by blast
    have "\<not> is_after (Some (ca_node (last ?page))) ?x"
      using split True unfolding last_page by (simp add: is_after_def not_less)
    then show ?thesis using run_pages_keep [OF u next_page] stop now by metis
  next
    case False
    have apart: "nd_id m \<noteq> ?x" if "m \<in> set ?take" for m
    proof
      assume "nd_id m = ?x"
      then have "m = n" using facts(3) in_rows in_set_takeD [OF that] by (auto simp: distinct_map inj_on_def)
      with that False show False by simp
    qed
    have "nd_id (last ?take) \<noteq> ?x" using apart last_in_set [OF some] .
    then have ahead: "nd_id (last ?take) < ?x" using split in_rows False by (simp add: order.strict_iff_order)
    have full: "length ?take = page_size"
    proof (rule ccontr)
      assume "length ?take \<noteq> page_size"
      then have "?take = ?rows" by simp
      with in_rows False show False by simp
    qed
    then have rest: "run_pages env (Some (ca_node (last ?page))) (r1, d1) = (r', e)"
      using next_page by (simp add: page)
    have "?x \<notin> ca_node ` set ?page" unfolding page by (simp add: image_image candidate_of_def) (use apart in force)
    then have "row_of d1 ?x = [n]" using page_keeps [OF nm 1(2) t] row_of_unique [OF 1(2,4)] by simp
    then have mem: "n \<in> set (nodes d1)" using row_of_mem by blast
    have "examined r1 = examined r + page_size"
      using tick_page_count [OF nm 1(2) t] full by (simp add: page examined_def)
    moreover have "page_size + length (waiting d (Some (nd_id (last ?take)))) \<le> length (waiting d after)"
    proof -
      have sub: "set ?take \<subseteq> set (waiting d after)" using facts(1) by (auto dest: in_set_takeD)
      moreover have "distinct ?take" using facts(3) by (simp add: distinct_map distinct_take)
      moreover have "last ?take \<in> set (waiting d after)" using sub last_in_set [OF some] by blast
      then have "is_after after (nd_id (last ?take))" by (simp add: waiting_def)
      ultimately show ?thesis using waiting_rest [OF 1(2), of ?take after] split full by metis
    qed
    moreover have "length (waiting d1 (Some (nd_id (last ?take)))) \<le> length (waiting d (Some (nd_id (last ?take))))"
      using waiting_shrinks [OF g] .
    ultimately have left: "examined r1 + length (waiting d1 (Some (ca_node (last ?page)))) < item_backstop"
      using 1(8) unfolding last_page by linarith
    have "is_after (Some (ca_node (last ?page))) ?x" using ahead by (simp add: last_page is_after_def)
    then show ?thesis
      using 1(1) [OF _ _ refl _ t [symmetric] _ u rest mem free_kept [OF g 1(5)] _ 1(7) left] open_page full
      by (simp add: page)
  qed
qed

text \<open>What the tick's environment must not do to a node, and how many nodes may wait.\<close>

definition scan_reaches :: "tick_env \<Rightarrow> db \<Rightarrow> string \<Rightarrow> bool" where
  "scan_reaches env d x \<longleftrightarrow> (\<forall>p. \<not> te_unreadable env p \<and> \<not> te_locked env p x)
     \<and> length (filter (is_candidate d) (nodes d)) < item_backstop"

lemma run_tick_moves:
  assumes "nodes_unique d" "n \<in> set (nodes d)" "free_to_move env d n" "scan_reaches env d (nd_id n)"
  shows "row_of (snd (run_tick env d)) (nd_id n) = [moved n]"
proof -
  obtain r e where t: "run_pages env None (empty_report, d) = (r, e)" by force
  have "examined empty_report + length (waiting d None) < item_backstop"
    using assms(4) by (simp add: examined_def empty_report_def waiting_def is_after_def scan_reaches_def)
  from run_pages_reach [OF assms(1) t assms(2,3) _ _ this] assms(4)
  show ?thesis using t by (simp add: run_tick_def is_after_def scan_reaches_def)
qed

end
