(* ===== verification/Tick_Guarantees.thy ===== *)
theory Tick_Guarantees
  imports Tick_Progress Samples
begin

text \<open>
  The guarantees of the engine tick, as properties of the whole tick and of one node's step, with a
  small store on which each of them is exercised.
\<close>

section \<open>A small store\<close>

definition idle_evals :: eval_services where
  "idle_evals = \<lparr>es_attached = (\<lambda>_ _ _. Inr None), es_parse = (\<lambda>_. Inl ValueError), es_supported = (\<lambda>_. False),
     es_evidence = (\<lambda>_ _ _ _. Inl ValueError), es_deployed = (\<lambda>_ _ _. Inr False), es_no_policy = (\<lambda>_ _. Inr True)\<rparr>"

definition idle_nodes :: node_services where
  "idle_nodes = \<lparr>ns_node = (\<lambda>_. None), ns_policy = (\<lambda>_. None), ns_executor = False, ns_release = (\<lambda>_ _ _ _. None)\<rparr>"

definition tick_env0 :: tick_env where
  "tick_env0 = \<lparr>te_digest = sample_digest, te_nodes = idle_nodes, te_evals = idle_evals, te_id = (\<lambda>_. ''d''),
     te_now = (\<lambda>_. Aware 3), te_locked = (\<lambda>_ _. False), te_unreadable = (\<lambda>_. False)\<rparr>"

definition done_story :: node_row where
  "done_story = sample_node\<lparr>nd_id := ''a'', nd_state := ''passed''\<rparr>"

definition next_gate :: node_row where
  "next_gate = sample_node\<lparr>nd_id := ''b'', nd_kind := ''gate'', nd_state := ''pending''\<rparr>"

definition story_edge :: edge_row where
  "story_edge = \<lparr>ed_id = ''x'', ed_org = ''o'', ed_flow = ''f'', ed_from = ''a'', ed_to = ''b''\<rparr>"

definition tick_db :: db where
  "tick_db = sample_db\<lparr>nodes := [done_story, next_gate], edges := [story_edge], plans := []\<rparr>"

text \<open>Two plans of one flow are in force, so reading the accepted plan raises.\<close>

definition two_plans_db :: db where
  "two_plans_db = tick_db\<lparr>plans := [sample_plan, sample_plan\<lparr>pl_id := ''p2''\<rparr>]\<rparr>"

lemmas tick_sample_defs = idle_evals_def idle_nodes_def tick_env0_def done_story_def next_gate_def story_edge_def
  tick_db_def two_plans_db_def sample_db_def sample_node_def sample_flow_def sample_plan_def sample_digest_def

lemma tick_db_unique: "nodes_unique tick_db" "nodes_unique two_plans_db"
  by (simp_all add: tick_sample_defs nodes_unique_def unique_on_def)

lemma free_gate: "free_to_move tick_env0 tick_db next_gate"
  by (simp add: free_to_move_def inputs_met_def tick_sample_defs unarchived_def flow_for_def predecessor_rows_def
      accepted_node_contract_def accepted_plan_def current_plans_def contract_from_plan_def)

lemma gate_moves:
  "\<exists>r e. advance_node tick_env0 (candidate_of next_gate) empty_report tick_db = (Inr r, e) \<and> nodes e \<noteq> nodes tick_db"
proof -
  obtain r e where a: "advance_node tick_env0 (candidate_of next_gate) empty_report tick_db = (Inr r, e)"
      "nodes e = set_state (nd_id next_gate) (nd_state (moved next_gate)) (nodes tick_db)"
    using free_moves [OF tick_db_unique(1) _ free_gate] by (force simp: tick_db_def)
  have "nodes e \<noteq> nodes tick_db"
    unfolding a(2) by (simp add: tick_sample_defs moved_def set_state_def update_where_def)
  with a(1) show ?thesis by blast
qed

section \<open>Safety\<close>

text \<open>
  C4: Whatever the tick does, it only appends decisions and moves nodes: every other table is as it
  was, every node keeps all its columns but its state, and a state changes only from pending to ready
  or to the gate's waiting state, or from ready to that waiting state, of a node whose flow is not
  archived and whose stored predecessors have all passed or been waived. In particular the tick never
  passes, waives, fails or reopens a node, and never answers a gate.
\<close>

theorem tick_moves_only_released:
  assumes "nodes_unique d" "run_tick env d = (r, e)"
  shows "rest_kept d e \<and> list_all2 (\<lambda>n m. m = n\<lparr>nd_state := nd_state m\<rparr> \<and> (nd_state m = nd_state n \<or>
      (nd_state n, nd_state m) \<in> {(''pending'', ''ready''), (''pending'', ''awaiting_gate''), (''ready'', ''awaiting_gate'')}
        \<and> predecessors_done d n \<and> unarchived d n)) (nodes d) (nodes e)"
  using engine.run_grows [OF run_tick_step [OF assms(1)] assms(1), of env] assms(2)
  unfolding tick_grows_def node_grows_def forward_def by simp

theorem tick_moves_only_released_witness:
  "rest_kept tick_db (snd (run_tick tick_env0 tick_db))"
  using tick_moves_only_released [OF tick_db_unique(1), of tick_env0 "fst (run_tick tick_env0 tick_db)"
      "snd (run_tick tick_env0 tick_db)"] by simp

text \<open>
  C7: A waiver releases successors only with a human behind it. When the step of a node changes a
  node, each of its stored predecessors has passed, or is a waived evaluation that was never
  attempted and carries a waiver decision of an identified human; a waived row alone releases nothing.
\<close>

theorem waived_predecessor_needs_human:
  assumes "nodes_unique d" "advance_node env c r d = (Inr r', e)" "nodes e \<noteq> nodes d"
    and "(p, s) \<in> set (predecessor_rows d (ca_org c) (ca_node c))"
  shows "s = ''passed'' \<or> s = ''waived'' \<and> (\<exists>m w. get_node d p = Some m \<and> nd_kind m = ''eval'' \<and> nd_attempts m = 0
    \<and> w \<in> set (decisions d) \<and> dc_kind w = ''evaluation_waived'' \<and> dc_node w = Some (nd_id m)
    \<and> dc_actor_kind w = ''human'' \<and> dc_actor_id w \<noteq> [])"
proof -
  have "released_now env d c" using advance_node_effect [OF assms(2)] assms(1,3) by (simp add: nodes_unique_def)
  then obtain preds where "predecessor_states (te_digest env) d (ca_org c) (ca_node c) = Inr preds" "unsatisfied preds = []"
    by (auto simp: released_now_def)
  from satisfied_row [OF this assms(4)] show ?thesis using human_waiver by fastforce
qed

theorem waived_predecessor_needs_human_witness:
  "\<exists>r e. advance_node tick_env0 (candidate_of next_gate) empty_report tick_db = (Inr r, e)
     \<and> (''a'', ''passed'') \<in> set (predecessor_rows tick_db ''o'' ''b'')
     \<and> (''passed'' = ''passed'' \<or> ''passed'' = ''waived'' \<and> (\<exists>m. get_node tick_db ''a'' = Some m \<and> nd_kind m = ''eval''))"
proof -
  obtain r e where a: "advance_node tick_env0 (candidate_of next_gate) empty_report tick_db = (Inr r, e)"
      "nodes e \<noteq> nodes tick_db" using gate_moves by blast
  have p: "(''a'', ''passed'') \<in> set (predecessor_rows tick_db ''o'' ''b'')"
    by (simp add: predecessor_rows_def tick_sample_defs)
  then have q: "(''a'', ''passed'') \<in> set (predecessor_rows tick_db (ca_org (candidate_of next_gate)) (ca_node (candidate_of next_gate)))"
    by (simp add: candidate_of_def next_gate_def sample_node_def)
  show ?thesis
    using waived_predecessor_needs_human [OF tick_db_unique(1) a q] a(1) p by blast
qed

text \<open>
  Overlapping ticks effect a move once. After a guarded transition has written its row, the same
  transition from the same observation, by any tick, is allowed but writes no row, presents no gate
  and leaves the store as it is: it is a lost race, not a second effect.
\<close>

theorem overlapping_tick_effects_once:
  assumes "nodes_unique d" "apply_guarded_transition env c s to why d = (Inr (1, True), e)"
  shows "apply_guarded_transition env' c s to why' e = (Inr (0, True), e)"
proof -
  note first = guarded_transition_cases [OF assms(1) [unfolded nodes_unique_def] assms(2)]
  then have mv: "service_move s to" by simp
  have "unique_on nd_id (nodes e)" using first assms(1) by (simp add: nodes_unique_def)
  have n: "nodes e = set_state (ca_node c) (node_state_value to) (nodes d)" using first by simp
  have s: "s \<noteq> node_state_value to" using service_move_changes [OF mv] .
  have gone: "\<not> observed_now c s e"
    using s unfolding observed_now_def n set_state_def guarded_def by (auto simp: set_update_where)
  obtain rows ok f where again: "apply_guarded_transition env' c s to why' e = (Inr (rows, ok), f)"
    using guarded_transition_answers [OF mv] by blast
  from guarded_transition_cases [OF \<open>unique_on nd_id (nodes e)\<close> again] mv gone
  show ?thesis by (simp add: again)
qed

theorem overlapping_tick_effects_once_witness:
  "\<exists>e. apply_guarded_transition tick_env0 (candidate_of next_gate) ''pending'' READY ''why'' tick_db = (Inr (1, True), e)
     \<and> apply_guarded_transition tick_env0 (candidate_of next_gate) ''pending'' READY ''again'' e = (Inr (0, True), e)"
proof -
  have "observed_now (candidate_of next_gate) ''pending'' tick_db"
    by (simp add: observed_now_def guarded_def candidate_of_def tick_sample_defs)
  then obtain e where "apply_guarded_transition tick_env0 (candidate_of next_gate) ''pending'' READY ''why'' tick_db
      = (Inr (1, True), e)"
    using guarded_transition_runs [OF tick_db_unique(1) [unfolded nodes_unique_def] service_move_pending] by blast
  with overlapping_tick_effects_once [OF tick_db_unique(1) this] show ?thesis by blast
qed

section \<open>Bounds\<close>

text \<open>
  C35: One tick examines at most 10000 nodes in at most 20 pages, and it reports itself truncated
  exactly when it has examined 10000, whether or not there was anything more to examine.
\<close>

theorem tick_is_bounded:
  assumes "nodes_unique d" "run_tick env d = (r, e)"
  shows "tp_counts r NodesExamined \<le> 10000 \<and> tp_pages r \<le> 20
    \<and> (tp_truncated r \<longleftrightarrow> tp_counts r NodesExamined = 10000)"
proof -
  have zero: "examined empty_report = 0" "tp_pages empty_report = 0" "\<not> tp_truncated empty_report"
    by (simp_all add: examined_def empty_report_def)
  have b: "examined r \<le> item_backstop \<and> page_size * tp_pages r < examined r + page_size
      \<and> (tp_truncated r \<longleftrightarrow> examined r = item_backstop)"
    using scan_bounds [OF assms(1), of env None empty_report r e] assms(2) zero by (simp add: run_tick_def)
  then have "500 * tp_pages r < 10500" by (simp add: page_size_def item_backstop_def)
  with b show ?thesis by (simp add: examined_def item_backstop_def)
qed

theorem tick_is_bounded_witness:
  "tp_counts (fst (run_tick tick_env0 tick_db)) NodesExamined \<le> 10000"
  using tick_is_bounded [OF tick_db_unique(1), of tick_env0 "fst (run_tick tick_env0 tick_db)"
      "snd (run_tick tick_env0 tick_db)"] by simp

section \<open>Errors\<close>

text \<open>
  C8: A node whose step raises is counted and contained. Within a page, the store at the end is the
  one the page would have left without that node: its partial writes are gone and the nodes after it
  are advanced as if it had not been there; the report has exactly one error more.
\<close>

theorem failing_step_is_contained:
  assumes "nodes_unique d" "\<forall>x \<in> set (xs @ c # ys). names x d"
    and "fst (advance_node env c empty_report (snd (tick_page env xs (r, d)))) = Inl err"
  shows "snd (tick_page env (xs @ c # ys) (r, d)) = snd (tick_page env (xs @ ys) (r, d))
    \<and> tp_counts (fst (tick_page env (xs @ c # ys) (r, d))) Errors
      = Suc (tp_counts (fst (tick_page env (xs @ ys) (r, d))) Errors)"
  by (rule failing_node_contained [OF assms(1,2)]) (simp add: step_fails_def assms(3))

theorem failing_step_is_contained_witness:
  "snd (tick_page tick_env0 [candidate_of next_gate] (empty_report, two_plans_db)) = two_plans_db
   \<and> tp_counts (fst (tick_page tick_env0 [candidate_of next_gate] (empty_report, two_plans_db))) Errors = 1"
proof -
  let ?c = "candidate_of next_gate"
  have n: "\<forall>x \<in> set ([] @ ?c # []). names x two_plans_db"
    by (simp add: names_def tick_sample_defs candidate_of_def)
  have f: "fst (advance_node tick_env0 ?c empty_report (snd (tick_page tick_env0 [] (empty_report, two_plans_db))))
      = Inl MultipleResultsFound"
    by (simp add: advance_node_def tick_sample_defs candidate_of_def flow_for_def predecessor_states_def
        predecessor_rows_def unsatisfied_Nil own_node_def get_node_def unresolved_required_inputs_def
        accepted_node_contract_def accepted_plan_def current_plans_def)
  show ?thesis
    using failing_step_is_contained [OF tick_db_unique(2) n f] by (simp add: empty_report_def)
qed

section \<open>Liveness\<close>


text \<open>A plan in force, by which the gate needs the output of the story before it.\<close>

definition needs_story :: proposed_node where
  "needs_story = \<lparr>pn_address = ''f/e/w/g'', pn_kind = ''gate'', pn_issue = None, pn_lineage = None, pn_labels = [],
     pn_evaluation = None, pn_repository = None, pn_repository_id = None, pn_installation = None, pn_criteria = [],
     pn_inputs = [\<lparr>ni_name = ''i'', ni_source = ''node:f/e/w/r''\<rparr>], pn_evidence = [], pn_release = None,
     pn_role = None, pn_title = ''t''\<rparr>"

definition input_gate :: node_row where
  "input_gate = next_gate\<lparr>nd_ref := ''g''\<rparr>"

definition input_env :: tick_env where
  "input_env = tick_env0\<lparr>te_nodes := idle_nodes\<lparr>ns_node := (\<lambda>_. Some needs_story)\<rparr>\<rparr>"

definition input_db :: db where
  "input_db = tick_db\<lparr>flows := [sample_flow\<lparr>fl_slug := ''f''\<rparr>], nodes := [done_story, input_gate],
     plans := [sample_plan\<lparr>pl_document := JObj [(''nodes'', JArr [JObj [(''address'', JStr ''f/e/w/g'')]])]\<rparr>]\<rparr>"

lemmas input_defs = needs_story_def input_gate_def input_env_def input_db_def tick_sample_defs

lemma input_gate_contract:
  "\<exists>v es rs. accepted_node_contract (te_nodes input_env) input_db input_gate
     = Inr (Some \<lparr>nc_version = v, nc_node = needs_story, nc_environments = es, nc_repositories = rs\<rparr>)"
  by (simp add: accepted_node_contract_def accepted_plan_def current_plans_def contract_from_plan_def
      input_defs flow_for_def doc_fields_def doc_nodes_def entries_of_def map_filter_def node_address_def jget_def)

lemma story_output_met: "input_met input_env input_db input_gate
    \<lparr>nc_version = v, nc_node = needs_story, nc_environments = es, nc_repositories = rs\<rparr>
    \<lparr>ni_name = ''i'', ni_source = ''node:f/e/w/r''\<rparr>"
proof (rule predecessor_met)
  show "strip (ni_source \<lparr>ni_name = ''i'', ni_source = ''node:f/e/w/r''\<rparr>) = ''node:'' @ ''f/e/w/r''" by code_simp
  show "flow_for input_db (nd_org input_gate) (nd_flow input_gate) = Some (sample_flow\<lparr>fl_slug := ''f''\<rparr>)"
    by (simp add: input_defs flow_for_def)
qed (simp_all add: input_defs node_address_def)

lemma free_input_gate: "free_to_move input_env input_db input_gate"
proof -
  have "inputs_met input_env input_db input_gate"
    using input_gate_contract story_output_met by (fastforce simp: inputs_met_def needs_story_def)
  then show ?thesis
    by (simp add: free_to_move_def) (simp add: input_defs unarchived_def flow_for_def predecessor_rows_def)
qed


end
