(* ===== verification/Plan_Progress.thy ===== *)
theory Plan_Progress
  imports Proposal_Properties Tick_Progress
begin

text \<open>
  From a validated plan to its execution: the rows of a flow that realise a plan, and the pending node
  that comes first.
\<close>

definition in_flow :: "flow_row \<Rightarrow> node_row \<Rightarrow> bool" where
  "in_flow fl n \<longleftrightarrow> nd_org n = fl_org fl \<and> nd_flow n = fl_id fl"

text \<open>The stored edges into nodes of the flow are dependencies of the plan.\<close>

definition realises :: "db \<Rightarrow> flow_row \<Rightarrow> proposal \<Rightarrow> bool" where
  "realises d fl p \<longleftrightarrow> (\<forall>e \<in> set (edges d). \<forall>m \<in> set (nodes d). \<forall>n \<in> set (nodes d).
     ed_org e = fl_org fl \<and> ed_from e = nd_id m \<and> ed_to e = nd_id n \<and> nd_org m = fl_org fl \<and> in_flow fl n
       \<longrightarrow> in_flow fl m \<and> (node_address fl m, node_address fl n) \<in> depends p)"

lemma first_pending:
  assumes "acyclic (depends p)" "realises d fl p"
    and "\<forall>n \<in> set (nodes d). in_flow fl n \<longrightarrow> nd_state n = ''pending'' \<or> nd_state n = ''passed''"
    and "n0 \<in> set (nodes d)" "in_flow fl n0" "nd_state n0 = ''pending''"
  shows "\<exists>n \<in> set (nodes d). in_flow fl n \<and> nd_state n = ''pending''
    \<and> (\<forall>r \<in> set (predecessor_rows d (nd_org n) (nd_id n)). snd r = ''passed'')"
proof -
  let ?open = "{n \<in> set (nodes d). in_flow fl n \<and> nd_state n = ''pending''}"
  let ?addr = "node_address fl ` ?open"
  have "finite (depends p \<inter> ?addr \<times> ?addr)" by simp
  moreover have "acyclic (depends p \<inter> ?addr \<times> ?addr)" using assms(1) acyclic_subset inf_le1 by blast
  ultimately have "wf (depends p \<inter> ?addr \<times> ?addr)" by (rule finite_acyclic_wf)
  moreover have "node_address fl n0 \<in> ?addr" using assms(4-6) by blast
  ultimately obtain a where a: "a \<in> ?addr" "\<And>b. (b, a) \<in> depends p \<inter> ?addr \<times> ?addr \<Longrightarrow> b \<notin> ?addr"
    by (rule wfE_min) blast
  then obtain n where n: "n \<in> set (nodes d)" "in_flow fl n" "nd_state n = ''pending''" "a = node_address fl n" by blast
  have "snd r = ''passed''" if r: "r \<in> set (predecessor_rows d (nd_org n) (nd_id n))" for r
  proof -
    obtain e m where em: "e \<in> set (edges d)" "m \<in> set (nodes d)" "r = (ed_from e, nd_state m)"
        "nd_id m = ed_from e" "ed_org e = nd_org n" "ed_to e = nd_id n" "nd_org m = nd_org n"
      using r unfolding predecessor_rows_def by auto
    have org: "nd_org n = fl_org fl" using n(2) by (simp add: in_flow_def)
    have dep: "in_flow fl m" "(node_address fl m, a) \<in> depends p"
      using assms(2) [unfolded realises_def, rule_format, OF em(1,2) n(1)] em(4-7) n(2,4) org by simp_all
    have "nd_state m \<noteq> ''pending''"
    proof
      assume "nd_state m = ''pending''"
      then have "node_address fl m \<in> ?addr" using em(2) dep(1) by blast
      with a dep(2) show False by blast
    qed
    then show ?thesis using assms(3) em(2,3) dep(1) by auto
  qed
  with n(1-3) show ?thesis by blast
qed

end
