(* ===== verification/Tick_Decisions.thy ===== *)
theory Tick_Decisions
  imports Tick_Properties
begin

text \<open>
  The engine never speaks for a human: every decision a tick (or a release inside an acceptance)
  appends is recorded with the service actor, whether the step answers or raises.
\<close>

definition service_adds :: "db \<Rightarrow> db \<Rightarrow> bool" where
  "service_adds d e \<longleftrightarrow> (\<exists>ds. decisions e = decisions d @ ds \<and> (\<forall>r \<in> set ds. dc_actor_kind r = ''service''))"

lemma service_adds_refl [simp]: "decisions e = decisions d \<Longrightarrow> service_adds d e"
  by (simp add: service_adds_def)

lemma service_adds_trans [trans]: "service_adds d e \<Longrightarrow> service_adds e f \<Longrightarrow> service_adds d f"
  unfolding service_adds_def by (metis (no_types, lifting) Un_iff append.assoc set_append)

lemma service_add_tick [simp]: "service_adds d (add_decision (tick_decision env d0 c k why rej a b) d)"
  by (simp add: service_adds_def add_decision_def tick_decision_def)

lemma service_add_after:
  "service_adds d e \<Longrightarrow> service_adds d (add_decision (tick_decision env d0 c k why rej a b) e)"
  using service_adds_trans service_add_tick by blast

lemma service_evidence [simp]: "service_adds d (record_human_gate_evidence env c j d)"
  by (simp add: record_human_gate_evidence_def)

lemma service_nested: "service_adds d (snd (f d)) \<Longrightarrow> service_adds d (snd (nested f d))"
  by (auto simp: nested_def split: prod.splits sum.splits)

lemma guarded_service: "service_adds d (snd (apply_guarded_transition env c s to why d))"
proof (cases "transition_raw no_proofs s (node_state_value to) ''service'' why")
  case (Inl e)
  then show ?thesis by (simp add: apply_guarded_transition_def)
next
  case (Inr result)
  have "service_adds d (add_decision (tick_decision env d0 c k w rej a b) (d\<lparr>nodes := ns\<rparr>))" for d0 k w rej a b ns
    by (rule service_add_after) simp
  with Inr show ?thesis by (simp add: apply_guarded_transition_def Let_def)
qed

lemma steps_service: "service_adds d (snd (take_steps env c ev why s ts res d))"
proof (induction ts arbitrary: s res d)
  case Nil
  then show ?case by simp
next
  case (Cons to ts)
  obtain x d1 where g: "apply_guarded_transition env c s to why d = (x, d1)" by force
  then have one: "service_adds d d1" using guarded_service by (metis snd_conv)
  have two: "service_adds d1 (case ev of Some j \<Rightarrow> if to = AWAITING_GATE then record_human_gate_evidence env c j d1 else d1
      | None \<Rightarrow> d1)"
    by (simp split: option.splits)
  have three: "service_adds d (snd (take_steps env c ev why s' ts res' (case ev of Some j \<Rightarrow> if to = AWAITING_GATE
      then record_human_gate_evidence env c j d1 else d1 | None \<Rightarrow> d1)))" for s' res'
    using service_adds_trans [OF one service_adds_trans [OF two Cons.IH]] .
  show ?case
  proof (cases x)
    case (Inl e)
    with g one show ?thesis by simp
  next
    case (Inr y)
    obtain rows ok where "y = (rows, ok)" by force
    with g one three Inr show ?thesis by simp
  qed
qed

lemma effect_service: "service_adds d (snd (effect_step env c ev preds r d))"
proof -
  let ?f = "take_steps env c ev (step_reason c (ev \<noteq> None) preds) (ca_state c) (step_targets c (ev \<noteq> None)) None"
  have n: "service_adds d (snd (nested ?f d))" by (rule service_nested [OF steps_service])
  obtain x d1 where x: "nested ?f d = (x, d1)" by force
  then have k: "service_adds d d1" using n by simp
  have "snd (effect_step env c ev preds r d) = d1"
    unfolding effect_step_def Let_def x by (auto split: sum.splits option.splits prod.splits)
  with k show ?thesis by simp
qed

lemma wait_service: "service_adds d (snd (record_evaluation_wait env n code d))"
  unfolding record_evaluation_wait_def Let_def
  by (auto split: sum.splits option.splits simp del: tick_decision_def)

lemma evaluation_service: "service_adds d (snd (evaluation_step env c n d))"
proof -
  have w: "record_evaluation_wait env n code d = (x, d1) \<Longrightarrow> service_adds d d1" for code x d1
    using wait_service by (metis snd_conv)
  show ?thesis
    unfolding evaluation_step_def
    by (auto split: sum.splits option.splits prod.splits evaluation_choice.splits dest: w)
qed

lemma refresh_service: "service_adds d (snd (refresh_gate env c n evidence r d))"
  unfolding refresh_gate_def Let_def
  by (auto split: sum.splits option.splits prod.splits intro!: service_add_after)

lemma advance_evaluation_service: "service_adds d (snd (advance_evaluation env c preds r d))"
proof (cases "own_node d c")
  case None
  then show ?thesis by (simp add: advance_evaluation_def effect_service)
next
  case (Some n)
  obtain x d1 where s: "evaluation_step env c n d = (x, d1)" by force
  then have k: "service_adds d d1" using evaluation_service by (metis snd_conv)
  have "service_adds d (snd (refresh_gate env c n ev r d1))" "service_adds d (snd (effect_step env c ev preds r d1))" for ev
    using service_adds_trans [OF k refresh_service] service_adds_trans [OF k effect_service] by blast+
  then show ?thesis using k by (auto simp: advance_evaluation_def Some s split: sum.splits)
qed

lemma advance_service: "service_adds d (snd (advance_node env c r d))"
  unfolding advance_node_def
  using advance_evaluation_service effect_service by (auto split: sum.splits option.splits)

lemma engine_step_service: "engine_step env d e \<Longrightarrow> service_adds d e"
  by (metis advance_service engine_stepE snd_conv)

lemma engine_run_service: "(engine_step env)\<^sup>*\<^sup>* d e \<Longrightarrow> service_adds d e"
  by (induction rule: rtranclp_induct) (auto intro: service_adds_trans engine_step_service)

section \<open>A release inside an acceptance is a run of steps\<close>

lemma release_each_step:
  assumes "\<forall>m \<in> set ms. names (candidate_of m) d" "nodes_unique d" "release_each env ms r d = (Inr r', e)"
  shows "(engine_step env)\<^sup>*\<^sup>* d e"
  using assms
proof (induction ms arbitrary: r d)
  case (Cons m ms)
  show ?case
  proof (cases "nd_state m = ''ready'' \<and> nd_kind m \<noteq> ''gate''")
    case True
    with Cons show ?thesis by simp
  next
    case False
    then obtain r1 d1 where a: "advance_node env (candidate_of m) r d = (Inr r1, d1)" "release_each env ms r1 d1 = (Inr r', e)"
      using Cons.prems(3) by (auto split: prod.splits sum.splits)
    have s: "engine_step env d d1" using a(1) Cons.prems(1) by (auto intro: advance)
    note g = engine_step_grows [OF s Cons.prems(2)]
    have "(engine_step env)\<^sup>*\<^sup>* d1 e"
      using Cons.IH [OF _ grown_unique [OF g Cons.prems(2)] a(2)] Cons.prems(1) names_kept [OF g] by simp
    with s show ?thesis by (meson converse_rtranclp_into_rtranclp)
  qed
qed simp

lemma release_step:
  assumes "nodes_unique d" "release_satisfied_successors env n d = (Inr r, e)"
  shows "(engine_step env)\<^sup>*\<^sup>* d e"
proof -
  have "names (candidate_of m) d" if "m \<in> set (open_successors d n)" for m
  proof -
    have "m \<in> set (nodes d)" using that by (auto simp: open_successors_def dest!: in_set_takeD)
    then show ?thesis by (auto simp: names_def candidate_of_def)
  qed
  with assms show ?thesis
    by (auto simp: release_satisfied_successors_def Let_def split: if_splits intro: release_each_step)
qed

end
