(* ===== verification/Repository.thy ===== *)
theory Repository
  imports Accepted_Node
begin

text \<open>
  The writes and reads of the store that compiling a plan and answering a gate go through
  (\<open>orchestration/repository.py\<close>): flows by slug, nodes, edges, the versions of the accepted plan and
  the append-only decisions. New ids and the time of writing are given by \<open>mint\<close>; the id of a row
  is minted at its position in its table. A flow insert that loses the race for its slug is an
  argument: the row of the winner. \<open>(org_id, slug)\<close> is a unique index, so the newest flow with a
  slug is the only one.
\<close>

record mint =
  mt_flow :: "nat \<Rightarrow> string"
  mt_node :: "nat \<Rightarrow> string"
  mt_edge :: "nat \<Rightarrow> string"
  mt_plan :: "nat \<Rightarrow> string"
  mt_decision :: "nat \<Rightarrow> string"
  mt_now :: pydt
  mt_winner :: "flow_row option"

section \<open>Decisions\<close>

definition append_decision ::
    "mint \<Rightarrow> string \<Rightarrow> string \<Rightarrow> string option \<Rightarrow> string \<Rightarrow> string \<Rightarrow> string \<Rightarrow> string \<Rightarrow> jtext option
     \<Rightarrow> string option \<Rightarrow> string option \<Rightarrow> string option \<Rightarrow> db \<Rightarrow> decision_row \<times> db" where
  "append_decision mt org fid node kind actor role akind why rejection was becomes d =
     (let r = \<lparr>dc_id = mt_decision mt (length (decisions d)), dc_org = org, dc_flow = fid, dc_node = node,
        dc_kind = kind, dc_actor_id = actor, dc_actor_role = role, dc_actor_kind = akind, dc_reason = why,
        dc_rejection = rejection, dc_from = was, dc_to = becomes, dc_created = mt_now mt\<rparr> in
      (r, d\<lparr>decisions := decisions d @ [r]\<rparr>))"

section \<open>Flows\<close>

definition get_flow_by_slug :: "db \<Rightarrow> string \<Rightarrow> string \<Rightarrow> flow_row option" where
  "get_flow_by_slug d org slug = find (\<lambda>f. fl_org f = org \<and> fl_slug f = slug) (flows d)"

definition create_flow :: "mint \<Rightarrow> string \<Rightarrow> string \<Rightarrow> string \<Rightarrow> string option \<Rightarrow> db \<Rightarrow> flow_row \<times> db" where
  "create_flow mt org slug title product d =
     (case mt_winner mt of Some w \<Rightarrow> (w, d\<lparr>flows := flows d @ [w]\<rparr>)
      | None \<Rightarrow>
          let f = \<lparr>fl_id = mt_flow mt (length (flows d)), fl_org = org, fl_slug = slug, fl_state = ''pending'',
            fl_paused = True, fl_archived = None, fl_title = title, fl_product = product,
            fl_origin = JNull, fl_trackers = JNull\<rparr> in
          (f, d\<lparr>flows := flows d @ [f]\<rparr>))"

section \<open>Nodes and edges\<close>

definition list_nodes :: "db \<Rightarrow> string \<Rightarrow> string \<Rightarrow> node_row list" where
  "list_nodes d org fid =
     sort_key nd_wave (sort_key nd_ref (filter (\<lambda>n. nd_org n = org \<and> nd_flow n = fid) (nodes d)))"

definition add_node ::
    "mint \<Rightarrow> string \<Rightarrow> string \<Rightarrow> string \<times> string \<times> string \<Rightarrow> proposed_node \<Rightarrow> string option \<Rightarrow> db \<Rightarrow> node_row \<times> db" where
  "add_node mt org fid place p state d =
     (let n = \<lparr>nd_id = mt_node mt (length (nodes d)), nd_org = org, nd_flow = fid, nd_epic = fst place,
        nd_wave = fst (snd place), nd_ref = snd (snd place), nd_kind = pn_kind p,
        nd_state = (case state of None \<Rightarrow> ''pending'' | Some s \<Rightarrow> s), nd_title = pn_title p, nd_issue = pn_issue p,
        nd_attempts = 0, nd_lineage = pn_lineage p, nd_labels = pn_labels p, nd_repository = None,
        nd_repository_id = None, nd_installation = None\<rparr> in
      (n, d\<lparr>nodes := nodes d @ [n]\<rparr>))"

definition list_edges :: "db \<Rightarrow> string \<Rightarrow> string \<Rightarrow> edge_row list" where
  "list_edges d org fid = filter (\<lambda>e. ed_org e = org \<and> ed_flow e = fid) (edges d)"

definition add_edge :: "mint \<Rightarrow> string \<Rightarrow> string \<Rightarrow> string \<times> string \<Rightarrow> db \<Rightarrow> db" where
  "add_edge mt org fid pair d = d\<lparr>edges := edges d @
     [\<lparr>ed_id = mt_edge mt (length (edges d)), ed_org = org, ed_flow = fid, ed_from = fst pair, ed_to = snd pair\<rparr>]\<rparr>"

section \<open>Plan versions\<close>

definition list_plan_versions :: "db \<Rightarrow> string \<Rightarrow> string \<Rightarrow> plan_row list" where
  "list_plan_versions d org fid = sort_key pl_version (filter (\<lambda>p. pl_org p = org \<and> pl_flow p = fid) (plans d))"

definition next_version :: "db \<Rightarrow> string \<Rightarrow> string \<Rightarrow> int" where
  "next_version d org fid =
     (case map pl_version (list_plan_versions d org fid) of [] \<Rightarrow> 1 | vs \<Rightarrow> Max (set vs) + 1)"

definition record_accepted_plan ::
    "mint \<Rightarrow> string \<Rightarrow> string \<Rightarrow> json \<Rightarrow> string \<Rightarrow> string option \<Rightarrow> (db, plan_row) op" where
  "record_accepted_plan mt org fid document hash decision d =
     (case accepted_plan d org fid of Inl e \<Rightarrow> (Inl e, d)
      | Inr current \<Rightarrow>
          let d1 = (case current of None \<Rightarrow> d
                | Some c \<Rightarrow> d\<lparr>plans := update_where (\<lambda>p. pl_id p = pl_id c) (\<lambda>p. p\<lparr>pl_superseded := Some (mt_now mt)\<rparr>) (plans d)\<rparr>);
              p = \<lparr>pl_id = mt_plan mt (length (plans d1)), pl_org = org, pl_flow = fid,
                pl_version = next_version d1 org fid, pl_document = document, pl_hash = hash,
                pl_decision = decision, pl_superseded = None\<rparr> in
          (Inr p, d1\<lparr>plans := plans d1 @ [p]\<rparr>))"

section \<open>What the writes do\<close>

lemma append_decision_frame [simp]:
  assumes "append_decision mt org fid node kind actor role akind why rejection was becomes d = (r, e)"
  shows "e = d\<lparr>decisions := decisions d @ [r]\<rparr>"
  using assms by (auto simp: append_decision_def Let_def)

lemma record_accepted_plan_effect:
  assumes "record_accepted_plan mt org fid document hash decision d = (Inr p, e)" "unique_on pl_id (plans d)"
  shows "current_plans e org fid = [p] \<and> pl_document p = document \<and> pl_hash p = hash \<and> pl_decision p = decision
    \<and> (\<forall>q \<in> set (plans d). pl_org q = org \<and> pl_flow q = fid \<longrightarrow> pl_version q < pl_version p)
    \<and> e = d\<lparr>plans := plans e\<rparr>"
proof -
  obtain current where c: "accepted_plan d org fid = Inr current"
    using assms(1) by (auto simp: record_accepted_plan_def split: sum.splits)
  define d1 where "d1 = (case current of None \<Rightarrow> d
      | Some c \<Rightarrow> d\<lparr>plans := update_where (\<lambda>p. pl_id p = pl_id c) (\<lambda>p. p\<lparr>pl_superseded := Some (mt_now mt)\<rparr>) (plans d)\<rparr>)"
  have p: "p = \<lparr>pl_id = mt_plan mt (length (plans d1)), pl_org = org, pl_flow = fid, pl_version = next_version d1 org fid,
      pl_document = document, pl_hash = hash, pl_decision = decision, pl_superseded = None\<rparr>"
    and e: "e = d1\<lparr>plans := plans d1 @ [p]\<rparr>"
    using assms(1) c by (auto simp: record_accepted_plan_def d1_def Let_def)
  have none: "current_plans d1 org fid = []"
  proof (cases current)
    case None
    then have "current_plans d org fid = []"
      using c by (auto simp: accepted_plan_def split: list.splits)
    with None show ?thesis by (simp add: d1_def)
  next
    case (Some q)
    then have one: "current_plans d org fid = [q]"
      using c by (auto simp: accepted_plan_def split: list.splits)
    have "q \<in> set (plans d)" using one unfolding current_plans_def by (metis filter_is_subset list.set_intros(1) subsetD)
    have "pl_superseded x = None \<Longrightarrow> pl_id x = pl_id q"
      if "x \<in> set (plans d)" "pl_org x = org" "pl_flow x = fid" for x
    proof -
      assume "pl_superseded x = None"
      then have "x \<in> set (current_plans d org fid)" using that by (simp add: current_plans_def)
      then show "pl_id x = pl_id q" using one by simp
    qed
    then show ?thesis
      unfolding current_plans_def d1_def Some by (auto simp: filter_empty_conv update_where_def)
  qed
  have vers: "pl_version q < pl_version p" if "q \<in> set (plans d)" "pl_org q = org" "pl_flow q = fid" for q
  proof -
    have "\<exists>r \<in> set (plans d1). pl_org r = org \<and> pl_flow r = fid \<and> pl_version r = pl_version q"
    proof (cases current)
      case None
      then show ?thesis using that by (auto simp: d1_def)
    next
      case (Some c)
      let ?r = "if pl_id q = pl_id c then q\<lparr>pl_superseded := Some (mt_now mt)\<rparr> else q"
      have "?r \<in> set (plans d1)" using that(1) by (auto simp: d1_def Some update_where_def)
      then show ?thesis using that(2,3) by (intro bexI [of _ ?r]) auto
    qed
    then have "pl_version q \<in> set (map pl_version (list_plan_versions d1 org fid))"
      by (auto simp: list_plan_versions_def image_iff)
    then have "pl_version q \<le> Max (set (map pl_version (list_plan_versions d1 org fid)))" by simp
    moreover have "map pl_version (list_plan_versions d1 org fid) \<noteq> []"
      using \<open>pl_version q \<in> _\<close> by force
    ultimately show ?thesis unfolding p next_version_def by (auto split: list.splits)
  qed
  have "current_plans e org fid = current_plans d1 org fid @ [p]"
    using p by (simp add: e current_plans_def)
  moreover have "e = d\<lparr>plans := plans e\<rparr>" unfolding e d1_def by (cases current) simp_all
  ultimately show ?thesis using none vers p by auto
qed

end
