(* ===== verification/Plan_Change.thy ===== *)
theory Plan_Change
  imports Accepted_Node Node_State
begin

text \<open>
  What replacing the plan in force may change (\<open>orchestration/amend.py\<close>): a node that has started
  keeps its kind, its issue, its execution definition and its prerequisites, work that the ledger,
  a pull request or a claim holds counts as started, and the identity that the rows project must
  still be the one of the accepted document.

  Documents are decoded JSON as the plan row holds it. A proposed node is its own serialisation
  (pydantic's \<open>model_dump\<close>), given as JSON.
\<close>

section \<open>Lookups in a stored document\<close>

text \<open>\<open>{node["address"]: node for node in document.get("nodes", [])}\<close>; a key that is no string is never looked up.\<close>

fun index_nodes :: "(string \<times> fields) list \<Rightarrow> json list \<Rightarrow> pyexc + (string \<times> fields) list" where
  "index_nodes acc [] = Inr acc"
| "index_nodes acc (j # js) = (case jfields j of None \<Rightarrow> Inl TypeError
     | Some fs \<Rightarrow> (case map_of fs ''address'' of None \<Rightarrow> Inl KeyError
         | Some (JStr a) \<Rightarrow> index_nodes (dict_set a fs acc) js
         | Some k \<Rightarrow> if hashable k then index_nodes acc js else Inl TypeError))"

definition accepted_nodes :: "fields \<Rightarrow> pyexc + (string \<times> fields) list" where
  "accepted_nodes document = and_then (doc_nodes document) (index_nodes [])"

text \<open>\<open>NodeState(state) not in {PENDING, READY}\<close>.\<close>

definition begun :: "string \<Rightarrow> pyexc + bool" where
  "begun state = (case parse_node_state state of None \<Rightarrow> Inl ValueError
     | Some s \<Rightarrow> Inr (s \<noteq> PENDING \<and> s \<noteq> READY))"

definition prerequisites_change_refused :: "string \<Rightarrow> 'a set \<Rightarrow> 'a set \<Rightarrow> pyexc + bool" where
  "prerequisites_change_refused state was now =
     and_then (begun state) (\<lambda>b. Inr (b \<and> was \<noteq> now))"

section \<open>The definition of a node\<close>

definition definition_fields :: "string list" where
  "definition_fields = [''repository_identity'', ''provider_repository_id'', ''repository_connection'',
     ''execution_owner'', ''execution_adapter'', ''executor'', ''evaluation'', ''delivery_mode'']"

text \<open>\<open>sorted(set(value or []))\<close> of a list of strings; the documents hold no other.\<close>

definition text_set :: "json \<Rightarrow> pyexc + json" where
  "text_set v = (if \<not> jtruthy v then Inr (JArr [])
     else case iter_json v of None \<Rightarrow> Inl TypeError
       | Some xs \<Rightarrow> (case traverse (\<lambda>x. case x of JStr s \<Rightarrow> Some s | _ \<Rightarrow> None) xs of None \<Rightarrow> Inl TypeError
           | Some ss \<Rightarrow> Inr (JArr (map JStr (sort (remdups ss))))))"

definition source_text :: "json \<Rightarrow> pyexc + json" where
  "source_text item = (case jfields item of None \<Rightarrow> Inl TypeError
     | Some fs \<Rightarrow> (case map_of fs ''source'' of None \<Rightarrow> Inl KeyError
         | Some (JStr s) \<Rightarrow> Inr (JStr (strip s)) | Some _ \<Rightarrow> Inl AttributeError))"

fun each_of :: "('a \<Rightarrow> pyexc + 'b) \<Rightarrow> 'a list \<Rightarrow> pyexc + 'b list" where
  "each_of f [] = Inr []"
| "each_of f (x # xs) = and_then (f x) (\<lambda>y. and_then (each_of f xs) (\<lambda>ys. Inr (y # ys)))"

definition execution_fields :: "fields \<Rightarrow> pyexc + fields" where
  "execution_fields document =
     and_then (text_set (jget document ''criteria'')) (\<lambda>criteria.
     and_then (text_set (jget document ''evidence_expectations'')) (\<lambda>evidence.
     and_then (if \<not> jtruthy (jget document ''required_inputs'') then Inr []
         else case iter_json (jget document ''required_inputs'') of None \<Rightarrow> Inl TypeError
           | Some items \<Rightarrow> each_of source_text items) (\<lambda>sources.
     and_then (text_set (JArr sources)) (\<lambda>inputs.
       Inr (map (\<lambda>k. (k, jget document k)) definition_fields @
         [(''criteria'', criteria), (''evidence_expectations'', evidence), (''required_inputs'', inputs)])))))"

text \<open>The refusal, if any; the texts name what was refused.\<close>

definition definition_change_refusal ::
    "string \<Rightarrow> string \<Rightarrow> int \<Rightarrow> string \<Rightarrow> string option \<Rightarrow> string \<Rightarrow> string option \<Rightarrow> fields option \<Rightarrow> fields option
     \<Rightarrow> bool \<Rightarrow> pyexc + string option" where
  "definition_change_refusal addr state attempts current_kind current_issue proposed_kind proposed_issue
       current proposed reserved =
     (case parse_node_state state of None \<Rightarrow> Inl ValueError
      | Some s \<Rightarrow>
          let started = reserved \<or> attempts \<noteq> 0 \<or> (s \<noteq> PENDING \<and> s \<noteq> READY) in
          if s = SUPERSEDED
          then Inr (Some (''cannot reuse superseded node '' @ repr_string addr @ ''; use a new node address''))
          else if current_kind \<noteq> proposed_kind
          then Inr (Some (''cannot change kind of node '' @ repr_string addr @ ''; use a new node address''))
          else if current_issue \<noteq> proposed_issue \<and> started
          then Inr (Some (''cannot change issue_ref of started node '' @ repr_string addr @ ''; use a new node address''))
          else (case proposed of None \<Rightarrow> Inr None
            | Some doc \<Rightarrow>
                if \<not> started then Inr None
                else and_then (execution_fields (case current of None \<Rightarrow> [] | Some c \<Rightarrow> c)) (\<lambda>was.
                     and_then (execution_fields doc) (\<lambda>now.
                       let changed = filter (\<lambda>k. \<not> jeq (jget was k) (jget now k)) (map fst was) in
                       Inr (if changed = [] then None
                         else Some (''cannot change execution requirements '' @ py_repr (JArr (map JStr (sort changed)))
                           @ '' of started node '' @ repr_string addr @ '' (state '' @ state
                           @ ''); use a new node address''))))))"

section \<open>Reservations\<close>

text \<open>\<open>accepted.get(key, default)\<close>.\<close>

definition get_or :: "fields \<Rightarrow> string \<Rightarrow> json \<Rightarrow> json" where
  "get_or fs k v = (case map_of fs k of None \<Rightarrow> v | Some x \<Rightarrow> x)"

definition reference_number :: "json \<Rightarrow> int option" where
  "reference_number v = py_int (dropWhile (\<lambda>c. c = CHR ''#'') (py_str v))"

definition jnat :: "int option \<Rightarrow> json" where
  "jnat i = (case i of None \<Rightarrow> JNull | Some n \<Rightarrow> JInt n)"

definition flow_claims :: "db \<Rightarrow> flow_row \<Rightarrow> claim_row list" where
  "flow_claims d fl = filter (\<lambda>c. cl_org c = fl_org fl \<and> cl_owner_kind c = ''engine_flow'' \<and> cl_owner_ref c = fl_id fl) (claims d)"

text \<open>The nodes that an execution or a pull request of the flow is about.\<close>

definition reserved_nodes :: "db \<Rightarrow> flow_row \<Rightarrow> string list" where
  "reserved_nodes d fl =
     map ex_node (filter (\<lambda>x. ex_org x = fl_org fl \<and> ex_flow x = fl_id fl) (executions d))
     @ map pb_node (filter (\<lambda>b. pb_org b = fl_org fl \<and> pb_flow b = fl_id fl) (bindings d))"

definition claimed_node :: "claim_row list \<Rightarrow> (string \<times> fields) list \<Rightarrow> flow_row \<Rightarrow> node_row \<Rightarrow> pyexc + bool" where
  "claimed_node cs accepted fl n =
     (let doc = (case map_of accepted (node_address fl n) of None \<Rightarrow> [] | Some fs \<Rightarrow> fs) in
      case reference_number (get_or doc ''issue_ref'' (jopt (nd_issue n))) of None \<Rightarrow> Inr False
      | Some k \<Rightarrow>
          let repo = get_or doc ''provider_repository_id'' (jnat (nd_repository_id n)) in
          if \<not> hashable repo then Inl TypeError
          else Inr (list_ex (\<lambda>c. jeq repo (JInt (cl_repo c)) \<and> cl_issue c = k) cs
            \<or> repo = JNull \<and> list_ex (\<lambda>c. cl_issue c = k) cs))"

definition started_node :: "node_row \<Rightarrow> pyexc + bool" where
  "started_node n = (if nd_attempts n \<noteq> 0 then Inr True else begun (nd_state n))"

text \<open>The nodes whose definition is frozen, and whether the flow as a whole has started.\<close>

definition binding_reservations :: "db \<Rightarrow> flow_row \<Rightarrow> node_row list \<Rightarrow> fields \<Rightarrow> pyexc + string list \<times> bool" where
  "binding_reservations d fl ns document =
     and_then (each_of started_node ns) (\<lambda>flags.
       let started = map (nd_id \<circ> fst) (filter snd (zip ns flags));
           reserved = reserved_nodes d fl;
           cs = flow_claims d fl;
           product_started = (reserved \<noteq> [] \<or> cs \<noteq> [] \<or> list_ex (\<lambda>n. nd_attempts n \<noteq> 0
             \<or> nd_kind n = ''story'' \<and> nd_id n \<in> set started) ns) in
       and_then (accepted_nodes document) (\<lambda>accepted.
       and_then (each_of (claimed_node cs accepted fl) ns) (\<lambda>held.
         Inr (started @ reserved @ map (nd_id \<circ> fst) (filter snd (zip ns held)), product_started))))"

section \<open>The identity the rows project\<close>

definition connection_of :: "int option \<Rightarrow> json" where
  "connection_of i = (case i of None \<Rightarrow> JNull
     | Some n \<Rightarrow> JObj [(''provider'', JStr ''github''), (''installation_id'', JInt n)])"

definition node_mismatch :: "(string \<times> fields) list \<Rightarrow> flow_row \<Rightarrow> bool \<Rightarrow> node_row \<Rightarrow> string list" where
  "node_mismatch accepted fl legacy n = (case map_of accepted (node_address fl n) of None \<Rightarrow> []
     | Some fs \<Rightarrow>
         if legacy \<and> jtruthy (jget fs ''repository_identity'') \<and> jtruthy (jget fs ''provider_repository_id'')
            \<and> nd_repository n = None \<and> nd_repository_id n = None \<and> nd_installation n = None then []
         else if \<not> jeq (jopt (nd_repository n)) (jget fs ''repository_identity'')
            \<or> \<not> jeq (jnat (nd_repository_id n)) (jget fs ''provider_repository_id'')
            \<or> \<not> jeq (connection_of (nd_installation n)) (jget fs ''repository_connection'') then [node_address fl n]
         else [])"

definition projection_mismatches :: "flow_row \<Rightarrow> fields \<Rightarrow> node_row list \<Rightarrow> bool \<Rightarrow> pyexc + string list" where
  "projection_mismatches fl document ns legacy =
     (let product = (case map_of document ''product_id'' of
            None \<Rightarrow> if fl_product fl \<noteq> None then [''flow product_id''] else []
          | Some v \<Rightarrow> if jeq (jopt (fl_product fl)) v then [] else [''flow product_id'']);
          origin = (if jeq (fl_origin fl) (jget document ''origin_ref'') then [] else [''flow origin_ref'']);
          trackers = (if jeq (fl_trackers fl) (jget document ''tracker_refs'') then [] else [''flow tracker_refs'']) in
      and_then (accepted_nodes document) (\<lambda>accepted.
        Inr (product @ origin @ trackers @ concat (map (node_mismatch accepted fl legacy) ns))))"

end
