(* ===== verification/Registration.thy ===== *)
theory Registration
  imports Loop_Proposal
begin

text \<open>
  The transforms a draft goes through when it is registered (\<open>orchestration/registration.py\<close>): a gate
  at every wave boundary (when the operator asks for it), the acceptance gate in front of the graph,
  and the demotion of a submitted policy to one that is only proposed; with the promotion that
  undoes it, and the structural test for the acceptance gate. The value of the environment switch is
  an argument.
\<close>

section \<open>Waves\<close>

definition first_seen :: "'a list \<Rightarrow> 'a list" where
  "first_seen xs = rev (remdups (rev xs))"

lemma set_first_seen [simp]: "set (first_seen xs) = set xs"
  by (simp add: first_seen_def)

lemma distinct_first_seen [simp]: "distinct (first_seen xs)"
  by (simp add: first_seen_def)

definition wave_at :: "string \<Rightarrow> (string \<times> string) option" where
  "wave_at a = map_option (\<lambda>(f, e, w, k). (e, w)) (split_address a)"

definition waves_in_order :: "proposal \<Rightarrow> (string \<times> string) list" where
  "waves_in_order p = first_seen (List.map_filter (\<lambda>n. wave_at (pn_address n)) (lp_nodes p))"

definition ref_address :: "proposal \<Rightarrow> string \<times> string \<Rightarrow> string \<Rightarrow> string" where
  "ref_address p w ref = lp_slug p @ ''/'' @ fst w @ ''/'' @ snd w @ ''/'' @ ref"

definition acceptance_gate_ref :: string where
  "acceptance_gate_ref = ''accept''"

definition wave_gate_ref :: string where
  "wave_gate_ref = ''wave-gate''"

definition gate_node :: "string \<Rightarrow> string \<Rightarrow> proposed_node" where
  "gate_node a title = \<lparr>pn_address = a, pn_kind = ''gate'', pn_issue = None, pn_lineage = None, pn_labels = [],
     pn_evaluation = None, pn_repository = None, pn_repository_id = None, pn_installation = None,
     pn_criteria = [], pn_inputs = [], pn_evidence = [], pn_release = None, pn_role = None, pn_title = title\<rparr>"

definition dedupe_edges :: "proposed_edge list \<Rightarrow> proposed_edge list" where
  "dedupe_edges es = first_seen es"

definition is_false :: "string \<Rightarrow> bool" where
  "is_false s \<longleftrightarrow> s \<in> set [''0'', ''false'', ''no'', ''off'']"

text \<open>\<open>raw.strip().lower()\<close>; the switch is off where the variable is not set.\<close>

definition gate_every_wave_enabled :: "string option \<Rightarrow> bool" where
  "gate_every_wave_enabled raw = (case raw of None \<Rightarrow> False
     | Some s \<Rightarrow> \<not> is_false (map (\<lambda>c. if CHR ''A'' \<le> c \<and> c \<le> CHR ''Z'' then char_of (of_char c + (32 :: nat)) else c) (strip s)))"

section \<open>A gate at every wave boundary\<close>

definition crosses_out :: "proposal \<Rightarrow> string \<times> string \<Rightarrow> bool" where
  "crosses_out p w = list_ex (\<lambda>e. wave_at (pe_from e) = Some w
     \<and> (case wave_at (pe_to e) of None \<Rightarrow> False | Some v \<Rightarrow> v \<noteq> w)) (lp_edges p)"

definition gated_waves :: "proposal \<Rightarrow> (string \<times> string) list" where
  "gated_waves p = filter (crosses_out p) (waves_in_order p)"

definition gate_of :: "proposal \<Rightarrow> string \<Rightarrow> string option" where
  "gate_of p a = (case wave_at a of None \<Rightarrow> None
     | Some w \<Rightarrow> if w \<in> set (gated_waves p) then Some (ref_address p w wave_gate_ref) else None)"

definition reroute :: "proposal \<Rightarrow> proposed_edge \<Rightarrow> proposed_edge list" where
  "reroute p e = (case gate_of p (pe_from e) of None \<Rightarrow> [e]
     | Some g \<Rightarrow> if wave_at (pe_to e) = wave_at (pe_from e) then [e]
         else [\<lparr>pe_from = pe_from e, pe_to = g\<rparr>, \<lparr>pe_from = g, pe_to = pe_to e\<rparr>])"

definition sink_edges :: "proposal \<Rightarrow> proposed_node \<Rightarrow> proposed_edge list" where
  "sink_edges p n = (case gate_of p (pn_address n) of None \<Rightarrow> []
     | Some g \<Rightarrow> if list_ex (\<lambda>e. pe_from e = pn_address n \<and> wave_at (pe_to e) = wave_at (pn_address n)) (lp_edges p)
         then [] else [\<lparr>pe_from = pn_address n, pe_to = g\<rparr>])"

definition insert_wave_gates :: "proposal \<Rightarrow> proposal" where
  "insert_wave_gates p =
     (if list_ex (\<lambda>n. pn_kind n = ''gate'') (lp_nodes p) then p
      else if length (waves_in_order p) < 2 then p
      else if gated_waves p = [] then p
      else p\<lparr>lp_nodes := lp_nodes p @ map (\<lambda>w. gate_node (ref_address p w wave_gate_ref)
                (''Human gate: '' @ snd w @ '' complete (auto-inserted at the wave boundary)'')) (gated_waves p),
             lp_edges := dedupe_edges (concat (map (reroute p) (lp_edges p)) @ concat (map (sink_edges p) (lp_nodes p)))\<rparr>)"

section \<open>The acceptance gate\<close>

definition root_nodes :: "proposal \<Rightarrow> proposed_node list" where
  "root_nodes p = filter (\<lambda>n. pn_address n \<notin> set (map pe_to (lp_edges p))) (lp_nodes p)"

definition insert_acceptance_gate :: "proposal \<Rightarrow> proposal \<times> string" where
  "insert_acceptance_gate p =
     (let w = (case waves_in_order p of [] \<Rightarrow> (''epic'', ''wave-1'') | w # _ \<Rightarrow> w);
          a = ref_address p w acceptance_gate_ref in
      (p\<lparr>lp_nodes := gate_node a ''Human gate: accept this plan to start execution'' # lp_nodes p,
         lp_edges := dedupe_edges (lp_edges p @ map (\<lambda>n. \<lparr>pe_from = a, pe_to = pn_address n\<rparr>) (root_nodes p))\<rparr>, a))"

definition acceptance_gate_address :: "proposal \<Rightarrow> string option" where
  "acceptance_gate_address p = (case root_nodes p of
       [r] \<Rightarrow>
         if pn_kind r \<noteq> ''gate'' then None
         else (case split_address (pn_address r) of None \<Rightarrow> None
           | Some (f, e, w, ref) \<Rightarrow> if ref = acceptance_gate_ref then Some (pn_address r) else None)
     | _ \<Rightarrow> None)"

section \<open>The proposed policy\<close>

definition demote_proposed_policy :: "proposal \<Rightarrow> proposal" where
  "demote_proposed_policy p = (case lp_policy p of None \<Rightarrow> p
     | Some q \<Rightarrow> p\<lparr>lp_policy := None, lp_proposed_policy := Some q\<rparr>)"

definition promote_proposed_policy :: "proposal \<Rightarrow> proposal" where
  "promote_proposed_policy p = (case lp_proposed_policy p of None \<Rightarrow> p
     | Some q \<Rightarrow> p\<lparr>lp_policy := Some q, lp_proposed_policy := None\<rparr>)"

definition transform_for_registration :: "string option \<Rightarrow> proposal \<Rightarrow> proposal \<times> string" where
  "transform_for_registration flag p =
     (let working = (if gate_every_wave_enabled flag then insert_wave_gates p else p);
          (transformed, a) = insert_acceptance_gate working in
      (demote_proposed_policy transformed, a))"

section \<open>The acceptance gate comes first\<close>

lemma transformed_facts:
  assumes "transform_for_registration flag p = (q, a)"
  obtains b where "b = (if gate_every_wave_enabled flag then insert_wave_gates p else p)"
    and "lp_nodes q = gate_node a ''Human gate: accept this plan to start execution'' # lp_nodes b"
    and "lp_edges q = dedupe_edges (lp_edges b @ map (\<lambda>n. \<lparr>pe_from = a, pe_to = pn_address n\<rparr>) (root_nodes b))"
    and "lp_policy q = None" "lp_slug q = lp_slug p"
proof
  let ?b = "if gate_every_wave_enabled flag then insert_wave_gates p else p"
  obtain t where t: "insert_acceptance_gate ?b = (t, a)" and q: "q = demote_proposed_policy t"
    using assms by (auto simp: transform_for_registration_def Let_def split: prod.splits)
  have slug: "lp_slug ?b = lp_slug p" by (simp add: insert_wave_gates_def)
  have same: "lp_nodes q = lp_nodes t" "lp_edges q = lp_edges t" "lp_slug q = lp_slug t" "lp_policy q = None"
    unfolding q by (simp_all add: demote_proposed_policy_def split: option.splits)
  have ts: "lp_nodes t = gate_node a ''Human gate: accept this plan to start execution'' # lp_nodes ?b"
    "lp_edges t = dedupe_edges (lp_edges ?b @ map (\<lambda>n. \<lparr>pe_from = a, pe_to = pn_address n\<rparr>) (root_nodes ?b))"
    "lp_slug t = lp_slug ?b"
    using t unfolding insert_acceptance_gate_def Let_def by auto
  show "?b = ?b" ..
  show "lp_nodes q = gate_node a ''Human gate: accept this plan to start execution'' # lp_nodes ?b"
    "lp_edges q = dedupe_edges (lp_edges ?b @ map (\<lambda>n. \<lparr>pe_from = a, pe_to = pn_address n\<rparr>) (root_nodes ?b))"
    "lp_policy q = None" "lp_slug q = lp_slug p"
    using same ts slug by simp_all
qed

text \<open>Every node but the gate has a predecessor among the edges.\<close>

lemma gate_before_all:
  assumes "transform_for_registration flag p = (q, a)" "n \<in> set (lp_nodes q)" "pn_address n \<noteq> a"
  shows "\<exists>e \<in> set (lp_edges q). pe_to e = pn_address n"
  using assms(1)
proof (rule transformed_facts)
  fix b
  assume nodes: "lp_nodes q = gate_node a ''Human gate: accept this plan to start execution'' # lp_nodes b"
    and edges: "lp_edges q = dedupe_edges (lp_edges b @ map (\<lambda>n. \<lparr>pe_from = a, pe_to = pn_address n\<rparr>) (root_nodes b))"
  have n: "n \<in> set (lp_nodes b)" using assms(2,3) nodes by (auto simp: gate_node_def)
  show ?thesis
  proof (cases "n \<in> set (root_nodes b)")
    case True
    then have "\<lparr>pe_from = a, pe_to = pn_address n\<rparr> \<in> set (lp_edges q)" by (auto simp: edges dedupe_edges_def)
    then show ?thesis by force
  next
    case False
    then obtain e where "e \<in> set (lp_edges b)" "pe_to e = pn_address n" using n by (auto simp: root_nodes_def)
    then show ?thesis by (auto simp: edges dedupe_edges_def)
  qed
qed

end
