(* ===== verification/Registration_Laws.thy ===== *)
theory Registration_Laws
  imports Registration Proposal_Properties
begin

text \<open>
  What the registration transforms guarantee of a draft that validation accepts: the acceptance gate
  is its only root and comes before every other node, and an inserted wave gate lies on every way out
  of its wave.
\<close>

section \<open>The acceptance gate dominates\<close>

lemma finite_depends: "finite (depends p)"
  by (simp add: depends_def)

lemma edge_depends:
  assumes "set_order listing" "validate_proposal listing parse installed answered p = []" "e \<in> set (lp_edges p)"
  shows "(pe_from e, pe_to e) \<in> depends p" "pe_from e \<in> set (declared p)"
  using validate_nil [OF assms(1), THEN iffD1, OF assms(2)] assms(3) by (auto simp: depends_def plan_edges_def)

lemma gate_reaches:
  assumes "set_order listing" "validate_proposal listing parse installed answered q = []"
    and "transform_for_registration flag p = (q, a)" "x \<in> set (declared q)"
  shows "(a, x) \<in> (depends q)\<^sup>*"
proof -
  have ac: "acyclic (depends q)" using validate_nil [OF assms(1), THEN iffD1, OF assms(2)] by blast
  then have "wf (depends q)" by (rule finite_acyclic_wf [OF finite_depends])
  then show ?thesis using assms(4)
  proof (induction x rule: wf_induct_rule)
    case (less x)
    show ?case
    proof (cases "x = a")
      case False
      obtain n where "n \<in> set (lp_nodes q)" "pn_address n = x" using less.prems by (auto simp: declared_def)
      then obtain e where e: "e \<in> set (lp_edges q)" "pe_to e = x" using gate_before_all [OF assms(3)] False by blast
      have "(pe_from e, x) \<in> depends q" "pe_from e \<in> set (declared q)"
        using edge_depends [OF assms(1,2) e(1)] e(2) by auto
      with less.IH show ?thesis by (meson rtrancl.rtrancl_into_rtrancl)
    qed simp
  qed
qed

lemma gate_is_root:
  assumes "set_order listing" "validate_proposal listing parse installed answered q = []"
    and "transform_for_registration flag p = (q, a)" "e \<in> set (lp_edges q)"
  shows "pe_to e \<noteq> a"
proof
  assume "pe_to e = a"
  then have "(pe_from e, a) \<in> depends q" "(a, pe_from e) \<in> (depends q)\<^sup>*"
    using edge_depends [OF assms(1,2,4)] gate_reaches [OF assms(1-3)] by auto
  then have "(a, a) \<in> (depends q)\<^sup>+" by (meson rtrancl_into_trancl1)
  moreover have "acyclic (depends q)" using validate_nil [OF assms(1), THEN iffD1, OF assms(2)] by blast
  ultimately show False by (simp add: acyclic_def)
qed

lemma declared_facts:
  assumes "set_order listing" "validate_proposal listing parse installed answered q = []"
  shows "distinct (declared q)" "n \<in> set (lp_nodes q) \<Longrightarrow> \<exists>e w k. split_address (pn_address n) = Some (lp_slug q, e, w, k)"
proof -
  have "check_addresses q = []" using validate_nil [OF assms(1), THEN iffD1, OF assms(2)] by blast
  then have c: "distinct (declared q)"
    "\<forall>n \<in> set (lp_nodes q). address_matches (pn_address n) \<and> takeWhile (\<lambda>c. c \<noteq> CHR ''/'') (pn_address n) = lp_slug q"
    unfolding check_addresses_def check_addresses_nil declared_def by auto
  show "distinct (declared q)" by (rule c(1))
  show "n \<in> set (lp_nodes q) \<Longrightarrow> \<exists>e w k. split_address (pn_address n) = Some (lp_slug q, e, w, k)"
    using c(2) address_parts by blast
qed

lemma gate_address:
  assumes "transform_for_registration flag p = (q, a)"
  shows "\<exists>w. a = ref_address p w acceptance_gate_ref"
proof -
  obtain t where "insert_acceptance_gate (if gate_every_wave_enabled flag then insert_wave_gates p else p) = (t, a)"
    using assms by (auto simp: transform_for_registration_def Let_def split: prod.splits)
  moreover have "lp_slug (insert_wave_gates p) = lp_slug p" by (simp add: insert_wave_gates_def)
  ultimately show ?thesis
    by (auto simp: insert_acceptance_gate_def Let_def ref_address_def split: if_splits)
qed

lemma sole_root:
  assumes so: "set_order listing" and v: "validate_proposal listing parse installed answered q = []"
    and t: "transform_for_registration flag p = (q, a)"
  shows "root_nodes q = [gate_node a ''Human gate: accept this plan to start execution'']"
  using t
proof (rule transformed_facts)
  fix b
  assume nodes: "lp_nodes q = gate_node a ''Human gate: accept this plan to start execution'' # lp_nodes b"
  have "a \<notin> pe_to ` set (lp_edges q)" using gate_is_root [OF so v t] by blast
  moreover have "pn_address n \<in> pe_to ` set (lp_edges q)" if n: "n \<in> set (lp_nodes b)" for n
  proof -
    have "pn_address n \<noteq> a"
      using declared_facts(1) [OF so v] n by (auto simp: declared_def nodes gate_node_def)
    then obtain e where "e \<in> set (lp_edges q)" "pe_to e = pn_address n"
      using gate_before_all [OF t, of n] n by (auto simp: nodes)
    then show ?thesis by (metis imageI)
  qed
  then have "filter (\<lambda>n. pn_address n \<notin> pe_to ` set (lp_edges q)) (lp_nodes b) = []" by (simp add: filter_empty_conv)
  ultimately show ?thesis by (simp add: root_nodes_def nodes gate_node_def)
qed

lemma root_member: "root_nodes q = [g] \<Longrightarrow> g \<in> set (lp_nodes q)"
  unfolding root_nodes_def by (metis filter_is_subset list.set_intros(1) subsetD)

lemma recognised_gate:
  assumes so: "set_order listing" and v: "validate_proposal listing parse installed answered q = []"
    and t: "transform_for_registration flag p = (q, a)"
  shows "acceptance_gate_address q = Some a"
proof -
  have r: "root_nodes q = [gate_node a ''Human gate: accept this plan to start execution'']" by (rule sole_root [OF so v t])
  from declared_facts(2) [OF so v root_member [OF this]] obtain e w k where k: "split_address a = Some (lp_slug q, e, w, k)"
    unfolding gate_node_def proposed_node.select_convs by blast
  obtain v where "a = ref_address p v acceptance_gate_ref" using gate_address [OF t] ..
  with k have "split_address (lp_slug p @ ''/'' @ fst v @ ''/'' @ snd v @ ''/'' @ acceptance_gate_ref) = Some (lp_slug q, e, w, k)"
    by (simp only: ref_address_def)
  then have "k = acceptance_gate_ref" by (rule split_composed [THEN conjunct2, THEN conjunct2, THEN conjunct2])
  with k show ?thesis by (simp add: acceptance_gate_address_def r gate_node_def)
qed

text \<open>
  C19: In a registered draft that validation accepts, the acceptance gate is the only node without a
  predecessor, it is the gate that is later recognised as the one whose approval starts the plan, and
  every node of the plan lies behind it; the draft carries no policy in force.
\<close>

theorem acceptance_gate_dominates:
  assumes "set_order listing" "validate_proposal listing parse installed answered q = []"
    and "transform_for_registration flag p = (q, a)"
  shows "map pn_address (root_nodes q) = [a] \<and> acceptance_gate_address q = Some a
    \<and> (\<forall>x \<in> set (declared q). (a, x) \<in> (depends q)\<^sup>*) \<and> lp_policy q = None"
  using sole_root [OF assms] recognised_gate [OF assms] gate_reaches [OF assms]
    transformed_facts [OF assms(3), of "lp_policy q = None"]
  by (simp add: gate_node_def)

section \<open>Wave gates separate\<close>

lemma gates_inserted:
  assumes "gate_every_wave_enabled flag" "transform_for_registration flag p = (q, a)"
    and "\<forall>n \<in> set (lp_nodes p). pn_kind n \<noteq> ''gate''" "2 \<le> length (waves_in_order p)" "w \<in> set (gated_waves p)"
  shows "lp_nodes q = gate_node a ''Human gate: accept this plan to start execution'' # lp_nodes p @ map
      (\<lambda>w. gate_node (ref_address p w wave_gate_ref)
        (''Human gate: '' @ snd w @ '' complete (auto-inserted at the wave boundary)'')) (gated_waves p)"
    and "set (lp_edges q) = (\<Union>e \<in> set (lp_edges p). set (reroute p e)) \<union> (\<Union>n \<in> set (lp_nodes p). set (sink_edges p n))
      \<union> (\<lambda>n. \<lparr>pe_from = a, pe_to = pn_address n\<rparr>) ` set (root_nodes (insert_wave_gates p))"
proof -
  have ins: "lp_nodes (insert_wave_gates p) = lp_nodes p @ map (\<lambda>w. gate_node (ref_address p w wave_gate_ref)
        (''Human gate: '' @ snd w @ '' complete (auto-inserted at the wave boundary)'')) (gated_waves p)"
      "set (lp_edges (insert_wave_gates p)) = (\<Union>e \<in> set (lp_edges p). set (reroute p e))
        \<union> (\<Union>n \<in> set (lp_nodes p). set (sink_edges p n))"
  proof -
    have c: "\<not> list_ex (\<lambda>n. pn_kind n = ''gate'') (lp_nodes p)" "\<not> length (waves_in_order p) < 2" "gated_waves p \<noteq> []"
      using assms(3-5) by (auto simp: list_ex_iff)
    have i: "insert_wave_gates p = p\<lparr>lp_nodes := lp_nodes p @ map (\<lambda>w. gate_node (ref_address p w wave_gate_ref)
                (''Human gate: '' @ snd w @ '' complete (auto-inserted at the wave boundary)'')) (gated_waves p),
             lp_edges := dedupe_edges (concat (map (reroute p) (lp_edges p)) @ concat (map (sink_edges p) (lp_nodes p)))\<rparr>"
      unfolding insert_wave_gates_def using c by (simp only: if_False)
    show "lp_nodes (insert_wave_gates p) = lp_nodes p @ map (\<lambda>w. gate_node (ref_address p w wave_gate_ref)
        (''Human gate: '' @ snd w @ '' complete (auto-inserted at the wave boundary)'')) (gated_waves p)"
      unfolding i by simp
    show "set (lp_edges (insert_wave_gates p)) = (\<Union>e \<in> set (lp_edges p). set (reroute p e))
        \<union> (\<Union>n \<in> set (lp_nodes p). set (sink_edges p n))"
      unfolding i by (simp add: dedupe_edges_def)
  qed
  show "lp_nodes q = gate_node a ''Human gate: accept this plan to start execution'' # lp_nodes p @ map
      (\<lambda>w. gate_node (ref_address p w wave_gate_ref)
        (''Human gate: '' @ snd w @ '' complete (auto-inserted at the wave boundary)'')) (gated_waves p)"
    using transformed_facts [OF assms(2)] assms(1) ins(1) by (metis (no_types, lifting))
  show "set (lp_edges q) = (\<Union>e \<in> set (lp_edges p). set (reroute p e)) \<union> (\<Union>n \<in> set (lp_nodes p). set (sink_edges p n))
      \<union> (\<lambda>n. \<lparr>pe_from = a, pe_to = pn_address n\<rparr>) ` set (root_nodes (insert_wave_gates p))"
    by (rule transformed_facts [OF assms(2)]) (simp add: assms(1) dedupe_edges_def ins(2))
qed

lemma gate_node_address [simp]: "pn_address (gate_node a t) = a"
  by (simp add: gate_node_def)

lemma gate_ofE:
  assumes "wave_at x = Some w" "w \<in> set (gated_waves p)"
  shows "gate_of p x = Some (ref_address p w wave_gate_ref)"
  using assms by (simp add: gate_of_def)

lemma rerouted:
  assumes "e' \<in> set (reroute p e)" "w \<in> set (gated_waves p)" "wave_at (pe_from e') = Some w"
    and "wave_at (ref_address p w wave_gate_ref) = Some w"
    and gates: "\<And>v. v \<in> set (gated_waves p) \<Longrightarrow> wave_at (ref_address p v wave_gate_ref) = Some v"
  shows "wave_at (pe_to e') = Some w \<or> pe_from e' = ref_address p w wave_gate_ref"
proof (cases "gate_of p (pe_from e)")
  case None
  then have "e' = e" using assms(1) by (simp add: reroute_def)
  with None gate_ofE [OF assms(3,2)] show ?thesis by simp
next
  case (Some g)
  then obtain v where v: "wave_at (pe_from e) = Some v" "v \<in> set (gated_waves p)" "g = ref_address p v wave_gate_ref"
    by (auto simp: gate_of_def split: option.splits if_splits)
  show ?thesis
  proof (cases "wave_at (pe_to e) = wave_at (pe_from e)")
    case True
    then have "e' = e" using assms(1) Some by (simp add: reroute_def)
    with True assms(3) show ?thesis by simp
  next
    case False
    then have "e' = \<lparr>pe_from = pe_from e, pe_to = g\<rparr> \<or> e' = \<lparr>pe_from = g, pe_to = pe_to e\<rparr>"
      using assms(1) Some by (simp add: reroute_def)
    then show ?thesis using assms(3) v gates [OF v(2)] by auto
  qed
qed

lemma sunk:
  assumes "e' \<in> set (sink_edges p n)" "wave_at (pe_from e') = Some w" "w \<in> set (gated_waves p)"
    and "wave_at (ref_address p w wave_gate_ref) = Some w"
  shows "wave_at (pe_to e') = Some w"
proof -
  have f: "pe_from e' = pn_address n" using assms(1) by (auto simp: sink_edges_def split: option.splits if_splits)
  then have "gate_of p (pn_address n) = Some (ref_address p w wave_gate_ref)" using gate_ofE assms(2,3) by simp
  then show ?thesis using assms(1,4) by (auto simp: sink_edges_def split: if_splits)
qed

lemma wave_of_address: "split_address a = Some (f, e, w, k) \<Longrightarrow> wave_at a = Some (e, w)"
  by (simp add: wave_at_def)

lemma wave_of_ref:
  assumes "split_address (ref_address p w r) = Some (f, e, v, k)"
  shows "wave_at (ref_address p w r) = Some w"
proof -
  have "split_address (lp_slug p @ ''/'' @ fst w @ ''/'' @ snd w @ ''/'' @ r) = Some (f, e, v, k)"
    using assms by (simp only: ref_address_def)
  then have "e = fst w \<and> v = snd w" using split_composed by blast
  with wave_of_address [OF assms] show ?thesis by simp
qed

lemma next_in_wave:
  assumes "wave_at (pn_address n) = Some w" "w \<in> set (gated_waves p)" "n \<in> set (lp_nodes p)"
  obtains (gate) "\<lparr>pe_from = pn_address n, pe_to = ref_address p w wave_gate_ref\<rparr> \<in> set (sink_edges p n)"
  | (inside) e where "e \<in> set (lp_edges p)" "pe_from e = pn_address n" "wave_at (pe_to e) = Some w" "set (reroute p e) = {e}"
proof (cases "list_ex (\<lambda>e. pe_from e = pn_address n \<and> wave_at (pe_to e) = wave_at (pn_address n)) (lp_edges p)")
  case True
  then obtain e where e: "e \<in> set (lp_edges p)" "pe_from e = pn_address n" "wave_at (pe_to e) = wave_at (pn_address n)"
    by (auto simp: list_ex_iff)
  then have "set (reroute p e) = {e}" by (simp add: reroute_def split: option.splits)
  with e assms(1) show ?thesis using inside [of e] by simp
next
  case False
  then show ?thesis using gate gate_ofE [OF assms(1,2)] by (simp add: sink_edges_def)
qed

text \<open>
  C20: With a gate at every wave boundary, no edge leaves a gated wave except from the wave's own gate
  (or from the acceptance gate in front of the whole plan), and every node of the wave comes before
  that gate: the next wave waits for all of it and for the human at its end.
\<close>

theorem wave_gates_separate:
  assumes so: "set_order listing" and v: "validate_proposal listing parse installed answered q = []"
    and t: "transform_for_registration flag p = (q, a)" and flag: "gate_every_wave_enabled flag"
    and ungated: "\<forall>n \<in> set (lp_nodes p). pn_kind n \<noteq> ''gate''" "2 \<le> length (waves_in_order p)"
    and w: "w \<in> set (gated_waves p)"
  shows "(\<forall>e \<in> set (lp_edges q). wave_at (pe_from e) = Some w \<and> wave_at (pe_to e) \<noteq> Some w
      \<longrightarrow> pe_from e = ref_address p w wave_gate_ref \<or> pe_from e = a)
    \<and> (\<forall>n \<in> set (lp_nodes p). wave_at (pn_address n) = Some w
      \<longrightarrow> (pn_address n, ref_address p w wave_gate_ref) \<in> (depends q)\<^sup>*)"
proof -
  note q = gates_inserted [OF flag t ungated w]
  have gates: "wave_at (ref_address p u wave_gate_ref) = Some u" if "u \<in> set (gated_waves p)" for u
  proof -
    obtain t where "gate_node (ref_address p u wave_gate_ref) t \<in> set (lp_nodes q)"
      using \<open>u \<in> set (gated_waves p)\<close> unfolding q(1) set_append set_map list.set by blast
    then obtain n where "n \<in> set (lp_nodes q)" "pn_address n = ref_address p u wave_gate_ref"
      using gate_node_address by blast
    then show ?thesis using declared_facts(2) [OF so v] wave_of_ref by metis
  qed
  have "pe_from e = ref_address p w wave_gate_ref \<or> pe_from e = a"
    if "e \<in> set (lp_edges q)" "wave_at (pe_from e) = Some w" "wave_at (pe_to e) \<noteq> Some w" for e
    using that rerouted [OF _ w that(2) gates [OF w] gates] sunk [OF _ that(2) w gates [OF w]] unfolding q(2) by auto
  moreover have "(x, ref_address p w wave_gate_ref) \<in> (depends q)\<^sup>*"
    if "\<exists>n \<in> set (lp_nodes p). pn_address n = x \<and> wave_at x = Some w" for x
  proof -
    have "acyclic (depends q)" using validate_nil [OF so, THEN iffD1, OF v] by blast
    then have "wf ((depends q)\<inverse>)" by (rule finite_acyclic_wf_converse [OF finite_depends])
    then show ?thesis using that
    proof (induction x rule: wf_induct_rule)
      case (less x)
      then obtain n where n: "n \<in> set (lp_nodes p)" "pn_address n = x" "wave_at x = Some w" by blast
      from n(3) [folded n(2)] w n(1) show ?case
      proof (cases rule: next_in_wave)
        case gate
        then have "\<lparr>pe_from = x, pe_to = ref_address p w wave_gate_ref\<rparr> \<in> set (lp_edges q)" using n q(2) by blast
        from edge_depends(1) [OF so v this] show ?thesis by simp
      next
        case (inside e)
        then have e: "e \<in> set (lp_edges q)" unfolding q(2) by blast
        have d: "(x, pe_to e) \<in> depends q" using edge_depends(1) [OF so v e] inside(2) n(2) by simp
        have "pe_to e \<in> set (declared q)" "pe_to e \<noteq> a"
          using validate_nil [OF so, THEN iffD1, OF v] e gate_is_root [OF so v t e] by blast+
        then consider m where "m \<in> set (lp_nodes p)" "pn_address m = pe_to e"
          | u where "u \<in> set (gated_waves p)" "pe_to e = ref_address p u wave_gate_ref"
          by (auto simp: declared_def q(1))
        then have "(pe_to e, ref_address p w wave_gate_ref) \<in> (depends q)\<^sup>*"
        proof cases
          case (1 m)
          then show ?thesis using less.IH [of "pe_to e"] d inside(3) by blast
        next
          case (2 u)
          then show ?thesis using gates [of u] inside(3) by simp
        qed
        with d show ?thesis by (meson converse_rtrancl_into_rtrancl)
      qed
    qed
  qed
  ultimately show ?thesis by blast
qed

section \<open>A draft of two waves\<close>

definition two_waves :: proposal where
  "two_waves = sample_plan\<lparr>
     lp_nodes := [sample_node ''f/e/w/a'' ''story'' None, sample_node ''f/e/w/v'' ''eval'' None,
       sample_node ''f/e/x/b'' ''story'' None, sample_node ''f/e/x/u'' ''eval'' None],
     lp_edges := [\<lparr>pe_from = ''f/e/w/a'', pe_to = ''f/e/w/v''\<rparr>, \<lparr>pe_from = ''f/e/w/a'', pe_to = ''f/e/x/b''\<rparr>,
       \<lparr>pe_from = ''f/e/x/b'', pe_to = ''f/e/x/u''\<rparr>],
     lp_waves := [(''e'', ''w''), (''e'', ''x'')]\<rparr>"

definition two_waves_draft :: proposal where
  "two_waves_draft = fst (transform_for_registration (Some ''on'') two_waves)"

lemma two_waves_transformed:
  "transform_for_registration (Some ''on'') two_waves = (two_waves_draft, ''f/e/w/accept'')"
proof -
  have "snd (transform_for_registration (Some ''on'') two_waves) = ''f/e/w/accept''" by code_simp
  then show ?thesis by (simp add: two_waves_draft_def prod_eq_iff)
qed

lemma two_waves_valid: "validate_proposal remdups sample_parser ''d'' {} two_waves_draft = []"
  by code_simp

lemma acceptance_gate_dominates_witness:
  "acceptance_gate_address two_waves_draft = Some ''f/e/w/accept''"
  using acceptance_gate_dominates [OF remdups_set_order two_waves_valid two_waves_transformed] by blast

lemma wave_gates_separate_witness:
  "(''f/e/w/v'', ref_address two_waves (''e'', ''w'') wave_gate_ref) \<in> (depends two_waves_draft)\<^sup>*"
proof -
  have c: "gate_every_wave_enabled (Some ''on'')" "2 \<le> length (waves_in_order two_waves)"
    "(''e'', ''w'') \<in> set (gated_waves two_waves)" "wave_at ''f/e/w/v'' = Some (''e'', ''w'')" by code_simp+
  have n: "\<forall>n \<in> set (lp_nodes two_waves). pn_kind n \<noteq> ''gate''" "\<exists>n \<in> set (lp_nodes two_waves). pn_address n = ''f/e/w/v''"
    by (simp_all add: two_waves_def sample_node_def)
  show ?thesis
    using wave_gates_separate [OF remdups_set_order two_waves_valid two_waves_transformed c(1) n(1) c(2,3)] n(2) c(4) by metis
qed

end
