(* ===== verification/Plan_Compile.thy ===== *)
theory Plan_Compile
  imports Repository Plan_Change
begin

text \<open>
  How a plan becomes rows (\<open>orchestration/compile.py\<close>): the binding of its execution policy, who may
  accept it, and the compilation of nodes, edges, decision and plan version in one savepoint.

  The serialisation and the hash of a document (pydantic and sha256), the installed evaluation
  harness, the resolution of a repository and of the planning references at the provider, the
  Product and project checks of other modules and the credential check are parameters
  (\<open>compile_services\<close>); a check answers with what it raises, if anything.
\<close>

record approval_context =
  pa_org :: string
  pa_actor :: string
  pa_role :: string
  pa_username :: string
  pa_kind :: actor_kind
  pa_reason :: "jtext option"

record compile_services =
  cs_listing :: listing
  cs_spec :: spec_parser
  cs_installed :: string
  cs_digest :: policy_digest
  cs_dump :: "proposal \<Rightarrow> json"
  cs_dump_node :: "proposed_node \<Rightarrow> fields"
  cs_hash :: "proposal \<Rightarrow> string"
  cs_resolve :: "string \<Rightarrow> string \<Rightarrow> int option \<Rightarrow> int \<Rightarrow> int option \<Rightarrow> string list option \<Rightarrow> (int \<times> int) option"
  cs_planning :: "approval_context \<Rightarrow> proposal \<Rightarrow> pyexc option"
  cs_product :: "approval_context \<Rightarrow> string \<Rightarrow> pyexc option"
  cs_project :: "flow_row \<Rightarrow> proposal \<Rightarrow> pyexc option"
  cs_credentials :: "execution_policy \<Rightarrow> string \<Rightarrow> bool"
  cs_now :: pydt
  cs_mint :: mint

definition approval_kinds :: "string list" where
  "approval_kinds = [''plan_accepted'', ''plan_amended'', ''gate_approved'']"

definition plan_drafted :: string where
  "plan_drafted = ''plan_drafted''"

section \<open>The execution policy of a plan\<close>

fun in_utc :: "pydt \<Rightarrow> pydt" where
  "in_utc (Aware t) = Aware t"
| "in_utc (Naive t) = Aware t"

text \<open>\<open>any(node.get("evaluation") is not None for node in previous)\<close>, lazily.\<close>

fun any_evaluation :: "json list \<Rightarrow> pyexc + bool" where
  "any_evaluation [] = Inr False"
| "any_evaluation (j # js) = (case jfields j of None \<Rightarrow> Inl AttributeError
     | Some fs \<Rightarrow> if jget fs ''evaluation'' \<noteq> JNull then Inr True else any_evaluation js)"

definition require_evaluation_acceptor ::
    "proposal \<Rightarrow> approval_context \<Rightarrow> plan_row option \<Rightarrow> pyexc option" where
  "require_evaluation_acceptor p ctx in_force =
     (if pa_kind ctx = HUMAN then None
      else (case (case in_force of None \<Rightarrow> Inr []
              | Some q \<Rightarrow> and_then (doc_fields (pl_document q)) doc_nodes) of
         Inl e \<Rightarrow> Some e
       | Inr previous \<Rightarrow>
           if list_ex (\<lambda>n. pn_evaluation n \<noteq> None) (lp_nodes p) then Some PolicyNotAcceptableError
           else (case any_evaluation previous of Inl e \<Rightarrow> Some e
             | Inr b \<Rightarrow> if b then Some PolicyNotAcceptableError else None)))"

definition stamped_policy :: "policy_digest \<Rightarrow> execution_policy \<Rightarrow> approval_context \<Rightarrow> pyexc + execution_policy" where
  "stamped_policy dg q ctx = (case stamp_policy dg q (pa_actor ctx) (pa_org ctx) of
       Inl (PolicyRejectedError _) \<Rightarrow> Inl PolicyNotAcceptableError | r \<Rightarrow> r)"

definition prepare_execution_policy ::
    "policy_digest \<Rightarrow> proposal \<Rightarrow> approval_context \<Rightarrow> string \<Rightarrow> pyexc + proposal" where
  "prepare_execution_policy dg p ctx kind =
     (case (if kind = plan_drafted then None
            else (case require_evaluation_acceptor p ctx None of Some e \<Rightarrow> Some e
              | None \<Rightarrow> if lp_proposed_policy p \<noteq> None then Some PolicyNotAcceptableError else None)) of
        Some e \<Rightarrow> Inl e
      | None \<Rightarrow>
          (case lp_policy p of None \<Rightarrow> Inr p
           | Some q \<Rightarrow>
               if pa_kind ctx \<noteq> HUMAN then Inl PolicyNotAcceptableError
               else and_then (stamped_policy dg (q\<lparr>ep_expires := in_utc (ep_expires q)\<rparr>) ctx) (\<lambda>s.
                 Inr (p\<lparr>lp_policy := Some s\<rparr>))))"

definition require_unexpired_execution_policy :: "pydt \<Rightarrow> proposal \<Rightarrow> pyexc option" where
  "require_unexpired_execution_policy now p = (case lp_policy p of None \<Rightarrow> None
     | Some q \<Rightarrow> if stamp (in_utc (ep_expires q)) \<le> stamp now then Some ExpiredExecutionPolicyError else None)"

definition accept_execution_policy ::
    "policy_digest \<Rightarrow> pydt \<Rightarrow> proposal \<Rightarrow> approval_context \<Rightarrow> string \<Rightarrow> pyexc + proposal" where
  "accept_execution_policy dg now p ctx kind =
     and_then (prepare_execution_policy dg p ctx kind) (\<lambda>q.
       case require_unexpired_execution_policy now q of Some e \<Rightarrow> Inl e | None \<Rightarrow> Inr q)"

definition legacy_naive_policy_plan_hash ::
    "compile_services \<Rightarrow> proposal \<Rightarrow> approval_context \<Rightarrow> pyexc + string option" where
  "legacy_naive_policy_plan_hash cs p ctx = (case lp_policy p of None \<Rightarrow> Inr None
     | Some q \<Rightarrow> if tz_aware (ep_expires q) then Inr None
         else and_then (stamped_policy (cs_digest cs) q ctx) (\<lambda>s. Inr (Some (cs_hash cs (p\<lparr>lp_policy := Some s\<rparr>)))))"

text \<open>Product-less work that was approved before, not an incomplete draft.\<close>

definition is_legacy_acceptance :: "db \<Rightarrow> plan_row option \<Rightarrow> pyexc + bool" where
  "is_legacy_acceptance d in_force = (case in_force of None \<Rightarrow> Inr False
     | Some q \<Rightarrow> and_then (doc_fields (pl_document q)) (\<lambda>fs.
         Inr (jget fs ''product_id'' = JNull
           \<and> list_ex (\<lambda>r. dc_org r = pl_org q \<and> dc_flow r = pl_flow q \<and> dc_kind r \<in> set approval_kinds) (decisions d))))"

section \<open>Nodes and edges\<close>

text \<open>\<open>address_of(flow_slug, node)\<close>.\<close>

definition composed :: "string \<Rightarrow> node_row \<Rightarrow> string" where
  "composed slug n = slug @ ''/'' @ nd_epic n @ ''/'' @ nd_wave n @ ''/'' @ nd_ref n"

definition refreshed_node :: "proposed_node \<Rightarrow> node_row \<Rightarrow> node_row" where
  "refreshed_node p n = n\<lparr>nd_lineage := pn_lineage p, nd_labels := pn_labels p, nd_repository := pn_repository p,
     nd_repository_id := pn_repository_id p, nd_installation := pn_installation p\<rparr>"

type_synonym node_ids = "(string \<times> string) list"

fun upsert_nodes ::
    "mint \<Rightarrow> string \<Rightarrow> string \<Rightarrow> (string \<times> node_row) list \<Rightarrow> (string \<times> node_state) list \<Rightarrow> proposed_node list
     \<Rightarrow> node_ids \<Rightarrow> nat \<Rightarrow> (db, node_ids \<times> nat) op" where
  "upsert_nodes mt org fid existing initial [] ids created d = (Inr (ids, created), d)"
| "upsert_nodes mt org fid existing initial (p # ps) ids created d =
     (case map_of existing (pn_address p) of
        Some m \<Rightarrow>
          upsert_nodes mt org fid existing initial ps (dict_set (pn_address p) (nd_id m) ids) created
            (d\<lparr>nodes := update_where (\<lambda>n. nd_id n = nd_id m) (refreshed_node p) (nodes d)\<rparr>)
      | None \<Rightarrow>
          (case split_address (pn_address p) of None \<Rightarrow> (Inl ValueError, d)
           | Some (_, place) \<Rightarrow>
               let (n, d1) = add_node mt org fid place p (map_option node_state_value (map_of initial (pn_address p))) d in
               upsert_nodes mt org fid existing initial ps (dict_set (pn_address p) (nd_id n) ids) (created + 1)
                 (d1\<lparr>nodes := update_where (\<lambda>r. nd_id r = nd_id n) (refreshed_node p) (nodes d1)\<rparr>)))"

fun upsert_edges ::
    "mint \<Rightarrow> string \<Rightarrow> string \<Rightarrow> node_ids \<Rightarrow> proposed_edge list \<Rightarrow> (string \<times> string) list \<Rightarrow> nat \<Rightarrow> (db, nat) op" where
  "upsert_edges mt org fid ids [] present created d = (Inr created, d)"
| "upsert_edges mt org fid ids (p # ps) present created d =
     (case (map_of ids (pe_from p), map_of ids (pe_to p)) of
        (Some a, Some b) \<Rightarrow>
          if (a, b) \<in> set present then upsert_edges mt org fid ids ps present created d
          else upsert_edges mt org fid ids ps ((a, b) # present) (created + 1) (add_edge mt org fid (a, b) d)
      | _ \<Rightarrow> (Inl KeyError, d))"

section \<open>Compiling\<close>

record compile_result =
  cr_flow :: string
  cr_version :: int
  cr_decision :: "string option"
  cr_hash :: string
  cr_nodes :: node_ids
  cr_nodes_created :: nat
  cr_edges_created :: nat
  cr_already :: bool

definition existing_result :: "db \<Rightarrow> flow_row \<Rightarrow> plan_row \<Rightarrow> string option \<Rightarrow> compile_result" where
  "existing_result d fl q decision =
     \<lparr>cr_flow = fl_id fl, cr_version = pl_version q, cr_decision = decision, cr_hash = pl_hash q,
       cr_nodes = dict_of (map (\<lambda>n. (composed (fl_slug fl) n, nd_id n)) (list_nodes d (fl_org fl) (fl_id fl))),
       cr_nodes_created = 0, cr_edges_created = 0, cr_already = True\<rparr>"

definition resolve_flow :: "mint \<Rightarrow> proposal \<Rightarrow> string \<Rightarrow> db \<Rightarrow> flow_row \<times> db" where
  "resolve_flow mt p org d = (case get_flow_by_slug d org (lp_slug p) of Some f \<Rightarrow> (f, d)
     | None \<Rightarrow> create_flow mt org (lp_slug p) (lp_title p) (lp_product p) d)"

definition set_identity :: "string \<Rightarrow> proposal \<Rightarrow> db \<Rightarrow> db" where
  "set_identity fid p d = d\<lparr>flows := update_where (\<lambda>f. fl_id f = fid)
     (\<lambda>f. f\<lparr>fl_product := lp_product p, fl_origin := lp_origin p, fl_trackers := lp_trackers p\<rparr>) (flows d)\<rparr>"

text \<open>The part that writes, once nothing refuses any more.\<close>

definition write_plan ::
    "compile_services \<Rightarrow> proposal \<Rightarrow> approval_context \<Rightarrow> string \<Rightarrow> (string \<times> node_state) list \<Rightarrow> flow_row
     \<Rightarrow> (db, compile_result) op" where
  "write_plan cs p ctx kind initial fl d =
     (let mt = cs_mint cs; org = pa_org ctx; fid = fl_id fl;
          existing = dict_of (map (\<lambda>n. (composed (lp_slug p) n, n)) (list_nodes d org fid)) in
      case upsert_nodes mt org fid existing initial (lp_nodes p) [] 0 d of (Inl e, d1) \<Rightarrow> (Inl e, d1)
      | (Inr (ids, nodes_created), d1) \<Rightarrow>
      (case upsert_edges mt org fid ids (lp_edges p) (map (\<lambda>e. (ed_from e, ed_to e)) (list_edges d1 org fid)) 0 d1 of
         (Inl e, d2) \<Rightarrow> (Inl e, d2)
       | (Inr edges_created, d2) \<Rightarrow>
         (let (r, d3) = append_decision mt org fid None kind (pa_actor ctx) (pa_role ctx) (actor_kind_value (pa_kind ctx))
                (pa_reason ctx) None None None d2 in
          (case record_accepted_plan mt org fid (cs_dump cs p) (cs_hash cs p) (Some (dc_id r)) d3 of
             (Inl e, d4) \<Rightarrow> (Inl e, d4)
           | (Inr plan, d4) \<Rightarrow>
               (Inr \<lparr>cr_flow = fid, cr_version = pl_version plan, cr_decision = Some (dc_id r), cr_hash = cs_hash cs p,
                  cr_nodes = ids, cr_nodes_created = nodes_created, cr_edges_created = edges_created,
                  cr_already = False\<rparr>, d4)))))"

section \<open>Replacing the plan in force\<close>

text \<open>The first node of the flow whose change is refused.\<close>

fun change_refusal ::
    "compile_services \<Rightarrow> proposal \<Rightarrow> flow_row \<Rightarrow> (string \<times> fields) list \<Rightarrow> string list \<Rightarrow> node_row list \<Rightarrow> pyexc option" where
  "change_refusal cs p fl previous started [] = None"
| "change_refusal cs p fl previous started (n # ns) =
     (case find (\<lambda>q. pn_address q = composed (fl_slug fl) n) (rev (lp_nodes p)) of
        None \<Rightarrow> change_refusal cs p fl previous started ns
      | Some q \<Rightarrow>
          (case definition_change_refusal (composed (fl_slug fl) n) (nd_state n) (nd_attempts n) (nd_kind n) (nd_issue n)
              (pn_kind q) (pn_issue q) (map_of previous (composed (fl_slug fl) n)) (Some (cs_dump_node cs q))
              (nd_id n \<in> set started) of
             Inl e \<Rightarrow> Some e
           | Inr (Some _) \<Rightarrow> Some ProposalRejectedError
           | Inr None \<Rightarrow> change_refusal cs p fl previous started ns))"

definition flow_nodes_by_id :: "db \<Rightarrow> string \<Rightarrow> string \<Rightarrow> node_row list" where
  "flow_nodes_by_id d org fid = sort_key nd_id (filter (\<lambda>n. nd_org n = org \<and> nd_flow n = fid) (nodes d))"

definition amend_refusal :: "compile_services \<Rightarrow> db \<Rightarrow> flow_row \<Rightarrow> plan_row \<Rightarrow> proposal \<Rightarrow> string \<Rightarrow> pyexc option" where
  "amend_refusal cs d fl q p org =
     (let ns = flow_nodes_by_id d org (fl_id fl) in
      case and_then (doc_fields (pl_document q)) (\<lambda>document.
          and_then (is_legacy_acceptance d (Some q)) (\<lambda>legacy.
          and_then (projection_mismatches fl document ns legacy) (\<lambda>bad.
            if bad \<noteq> [] then Inl ProposalRejectedError
            else and_then (binding_reservations d fl ns document) (\<lambda>(started, product_started).
              if lp_product p \<noteq> fl_product fl \<and> product_started then Inl ProposalRejectedError
              else and_then (accepted_nodes document) (\<lambda>previous. Inr (previous, started)))))) of
        Inl e \<Rightarrow> Some e
      | Inr (previous, started) \<Rightarrow> change_refusal cs p fl previous started ns)"

text \<open>What is refused once the plan in force is known.\<close>

definition replacement_refusal ::
    "compile_services \<Rightarrow> db \<Rightarrow> proposal \<Rightarrow> approval_context \<Rightarrow> string \<Rightarrow> flow_row \<Rightarrow> plan_row option \<Rightarrow> pyexc option" where
  "replacement_refusal cs d p ctx kind fl in_force =
     (if in_force \<noteq> None \<and> kind \<notin> set approval_kinds then Some NonApprovalSupersedeError
      else (case (if kind = plan_drafted then None
          else (case require_evaluation_acceptor p ctx in_force of Some e \<Rightarrow> Some e
            | None \<Rightarrow> (case lp_product p of
                  None \<Rightarrow> (case is_legacy_acceptance d in_force of Inl e \<Rightarrow> Some e
                    | Inr ok \<Rightarrow> if ok then None else Some ProposalRejectedError)
                | Some i \<Rightarrow> cs_product cs ctx i))) of
        Some e \<Rightarrow> Some e
      | None \<Rightarrow> (case (case in_force of None \<Rightarrow> None | Some q \<Rightarrow> amend_refusal cs d fl q p (pa_org ctx)) of
            Some e \<Rightarrow> Some e
          | None \<Rightarrow> if fl_product fl \<noteq> None \<and> lp_product p \<noteq> fl_product fl then Some ProposalRejectedError
              else cs_project cs fl p)))"

definition credential_refusal :: "compile_services \<Rightarrow> proposal \<Rightarrow> approval_context \<Rightarrow> pyexc option" where
  "credential_refusal cs p ctx = (case lp_policy p of None \<Rightarrow> None
     | Some q \<Rightarrow> if ep_credentials q \<noteq> None \<and> \<not> cs_credentials cs q (pa_actor ctx)
         then Some PolicyNotAcceptableError else None)"

definition compile_rows ::
    "compile_services \<Rightarrow> proposal \<Rightarrow> string option \<Rightarrow> approval_context \<Rightarrow> string \<Rightarrow> (string \<times> node_state) list
     \<Rightarrow> (db, compile_result) op" where
  "compile_rows cs p legacy ctx kind initial d =
     (let (fl, d1) = resolve_flow (cs_mint cs) p (pa_org ctx) d;
          in_force = (case current_plans d1 (pa_org ctx) (fl_id fl) of [] \<Rightarrow> None | q # _ \<Rightarrow> Some q) in
      case (case in_force of None \<Rightarrow> Inr False
              | Some q \<Rightarrow> and_then (doc_fields (pl_document q)) (\<lambda>fs. Inr (jtruthy (jget fs ''execution_continuation'')))) of
        Inl e \<Rightarrow> (Inl e, d1)
      | Inr True \<Rightarrow> (Inl ProposalRejectedError, d1)
      | Inr False \<Rightarrow>
          if (case in_force of None \<Rightarrow> False | Some q \<Rightarrow> pl_hash q = cs_hash cs p \<or> Some (pl_hash q) = legacy)
          then (Inr (existing_result d1 fl (the in_force) (Some (case pl_decision (the in_force) of None \<Rightarrow> [] | Some i \<Rightarrow> i))), d1)
          else (case replacement_refusal cs d1 p ctx kind fl in_force of Some e \<Rightarrow> (Inl e, d1)
            | None \<Rightarrow>
                let d2 = set_identity (fl_id fl) p d1 in
                (case require_unexpired_execution_policy (cs_now cs) p of Some e \<Rightarrow> (Inl e, d2)
                 | None \<Rightarrow> (case credential_refusal cs p ctx of Some e \<Rightarrow> (Inl e, d2)
                     | None \<Rightarrow> write_plan cs p ctx kind initial fl d2))))"

text \<open>The repository of a story, verified at the provider before the savepoint.\<close>

definition verified_node :: "compile_services \<Rightarrow> string \<Rightarrow> string list option \<Rightarrow> proposed_node \<Rightarrow> pyexc + proposed_node" where
  "verified_node cs org names n =
     (if pn_kind n \<noteq> ''story'' \<or> \<not> (truthy (pn_repository n) \<or> pn_installation n \<noteq> None
           \<or> (case pn_repository_id n of None \<Rightarrow> False | Some i \<Rightarrow> i \<noteq> 0)) then Inr n
      else (case py_int (dropWhile (\<lambda>c. c = CHR ''#'') (case pn_issue n of None \<Rightarrow> ''None'' | Some s \<Rightarrow> s)) of
          None \<Rightarrow> Inl ProposalRejectedError
        | Some k \<Rightarrow>
            (case or_none (pn_repository n) of None \<Rightarrow> Inl ProposalRejectedError
             | Some name \<Rightarrow>
                 (case cs_resolve cs org name (pn_repository_id n) k (pn_installation n) names of
                    None \<Rightarrow> Inl ProposalRejectedError
                  | Some (repo, installation) \<Rightarrow>
                      if pn_installation n \<noteq> None \<and> pn_installation n \<noteq> Some installation then Inl ProposalRejectedError
                      else Inr (n\<lparr>pn_repository_id := Some repo, pn_installation := Some installation\<rparr>)))))"

definition verified_repositories :: "compile_services \<Rightarrow> approval_context \<Rightarrow> string \<Rightarrow> proposal \<Rightarrow> pyexc + proposal" where
  "verified_repositories cs ctx kind p =
     (if kind = plan_drafted \<or> lp_product p = None then Inr p
      else and_then (each_of (verified_node cs (pa_org ctx) (map_option ep_repositories (lp_policy p))) (lp_nodes p))
        (\<lambda>ns. Inr (p\<lparr>lp_nodes := ns\<rparr>)))"

definition verify_planning_references :: "compile_services \<Rightarrow> approval_context \<Rightarrow> proposal \<Rightarrow> pyexc option" where
  "verify_planning_references cs ctx p =
     (if \<not> jtruthy (lp_origin p) \<and> \<not> jtruthy (lp_trackers p) then None else cs_planning cs ctx p)"

definition compile_proposal ::
    "compile_services \<Rightarrow> proposal \<Rightarrow> approval_context \<Rightarrow> string \<Rightarrow> (string \<times> node_state) list \<Rightarrow> (db, compile_result) op" where
  "compile_proposal cs p ctx kind initial d =
     (if validate_proposal (cs_listing cs) (cs_spec cs) (cs_installed cs) {} p \<noteq> []
      then (Inl ProposalRejectedError, d)
      else if lp_org p \<noteq> pa_org ctx then (Inl TenantMismatchError, d)
      else (case prepare_execution_policy (cs_digest cs) p ctx kind of Inl e \<Rightarrow> (Inl e, d)
        | Inr p1 \<Rightarrow>
            (case legacy_naive_policy_plan_hash cs p ctx of Inl e \<Rightarrow> (Inl e, d)
             | Inr legacy \<Rightarrow>
                 (case verified_repositories cs ctx kind p1 of
                    Inl e \<Rightarrow> (Inl e, d)
                  | Inr p2 \<Rightarrow>
                      (case verify_planning_references cs ctx p2 of Some e \<Rightarrow> (Inl e, d)
                       | None \<Rightarrow> nested (compile_rows cs p2 legacy ctx kind initial) d)))))"

end
