(* ===== verification/Draft_Registration.thy ===== *)
theory Draft_Registration
  imports Registration Plan_Compile
begin

text \<open>
  Registering a draft (\<open>orchestration/registration.py\<close>): the refusals that keep a draft out of a flow
  with a history, the idempotent retry, and the compilation of the transformed document with its
  acceptance gate born waiting.
\<close>

definition live_flow_refusal :: "db \<Rightarrow> proposal \<Rightarrow> string \<Rightarrow> string \<Rightarrow> pyexc option" where
  "live_flow_refusal d p org hash =
     (case find (\<lambda>f. fl_slug f = lp_slug p) (filter (\<lambda>f. fl_org f = org) (flows d)) of None \<Rightarrow> None
      | Some fl \<Rightarrow>
          if fl_archived fl \<noteq> None then Some DraftFlowConflictError
          else (case accepted_plan d org (fl_id fl) of Inl e \<Rightarrow> Some e
            | Inr in_force \<Rightarrow>
                if (case in_force of None \<Rightarrow> False | Some q \<Rightarrow> pl_hash q = hash) then None
                else if list_ex (\<lambda>r. dc_org r = org \<and> dc_flow r = fl_id fl \<and> dc_kind r \<in> set approval_kinds) (decisions d)
                then Some DraftFlowConflictError
                else if in_force \<noteq> None then Some DraftFlowConflictError else None))"

definition register_draft_proposal ::
    "compile_services \<Rightarrow> string option \<Rightarrow> proposal \<Rightarrow> approval_context \<Rightarrow> (db, compile_result \<times> string) op" where
  "register_draft_proposal cs flag p ctx d =
     (let (q, a) = transform_for_registration flag p;
          hash = cs_hash cs q;
          fresh = (case live_flow_refusal d q (pa_org ctx) hash of Some e \<Rightarrow> (Inl e, d)
            | None \<Rightarrow> (case compile_proposal cs q ctx plan_drafted [(a, AWAITING_GATE)] d of
                  (Inl e, d1) \<Rightarrow> (Inl e, d1) | (Inr r, d1) \<Rightarrow> (Inr (r, a), d1))) in
      case get_flow_by_slug d (pa_org ctx) (lp_slug q) of None \<Rightarrow> fresh
      | Some fl \<Rightarrow>
          if fl_archived fl \<noteq> None then (Inl DraftFlowConflictError, d)
          else (case find (\<lambda>r. pl_hash r = hash) (list_plan_versions d (pa_org ctx) (fl_id fl)) of
               Some prior \<Rightarrow> (Inr (existing_result d fl prior (pl_decision prior), a), d)
             | None \<Rightarrow> fresh))"

end
