(* ===== verification/Compile_Samples.thy ===== *)
theory Compile_Samples
  imports Plan_Compile Samples
begin

text \<open>Services and fresh ids on which the theorems about plans and gates are instantiated.\<close>

definition fresh_id :: "string \<Rightarrow> nat \<Rightarrow> string" where
  "fresh_id name i = name @ replicate i CHR ''+''"

lemma fresh_id_inj [simp]: "fresh_id name i = fresh_id name j \<longleftrightarrow> i = j"
  unfolding fresh_id_def by (metis length_replicate same_append_eq)

definition sample_mint :: mint where
  "sample_mint = \<lparr>mt_flow = fresh_id ''flow'', mt_node = fresh_id ''node'', mt_edge = fresh_id ''edge'',
     mt_plan = fresh_id ''plan'', mt_decision = fresh_id ''decision'', mt_now = Aware 5, mt_winner = None\<rparr>"

definition sample_compile :: compile_services where
  "sample_compile = \<lparr>cs_listing = remdups, cs_spec = (\<lambda>_. None), cs_installed = ''d'', cs_digest = (\<lambda>_. ''x''),
     cs_dump = (\<lambda>_. JObj [(''nodes'', JArr [])]), cs_dump_node = (\<lambda>_. []), cs_hash = (\<lambda>p. ''h'' @ lp_title p), cs_resolve = (\<lambda>_ _ _ _ _ _. None),
     cs_planning = (\<lambda>_ _. None), cs_product = (\<lambda>_ _. None), cs_project = (\<lambda>_ _. None), cs_credentials = (\<lambda>_ _. True),
     cs_now = Aware 4, cs_mint = sample_mint\<rparr>"

lemmas compile_sample_defs = sample_mint_def sample_compile_def

end
