(* ===== verification/Dispatch.thy ===== *)
theory Dispatch
  imports Repository Evaluation_Plan Node_State
begin

text \<open>
  Dispatching a ready node (\<open>orchestration/dispatch.py\<close>) under the authority of a human approval
  (\<open>orchestration/genesis.py\<close>): the resolution of the root decision, the one guarded write that counts
  an attempt, and the continuation of an execution that a stall had interrupted.

  The texts of refusals are left out where no code reads them.
\<close>

section \<open>The human root\<close>

definition approval_decision_kinds :: "string list" where
  "approval_decision_kinds = [''plan_accepted'', ''plan_amended'', ''gate_approved'']"

record engine_genesis =
  eg_human :: string
  eg_role :: string
  eg_decision :: string
  eg_flow :: string
  eg_org :: string
  eg_kind :: string

definition resolve_engine_genesis :: "db \<Rightarrow> string \<Rightarrow> string \<Rightarrow> pyexc + engine_genesis" where
  "resolve_engine_genesis d org i =
     (if i = [] then Inl GenesisRefusedError
      else if org = [] then Inl GenesisRefusedError
      else (case find (\<lambda>r. dc_org r = org \<and> dc_id r = i) (decisions d) of
          None \<Rightarrow> Inl GenesisRefusedError
        | Some r \<Rightarrow>
            if dc_actor_kind r \<noteq> ''human'' then Inl GenesisRefusedError
            else if dc_kind r \<notin> set approval_decision_kinds then Inl GenesisRefusedError
            else if dc_actor_id r = [] then Inl GenesisRefusedError
            else Inr \<lparr>eg_human = dc_actor_id r, eg_role = dc_actor_role r, eg_decision = dc_id r,
                   eg_flow = dc_flow r, eg_org = dc_org r, eg_kind = dc_kind r\<rparr>))"

section \<open>Outcomes\<close>

datatype dispatch_status = DISPATCHED | REJECTED | ALREADY_RUNNING | NOT_FOUND

record dispatched_run =
  dr_node :: string
  dr_org :: string
  dr_flow :: string
  dr_address :: string
  dr_decision :: string
  dr_human :: string

record dispatch_outcome =
  do_status :: dispatch_status
  do_node :: string
  do_run :: "dispatched_run option"

text \<open>The check of \<open>__post_init__\<close>.\<close>

definition dispatch_outcome_of :: "dispatch_status \<Rightarrow> string \<Rightarrow> dispatched_run option \<Rightarrow> pyexc + dispatch_outcome" where
  "dispatch_outcome_of st node run =
     (if st = DISPATCHED \<and> run = None \<or> st \<noteq> DISPATCHED \<and> run \<noteq> None then Inl ValueError
      else Inr \<lparr>do_status = st, do_node = node, do_run = run\<rparr>)"

definition graph_address :: "node_row \<Rightarrow> string \<Rightarrow> string" where
  "graph_address n slug = slug @ ''/'' @ nd_epic n @ ''/'' @ nd_wave n @ ''/'' @ nd_ref n"

section \<open>The guarded writes\<close>

definition observed_row :: "string \<Rightarrow> string \<Rightarrow> string \<Rightarrow> node_row \<Rightarrow> bool" where
  "observed_row node org observed n \<longleftrightarrow> nd_id n = node \<and> nd_org n = org \<and> nd_state n = observed"

definition dispatch_transition ::
    "mint \<Rightarrow> string \<Rightarrow> string \<Rightarrow> string \<Rightarrow> string \<Rightarrow> string \<Rightarrow> (db, nat \<times> bool) op" where
  "dispatch_transition mt node org fid observed why d =
     (case transition_raw no_proofs observed ''running'' ''service'' why of
        Inl e \<Rightarrow> (Inl e, d)
      | Inr result \<Rightarrow>
          if \<not> allowed result
          then (Inr (0, False), snd (append_decision mt org fid (Some node) ''transition_rejected''
                  ''system:orchestration-dispatch'' ''engine'' ''service'' (Some \<lparr>raw_text = why, decoded = None\<rparr>)
                  (rejection_reason result) (Some (node_state_value (from_state result)))
                  (Some (node_state_value (to_state result))) d))
          else
            let hit = observed_row node org observed in
            (Inr (length (filter hit (nodes d)), True),
             d\<lparr>nodes := update_where hit (\<lambda>n. n\<lparr>nd_state := ''running'', nd_attempts := nd_attempts n + 1\<rparr>) (nodes d)\<rparr>))"

definition continuation_reason :: "node_row \<Rightarrow> string \<Rightarrow> string \<Rightarrow> string \<Rightarrow> int \<Rightarrow> json" where
  "continuation_reason n execution phase claim generation =
     JObj [(''mode'', JStr ''execution_continuation''), (''attempt'', JInt (nd_attempts n)),
       (''execution_id'', JStr execution), (''phase'', JStr phase), (''claim_id'', JStr claim),
       (''claim_generation'', JInt generation),
       (''detail'', JStr ''the stall watchdog interrupted a live execution; it continues from its current phase instead of a new attempt'')]"

text \<open>The node is the row the caller read; only its identity and its attempt count are used.\<close>

definition continue_node_execution ::
    "mint \<Rightarrow> node_row \<Rightarrow> string \<Rightarrow> string \<Rightarrow> string \<Rightarrow> int \<Rightarrow> (db, bool) op" where
  "continue_node_execution mt n execution phase claim generation d =
     (case transition_raw no_proofs ''ready'' ''running'' ''service'' ''execution continuation'' of
        Inl e \<Rightarrow> (Inl e, d)
      | Inr result \<Rightarrow>
          if \<not> allowed result then (Inr False, d)
          else let hit = observed_row (nd_id n) (nd_org n) ''ready'' in
            if filter hit (nodes d) = [] then (Inr False, d)
            else (Inr True, snd (append_decision mt (nd_org n) (nd_flow n) (Some (nd_id n)) ''node_resumed''
                   ''system:orchestration-dispatch'' ''engine'' ''service''
                   (Some (dumped (continuation_reason n execution phase claim generation))) None
                   (Some ''ready'') (Some ''running'')
                   (d\<lparr>nodes := update_where hit (\<lambda>r. r\<lparr>nd_state := ''running''\<rparr>) (nodes d)\<rparr>))))"

section \<open>Dispatching a node\<close>

definition node_in_org :: "db \<Rightarrow> string \<Rightarrow> string \<Rightarrow> node_row option" where
  "node_in_org d org i = find (\<lambda>n. nd_org n = org \<and> nd_id n = i) (nodes d)"

definition dispatch_reason :: "engine_genesis \<Rightarrow> string" where
  "dispatch_reason g = ''engine dispatch authorised by decision '' @ eg_decision g @ '' (approver '' @ eg_human g @ '')''"

definition dispatch_node ::
    "mint \<Rightarrow> eval_services \<Rightarrow> string \<Rightarrow> engine_genesis \<Rightarrow> (db, dispatch_outcome) op" where
  "dispatch_node mt sv node g d =
     (let org = eg_org g in
      case node_in_org d org node of None \<Rightarrow> (dispatch_outcome_of NOT_FOUND node None, d)
      | Some n \<Rightarrow>
         (case flow_for d org (nd_flow n) of None \<Rightarrow> (dispatch_outcome_of NOT_FOUND node None, d)
          | Some fl \<Rightarrow>
             (case managed_evaluation sv d n of Inl e \<Rightarrow> (Inl e, d)
              | Inr True \<Rightarrow> (dispatch_outcome_of REJECTED (nd_id n) None, d)
              | Inr False \<Rightarrow>
                 (case dispatch_transition mt (nd_id n) org (nd_flow n) (nd_state n) (dispatch_reason g) d of
                    (Inl e, d1) \<Rightarrow> (Inl e, d1)
                  | (Inr (rows, ok), d1) \<Rightarrow>
                      (if \<not> ok then dispatch_outcome_of REJECTED (nd_id n) None
                       else if rows \<noteq> 1 then dispatch_outcome_of ALREADY_RUNNING (nd_id n) None
                       else dispatch_outcome_of DISPATCHED (nd_id n)
                         (Some \<lparr>dr_node = nd_id n, dr_org = org, dr_flow = nd_flow n,
                           dr_address = graph_address n (fl_slug fl), dr_decision = eg_decision g,
                           dr_human = eg_human g\<rparr>), d1)))))"

end
