(* ===== verification/Gate_Execution.thy ===== *)
theory Gate_Execution
  imports Evaluation_Waiver Plan_Compile
begin

text \<open>
  What an approval of a gate authorises of the step behind it: the renewal of an execution window
  (\<open>accept_window_renewal\<close> and \<open>advance_deadlines\<close> of \<open>orchestration/shared_window.py\<close>, with
  \<open>shared_amendment.current_plan\<close> and \<open>plan_lineage.execution_plan_matches\<close>) and the acceptance of an
  evaluation (\<open>evaluation_acceptance.py\<close>), with everything they write.

  The pydantic parsers, the name-based uuids, the dumps of the records, and the readers that prepare a
  renewal (\<open>prepare_renewal\<close>) or preview an evaluation (\<open>preview_evaluation\<close>, \<open>accepted_contract\<close>) are
  parameters; they read the store and write nothing. Deadlines are compared as instants; the code
  compares their texts, which agree for the UTC instants the column holds.
\<close>

section \<open>The plan a request is made against\<close>

definition requires_append :: "bool \<Rightarrow> string \<Rightarrow> (pyexc + 'a) \<Rightarrow> pyexc + 'a" where
  "requires_append c code k = (if c then k else Inl (SharedAppendError code))"

lemma requires_append_Inr [simp]: "requires_append c code k = Inr y \<longleftrightarrow> c \<and> k = Inr y"
  by (simp add: requires_append_def)

definition current_plan :: "db \<Rightarrow> string \<Rightarrow> approval_context \<Rightarrow> pyexc + flow_row \<times> plan_row" where
  "current_plan d fid ctx =
     requires_append (pa_kind ctx = HUMAN \<and> pa_actor ctx \<noteq> []) ''human_plan_approver_required''
      (let fs = filter (\<lambda>f. fl_id f = fid \<and> fl_org f = pa_org ctx) (flows d);
           ps = current_plans d (pa_org ctx) fid in
       requires_append (length fs = 1) ''flow_not_found''
        (requires_append (length ps = 1) ''accepted_plan_missing_or_ambiguous'' (Inr (hd fs, hd ps))))"

text \<open>Whether a version is the one in force or an ancestor that still authorises the node.\<close>

definition execution_plan_matches ::
    "digest \<Rightarrow> db \<Rightarrow> string \<Rightarrow> string \<Rightarrow> string \<Rightarrow> int \<Rightarrow> int option \<Rightarrow> bool" where
  "execution_plan_matches dg d org fid node version current_version \<longleftrightarrow>
     current_version = Some version
     \<or> (case current_plans d org fid of [] \<Rightarrow> False
        | p # _ \<Rightarrow> ancestor_plan dg d p version (Some node) \<noteq> None)"

section \<open>Renewing a window\<close>

record renewal_request =
  rr_version :: int
  rr_hash :: string
  rr_expires :: pydt
  rr_wall_clock :: "int option"
  rr_resume :: bool
  rr_reason :: string
  rr_snapshot :: "string option"

record deadline_entry =
  de_execution :: string
  de_version :: int
  de_before :: pydt
  de_after :: pydt

record renewal_document =
  rd_org :: string
  rd_flow :: string
  rd_version :: int
  rd_before :: pydt
  rd_deadlines :: "deadline_entry list"
  rd_rest :: fields

record renewal_services =
  rn_digest :: digest
  rn_parse :: "json \<Rightarrow> renewal_request option"
  rn_prepare :: "db \<Rightarrow> string \<Rightarrow> approval_context \<Rightarrow> renewal_request \<Rightarrow> pyexc + string \<times> renewal_document"
  rn_identity :: "string \<Rightarrow> approval_context \<Rightarrow> renewal_request \<Rightarrow> string"
  rn_record :: "renewal_document \<Rightarrow> pydt \<Rightarrow> string \<Rightarrow> string \<Rightarrow> jtext"
  rn_now :: pydt

text \<open>\<open>aware\<close>: a stored instant without a zone is UTC.\<close>

fun aware :: "pydt \<Rightarrow> pydt" where
  "aware (Aware t) = Aware t"
| "aware (Naive t) = Aware t"

definition deadline_kept :: "digest \<Rightarrow> db \<Rightarrow> renewal_document \<Rightarrow> deadline_entry \<Rightarrow> execution_row \<Rightarrow> bool" where
  "deadline_kept dg d doc x row \<longleftrightarrow>
     ex_flow row = rd_flow doc \<and> ex_plan_version row = de_version x
     \<and> ex_status row \<notin> {''concluded'', ''superseded''}
     \<and> (case ex_deadline row of None \<Rightarrow> False | Some t \<Rightarrow> aware t = de_before x)
     \<and> execution_plan_matches dg d (ex_org row) (ex_flow row) (ex_node row) (ex_plan_version row) (Some (rd_version doc))"

text \<open>Each deadline the document moves, on the row it names; the first that no longer fits raises.\<close>

definition move_deadline :: "string \<Rightarrow> pydt \<Rightarrow> db \<Rightarrow> db" where
  "move_deadline x limit d = d\<lparr>executions := update_where (\<lambda>r. ex_id r = x)
     (\<lambda>r. r\<lparr>ex_deadline := Some limit, ex_revision := ex_revision r + 1\<rparr>) (executions d)\<rparr>"

fun advance_deadlines :: "digest \<Rightarrow> renewal_document \<Rightarrow> deadline_entry list \<Rightarrow> (db, unit) op" where
  "advance_deadlines dg doc [] d = (Inr (), d)"
| "advance_deadlines dg doc (x # xs) d =
     (case find (\<lambda>r. ex_id r = de_execution x \<and> ex_org r = rd_org doc) (executions d) of
        None \<Rightarrow> (Inl WindowRenewalError, d)
      | Some row \<Rightarrow>
          if \<not> deadline_kept dg d doc x row then (Inl WindowRenewalError, d)
          else advance_deadlines dg doc xs (move_deadline (ex_id row) (de_after x) d))"

definition renewal_kind :: string where
  "renewal_kind = ''execution_window_renewed''"

definition renewal_decision ::
    "renewal_services \<Rightarrow> string \<Rightarrow> approval_context \<Rightarrow> renewal_request \<Rightarrow> string \<Rightarrow> renewal_document \<Rightarrow> decision_row" where
  "renewal_decision sv fid ctx rq snapshot doc =
     \<lparr>dc_id = rn_identity sv fid ctx rq, dc_org = pa_org ctx, dc_flow = fid, dc_node = None, dc_kind = renewal_kind,
      dc_actor_id = pa_actor ctx, dc_actor_role = pa_role ctx, dc_actor_kind = ''human'',
      dc_reason = Some (rn_record sv doc (rn_now sv) snapshot (rr_reason rq)), dc_rejection = None, dc_from = None,
      dc_to = None, dc_created = rn_now sv\<rparr>"

text \<open>A repeated request is answered from its receipt, if that still is about the plan in force.\<close>

definition renewal_repeated :: "approval_context \<Rightarrow> plan_row \<Rightarrow> decision_row \<Rightarrow> pyexc + unit" where
  "renewal_repeated ctx plan old =
     (if dc_org old \<noteq> pa_org ctx \<or> dc_actor_id old \<noteq> pa_actor ctx \<or> dc_kind old \<noteq> renewal_kind
      then Inl WindowRenewalError
      else and_then (loads (dc_reason old)) (\<lambda>j.
        (case jfields j of None \<Rightarrow> Inl TypeError
         | Some fs \<Rightarrow>
             (case (map_of fs ''plan_version'', map_of fs ''plan_hash'') of
                (Some v, Some h) \<Rightarrow>
                  if v = JInt (pl_version plan) \<and> h = JStr (pl_hash plan) then Inr () else Inl WindowRenewalError
              | _ \<Rightarrow> Inl KeyError))))"

definition renewal_written ::
    "renewal_services \<Rightarrow> string \<Rightarrow> approval_context \<Rightarrow> renewal_request \<Rightarrow> (db, unit) op" where
  "renewal_written sv fid ctx rq d =
     (case rn_prepare sv d fid ctx rq of Inl e \<Rightarrow> (Inl e, d)
      | Inr (snapshot, doc) \<Rightarrow>
          if rr_snapshot rq \<noteq> Some snapshot then (Inl WindowRenewalError, d)
          else (case advance_deadlines (rn_digest sv) doc (rd_deadlines doc) d of
              (Inl e, d1) \<Rightarrow> (Inl e, d1)
            | (Inr _, d1) \<Rightarrow>
                if stamp (rd_before doc) \<le> stamp (rn_now sv) \<and> \<not> rr_resume rq then (Inl WindowRenewalError, d1)
                else if stamp (rr_expires rq) \<le> stamp (rn_now sv) then (Inl WindowRenewalError, d1)
                else (Inr (), d1\<lparr>decisions := decisions d1 @ [renewal_decision sv fid ctx rq snapshot doc]\<rparr>)))"

definition accept_window_renewal ::
    "renewal_services \<Rightarrow> string \<Rightarrow> approval_context \<Rightarrow> renewal_request \<Rightarrow> (db, unit) op" where
  "accept_window_renewal sv fid ctx rq d =
     (if pa_kind ctx \<noteq> HUMAN \<or> pa_role ctx \<noteq> ''platform_admin'' then (Inl WindowRenewalError, d)
      else if rr_snapshot rq = None then (Inl WindowRenewalError, d)
      else nested (\<lambda>d.
        case current_plan d fid ctx of Inl e \<Rightarrow> (Inl e, d)
        | Inr (_, plan) \<Rightarrow>
            (case get_decision d (rn_identity sv fid ctx rq) of
               Some old \<Rightarrow> (renewal_repeated ctx plan old, d)
             | None \<Rightarrow> renewal_written sv fid ctx rq d)) d)"

text \<open>\<open>gate_execution.renew\<close>: the window that was reviewed, under its own preview.\<close>

definition renew :: "renewal_services \<Rightarrow> string \<Rightarrow> approval_context \<Rightarrow> json \<Rightarrow> (db, unit) op" where
  "renew sv fid ctx request d =
     (case rn_parse sv request of None \<Rightarrow> (Inl ValueError, d)
      | Some rq \<Rightarrow>
          (case rn_prepare sv d fid ctx rq of Inl e \<Rightarrow> (Inl e, d)
           | Inr (snapshot, _) \<Rightarrow> accept_window_renewal sv fid ctx (rq\<lparr>rr_snapshot := Some snapshot\<rparr>) d))"

section \<open>Accepting an evaluation\<close>

record acceptance_request =
  qr_node :: string
  qr_version :: int
  qr_hash :: string
  qr_snapshot :: "string option"
  qr_body :: json

record acceptance_services =
  qs_parse :: "json \<Rightarrow> acceptance_request option"
  qs_latest :: "db \<Rightarrow> node_row \<Rightarrow> plan_row \<Rightarrow> pyexc + string option"
  qs_same :: "acceptance_request \<Rightarrow> json \<Rightarrow> pyexc + bool"
  qs_preview :: "db \<Rightarrow> string \<Rightarrow> approval_context \<Rightarrow> acceptance_request \<Rightarrow> pyexc + string \<times> jtext"
  qs_identity :: "string \<Rightarrow> approval_context \<Rightarrow> acceptance_request \<Rightarrow> string"
  qs_now :: pydt

definition acceptance_kind :: string where
  "acceptance_kind = ''evaluation_contract_accepted''"

text \<open>The flow, the plan and the evaluation node of a request, as the waiver reads them.\<close>

definition acceptance_target ::
    "db \<Rightarrow> string \<Rightarrow> approval_context \<Rightarrow> acceptance_request \<Rightarrow> pyexc + plan_row \<times> node_row" where
  "acceptance_target d fid ctx rq =
     and_then (current_target d fid
         \<lparr>ap_actor = pa_actor ctx, ap_role = pa_role ctx, ap_kind = pa_kind ctx, ap_org = pa_org ctx\<rparr>
         \<lparr>wr_node = qr_node rq, wr_version = qr_version rq, wr_hash = qr_hash rq, wr_criteria = [], wr_reason = [],
          wr_snapshot = qr_snapshot rq\<rparr>)
       (\<lambda>(_, p, n). Inr (p, n))"

definition acceptance_decision ::
    "acceptance_services \<Rightarrow> string \<Rightarrow> approval_context \<Rightarrow> acceptance_request \<Rightarrow> jtext \<Rightarrow> decision_row" where
  "acceptance_decision sv fid ctx rq content =
     \<lparr>dc_id = qs_identity sv fid ctx rq, dc_org = pa_org ctx, dc_flow = fid, dc_node = Some (qr_node rq),
      dc_kind = acceptance_kind, dc_actor_id = pa_actor ctx, dc_actor_role = pa_role ctx, dc_actor_kind = ''human'',
      dc_reason = Some content, dc_rejection = None, dc_from = None, dc_to = None, dc_created = qs_now sv\<rparr>"

definition acceptance_repeated ::
    "acceptance_services \<Rightarrow> db \<Rightarrow> string \<Rightarrow> approval_context \<Rightarrow> acceptance_request \<Rightarrow> plan_row \<Rightarrow> node_row \<Rightarrow> decision_row
     \<Rightarrow> pyexc + unit" where
  "acceptance_repeated sv d fid ctx rq p n old =
     requires (dc_org old = pa_org ctx \<and> dc_flow old = fid \<and> dc_node old = Some (qr_node rq)
         \<and> dc_kind old = acceptance_kind \<and> dc_actor_kind old = ''human'' \<and> dc_actor_id old = pa_actor ctx)
       ''acceptance_identity_conflict''
      (and_then (qs_latest sv d n p) (\<lambda>latest.
       requires (latest = Some (dc_id old)) ''evaluation_contract_superseded''
        (and_then (loads (dc_reason old)) (\<lambda>content. and_then (qs_same sv rq content) (\<lambda>same.
          requires same ''acceptance_identity_conflict'' (Inr ()))))))"

definition accept_evaluation ::
    "acceptance_services \<Rightarrow> string \<Rightarrow> approval_context \<Rightarrow> acceptance_request \<Rightarrow> (db, unit) op" where
  "accept_evaluation sv fid ctx rq =
     nested (\<lambda>d.
       if qr_snapshot rq = None then (Inl (EvaluationAcceptanceError ''preview_snapshot_required''), d)
       else (case acceptance_target d fid ctx rq of Inl e \<Rightarrow> (Inl e, d)
        | Inr (p, n) \<Rightarrow>
            (case get_decision d (qs_identity sv fid ctx rq) of
               Some old \<Rightarrow> (acceptance_repeated sv d fid ctx rq p n old, d)
             | None \<Rightarrow>
                 (case qs_preview sv d fid ctx rq of Inl e \<Rightarrow> (Inl e, d)
                  | Inr (snapshot, content) \<Rightarrow>
                      if qr_snapshot rq \<noteq> Some snapshot
                      then (Inl (EvaluationAcceptanceError ''evaluation_snapshot_changed''), d)
                      else (Inr (), d\<lparr>decisions := decisions d @ [acceptance_decision sv fid ctx rq content]\<rparr>)))))"

definition accept_grant :: "acceptance_services \<Rightarrow> string \<Rightarrow> approval_context \<Rightarrow> json \<Rightarrow> (db, unit) op" where
  "accept_grant sv fid ctx grant d =
     (case qs_parse sv grant of None \<Rightarrow> (Inl ValueError, d) | Some rq \<Rightarrow> accept_evaluation sv fid ctx rq d)"

section \<open>What they may write\<close>

text \<open>
  Decisions of the given kinds are appended, and executions change nothing but their deadline and, by
  going up, their revision.
\<close>

definition deadline_moved :: "execution_row \<Rightarrow> execution_row \<Rightarrow> bool" where
  "deadline_moved r s \<longleftrightarrow> s = r\<lparr>ex_deadline := ex_deadline s, ex_revision := ex_revision s\<rparr>
     \<and> ex_revision r \<le> ex_revision s"

definition extends :: "string set \<Rightarrow> db \<Rightarrow> db \<Rightarrow> bool" where
  "extends K d e \<longleftrightarrow> (\<exists>ds xs. e = d\<lparr>executions := xs, decisions := decisions d @ ds\<rparr>
     \<and> list_all2 deadline_moved (executions d) xs \<and> (\<forall>r \<in> set ds. dc_kind r \<in> K))"

definition side_kinds :: "string set" where
  "side_kinds = {renewal_kind, acceptance_kind}"

lemma deadline_moved_refl [simp]: "deadline_moved r r"
  by (simp add: deadline_moved_def)

lemma deadline_moved_trans: "deadline_moved r s \<Longrightarrow> deadline_moved s t \<Longrightarrow> deadline_moved r t"
  by (cases r; cases s; cases t) (simp add: deadline_moved_def)

lemma deadlines_refl: "list_all2 deadline_moved rs rs"
  by (simp add: list_all2_same)

lemma deadlines_trans: "list_all2 deadline_moved xs ys \<Longrightarrow> list_all2 deadline_moved ys zs \<Longrightarrow> list_all2 deadline_moved xs zs"
  using list_all2_trans [of deadline_moved deadline_moved deadline_moved] deadline_moved_trans by blast

lemma extends_refl [simp]: "extends K d d"
  unfolding extends_def by (intro exI [of _ "[]"] exI [of _ "executions d"]) (simp add: deadlines_refl)

lemma extends_trans:
  assumes "extends K d e" "extends K e f"
  shows "extends K d f"
proof -
  obtain ds xs where e: "e = d\<lparr>executions := xs, decisions := decisions d @ ds\<rparr>"
      "list_all2 deadline_moved (executions d) xs" "\<forall>r \<in> set ds. dc_kind r \<in> K"
    using assms(1) unfolding extends_def by blast
  obtain es ys where f: "f = e\<lparr>executions := ys, decisions := decisions e @ es\<rparr>"
      "list_all2 deadline_moved (executions e) ys" "\<forall>r \<in> set es. dc_kind r \<in> K"
    using assms(2) unfolding extends_def by blast
  have "list_all2 deadline_moved (executions d) ys" using deadlines_trans e(1,2) f(2) by simp
  then show ?thesis unfolding extends_def
    using e(3) f(3) by (intro exI [of _ "ds @ es"] exI [of _ ys]) (auto simp: e(1) f(1))
qed

lemma extends_decision: "dc_kind r \<in> K \<Longrightarrow> extends K d (d\<lparr>decisions := decisions d @ [r]\<rparr>)"
  unfolding extends_def by (intro exI [of _ "[r]"] exI [of _ "executions d"]) (simp add: deadlines_refl)

lemma nested_extends: "extends K d (snd (f d)) \<Longrightarrow> extends K d (snd (nested f d))"
  by (cases "f d"; cases "fst (f d)") (auto simp: nested_def)

lemma move_deadline_extends: "extends K d (move_deadline x limit d)"
  unfolding extends_def
  by (intro exI [of _ "[]"] exI [of _ "executions (move_deadline x limit d)"])
    (simp add: move_deadline_def update_where_def list_all2_map2 list_all2_same deadline_moved_def)

lemma advance_deadlines_extends: "extends K d (snd (advance_deadlines dg doc xs d))"
proof (induction xs arbitrary: d)
  case (Cons x xs)
  have "extends K d (snd (advance_deadlines dg doc xs (move_deadline i limit d)))" for i limit
    using extends_trans [OF move_deadline_extends Cons.IH] .
  then show ?case by (simp split: option.split)
qed simp

lemma renewal_written_extends: "extends side_kinds d (snd (renewal_written sv fid ctx rq d))"
proof -
  have "extends side_kinds d (d1\<lparr>decisions := decisions d1 @ [renewal_decision sv fid ctx rq snapshot doc]\<rparr>)"
    if "extends side_kinds d d1" for snapshot doc d1
    by (rule extends_trans [OF that extends_decision]) (simp add: renewal_decision_def side_kinds_def)
  then show ?thesis
    using advance_deadlines_extends [of side_kinds d]
    by (auto simp: renewal_written_def split: sum.split prod.split) (metis snd_conv)+
qed

lemma renew_extends: "extends side_kinds d (snd (renew sv fid ctx j d))"
proof -
  have "extends side_kinds d (snd (accept_window_renewal sv fid ctx rq d))" for rq
  proof -
    let ?f = "\<lambda>d. case current_plan d fid ctx of Inl e \<Rightarrow> (Inl e, d)
        | Inr (_, plan) \<Rightarrow>
            (case get_decision d (rn_identity sv fid ctx rq) of
               Some old \<Rightarrow> (renewal_repeated ctx plan old, d)
             | None \<Rightarrow> renewal_written sv fid ctx rq d)"
    have "extends side_kinds d (snd (?f d))"
      using renewal_written_extends by (simp split: sum.split prod.split option.split)
    from nested_extends [where f = ?f, OF this] show ?thesis by (simp add: accept_window_renewal_def)
  qed
  then show ?thesis by (simp add: renew_def split: option.split sum.split prod.split)
qed

lemma accept_grant_extends: "extends side_kinds d (snd (accept_grant sv fid ctx j d))"
proof -
  have w: "extends side_kinds d (d\<lparr>decisions := decisions d @ [acceptance_decision sv fid ctx rq content]\<rparr>)" for rq content
    by (rule extends_decision) (simp add: acceptance_decision_def side_kinds_def)
  have "extends side_kinds d (snd (accept_evaluation sv fid ctx rq d))" for rq
    unfolding accept_evaluation_def
    by (rule nested_extends) (use w in \<open>simp split: sum.split prod.split option.split\<close>)
  then show ?thesis by (simp add: accept_grant_def split: option.split)
qed

end
