(* ===== verification/Gate_Answer.thy ===== *)
theory Gate_Answer
  imports Tick Registration Gate_Execution
begin

text \<open>
  Answering a gate (\<open>orchestration/adapters/github_comments.py\<close>, with the permission of
  \<open>admin/access_control.py\<close> and the route of \<open>orchestration/controls.py\<close>): one function for both input
  paths, which checks the authority of the who, the plan revision the answer is bound to, the
  evidence and the Product behind it, moves the node, records who decided, releases successors and
  grants a proposed policy.

  \<^item> The membership and role lookups, the parser of a stored plan, the identity lookup of a comment's
    author, the in-force policy reader and, of \<open>gate_execution.py\<close>, the preparation of the next step,
    are parameters; so is \<open>str.lower\<close> (\<open>ga_lower\<close>), which on a Unicode text may change its length.
  \<^item> An operation that raises leaves the caller to roll back; the route does (\<open>answer_gate\<close>).
\<close>

record token_context =
  tk_user :: string
  tk_org :: string
  tk_account :: string
  tk_source :: string
  tk_expires :: pydt
  tk_username :: string

text \<open>What \<open>prepare_gate_execution\<close> finds of the step behind a gate.\<close>

record gate_preparation =
  gp_required :: bool
  gp_ready :: bool
  gp_snapshot :: json
  gp_window :: json
  gp_grants :: "json list"

record gate_services =
  ga_member :: "db \<Rightarrow> string \<Rightarrow> string \<Rightarrow> string \<Rightarrow> bool option"
  ga_role :: "token_context \<Rightarrow> string"
  ga_identity :: "string \<Rightarrow> string \<Rightarrow> string option"
  ga_parse :: "json \<Rightarrow> proposal option"
  ga_policy_refused :: "db \<Rightarrow> string \<Rightarrow> string \<Rightarrow> bool"
  ga_prepare :: "db \<Rightarrow> node_row \<Rightarrow> approval_context \<Rightarrow> json \<Rightarrow> pyexc + gate_preparation"
  ga_renewal :: renewal_services
  ga_evaluations :: acceptance_services
  ga_lower :: "string \<Rightarrow> string"
  ga_compile :: compile_services
  ga_tick :: tick_env

datatype input_path = DASHBOARD | GITHUB_COMMENT

fun input_path_value :: "input_path \<Rightarrow> string" where
  "input_path_value DASHBOARD = ''dashboard''"
| "input_path_value GITHUB_COMMENT = ''github_comment''"

section \<open>The markers on the reason\<close>

text \<open>
  The positions at which a text holds a needle, as \<open>find\<close> from each next position finds them: the text
  searched is the lowered one, the text changed the given one, so a position behind its end raises.
\<close>

definition found_at :: "string \<Rightarrow> string \<Rightarrow> nat list" where
  "found_at needle s = filter (\<lambda>i. starts needle (drop i s)) [0..<length s]"

fun close_at :: "nat list \<Rightarrow> string \<Rightarrow> pyexc + string" where
  "close_at [] out = Inr out"
| "close_at (i # is) out = (if i < length out then close_at is (out[i := CHR ''('']) else Inl IndexError)"

definition neutralize_marker :: "(string \<Rightarrow> string) \<Rightarrow> string \<Rightarrow> pyexc + string" where
  "neutralize_marker lower given =
     (let lowered = lower given in
      close_at (found_at ''[input-path='' lowered @ found_at ''[plan-hash='' lowered) given)"

definition path_marker :: "input_path \<Rightarrow> string" where
  "path_marker path = ''[input-path='' @ input_path_value path @ '']''"

definition stamp_input_path ::
    "(string \<Rightarrow> string) \<Rightarrow> input_path \<Rightarrow> string option \<Rightarrow> string option \<Rightarrow> pyexc + string" where
  "stamp_input_path lower path comment bound =
     (let marker = path_marker path
            @ (case bound of None \<Rightarrow> [] | Some h \<Rightarrow> '' [plan-hash='' @ strip h @ '']'') in
      if \<not> truthy comment then Inr marker
      else and_then (neutralize_marker lower (the comment)) (\<lambda>t. Inr (marker @ '' '' @ take 2000 t)))"

definition hash_after :: "string \<Rightarrow> string \<Rightarrow> string option" where
  "hash_after prefix s =
     (if \<not> starts prefix s then None
      else let rest = drop (length prefix) s in
        if CHR '']'' \<in> set rest then Some (takeWhile (\<lambda>c. c \<noteq> CHR '']'') rest) else None)"

definition bound_plan_hash :: "string option \<Rightarrow> string option" where
  "bound_plan_hash comment =
     (if \<not> truthy comment then None
      else (case hash_after (path_marker DASHBOARD @ '' [plan-hash='') (the comment) of Some h \<Rightarrow> Some h
        | None \<Rightarrow> hash_after (path_marker GITHUB_COMMENT @ '' [plan-hash='') (the comment)))"

section \<open>Authority\<close>

definition workflow_permission :: "gate_services \<Rightarrow> db \<Rightarrow> pydt \<Rightarrow> token_context \<Rightarrow> string \<Rightarrow> bool option" where
  "workflow_permission sv d now c target =
     (if tk_account c \<noteq> ''human'' \<or> tk_source c \<noteq> ''jwt'' \<or> stamp (tk_expires c) \<le> stamp now
         \<or> tk_org c = [] \<or> target \<noteq> tk_org c then Some False
      else ga_member sv d (tk_user c) (tk_org c) (tk_username c))"

text \<open>\<open>check_permission(context, PLAN_APPROVE, target)\<close>: allowed only on a definite yes.\<close>

definition may_approve :: "gate_services \<Rightarrow> db \<Rightarrow> pydt \<Rightarrow> token_context \<Rightarrow> string \<Rightarrow> bool" where
  "may_approve sv d now c target \<longleftrightarrow> workflow_permission sv d now c target = Some True"

definition actor_kind_of :: "token_context \<Rightarrow> actor_kind" where
  "actor_kind_of c = (if tk_account c = ''human'' \<and> tk_source c = ''jwt'' then HUMAN else SERVICE)"

section \<open>Outcomes\<close>

datatype gate_status =
    APPLIED_ANSWER | IDEMPOTENT_REPLAY | REFUSED_NO_PERMISSION | REFUSED_ILLEGAL_TRANSITION
  | REFUSED_UNKNOWN_IDENTITY | REFUSED_NOT_FOUND | ALREADY_ANSWERED | REFUSED_STALE_PLAN
  | REFUSED_UNBOUND_POLICY_GRANT | REFUSED_PRODUCT

record gate_outcome =
  go_status :: gate_status
  go_node :: string
  go_decision :: "string option"

definition answer_target :: "bool \<Rightarrow> node_state" where
  "answer_target approve = (if approve then PASSED else REJECTED_AT_GATE)"

definition answer_kind :: "bool \<Rightarrow> string" where
  "answer_kind approve = (if approve then ''gate_approved'' else ''gate_rejected'')"

text \<open>A refusal of a member is recorded with who tried what.\<close>

definition record_refusal ::
    "gate_services \<Rightarrow> token_context \<Rightarrow> node_row \<Rightarrow> input_path \<Rightarrow> bool \<Rightarrow> string option \<Rightarrow> string \<Rightarrow> gate_status
     \<Rightarrow> (db, gate_outcome) op" where
  "record_refusal sv c n path approve comment why status d =
     (case stamp_input_path (ga_lower sv) path comment None of Inl e \<Rightarrow> (Inl e, d)
      | Inr stamped \<Rightarrow>
          (let (r, d1) = append_decision (cs_mint (ga_compile sv)) (tk_org c) (nd_flow n) (Some (nd_id n))
                ''transition_rejected'' (tk_user c) (ga_role sv c) (actor_kind_value (actor_kind_of c))
                (Some (plain stamped)) (Some why) (Some (nd_state n)) (Some (node_state_value (answer_target approve))) d in
           (Inr \<lparr>go_status = status, go_node = nd_id n, go_decision = Some (dc_id r)\<rparr>, d1)))"

section \<open>The plan the answer is bound to\<close>

definition stale_plan_reason :: "db \<Rightarrow> string \<Rightarrow> string \<Rightarrow> string \<Rightarrow> pyexc + string option" where
  "stale_plan_reason d org fid expected =
     (let h = strip expected in
      if h = [] then Inr (Some ''the expected plan revision was empty, so it could not be checked'')
      else and_then (accepted_plan d org fid) (\<lambda>p.
        (case p of
           None \<Rightarrow> Inr (Some (''no plan is in force for this flow, so revision '' @ h @ '' could not be confirmed''))
         | Some q \<Rightarrow> Inr (if pl_hash q \<noteq> h
             then Some (''plan revision '' @ h @ '' is not the revision in force (version '' @ int_text (pl_version q) @ '')'')
             else None))))"

definition raw_reason :: "decision_row \<Rightarrow> string option" where
  "raw_reason r = map_option raw_text (dc_reason r)"

definition matching_bound_answer :: "db \<Rightarrow> string \<Rightarrow> node_row \<Rightarrow> string \<Rightarrow> bool \<Rightarrow> string \<Rightarrow> decision_row option" where
  "matching_bound_answer d org n who approve expected =
     find (\<lambda>r. bound_plan_hash (raw_reason r) = Some (strip expected))
       (rev (sort_key (\<lambda>r. stamp (dc_created r)) (filter (\<lambda>r. dc_org r = org \<and> dc_flow r = nd_flow n
          \<and> dc_node r = Some (nd_id n) \<and> dc_kind r = answer_kind approve \<and> dc_actor_id r = who
          \<and> dc_actor_kind r = ''human'') (decisions d))))"

section \<open>The grant of a proposed policy\<close>

definition proposed_policy_grant_target :: "gate_services \<Rightarrow> db \<Rightarrow> string \<Rightarrow> node_row \<Rightarrow> pyexc + proposal option" where
  "proposed_policy_grant_target sv d org n =
     and_then (accepted_plan d org (nd_flow n)) (\<lambda>in_force.
       (case in_force of None \<Rightarrow> Inr None
        | Some q \<Rightarrow> and_then (doc_fields (pl_document q)) (\<lambda>fs.
            if jget fs ''proposed_execution_policy'' = JNull then Inr None
            else (case ga_parse sv (pl_document q) of None \<Rightarrow> Inl PolicyNotAcceptableError
              | Some p \<Rightarrow> (case acceptance_gate_address p of None \<Rightarrow> Inr None
                  | Some a \<Rightarrow> Inr (if composed (lp_slug p) n = a then Some p else None))))))"

definition answer_context :: "gate_services \<Rightarrow> token_context \<Rightarrow> string \<Rightarrow> approval_context" where
  "answer_context sv c name = \<lparr>pa_org = tk_org c, pa_actor = tk_user c, pa_role = ga_role sv c, pa_username = name, pa_kind = HUMAN, pa_reason = None\<rparr>"

definition activate_proposed_policy ::
    "gate_services \<Rightarrow> token_context \<Rightarrow> node_row \<Rightarrow> string \<Rightarrow> (db, bool) op" where
  "activate_proposed_policy sv c n decision d =
     (let cs = ga_compile sv in
      case proposed_policy_grant_target sv d (tk_org c) n of Inl e \<Rightarrow> (Inl e, d)
      | Inr None \<Rightarrow> (Inr False, d)
      | Inr (Some p) \<Rightarrow>
          (case accept_execution_policy (cs_digest cs) (cs_now cs) (promote_proposed_policy p) (answer_context sv c []) ''plan_accepted'' of
             Inl e \<Rightarrow> (Inl e, d)
           | Inr granted \<Rightarrow>
               (case record_accepted_plan (cs_mint cs) (tk_org c) (nd_flow n) (cs_dump cs granted) (cs_hash cs granted) (Some decision) d of
                  (Inl e, d1) \<Rightarrow> (Inl e, d1) | (Inr _, d1) \<Rightarrow> (Inr True, d1))))"

section \<open>Evidence and Product\<close>

definition require_code :: "bool \<Rightarrow> string \<Rightarrow> pyexc + unit" where
  "require_code ok code = (if ok then Inr () else Inl (CycleBlockedError code))"

definition validate_human_gate_evidence ::
    "gate_services \<Rightarrow> db \<Rightarrow> node_row \<Rightarrow> json \<Rightarrow> pyexc + unit" where
  "validate_human_gate_evidence sv d n evidence_id =
     (let es = te_evals (ga_tick sv) in
      and_then (legacy_worker_gate es d n) (\<lambda>legacy.
        if legacy then Inr ()
        else and_then (latest_human_gate_evidence d n) (\<lambda>kept.
          and_then (require_code (case kept of None \<Rightarrow> False | Some (r, _) \<Rightarrow> JStr (dc_id r) = evidence_id)
              ''evaluation_gate_evidence_not_reviewed'') (\<lambda>_.
          and_then (require_code (\<not> ga_policy_refused sv d (nd_org n) (nd_flow n)) ''evaluation_policy_unverifiable'') (\<lambda>_.
          and_then (human_evaluation es d n) (\<lambda>accepted.
            (case accepted of None \<Rightarrow> Inl (CycleBlockedError ''evaluation_human_contract_changed'')
             | Some (p, spec) \<Rightarrow> and_then (es_evidence es d n p spec) (\<lambda>current.
                 require_code (jeq current (snd (the kept))) ''evaluation_gate_evidence_changed''))))))))"

fun any_policy :: "plan_row list \<Rightarrow> pyexc + bool" where
  "any_policy [] = Inr False"
| "any_policy (p # ps) = and_then (doc_fields (pl_document p)) (\<lambda>fs.
     if jtruthy (jget fs ''execution_policy'') then Inr True else any_policy ps)"

definition flow_ever_had_execution_policy :: "db \<Rightarrow> node_row \<Rightarrow> pyexc + bool" where
  "flow_ever_had_execution_policy d n = any_policy (filter (\<lambda>p. pl_org p = nd_org n \<and> pl_flow p = nd_flow n) (plans d))"

text \<open>\<open>(execution_preview or {}).get(key)\<close>.\<close>

definition reviewed_field :: "json option \<Rightarrow> string \<Rightarrow> json" where
  "reviewed_field reviewed k = (case reviewed of Some (JObj fs) \<Rightarrow> jget fs k | _ \<Rightarrow> JNull)"

definition evaluation_evidence_checked :: "gate_services \<Rightarrow> db \<Rightarrow> node_row \<Rightarrow> json option \<Rightarrow> pyexc + unit" where
  "evaluation_evidence_checked sv d n preview =
     and_then (latest_human_gate_evidence d n) (\<lambda>kept.
     and_then (if kept \<noteq> None then Inr True
               else and_then (flow_ever_had_execution_policy d n) (\<lambda>ever.
                 if ever then Inr True else and_then (human_evaluation (te_evals (ga_tick sv)) d n) (\<lambda>h. Inr (h \<noteq> None)))) (\<lambda>bound.
       if bound then validate_human_gate_evidence sv d n (reviewed_field preview ''evidence_id'') else Inr ()))"

text \<open>\<open>except (CycleBlockedError, ValueError)\<close>: the refusal it becomes.\<close>

definition evidence_refusal :: "pyexc \<Rightarrow> string option" where
  "evidence_refusal e = (case e of CycleBlockedError code \<Rightarrow> Some code
     | _ \<Rightarrow> if is_value_error e then Some ''evaluation_gate_evidence_unverifiable'' else None)"

text \<open>Whether the Product of the plan in force allows the approval; only its own refusal is caught.\<close>

definition product_refused :: "gate_services \<Rightarrow> db \<Rightarrow> token_context \<Rightarrow> node_row \<Rightarrow> pyexc + bool" where
  "product_refused sv d c n =
     and_then (accepted_plan d (tk_org c) (nd_flow n)) (\<lambda>in_force.
       (case in_force of None \<Rightarrow> Inr False
        | Some q \<Rightarrow> and_then (doc_fields (pl_document q)) (\<lambda>fs.
            (case jget fs ''product_id'' of
               JNull \<Rightarrow> and_then (is_legacy_acceptance d in_force) (\<lambda>legacy. Inr (\<not> legacy))
             | JStr i \<Rightarrow>
                 if tk_account c \<noteq> ''human'' then Inr True
                 else (case cs_product (ga_compile sv) (answer_context sv c (tk_username c)) i of None \<Rightarrow> Inr False
                   | Some ProposalRejectedError \<Rightarrow> Inr True | Some e \<Rightarrow> Inl e)
             | _ \<Rightarrow> Inr True))))"

section \<open>The transition\<close>

definition gate_transition :: "string \<Rightarrow> string \<Rightarrow> string \<Rightarrow> bool \<Rightarrow> string option \<Rightarrow> (db, nat \<times> bool \<times> string option) op" where
  "gate_transition node org observed approve comment d =
     (if observed \<noteq> ''awaiting_gate''
      then (Inr (0, False, Some (''node is in '' @ CHR 0x27 # observed @ [CHR 0x27] @ '', not '' @ CHR 0x27 # ''awaiting_gate''
              @ [CHR 0x27] @ ''; only a node awaiting a gate can be answered'')), d)
      else (case transition_raw no_proofs observed (node_state_value (answer_target approve)) ''human''
              (case comment of None \<Rightarrow> [] | Some s \<Rightarrow> s) of
          Inl e \<Rightarrow> (Inl e, d)
        | Inr result \<Rightarrow>
            if \<not> allowed result then (Inr (0, False, rejection_reason result), d)
            else let hit = guarded node org observed in
              (Inr (length (filter hit (nodes d)), True, None),
               d\<lparr>nodes := update_where hit (\<lambda>n. n\<lparr>nd_state := node_state_value (answer_target approve)\<rparr>) (nodes d)\<rparr>)))"

section \<open>What follows an applied answer\<close>

fun accept_each :: "(json \<Rightarrow> (db, unit) op) \<Rightarrow> json list \<Rightarrow> (db, unit) op" where
  "accept_each f [] d = (Inr (), d)"
| "accept_each f (g # gs) d = (case f g d of (Inl e, d1) \<Rightarrow> (Inl e, d1) | (Inr _, d1) \<Rightarrow> accept_each f gs d1)"

definition authorize_gate_execution ::
    "gate_services \<Rightarrow> node_row \<Rightarrow> approval_context \<Rightarrow> json option \<Rightarrow> (db, unit) op" where
  "authorize_gate_execution sv n ctx reviewed d =
     (case ga_prepare sv d n ctx (reviewed_field reviewed ''window_request'') of Inl e \<Rightarrow> (Inl e, d)
      | Inr p \<Rightarrow>
          if (case flow_for d (nd_org n) (nd_flow n) of None \<Rightarrow> True | Some f \<Rightarrow> fl_archived f \<noteq> None)
          then (Inl PolicyNotAcceptableError, d)
          else if \<not> gp_required p then (Inr (), d)
          else if \<not> gp_ready p then (Inl PolicyNotAcceptableError, d)
          else if reviewed = None \<or> \<not> jeq (reviewed_field reviewed ''snapshot'') (gp_snapshot p)
          then (Inl PolicyNotAcceptableError, d)
          else (case (if jtruthy (gp_window p) then renew (ga_renewal sv) (nd_flow n) ctx (gp_window p) d else (Inr (), d)) of
              (Inl e, d1) \<Rightarrow> (Inl e, d1)
            | (Inr _, d1) \<Rightarrow> accept_each (accept_grant (ga_evaluations sv) (nd_flow n) ctx) (gp_grants p) d1))"

text \<open>The errors of the execution check that are refusals of the approval.\<close>

definition execution_error :: "pyexc \<Rightarrow> pyexc" where
  "execution_error e = (case e of EvaluationAcceptanceError _ \<Rightarrow> PolicyNotAcceptableError
     | WindowRenewalError \<Rightarrow> PolicyNotAcceptableError | CycleBlockedError _ \<Rightarrow> PolicyNotAcceptableError | _ \<Rightarrow> e)"

definition after_answer ::
    "gate_services \<Rightarrow> token_context \<Rightarrow> node_row \<Rightarrow> input_path \<Rightarrow> bool \<Rightarrow> string option \<Rightarrow> string option \<Rightarrow> json option
     \<Rightarrow> (db, gate_outcome) op" where
  "after_answer sv c n path approve comment expected preview d =
     (case (if approve then authorize_gate_execution sv n (answer_context sv c []) preview d else (Inr (), d)) of
        (Inl e, d1) \<Rightarrow> (Inl (execution_error e), d1)
      | (Inr _, d1) \<Rightarrow>
        (case stamp_input_path (ga_lower sv) path comment expected of Inl e \<Rightarrow> (Inl e, d1) | Inr stamped \<Rightarrow>
        (let (r, d2) = append_decision (cs_mint (ga_compile sv)) (tk_org c) (nd_flow n) (Some (nd_id n)) (answer_kind approve)
                (tk_user c) (ga_role sv c) ''human'' (Some (plain stamped)) None
                (Some (nd_state n)) (Some (node_state_value (answer_target approve))) d1;
             applied = \<lparr>go_status = APPLIED_ANSWER, go_node = nd_id n, go_decision = Some (dc_id r)\<rparr> in
         case (if approve \<and> nd_kind n = ''eval'' then release_satisfied_successors (ga_tick sv) n d2 else (Inr empty_report, d2)) of
           (Inl e, d3) \<Rightarrow> (Inl e, d3)
         | (Inr _, d3) \<Rightarrow>
             if \<not> (approve \<and> expected \<noteq> None) then (Inr applied, d3)
             else (case activate_proposed_policy sv c n (dc_id r) d3 of
                 (Inl e, d4) \<Rightarrow> (Inl e, d4) | (Inr _, d4) \<Rightarrow> (Inr applied, d4)))))"

section \<open>Answering\<close>

definition move_and_record ::
    "gate_services \<Rightarrow> token_context \<Rightarrow> node_row \<Rightarrow> input_path \<Rightarrow> bool \<Rightarrow> string option \<Rightarrow> string option \<Rightarrow> json option
     \<Rightarrow> (db, gate_outcome) op" where
  "move_and_record sv c n path approve comment expected preview d =
     (case gate_transition (nd_id n) (tk_org c) (nd_state n) approve comment d of
        (Inl e, d1) \<Rightarrow> (Inl e, d1)
      | (Inr (_, False, why), d1) \<Rightarrow>
          record_refusal sv c n path approve comment (or_else why ''transition refused'') REFUSED_ILLEGAL_TRANSITION d1
      | (Inr (rows, True, _), d1) \<Rightarrow>
          if rows = 0 then (Inr \<lparr>go_status = ALREADY_ANSWERED, go_node = nd_id n, go_decision = None\<rparr>, d1)
          else after_answer sv c n path approve comment expected preview d1)"

definition unbound_grant_refusal :: "gate_services \<Rightarrow> db \<Rightarrow> string \<Rightarrow> node_row \<Rightarrow> pyexc + bool" where
  "unbound_grant_refusal sv d org n =
     (case proposed_policy_grant_target sv d org n of
        Inl PolicyNotAcceptableError \<Rightarrow> Inr True | Inl e \<Rightarrow> Inl e | Inr t \<Rightarrow> Inr (t \<noteq> None))"

text \<open>From the second revision check on; the first refusal that applies is the answer.\<close>

definition checked_answer ::
    "gate_services \<Rightarrow> token_context \<Rightarrow> node_row \<Rightarrow> input_path \<Rightarrow> bool \<Rightarrow> string option \<Rightarrow> string option \<Rightarrow> json option
     \<Rightarrow> (db, gate_outcome) op" where
  "checked_answer sv c n path approve comment expected preview d =
     (let refuse = (\<lambda>why status. record_refusal sv c n path approve comment why status d);
          waits = (nd_state n = ''awaiting_gate'') in
      case (if approve \<and> expected = None then unbound_grant_refusal sv d (tk_org c) n else Inr False) of
        Inl e \<Rightarrow> (Inl e, d)
      | Inr True \<Rightarrow> refuse ''an unbound approval would arm the plan with its bounds inert'' REFUSED_UNBOUND_POLICY_GRANT
      | Inr False \<Rightarrow>
          (case (if approve \<and> nd_kind n = ''eval'' \<and> waits then evaluation_evidence_checked sv d n preview else Inr ()) of
             Inl e \<Rightarrow> (case evidence_refusal e of None \<Rightarrow> (Inl e, d) | Some why \<Rightarrow> refuse why REFUSED_STALE_PLAN)
           | Inr _ \<Rightarrow>
               (case (if approve \<and> waits then product_refused sv d c n else Inr False) of
                  Inl e \<Rightarrow> (Inl e, d)
                | Inr True \<Rightarrow> (Inr \<lparr>go_status = REFUSED_PRODUCT, go_node = nd_id n, go_decision = None\<rparr>, d)
                | Inr False \<Rightarrow> move_and_record sv c n path approve comment expected preview d)))"

definition apply_gate_answer_for_context ::
    "gate_services \<Rightarrow> token_context \<Rightarrow> string \<Rightarrow> input_path \<Rightarrow> bool \<Rightarrow> string option \<Rightarrow> string option \<Rightarrow> json option
     \<Rightarrow> (db, gate_outcome) op" where
  "apply_gate_answer_for_context sv c node path approve comment expected preview d =
     (case find (\<lambda>n. nd_org n = tk_org c \<and> nd_id n = node) (nodes d) of
        None \<Rightarrow> (Inr \<lparr>go_status = REFUSED_NOT_FOUND, go_node = node, go_decision = None\<rparr>, d)
      | Some n \<Rightarrow>
          (let refuse = (\<lambda>why status. record_refusal sv c n path approve comment why status d) in
           if \<not> may_approve sv d (cs_now (ga_compile sv)) c (tk_org c)
           then refuse ''plan:approve is required to answer a gate'' REFUSED_NO_PERMISSION
           else (case expected of None \<Rightarrow> checked_answer sv c n path approve comment expected preview d
             | Some h \<Rightarrow>
                 (case (if nd_state n = ''awaiting_gate'' then None
                        else matching_bound_answer d (tk_org c) n (tk_user c) approve h) of
                    Some r \<Rightarrow> (Inr \<lparr>go_status = IDEMPOTENT_REPLAY, go_node = nd_id n, go_decision = Some (dc_id r)\<rparr>, d)
                  | None \<Rightarrow>
                      (case stale_plan_reason d (tk_org c) (nd_flow n) h of Inl e \<Rightarrow> (Inl e, d)
                       | Inr (Some why) \<Rightarrow> refuse why REFUSED_STALE_PLAN
                       | Inr None \<Rightarrow> checked_answer sv c n path approve comment expected preview d)))))"

text \<open>A comment: the author's platform identity in the org, never an administrator.\<close>

definition apply_gate_answer ::
    "gate_services \<Rightarrow> string \<Rightarrow> string \<Rightarrow> string \<Rightarrow> bool \<Rightarrow> string option \<Rightarrow> (db, gate_outcome) op" where
  "apply_gate_answer sv org node github_user approve comment d =
     (case ga_identity sv org github_user of
        None \<Rightarrow> (Inr \<lparr>go_status = REFUSED_UNKNOWN_IDENTITY, go_node = node, go_decision = None\<rparr>, d)
      | Some user \<Rightarrow>
          apply_gate_answer_for_context sv \<lparr>tk_user = user, tk_org = org, tk_account = ''human'', tk_source = ''jwt'',
            tk_expires = plus_seconds (cs_now (ga_compile sv)) 300, tk_username = []\<rparr> node GITHUB_COMMENT approve comment None None d)"

section \<open>The route\<close>

fun gate_status_code :: "gate_status \<Rightarrow> nat" where
  "gate_status_code APPLIED_ANSWER = 200"
| "gate_status_code IDEMPOTENT_REPLAY = 200"
| "gate_status_code ALREADY_ANSWERED = 409"
| "gate_status_code REFUSED_ILLEGAL_TRANSITION = 409"
| "gate_status_code REFUSED_NO_PERMISSION = 403"
| "gate_status_code REFUSED_PRODUCT = 422"
| "gate_status_code REFUSED_STALE_PLAN = 409"
| "gate_status_code REFUSED_UNBOUND_POLICY_GRANT = 409"
| "gate_status_code REFUSED_NOT_FOUND = 404"
| "gate_status_code REFUSED_UNKNOWN_IDENTITY = 404"

text \<open>
  \<open>_answer_gate\<close>: the store after the request. An exception is rolled back; a refusal keeps only the
  decision it recorded, which is all it wrote.
\<close>

definition answer_gate ::
    "gate_services \<Rightarrow> token_context \<Rightarrow> string \<Rightarrow> bool \<Rightarrow> string option \<Rightarrow> string option \<Rightarrow> json option \<Rightarrow> (db, gate_outcome) op" where
  "answer_gate sv c node approve comment expected preview d =
     (case apply_gate_answer_for_context sv c node DASHBOARD approve comment expected preview d of
        (Inl e, _) \<Rightarrow> (Inl (if e = PolicyNotAcceptableError \<or> e = ExpiredExecutionPolicyError then HTTPException 409 else e), d)
      | (Inr out, d1) \<Rightarrow>
          if gate_status_code (go_status out) = 200 then (Inr out, d1)
          else (Inl (HTTPException (gate_status_code (go_status out))), if go_decision out \<noteq> None then d1 else d))"

end
