(* ===== verification/Gate_Laws.thy ===== *)
theory Gate_Laws
  imports Gate_Answer Tick_Decisions Tick_Progress
begin

text \<open>
  What an answer to a gate does to the store: the markers of its reason, the one row it moves, and
  the split of \<open>apply_gate_answer_for_context\<close> into a refusal that records at most itself and an
  applied answer.
\<close>

section \<open>Markers\<close>

lemma starts_Cons: "starts (a # p) s \<longleftrightarrow> (\<exists>t. s = a # t \<and> starts p t)"
  by (cases s) (simp_all add: starts_def)

lemma starts_append: "starts p s \<longleftrightarrow> (\<exists>t. s = p @ t)"
proof
  assume p: "starts p s"
  have t: "take (length p) s = p" using p unfolding starts_def .
  have "take (length p) s @ drop (length p) s = s" by (rule append_take_drop_id)
  then have "p @ drop (length p) s = s" unfolding t .
  then have "s = p @ drop (length p) s" by (rule sym)
  then show "\<exists>t. s = p @ t" by (rule exI [of "\<lambda>t. s = p @ t"])
next
  assume "\<exists>t. s = p @ t"
  then show "starts p s" unfolding starts_def by fastforce
qed

text \<open>Closing positions keeps the length, changes nothing but to a parenthesis, and closes each of them.\<close>

lemma close_at_result:
  assumes "close_at is s = Inr t"
  shows "length t = length s" "\<forall>i < length s. t ! i = (if i \<in> set is then CHR ''('' else s ! i)"
proof -
  have "length t = length s \<and> (\<forall>i < length s. t ! i = (if i \<in> set is then CHR ''('' else s ! i))"
    using assms
  proof (induction "is" arbitrary: s)
    case (Cons k ks)
    then have k: "k < length s" and r: "close_at ks (s[k := CHR ''('']) = Inr t" by (auto split: if_splits)
    from Cons.IH [OF r] show ?case by (auto simp: nth_list_update)
  qed simp
  then show "length t = length s" "\<forall>i < length s. t ! i = (if i \<in> set is then CHR ''('' else s ! i)" by blast+
qed

lemma close_at_succeeds: "\<forall>i \<in> set is. i < length s \<Longrightarrow> \<exists>t. close_at is s = Inr t"
  by (induction "is" arbitrary: s) simp_all

text \<open>A text without parentheses that the neutralised text starts with, the text itself starts with.\<close>

lemma starts_neutralize:
  assumes "neutralize_marker lower s = Inr t" "CHR ''('' \<notin> set p" "starts p t"
  shows "starts p s"
proof -
  obtain ks where ks: "close_at ks s = Inr t" using assms(1) by (auto simp: neutralize_marker_def Let_def)
  note r = close_at_result [OF ks]
  have le: "length p \<le> length s" using assms(3) r(1) by (auto simp: starts_append)
  have "take (length p) t = take (length p) s"
  proof (rule nth_equalityI)
    fix i assume "i < length (take (length p) t)"
    then have i: "i < length p" "i < length s" using le r(1) by auto
    have "t ! i = p ! i" using assms(3) i(1) by (auto simp: starts_append nth_append)
    moreover have "p ! i \<noteq> CHR ''(''" using i(1) assms(2) nth_mem by metis
    ultimately have "t ! i = s ! i" using r(2) i(2) by (metis (full_types))
    then show "take (length p) t ! i = take (length p) s ! i" using i by simp
  qed (use le r(1) in simp)
  then show ?thesis using assms(3) by (simp add: starts_def)
qed

text \<open>What lowering has to respect: a text that opens with a system marker still does.\<close>

definition keeps_marker :: "(string \<Rightarrow> string) \<Rightarrow> bool" where
  "keeps_marker lower \<longleftrightarrow> (\<forall>s. starts ''[plan-hash='' s \<longrightarrow> starts ''[plan-hash='' (lower s))"

lemma no_forged_marker:
  assumes "keeps_marker lower" "neutralize_marker lower s = Inr t"
  shows "\<not> starts ''[plan-hash='' t"
proof
  assume f: "starts ''[plan-hash='' t"
  have "CHR ''('' \<notin> set ''[plan-hash=''" by code_simp
  from starts_neutralize [OF assms(2) this f] have s: "starts ''[plan-hash='' s" .
  then have l: "starts ''[plan-hash='' (lower s)" using assms(1) by (simp add: keeps_marker_def)
  then have "lower s \<noteq> []" by (auto simp: starts_append)
  then have at: "0 \<in> set (found_at ''[plan-hash='' (lower s))" using l by (simp add: found_at_def)
  obtain ks where ks: "close_at ks s = Inr t" "0 \<in> set ks"
    using assms(2) at by (auto simp: neutralize_marker_def Let_def)
  have "s \<noteq> []" using s by (auto simp: starts_append)
  then have "t ! 0 = CHR ''(''" using close_at_result(2) [OF ks(1)] ks(2) by simp
  then show False using f by (auto simp: starts_append)
qed

lemma neutralize_succeeds:
  assumes "length (lower s) \<le> length s"
  shows "\<exists>t. neutralize_marker lower s = Inr t"
  unfolding neutralize_marker_def Let_def by (rule close_at_succeeds) (use assms in \<open>auto simp: found_at_def\<close>)

lemma starts_take: "starts p (take n s) \<Longrightarrow> starts p s"
proof -
  assume "starts p (take n s)"
  then obtain t where "take n s = p @ t" by (auto simp: starts_append)
  then have "s = p @ t @ drop n s" using append_take_drop_id [of n s] by simp
  then show "starts p s" by (auto simp: starts_append)
qed

definition other_path :: "input_path \<Rightarrow> input_path" where
  "other_path p = (if p = DASHBOARD then GITHUB_COMMENT else DASHBOARD)"

lemma bound_hash_other: "hash_after (path_marker (other_path p) @ '' [plan-hash='') (path_marker p @ s) = None"
  by (cases p) (simp_all add: hash_after_def path_marker_def other_path_def starts_Cons)

lemma bound_hash_own:
  "bound_plan_hash (Some (path_marker p @ s)) = hash_after (path_marker p @ '' [plan-hash='') (path_marker p @ s)"
proof -
  have ne: "truthy (Some (path_marker p @ s))" by (simp add: path_marker_def)
  show ?thesis
    using ne bound_hash_other [of p s] by (cases p) (simp_all add: bound_plan_hash_def other_path_def split: option.splits)
qed

lemma hash_after_marker: "hash_after (m @ t) (m @ s) = hash_after t s"
  by (simp add: hash_after_def starts_append)

lemma stamp_cases:
  assumes "stamp_input_path lower p why bound = Inr t"
  obtains rest where "t = path_marker p @ (case bound of None \<Rightarrow> [] | Some h \<Rightarrow> '' [plan-hash='' @ strip h @ '']'') @ rest"
    "rest = [] \<or> (\<exists>s u. neutralize_marker lower s = Inr u \<and> rest = '' '' @ take 2000 u)"
  using assms that unfolding stamp_input_path_def Let_def
  by (cases "truthy why"; cases "neutralize_marker lower (the why)") (fastforce split: option.splits)+

lemma close_at_raises: "close_at is s = Inl e \<Longrightarrow> e = IndexError"
  by (induction "is" arbitrary: s) (auto split: if_splits)

lemma stamp_raises: "stamp_input_path lower p why bound = Inl e \<Longrightarrow> e = IndexError"
  by (cases "neutralize_marker lower (the why)")
    (auto simp: stamp_input_path_def Let_def neutralize_marker_def dest: close_at_raises split: if_splits)

lemma stamp_succeeds:
  assumes "\<forall>w. why = Some w \<longrightarrow> length (lower w) \<le> length w"
  shows "\<exists>t. stamp_input_path lower p why bound = Inr t"
proof (cases why)
  case (Some w)
  obtain t where "neutralize_marker lower w = Inr t" using neutralize_succeeds assms Some by blast
  then show ?thesis by (simp add: stamp_input_path_def Let_def Some)
qed (simp add: stamp_input_path_def Let_def)

lemma stamped_hash:
  assumes "stamp_input_path lower p why (Some h) = Inr t" "CHR '']'' \<notin> set (strip h)"
  shows "bound_plan_hash (Some t) = Some (strip h)"
proof -
  obtain rest where s: "t = path_marker p @ '' [plan-hash='' @ strip h @ CHR '']'' # rest"
    using assms(1) by (elim stamp_cases) simp
  have "takeWhile (\<lambda>c. c \<noteq> CHR '']'') (strip h @ CHR '']'' # rest) = strip h"
    using assms(2) by (subst takeWhile_append2) auto
  then have "hash_after '' [plan-hash='' ('' [plan-hash='' @ strip h @ CHR '']'' # rest) = Some (strip h)"
    by (simp add: hash_after_def starts_append)
  then show ?thesis by (simp only: s bound_hash_own hash_after_marker)
qed

lemma unbound_hash:
  assumes "keeps_marker lower" "stamp_input_path lower p why None = Inr t"
  shows "bound_plan_hash (Some t) = None"
proof -
  obtain rest where s: "t = path_marker p @ rest"
      and rest: "rest = [] \<or> (\<exists>s u. neutralize_marker lower s = Inr u \<and> rest = '' '' @ take 2000 u)"
    using assms(2) by (elim stamp_cases) simp
  have "\<not> starts '' [plan-hash='' rest"
  proof
    assume f: "starts '' [plan-hash='' rest"
    then have "rest \<noteq> []" by (auto simp: starts_append)
    with rest obtain s u where u: "neutralize_marker lower s = Inr u" "rest = CHR '' '' # take 2000 u" by auto
    with f have "starts ''[plan-hash='' (take 2000 u)" by (simp add: starts_append)
    from starts_take [OF this] no_forged_marker [OF assms(1) u(1)] show False by blast
  qed
  then have "hash_after '' [plan-hash='' rest = None" by (simp add: hash_after_def)
  then show ?thesis by (simp only: s bound_hash_own hash_after_marker)
qed

section \<open>The row an answer moves\<close>

definition answered_state :: "bool \<Rightarrow> string" where
  "answered_state approve = node_state_value (answer_target approve)"

lemma answered_state_value: "answered_state approve = (if approve then ''passed'' else ''rejected_at_gate'')"
  by (simp add: answered_state_def answer_target_def)

definition gate_answered :: "node_row \<Rightarrow> bool \<Rightarrow> db \<Rightarrow> db" where
  "gate_answered n approve d = d\<lparr>nodes := set_state (nd_id n) (answered_state approve) (nodes d)\<rparr>"

lemma human_answer_allowed:
  "\<exists>r. transition_raw no_proofs ''awaiting_gate'' (node_state_value (answer_target approve)) ''human'' why = Inr r
     \<and> allowed r"
proof -
  have p: "parse_node_state ''awaiting_gate'' = Some AWAITING_GATE"
    "parse_node_state (node_state_value (answer_target approve)) = Some (answer_target approve)"
    "parse_actor_kind ''human'' = Some HUMAN"
    unfolding parse_node_state_def parse_actor_kind_def node_text.parse_iff actor_text.parse_iff by simp_all
  have "allowed (transition no_proofs AWAITING_GATE (answer_target approve) HUMAN why)"
    by (cases approve) (simp_all add: answer_target_def transition_def table_actors_def
        recovered_actors_def no_proofs_def Let_def)
  then show ?thesis by (simp add: transition_raw_def p)
qed

lemma gate_transition_cases:
  assumes "gate_transition (nd_id n) (nd_org n) (nd_state n) approve why d = (x, e)" "n \<in> set (nodes d)"
    and "unique_on nd_id (nodes d)"
  shows "if nd_state n = ''awaiting_gate'' then x = Inr (1, True, None) \<and> e = gate_answered n approve d
    else e = d \<and> (\<exists>w. x = Inr (0, False, Some w))"
proof (cases "nd_state n = ''awaiting_gate''")
  case False
  then show ?thesis using assms(1) by (auto simp: gate_transition_def)
next
  case True
  let ?hit = "guarded (nd_id n) (nd_org n) (nd_state n)"
  obtain r where r: "transition_raw no_proofs ''awaiting_gate'' (node_state_value (answer_target approve)) ''human''
      (case why of None \<Rightarrow> [] | Some s \<Rightarrow> s) = Inr r" "allowed r"
    using human_answer_allowed by blast
  have hit: "?hit m \<longleftrightarrow> nd_id m = nd_id n" if "m \<in> set (nodes d)" for m
    by (rule guarded_only [OF assms(3,2) _ that]) (simp add: guarded_def)
  have "filter ?hit (nodes d) = filter (\<lambda>m. nd_id m = nd_id n) (nodes d)" using hit by (intro filter_cong) auto
  also have "\<dots> = [n]" using filter_key [OF assms(3)[unfolded unique_on_def] assms(2)] .
  finally have one: "length (filter ?hit (nodes d)) = 1" by simp
  have "update_where ?hit f (nodes d) = update_where (\<lambda>m. nd_id m = nd_id n) f (nodes d)" for f
    unfolding update_where_def using hit by (intro map_cong) auto
  then show ?thesis
    using assms(1) True r one by (simp add: gate_transition_def Let_def gate_answered_def set_state_def answered_state_def)
qed

section \<open>What else an approval may write\<close>

lemma accept_each_extends:
  assumes "\<And>j d. extends K d (snd (f j d))"
  shows "extends K d (snd (accept_each f js d))"
proof (induction js arbitrary: d)
  case (Cons j js)
  obtain x d1 where x: "f j d = (x, d1)" by force
  then have "extends K d d1" using assms [of d j] by simp
  with x Cons [of d1] extends_trans show ?case by (cases x) auto
qed simp

lemma authorize_extends: "extends side_kinds d (snd (authorize_gate_execution sv n ctx rv d))"
proof -
  have acc: "extends side_kinds d1 (snd (accept_each (accept_grant (ga_evaluations sv) fid ctx) js d1))" for fid js d1
    using accept_each_extends accept_grant_extends by blast
  have ren: "extends side_kinds d d1" if "renew (ga_renewal sv) fid ctx j d = (x, d1)" for fid j x d1
    using renew_extends that by (metis snd_conv)
  show ?thesis
    unfolding authorize_gate_execution_def
    by (auto split: sum.splits prod.splits option.splits intro: acc extends_trans [OF ren acc] dest: ren)
qed

section \<open>The grant writes plans only\<close>

lemma record_accepted_plan_frame:
  "record_accepted_plan mt org fid document hash decision d = (x, e) \<Longrightarrow> e = d\<lparr>plans := plans e\<rparr>"
  by (auto simp: record_accepted_plan_def Let_def split: sum.splits option.splits)

lemma activate_frame: "activate_proposed_policy sv c n decision d = (x, e) \<Longrightarrow> e = d\<lparr>plans := plans e\<rparr>"
  by (auto simp: activate_proposed_policy_def Let_def split: sum.splits option.splits prod.splits
      dest: record_accepted_plan_frame)

section \<open>Refusals\<close>

definition answer_refused :: "token_context \<Rightarrow> string \<Rightarrow> db \<Rightarrow> db \<Rightarrow> gate_outcome \<Rightarrow> bool" where
  "answer_refused c node d e out \<longleftrightarrow> go_status out \<noteq> APPLIED_ANSWER \<and> (e = d \<or> (\<exists>r. e = d\<lparr>decisions := decisions d @ [r]\<rparr>
     \<and> dc_kind r = ''transition_rejected'' \<and> dc_actor_id r = tk_user c \<and> dc_node r = Some node
     \<and> go_decision out = Some (dc_id r)))"

lemma record_refusal_only:
  assumes "record_refusal sv c n path approve why rejection status d = (Inr out, e)" "status \<noteq> APPLIED_ANSWER"
  shows "answer_refused c (nd_id n) d e out \<and> go_status out = status"
  using assms by (auto simp: record_refusal_def append_decision_def Let_def answer_refused_def split: sum.splits)

lemma move_and_record_cases:
  assumes "move_and_record sv c n path approve why expected preview d = (Inr out, e)" "n \<in> set (nodes d)"
    and "unique_on nd_id (nodes d)" "nd_org n = tk_org c"
  shows "nd_state n \<noteq> ''awaiting_gate'' \<and> answer_refused c (nd_id n) d e out
    \<or> nd_state n = ''awaiting_gate'' \<and> after_answer sv c n path approve why expected preview (gate_answered n approve d) = (Inr out, e)"
proof -
  obtain x d1 where g: "gate_transition (nd_id n) (nd_org n) (nd_state n) approve why d = (x, d1)" by force
  note cases = gate_transition_cases [OF g assms(2,3)]
  show ?thesis
  proof (cases "nd_state n = ''awaiting_gate''")
    case True
    with cases assms(1,4) g show ?thesis by (auto simp: move_and_record_def)
  next
    case False
    with cases obtain w where "x = Inr (0, False, Some w)" "d1 = d" by auto
    with assms(1,4) g False show ?thesis
      by (auto simp: move_and_record_def split: prod.splits dest!: record_refusal_only)
  qed
qed

lemma checked_answer_cases:
  assumes "checked_answer sv c n path approve why expected preview d = (Inr out, e)" "n \<in> set (nodes d)"
    and "unique_on nd_id (nodes d)" "nd_org n = tk_org c"
  shows "answer_refused c (nd_id n) d e out
    \<or> nd_state n = ''awaiting_gate'' \<and> after_answer sv c n path approve why expected preview (gate_answered n approve d) = (Inr out, e)"
proof -
  have product: "answer_refused c (nd_id n) d d \<lparr>go_status = REFUSED_PRODUCT, go_node = nd_id n, go_decision = None\<rparr>"
    by (simp add: answer_refused_def)
  from assms(1) consider "answer_refused c (nd_id n) d e out"
    | "move_and_record sv c n path approve why expected preview d = (Inr out, e)"
    using product unfolding checked_answer_def Let_def
    by (auto split: sum.splits bool.splits option.splits prod.splits if_splits dest!: record_refusal_only)
  then show ?thesis using move_and_record_cases [OF _ assms(2-4)] by cases blast+
qed

section \<open>An answer as a whole\<close>

definition bound_to :: "db \<Rightarrow> node_row \<Rightarrow> string option \<Rightarrow> bool" where
  "bound_to d n expected \<longleftrightarrow> (\<forall>h. expected = Some h \<longrightarrow>
     (\<exists>p. accepted_plan d (nd_org n) (nd_flow n) = Inr (Some p) \<and> pl_hash p = strip h))"

lemma not_stale: "stale_plan_reason d org fid h = Inr None \<Longrightarrow>
    \<exists>p. accepted_plan d org fid = Inr (Some p) \<and> pl_hash p = strip h"
  by (auto simp: stale_plan_reason_def Let_def and_then_Inr split: if_splits option.splits)

lemma answer_cases:
  assumes "apply_gate_answer_for_context sv c node path approve why expected preview d = (Inr out, e)" "nodes_unique d"
  shows "answer_refused c node d e out
    \<or> (\<exists>n \<in> set (nodes d). nd_id n = node \<and> nd_org n = tk_org c \<and> nd_state n = ''awaiting_gate''
        \<and> may_approve sv d (cs_now (ga_compile sv)) c (tk_org c) \<and> bound_to d n expected
        \<and> after_answer sv c n path approve why expected preview (gate_answered n approve d) = (Inr out, e))"
proof (cases "find (\<lambda>n. nd_org n = tk_org c \<and> nd_id n = node) (nodes d)")
  case None
  then have "e = d \<and> go_status out = REFUSED_NOT_FOUND"
    using assms(1) by (auto simp: apply_gate_answer_for_context_def)
  then show ?thesis by (simp add: answer_refused_def)
next
  case (Some n)
  then have n: "n \<in> set (nodes d)" "nd_org n = tk_org c" "nd_id n = node" using find_SomeD [OF Some] by auto
  have u: "unique_on nd_id (nodes d)" using assms(2) by (simp add: nodes_unique_def)
  note checked = checked_answer_cases [OF _ n(1) u n(2), unfolded n(3)]
  show ?thesis
  proof (cases "may_approve sv d (cs_now (ga_compile sv)) c (tk_org c)")
    case False
    then show ?thesis
      using assms(1) Some n(3) unfolding apply_gate_answer_for_context_def Let_def
      by (auto split: prod.splits dest!: record_refusal_only)
  next
    case True
    have replay: "answer_refused c node d d \<lparr>go_status = IDEMPOTENT_REPLAY, go_node = node, go_decision = i\<rparr>" for i
      by (simp add: answer_refused_def)
    from assms(1) consider "answer_refused c node d e out"
      | "checked_answer sv c n path approve why expected preview d = (Inr out, e)" "bound_to d n expected"
      using Some True replay n(2,3) unfolding apply_gate_answer_for_context_def Let_def bound_to_def
      by (auto split: option.splits sum.splits prod.splits if_splits dest!: record_refusal_only not_stale)
    then show ?thesis using checked True n by cases blast+
  qed
qed

text \<open>What an applied answer leaves: the decision, what the execution recorded before it, the engine after it.\<close>

definition answer_row :: "gate_services \<Rightarrow> token_context \<Rightarrow> node_row \<Rightarrow> input_path \<Rightarrow> bool \<Rightarrow> string option \<Rightarrow> string option
    \<Rightarrow> decision_row \<Rightarrow> bool" where
  "answer_row sv c n path approve why expected r \<longleftrightarrow> dc_org r = tk_org c \<and> dc_flow r = nd_flow n
     \<and> dc_node r = Some (nd_id n) \<and> dc_kind r = answer_kind approve \<and> dc_actor_id r = tk_user c
     \<and> dc_actor_role r = ga_role sv c \<and> dc_actor_kind r = ''human''
     \<and> (\<exists>t. stamp_input_path (ga_lower sv) path why expected = Inr t \<and> raw_reason r = Some t) \<and> dc_from r = Some (nd_state n)
     \<and> dc_to r = Some (answered_state approve) \<and> dc_created r = mt_now (cs_mint (ga_compile sv))"

lemma after_answer_effect:
  assumes "after_answer sv c n path approve why expected preview d = (Inr out, e)" "nodes_unique d"
  shows "go_status out = APPLIED_ANSWER \<and> (\<exists>ds ex r d3. answer_row sv c n path approve why expected r
    \<and> go_decision out = Some (dc_id r) \<and> (\<forall>x \<in> set ds. dc_kind x \<in> side_kinds)
    \<and> list_all2 deadline_moved (executions d) ex
    \<and> tick_grows (d\<lparr>executions := ex, decisions := decisions d @ ds @ [r]\<rparr>) d3
    \<and> service_adds (d\<lparr>executions := ex, decisions := decisions d @ ds @ [r]\<rparr>) d3 \<and> e = d3\<lparr>plans := plans e\<rparr>)"
proof -
  obtain x d1 where x: "(if approve then authorize_gate_execution sv n (answer_context sv c []) preview d else (Inr (), d)) = (x, d1)"
    by force
  have "extends side_kinds d d1"
    using authorize_extends [of d sv n "answer_context sv c []" preview] x by (auto split: if_splits)
  then obtain ds ex where ds: "d1 = d\<lparr>executions := ex, decisions := decisions d @ ds\<rparr>"
      "\<forall>x \<in> set ds. dc_kind x \<in> side_kinds" "list_all2 deadline_moved (executions d) ex"
    unfolding extends_def by blast
  from assms(1) x obtain u where u: "x = Inr u" unfolding after_answer_def by (cases x) auto
  with assms(1) x obtain stamped where st: "stamp_input_path (ga_lower sv) path why expected = Inr stamped"
    unfolding after_answer_def by (cases "stamp_input_path (ga_lower sv) path why expected") auto
  obtain r d2 where r: "append_decision (cs_mint (ga_compile sv)) (tk_org c) (nd_flow n) (Some (nd_id n)) (answer_kind approve)
      (tk_user c) (ga_role sv c) ''human'' (Some (plain stamped)) None
      (Some (nd_state n)) (Some (node_state_value (answer_target approve))) d1 = (r, d2)" by force
  have row: "answer_row sv c n path approve why expected r" and d2: "d2 = d\<lparr>executions := ex, decisions := decisions d @ ds @ [r]\<rparr>"
    using r by (auto simp: append_decision_def Let_def answer_row_def raw_reason_def plain_def answered_state_def ds(1) st)
  obtain y d3 where y: "(if approve \<and> nd_kind n = ''eval'' then release_satisfied_successors (ga_tick sv) n d2
      else (Inr empty_report, d2)) = (y, d3)" by force
  from assms(1) x u st r y obtain rep where rep: "y = Inr rep" unfolding after_answer_def by (cases y) auto
  have "nodes_unique d2" using assms(2) by (simp add: d2 nodes_unique_def)
  then have run: "(engine_step (ga_tick sv))\<^sup>*\<^sup>* d2 d3"
    using release_step y rep by (auto split: if_splits)
  have grows: "tick_grows d2 d3" using engine.run_grows [OF run \<open>nodes_unique d2\<close>] .
  have serv: "service_adds d2 d3" using engine_run_service [OF run] .
  have fin: "go_status out = APPLIED_ANSWER \<and> go_decision out = Some (dc_id r) \<and> e = d3\<lparr>plans := plans e\<rparr>"
    using assms(1) x u st r y rep unfolding after_answer_def Let_def
    by (auto split: prod.splits sum.splits if_splits dest: activate_frame)
  show ?thesis using fin row ds(2,3) grows serv d2 by blast
qed

text \<open>Of the plans, an applied answer changes what the activation of a proposed policy changes.\<close>

lemma after_answer_plans:
  assumes "after_answer sv c n path approve why expected preview d = (Inr out, e)" "nodes_unique d"
  shows "plans e = plans d \<or> (\<exists>d3 b i. plans d3 = plans d \<and> approve \<and> expected \<noteq> None
    \<and> activate_proposed_policy sv c n i d3 = (Inr b, e) \<and> go_decision out = Some i)"
proof -
  obtain x d1 where x: "(if approve then authorize_gate_execution sv n (answer_context sv c []) preview d else (Inr (), d)) = (x, d1)"
    by force
  have "extends side_kinds d d1"
    using authorize_extends [of d sv n "answer_context sv c []" preview] x by (auto split: if_splits)
  then have d1: "plans d1 = plans d" "nodes d1 = nodes d" by (auto simp: extends_def)
  from assms(1) x obtain u where u: "x = Inr u" unfolding after_answer_def by (cases x) auto
  with assms(1) x obtain stamped where st: "stamp_input_path (ga_lower sv) path why expected = Inr stamped"
    unfolding after_answer_def by (cases "stamp_input_path (ga_lower sv) path why expected") auto
  obtain r d2 where r: "append_decision (cs_mint (ga_compile sv)) (tk_org c) (nd_flow n) (Some (nd_id n)) (answer_kind approve)
      (tk_user c) (ga_role sv c) ''human'' (Some (plain stamped)) None
      (Some (nd_state n)) (Some (node_state_value (answer_target approve))) d1 = (r, d2)" by force
  then have d2: "plans d2 = plans d" "nodes_unique d2"
    using d1 assms(2) by (auto simp: append_decision_def Let_def nodes_unique_def)
  obtain y d3 where y: "(if approve \<and> nd_kind n = ''eval'' then release_satisfied_successors (ga_tick sv) n d2
      else (Inr empty_report, d2)) = (y, d3)" by force
  from assms(1) x u st r y obtain rep where rep: "y = Inr rep" unfolding after_answer_def by (cases y) auto
  then have run: "(engine_step (ga_tick sv))\<^sup>*\<^sup>* d2 d3"
    using release_step [OF d2(2)] y by (auto split: if_splits)
  have "plans d3 = plans d"
    using engine.run_grows [OF run d2(2)] d2(1) by (simp add: tick_grows_def rest_kept_def)
  then show ?thesis
    using assms(1) x u st r y rep unfolding after_answer_def Let_def
    by (auto split: prod.splits sum.splits if_splits)
qed

end
