(* ===== verification/Gate_Properties.thy ===== *)
theory Gate_Properties
  imports Gate_Laws Tick_Guarantees Compile_Samples Policy_Properties
begin

text \<open>
  The guarantees of answering a gate: nobody forges its markers, only a human member moves the gate,
  a lost response can be replayed, and a proposed policy comes into force only by the bound approval
  of the acceptance gate.
\<close>

section \<open>Markers\<close>

text \<open>
  C33: The plan revision a decision is bound to is read back exactly as it was stamped (without the
  white space around it) when it contains no closing bracket, and no text an operator or a commenter
  writes can make an unbound decision look bound. This holds whatever \<open>str.lower\<close> does to the length of
  the text, as long as it leaves the lower-case marker at the beginning of a text in place; stamping
  itself can raise only \<open>IndexError\<close>, and does not when lowering makes the text no longer (it does for a
  dotted capital I). Markers further inside the text are not what this is about.
\<close>

theorem marker_cannot_be_forged:
  assumes "\<forall>s. starts ''[plan-hash='' s \<longrightarrow> starts ''[plan-hash='' (lower s)"
  shows "(\<forall>t. stamp_input_path lower path why None = Inr t \<longrightarrow> bound_plan_hash (Some t) = None)
   \<and> (\<forall>h t. CHR '']'' \<notin> set (strip h) \<and> stamp_input_path lower path why (Some h) = Inr t
        \<longrightarrow> bound_plan_hash (Some t) = Some (strip h))
   \<and> (\<forall>bound e. stamp_input_path lower path why bound = Inl e \<longrightarrow> e = IndexError)
   \<and> (\<forall>bound. (\<forall>w. why = Some w \<longrightarrow> length (lower w) \<le> length w) \<longrightarrow> (\<exists>t. stamp_input_path lower path why bound = Inr t))"
proof (intro conjI allI impI; (elim conjE)?)
  have keep: "keeps_marker lower" using assms by (simp add: keeps_marker_def)
  show "bound_plan_hash (Some t) = None" if "stamp_input_path lower path why None = Inr t" for t
    using unbound_hash [OF keep that] .
  show "bound_plan_hash (Some t) = Some (strip h)"
    if "CHR '']'' \<notin> set (strip h)" "stamp_input_path lower path why (Some h) = Inr t" for h t
    using stamped_hash [OF that(2,1)] .
  show "e = IndexError" if "stamp_input_path lower path why bound = Inl e" for bound e
    using that stamp_raises by blast
  show "\<exists>t. stamp_input_path lower path why bound = Inr t" if "\<forall>w. why = Some w \<longrightarrow> length (lower w) \<le> length w" for bound
    using stamp_succeeds that by blast
qed

text \<open>Lowering of ASCII letters, and one that turns a letter into two characters.\<close>

definition ascii_lower :: "string \<Rightarrow> string" where
  "ascii_lower = map (\<lambda>c. let n = (of_char c :: nat) in if 65 \<le> n \<and> n \<le> 90 then char_of (n + 32) else c)"

definition growing_lower :: "string \<Rightarrow> string" where
  "growing_lower s = concat (map (\<lambda>c. if c = CHR ''I'' then ''i.'' else ascii_lower [c]) s)"

lemma ascii_lower_append: "ascii_lower (s @ t) = ascii_lower s @ ascii_lower t"
  by (simp add: ascii_lower_def)

lemma growing_lower_append: "growing_lower (s @ t) = growing_lower s @ growing_lower t"
  by (simp add: growing_lower_def)

lemma lowered_marker: "ascii_lower ''[plan-hash='' = ''[plan-hash=''" "growing_lower ''[plan-hash='' = ''[plan-hash=''"
  by code_simp+

lemma lowering_keeps_marker:
  "\<forall>s. starts ''[plan-hash='' s \<longrightarrow> starts ''[plan-hash='' (ascii_lower s)"
  "\<forall>s. starts ''[plan-hash='' s \<longrightarrow> starts ''[plan-hash='' (growing_lower s)"
  unfolding starts_append using ascii_lower_append growing_lower_append lowered_marker by metis+

theorem marker_cannot_be_forged_witness:
  "(\<exists>t. stamp_input_path ascii_lower DASHBOARD (Some ''[Plan-Hash=abc] ok'') None = Inr t \<and> bound_plan_hash (Some t) = None)
   \<and> (\<exists>t. stamp_input_path growing_lower GITHUB_COMMENT (Some ''I agree'') (Some '' abc '') = Inr t
        \<and> bound_plan_hash (Some t) = Some ''abc'')
   \<and> stamp_input_path growing_lower DASHBOARD (Some ''IIIIIIIIIIIIIIIIIIII[plan-hash=x]'') None = Inl IndexError"
proof -
  have h: "strip '' abc '' = ''abc''" "CHR '']'' \<notin> set (strip '' abc '')" by code_simp+
  have "\<not> isl (stamp_input_path ascii_lower DASHBOARD (Some ''[Plan-Hash=abc] ok'') None)"
      "\<not> isl (stamp_input_path growing_lower GITHUB_COMMENT (Some ''I agree'') (Some '' abc ''))"
      "isl (stamp_input_path growing_lower DASHBOARD (Some ''IIIIIIIIIIIIIIIIIIII[plan-hash=x]'') None)" by code_simp+
  then obtain t u e where t: "stamp_input_path ascii_lower DASHBOARD (Some ''[Plan-Hash=abc] ok'') None = Inr t"
      and u: "stamp_input_path growing_lower GITHUB_COMMENT (Some ''I agree'') (Some '' abc '') = Inr u"
      and e: "stamp_input_path growing_lower DASHBOARD (Some ''IIIIIIIIIIIIIIIIIIII[plan-hash=x]'') None = Inl e"
    unfolding isl_def by (metis sum.exhaust)
  note forged = marker_cannot_be_forged
  have "bound_plan_hash (Some t) = None" using forged [OF lowering_keeps_marker(1)] t by blast
  moreover have "bound_plan_hash (Some u) = Some (strip '' abc '')" using forged [OF lowering_keeps_marker(2)] u h(2) by blast
  moreover have "e = IndexError" using forged [OF lowering_keeps_marker(2)] e by blast
  ultimately show ?thesis using t u e h(1) by simp
qed

section \<open>The one node an answer moves\<close>

definition moved_by :: "string \<Rightarrow> node_row \<Rightarrow> node_row \<Rightarrow> bool" where
  "moved_by node m m' \<longleftrightarrow> m' = m\<lparr>nd_state := nd_state m'\<rparr>
     \<and> (nd_state m' = nd_state m \<or> nd_id m = node \<or> (nd_state m, nd_state m') \<in> forward)"

lemma moved_by_id: "moved_by node m m' \<Longrightarrow> nd_id m' = nd_id m"
  unfolding moved_by_def by (metis node_row.select_convs(1) node_row.surjective node_row.update_convs(8))

lemma answered_growth:
  assumes g: "list_all2 (node_grows x) (set_state (nd_id n) (answered_state approve) (nodes d)) ns"
    and n: "n \<in> set (nodes d)" "unique_on nd_id (nodes d)"
  shows "list_all2 (moved_by (nd_id n)) (nodes d) ns"
    and "m \<in> set ns \<Longrightarrow> nd_id m = nd_id n \<Longrightarrow> m = n\<lparr>nd_state := answered_state approve\<rparr>"
proof -
  let ?f = "\<lambda>m. if nd_id m = nd_id n then m\<lparr>nd_state := answered_state approve\<rparr> else m"
  have l: "list_all2 (\<lambda>m m'. node_grows x (?f m) m') (nodes d) ns"
    using g by (simp add: set_state_def update_where_def list_all2_map1)
  have fin: "nd_state m' = answered_state approve" if "node_grows x (?f m) m'" "nd_id m = nd_id n" for m m'
    using that by (auto simp: node_grows_def forward_def answered_state_value split: if_splits)
  have row: "m' = m\<lparr>nd_state := nd_state m'\<rparr>" if "node_grows x (?f m) m'" for m m'
  proof -
    have "m' = (?f m)\<lparr>nd_state := nd_state m'\<rparr>" using that unfolding node_grows_def by blast
    then show ?thesis by (simp split: if_splits)
  qed
  show "list_all2 (moved_by (nd_id n)) (nodes d) ns"
    using l
  proof (rule list_all2_mono)
    fix m m' assume m: "node_grows x (?f m) m'"
    from row [OF m] m show "moved_by (nd_id n) m m'"
      by (cases "nd_id m = nd_id n") (auto simp: moved_by_def node_grows_def)
  qed
  assume m: "m \<in> set ns" "nd_id m = nd_id n"
  then obtain k where k: "k \<in> set (nodes d)" "node_grows x (?f k) m"
    using l by (metis (no_types, lifting) in_set_conv_nth list_all2_conv_all_nth)
  have "nd_id (?f k) = nd_id k" by simp
  with node_grows_fixed [OF k(2)] m(2) have i: "nd_id k = nd_id n" by argo
  have kn: "k = n" by (rule unique_onD [OF n(2) k(1) n(1) i])
  have "m = n\<lparr>nd_state := nd_state m\<rparr>" using row [OF k(2)] kn by blast
  moreover have "nd_state m = answered_state approve" by (rule fin [OF k(2) i])
  ultimately show "m = n\<lparr>nd_state := answered_state approve\<rparr>" by metis
qed

lemma applied_answer:
  assumes "apply_gate_answer_for_context sv c node path approve why expected preview d = (Inr out, e)" "nodes_unique d"
    and "go_status out = APPLIED_ANSWER"
  obtains n ds r xs d3 where "n \<in> set (nodes d)" "nd_id n = node" "nd_org n = tk_org c" "nd_state n = ''awaiting_gate''"
    "may_approve sv d (cs_now (ga_compile sv)) c (tk_org c)" "bound_to d n expected"
    "after_answer sv c n path approve why expected preview (gate_answered n approve d) = (Inr out, e)"
    "answer_row sv c n path approve why expected r" "go_decision out = Some (dc_id r)"
    "\<forall>x \<in> set ds. dc_kind x \<in> side_kinds" "\<forall>x \<in> set xs. dc_actor_kind x = ''service''"
    "decisions e = decisions d @ ds @ r # xs"
    "list_all2 (moved_by node) (nodes d) (nodes e)"
    "\<And>m. m \<in> set (nodes e) \<Longrightarrow> nd_id m = node \<Longrightarrow> m = n\<lparr>nd_state := answered_state approve\<rparr>"
    "edges e = edges d" "flows e = flows d" "claims e = claims d" "bindings e = bindings d" "actions e = actions d"
    "list_all2 deadline_moved (executions d) (executions e)"
proof -
  from answer_cases [OF assms(1,2)] assms(3) obtain n where n: "n \<in> set (nodes d)" "nd_id n = node" "nd_org n = tk_org c"
      "nd_state n = ''awaiting_gate''" "may_approve sv d (cs_now (ga_compile sv)) c (tk_org c)" "bound_to d n expected"
      "after_answer sv c n path approve why expected preview (gate_answered n approve d) = (Inr out, e)"
    by (auto simp: answer_refused_def)
  have u: "unique_on nd_id (nodes d)" using assms(2) by (simp add: nodes_unique_def)
  then have "nodes_unique (gate_answered n approve d)" by (simp add: nodes_unique_def gate_answered_def)
  from after_answer_effect [OF n(7) this] obtain ds ex r d3 where r: "answer_row sv c n path approve why expected r"
      "go_decision out = Some (dc_id r)" "\<forall>x \<in> set ds. dc_kind x \<in> side_kinds"
      and ex: "list_all2 deadline_moved (executions (gate_answered n approve d)) ex"
      and g: "tick_grows ((gate_answered n approve d)\<lparr>executions := ex, decisions := decisions (gate_answered n approve d) @ ds @ [r]\<rparr>) d3"
      and s: "service_adds ((gate_answered n approve d)\<lparr>executions := ex, decisions := decisions (gate_answered n approve d) @ ds @ [r]\<rparr>) d3"
      and e: "e = d3\<lparr>plans := plans e\<rparr>" by blast
  have same: "decisions e = decisions d3" "nodes e = nodes d3" "edges e = edges d3" "flows e = flows d3"
      "claims e = claims d3" "bindings e = bindings d3" "actions e = actions d3" "executions e = executions d3"
    by (subst e; simp)+
  obtain xs where xs: "decisions d3 = decisions d @ ds @ r # xs" "\<forall>x \<in> set xs. dc_actor_kind x = ''service''"
    using s by (auto simp: service_adds_def gate_answered_def)
  have l: "list_all2 (node_grows ((gate_answered n approve d)\<lparr>executions := ex, decisions := decisions (gate_answered n approve d) @ ds @ [r]\<rparr>))
      (set_state (nd_id n) (answered_state approve) (nodes d)) (nodes e)"
    using g unfolding same tick_grows_def by (simp add: gate_answered_def)
  have rest: "edges e = edges d" "flows e = flows d" "claims e = claims d" "bindings e = bindings d" "actions e = actions d"
      "list_all2 deadline_moved (executions d) (executions e)"
    using g ex unfolding same tick_grows_def rest_kept_def by (simp_all add: gate_answered_def)
  have "list_all2 (moved_by node) (nodes d) (nodes e)" using answered_growth(1) [OF l n(1) u] n(2) by simp
  moreover have "m = n\<lparr>nd_state := answered_state approve\<rparr>" if "m \<in> set (nodes e)" "nd_id m = node" for m
    using answered_growth(2) [OF l n(1) u that(1)] that(2) n(2) by simp
  moreover have "decisions e = decisions d @ ds @ r # xs" using xs(1) same(1) by simp
  ultimately show thesis using that [OF n r xs(2) _ _ _ rest] by blast
qed

text \<open>
  C11: An answer that is applied was given by a signed-in human member of the node's own organisation,
  to a node that waited at its gate, bound to the plan in force where it names one; it is recorded
  under that human, and moves that node to passed or rejected, every other node at most along the
  engine's own edges. Edges, flows, claims, bindings and actions stay as they are, and of an execution
  only its deadline and, upwards, its revision may change, by the window renewal the answer confirms.
  An answer that is not applied moves no node, changes no plan and no execution and records at most the
  refused attempt of its author. Ids of nodes are unique.
\<close>

theorem answer_moves_only_its_gate:
  assumes "apply_gate_answer_for_context sv c node path approve why expected preview d = (Inr out, e)"
    and "nodes_unique d"
  shows "if go_status out = APPLIED_ANSWER then
      tk_account c = ''human'' \<and> tk_source c = ''jwt'' \<and> stamp (cs_now (ga_compile sv)) < stamp (tk_expires c)
      \<and> ga_member sv d (tk_user c) (tk_org c) (tk_username c) = Some True
      \<and> (\<exists>n \<in> set (nodes d). nd_id n = node \<and> nd_org n = tk_org c \<and> nd_state n = ''awaiting_gate'' \<and> bound_to d n expected
          \<and> (\<exists>r \<in> set (drop (length (decisions d)) (decisions e)).
              answer_row sv c n path approve why expected r \<and> go_decision out = Some (dc_id r))
          \<and> (\<forall>m \<in> set (nodes e). nd_id m = node \<longrightarrow> m = n\<lparr>nd_state := answered_state approve\<rparr>))
      \<and> list_all2 (moved_by node) (nodes d) (nodes e)
      \<and> edges e = edges d \<and> flows e = flows d \<and> claims e = claims d \<and> bindings e = bindings d \<and> actions e = actions d
      \<and> list_all2 (\<lambda>x y. y = x\<lparr>ex_deadline := ex_deadline y, ex_revision := ex_revision y\<rparr> \<and> ex_revision x \<le> ex_revision y)
          (executions d) (executions e)
    else nodes e = nodes d \<and> plans e = plans d \<and> executions e = executions d
      \<and> (\<forall>r \<in> set (drop (length (decisions d)) (decisions e)). dc_kind r = ''transition_rejected'' \<and> dc_actor_id r = tk_user c)"
proof (cases "go_status out = APPLIED_ANSWER")
  case True
  from applied_answer [OF assms True] obtain n ds r xs where n: "n \<in> set (nodes d)" "nd_id n = node" "nd_org n = tk_org c"
      "nd_state n = ''awaiting_gate''" "may_approve sv d (cs_now (ga_compile sv)) c (tk_org c)" "bound_to d n expected"
    and r: "answer_row sv c n path approve why expected r" "go_decision out = Some (dc_id r)"
      "decisions e = decisions d @ ds @ r # xs"
    and ns: "list_all2 (moved_by node) (nodes d) (nodes e)"
      "\<And>m. m \<in> set (nodes e) \<Longrightarrow> nd_id m = node \<Longrightarrow> m = n\<lparr>nd_state := answered_state approve\<rparr>"
    and rest: "edges e = edges d" "flows e = flows d" "claims e = claims d" "bindings e = bindings d" "actions e = actions d"
      "list_all2 deadline_moved (executions d) (executions e)" by metis
  have "r \<in> set (drop (length (decisions d)) (decisions e))" by (simp add: r(3))
  with True n r(1,2) ns rest show ?thesis
    by (auto simp: may_approve_def workflow_permission_def deadline_moved_def [abs_def] split: if_splits)
next
  case False
  with answer_cases [OF assms(1,2)] after_answer_effect assms(2)
  have "answer_refused c node d e out" by (fastforce simp: nodes_unique_def gate_answered_def)
  with False show ?thesis by (auto simp: answer_refused_def)
qed

section \<open>Replaying a lost response\<close>

lemma found_only:
  assumes "r \<in> set rows" "P r" "\<And>x. x \<in> set rows \<Longrightarrow> P x \<Longrightarrow> x = r"
  shows "find P rows = Some r"
proof (cases "find P rows")
  case None
  then show ?thesis using assms(1,2) by (simp add: find_None_iff')
next
  case (Some x)
  with find_SomeD [OF Some] assms(3) show ?thesis by blast
qed

lemma insort_key_snoc: "f x \<le> f r \<Longrightarrow> insort_key f x (ys @ [r]) = insort_key f x ys @ [r]"
  by (induction ys) auto

lemma sort_key_snoc: "\<forall>x \<in> set xs. f x \<le> f r \<Longrightarrow> sort_key f (xs @ [r]) = sort_key f xs @ [r]"
  by (induction xs) (simp_all add: insort_key_snoc)

lemma matching_new_answer:
  assumes "answer_row sv c n path approve why (Some h) r" "decisions e = decisions d @ ds @ r # xs"
    and "\<forall>x \<in> set ds. dc_kind x \<in> side_kinds" "\<forall>x \<in> set xs. dc_actor_kind x = ''service''"
    and "\<forall>x \<in> set (decisions d). stamp (dc_created x) \<le> stamp (dc_created r)" "CHR '']'' \<notin> set (strip h)"
    and "nd_id m = nd_id n" "nd_flow m = nd_flow n"
  shows "matching_bound_answer e (tk_org c) m (tk_user c) approve h = Some r"
proof -
  let ?P = "\<lambda>x. dc_org x = tk_org c \<and> dc_flow x = nd_flow m \<and> dc_node x = Some (nd_id m)
    \<and> dc_kind x = answer_kind approve \<and> dc_actor_id x = tk_user c \<and> dc_actor_kind x = ''human''"
  have r: "?P r" using assms(1,7,8) by (simp add: answer_row_def)
  have "\<not> ?P x" if "x \<in> set ds" for x
    using assms(3) that by (auto simp: side_kinds_def renewal_kind_def acceptance_kind_def answer_kind_def split: if_splits)
  moreover have "\<not> ?P x" if "x \<in> set xs" for x using assms(4) that by auto
  ultimately have f: "filter ?P (decisions e) = filter ?P (decisions d) @ [r]"
    using r by (simp add: assms(2) filter_empty_conv)
  have "sort_key (\<lambda>x. stamp (dc_created x)) (filter ?P (decisions e))
      = sort_key (\<lambda>x. stamp (dc_created x)) (filter ?P (decisions d)) @ [r]"
    unfolding f using assms(5) by (intro sort_key_snoc) auto
  moreover have "bound_plan_hash (raw_reason r) = Some (strip h)"
    using assms(1) stamped_hash [OF _ assms(6)] by (auto simp: answer_row_def)
  ultimately show ?thesis unfolding matching_bound_answer_def by simp
qed

text \<open>
  C13: A caller who loses the response to a bound answer and sends the same request again gets the
  original decision back and changes nothing, also when a proposed policy was granted by it and the
  reviewed revision is no longer the one in force. The repetition, on the store the answer left, may come
  by the other input path, with another reason and preview, and be served later, provided its caller may
  still approve; no stored decision is dated after the answer, and the revision has no closing bracket.
\<close>

theorem bound_answer_replays:
  assumes "apply_gate_answer_for_context sv c node path approve why (Some h) preview d = (Inr out, e)"
    and "nodes_unique d" "go_status out = APPLIED_ANSWER"
    and "\<forall>r \<in> set (decisions d). stamp (dc_created r) \<le> stamp (mt_now (cs_mint (ga_compile sv)))" "CHR '']'' \<notin> set (strip h)"
    and "may_approve sv' e (cs_now (ga_compile sv')) c (tk_org c)"
  shows "apply_gate_answer_for_context sv' c node path' approve why' (Some h) preview' e
    = (Inr \<lparr>go_status = IDEMPOTENT_REPLAY, go_node = node, go_decision = go_decision out\<rparr>, e)"
proof (rule applied_answer [OF assms(1-3)])
  fix n ds r xs
  assume n: "n \<in> set (nodes d)" "nd_id n = node" "nd_org n = tk_org c"
    and r: "answer_row sv c n path approve why (Some h) r" "go_decision out = Some (dc_id r)"
    and ds: "\<forall>x \<in> set ds. dc_kind x \<in> side_kinds" "\<forall>x \<in> set xs. dc_actor_kind x = ''service''"
      "decisions e = decisions d @ ds @ r # xs"
    and l: "list_all2 (moved_by node) (nodes d) (nodes e)"
    and m: "\<And>m. m \<in> set (nodes e) \<Longrightarrow> nd_id m = node \<Longrightarrow> m = n\<lparr>nd_state := answered_state approve\<rparr>"
  obtain k where k: "k \<in> set (nodes e)" "moved_by node n k"
    using l n(1) by (metis in_set_conv_nth list_all2_conv_all_nth)
  have "nd_id k = nd_id n" using k(2) moved_by_id by blast
  then have k': "k = n\<lparr>nd_state := answered_state approve\<rparr>" using m [OF k(1)] n(2) by simp
  have "nd_org k = tk_org c \<and> nd_id k = node" unfolding k' using n(2,3) by simp
  then have "find (\<lambda>x. nd_org x = tk_org c \<and> nd_id x = node) (nodes e) = Some k"
  proof (rule found_only [OF k(1)])
    show "x = k" if "x \<in> set (nodes e)" "nd_org x = tk_org c \<and> nd_id x = node" for x
      using m [OF that(1)] that(2) k' by blast
  qed
  then have f: "find (\<lambda>x. nd_org x = tk_org c \<and> nd_id x = node) (nodes e) = Some (n\<lparr>nd_state := answered_state approve\<rparr>)"
    unfolding k' .
  have "dc_created r = mt_now (cs_mint (ga_compile sv))" using r(1) by (simp add: answer_row_def)
  then have "matching_bound_answer e (tk_org c) (n\<lparr>nd_state := answered_state approve\<rparr>) (tk_user c) approve h = Some r"
    using assms(4) by (intro matching_new_answer [OF r(1) ds(3,1,2) _ assms(5)]) simp_all
  with f assms(6) n(2) r(2) show ?thesis
    by (simp add: apply_gate_answer_for_context_def answered_state_value)
qed

section \<open>The grant of a proposed policy\<close>

lemma activation:
  assumes "activate_proposed_policy sv c n decision d = (Inr b, e)" "plans e \<noteq> plans d" "unique_on pl_id (plans d)"
  shows "\<exists>p q granted. accepted_plan d (tk_org c) (nd_flow n) = Inr (Some p)
    \<and> ga_parse sv (pl_document p) = Some q \<and> acceptance_gate_address q = Some (composed (lp_slug q) n)
    \<and> accept_execution_policy (cs_digest (ga_compile sv)) (cs_now (ga_compile sv)) (promote_proposed_policy q)
        (answer_context sv c []) ''plan_accepted'' = Inr granted
    \<and> (\<exists>v. current_plans e (tk_org c) (nd_flow n) = [v] \<and> pl_document v = cs_dump (ga_compile sv) granted
        \<and> pl_hash v = cs_hash (ga_compile sv) granted \<and> pl_decision v = Some decision)"
proof -
  from assms(1,2) obtain q where q: "proposed_policy_grant_target sv d (tk_org c) n = Inr (Some q)"
    by (auto simp: activate_proposed_policy_def Let_def split: sum.splits option.splits)
  then obtain p where p: "accepted_plan d (tk_org c) (nd_flow n) = Inr (Some p)" "ga_parse sv (pl_document p) = Some q"
      "acceptance_gate_address q = Some (composed (lp_slug q) n)"
    by (auto simp: proposed_policy_grant_target_def and_then_Inr split: option.splits if_splits)
  from assms(1) q obtain granted v e1 where g: "accept_execution_policy (cs_digest (ga_compile sv)) (cs_now (ga_compile sv))
      (promote_proposed_policy q) (answer_context sv c []) ''plan_accepted'' = Inr granted"
    and v: "record_accepted_plan (cs_mint (ga_compile sv)) (tk_org c) (nd_flow n) (cs_dump (ga_compile sv) granted)
      (cs_hash (ga_compile sv) granted) (Some decision) d = (Inr v, e)"
    by (auto simp: activate_proposed_policy_def Let_def split: sum.splits prod.splits)
  show ?thesis using p g record_accepted_plan_effect [OF v assms(3)] by blast
qed

definition grants_reviewed_plan ::
    "gate_services \<Rightarrow> token_context \<Rightarrow> string \<Rightarrow> string option \<Rightarrow> db \<Rightarrow> db \<Rightarrow> gate_outcome \<Rightarrow> bool" where
  "grants_reviewed_plan sv c node expected d e out \<longleftrightarrow>
     (\<exists>n p q granted v h. n \<in> set (nodes d) \<and> nd_id n = node \<and> expected = Some h
      \<and> accepted_plan d (tk_org c) (nd_flow n) = Inr (Some p) \<and> pl_hash p = strip h
      \<and> ga_parse sv (pl_document p) = Some q \<and> acceptance_gate_address q = Some (composed (lp_slug q) n)
      \<and> accept_execution_policy (cs_digest (ga_compile sv)) (cs_now (ga_compile sv)) (promote_proposed_policy q)
          (answer_context sv c []) ''plan_accepted'' = Inr granted
      \<and> current_plans e (tk_org c) (nd_flow n) = [v] \<and> pl_document v = cs_dump (ga_compile sv) granted
      \<and> pl_decision v = go_decision out)"

lemma granted_plan:
  assumes ans: "apply_gate_answer_for_context sv c node path approve why expected preview d = (Inr out, e)"
    and u: "nodes_unique d" "unique_on pl_id (plans d)" and ch: "plans e \<noteq> plans d"
  shows "approve \<and> grants_reviewed_plan sv c node expected d e out"
proof -
  from answer_cases [OF ans u(1)] ch obtain n where n: "n \<in> set (nodes d)" "nd_id n = node" "nd_org n = tk_org c"
      "bound_to d n expected" "after_answer sv c n path approve why expected preview (gate_answered n approve d) = (Inr out, e)"
    by (auto simp: answer_refused_def)
  have "nodes_unique (gate_answered n approve d)" using u(1) by (simp add: nodes_unique_def gate_answered_def)
  from after_answer_plans [OF n(5) this] ch obtain d3 b i where d3: "plans d3 = plans d" "approve" "expected \<noteq> None"
      "activate_proposed_policy sv c n i d3 = (Inr b, e)" "go_decision out = Some i"
    by (auto simp: gate_answered_def)
  have same: "accepted_plan d3 = accepted_plan d"
    by (intro ext) (simp add: accepted_plan_def current_plans_def d3(1))
  obtain h where h: "expected = Some h" using d3(3) by auto
  from activation [OF d3(4)] ch u(2) d3(1) obtain p q granted v where g:
      "accepted_plan d (tk_org c) (nd_flow n) = Inr (Some p)" "ga_parse sv (pl_document p) = Some q"
      "acceptance_gate_address q = Some (composed (lp_slug q) n)"
      "accept_execution_policy (cs_digest (ga_compile sv)) (cs_now (ga_compile sv)) (promote_proposed_policy q)
        (answer_context sv c []) ''plan_accepted'' = Inr granted"
      "current_plans e (tk_org c) (nd_flow n) = [v]" "pl_document v = cs_dump (ga_compile sv) granted" "pl_decision v = Some i"
    unfolding same d3(1) by blast
  have "pl_hash p = strip h" using n(3,4) h g(1) by (simp add: bound_to_def)
  with n(1,2) h g d3(2,5) show ?thesis unfolding grants_reviewed_plan_def by metis
qed

lemma unbound_moves_nothing:
  assumes ans: "apply_gate_answer_for_context sv c node path True why None preview d = (Inr out, e)"
    and u: "nodes_unique d" and n: "n \<in> set (nodes d)" "nd_id n = node"
    and t: "proposed_policy_grant_target sv d (tk_org c) n = Inr (Some q)"
  shows "nodes e = nodes d"
proof -
  have un: "unique_on nd_id (nodes d)" using u by (simp add: nodes_unique_def)
  show ?thesis
  proof (cases "find (\<lambda>n. nd_org n = tk_org c \<and> nd_id n = node) (nodes d)")
    case None
    with ans show ?thesis by (simp add: apply_gate_answer_for_context_def)
  next
    case (Some k)
    then have "k = n" using find_SomeD [OF Some] unique_onD [OF un _ n(1)] n(2) by simp
    then show ?thesis
      using ans Some t by (auto simp: apply_gate_answer_for_context_def checked_answer_def unbound_grant_refusal_def
        Let_def record_refusal_def append_decision_def split: if_splits sum.splits)
  qed
qed

text \<open>
  C12: Answering a gate changes the plan in force only as the grant of a proposed policy: by an
  approval that names the reviewed revision, of the gate that dominates the plan, and then the new
  version in force is that plan with the policy promoted and stamped by the approving human, accepted
  by that very decision. An approval that names no revision never does, and of the dominating gate of
  such a plan it is refused and moves nothing. Ids of nodes and of plan versions are unique.
\<close>

theorem policy_needs_bound_acceptance:
  assumes "apply_gate_answer_for_context sv c node path approve why expected preview d = (Inr out, e)"
    and "nodes_unique d" "unique_on pl_id (plans d)"
  shows "(plans e \<noteq> plans d \<longrightarrow> approve \<and> grants_reviewed_plan sv c node expected d e out)
    \<and> (\<forall>n \<in> set (nodes d). nd_id n = node \<and> approve \<and> expected = None
      \<and> (\<exists>q. proposed_policy_grant_target sv d (tk_org c) n = Inr (Some q)) \<longrightarrow> nodes e = nodes d)"
proof (intro conjI impI ballI)
  show "approve" "grants_reviewed_plan sv c node expected d e out" if "plans e \<noteq> plans d"
    using granted_plan [OF assms that] by blast+
  show "nodes e = nodes d" if "n \<in> set (nodes d)" "nd_id n = node \<and> approve \<and> expected = None
      \<and> (\<exists>q. proposed_policy_grant_target sv d (tk_org c) n = Inr (Some q))" for n
    using that assms(1) unbound_moves_nothing [OF _ assms(2) that(1)] by auto
qed

section \<open>A gate that is approved\<close>

definition idle_renewal :: renewal_services where
  "idle_renewal = \<lparr>rn_digest = sample_digest, rn_parse = (\<lambda>_. None), rn_prepare = (\<lambda>_ _ _ _. Inl WindowRenewalError),
     rn_identity = (\<lambda>_ _ _. ''renewal''), rn_record = (\<lambda>_ _ _ _. plain []), rn_now = Aware 3\<rparr>"

definition idle_acceptance :: acceptance_services where
  "idle_acceptance = \<lparr>qs_parse = (\<lambda>_. None), qs_latest = (\<lambda>_ _ _. Inr None), qs_same = (\<lambda>_ _. Inr True),
     qs_preview = (\<lambda>_ _ _ _. Inl ValueError), qs_identity = (\<lambda>_ _ _. ''acceptance''), qs_now = Aware 3\<rparr>"

definition sample_gate_services :: gate_services where
  "sample_gate_services = \<lparr>ga_member = (\<lambda>_ _ _ _. Some True), ga_role = (\<lambda>_. ''member''), ga_identity = (\<lambda>_ _. None),
     ga_parse = (\<lambda>_. None), ga_policy_refused = (\<lambda>_ _ _. False),
     ga_prepare = (\<lambda>_ _ _ _. Inr \<lparr>gp_required = False, gp_ready = False, gp_snapshot = JNull, gp_window = JNull, gp_grants = []\<rparr>),
     ga_renewal = idle_renewal, ga_evaluations = idle_acceptance, ga_lower = ascii_lower, ga_compile = sample_compile, ga_tick = tick_env0\<rparr>"

definition sample_member :: token_context where
  "sample_member = \<lparr>tk_user = ''u'', tk_org = ''o'', tk_account = ''human'', tk_source = ''jwt'', tk_expires = Aware 9, tk_username = ''u''\<rparr>"

definition sample_gate :: node_row where
  "sample_gate = sample_node\<lparr>nd_id := ''g'', nd_kind := ''gate'', nd_state := ''awaiting_gate''\<rparr>"

definition gate_db :: db where
  "gate_db = sample_db\<lparr>nodes := [sample_gate], edges := [], decisions := [],
     plans := [sample_plan\<lparr>pl_document := JObj [(''product_id'', JStr ''p'')], pl_hash := ''h''\<rparr>]\<rparr>"

lemmas gate_sample_defs = compile_sample_defs sample_gate_services_def sample_member_def sample_gate_def
  gate_db_def tick_sample_defs

definition approved_out :: gate_outcome where
  "approved_out = \<lparr>go_status = APPLIED_ANSWER, go_node = ''g'', go_decision = Some ''decision''\<rparr>"

definition approved_db :: db where
  "approved_db = snd (apply_gate_answer_for_context sample_gate_services sample_member ''g'' DASHBOARD True None (Some ''h'') None gate_db)"

lemma strip_h [simp]: "strip ''h'' = ''h''"
  by code_simp

lemma gate_approved:
  "apply_gate_answer_for_context sample_gate_services sample_member ''g'' DASHBOARD True None (Some ''h'') None gate_db
    = (Inr approved_out, approved_db)"
proof -
  have "fst (apply_gate_answer_for_context sample_gate_services sample_member ''g'' DASHBOARD True None (Some ''h'') None gate_db)
      = Inr approved_out" by code_simp
  then show ?thesis by (simp add: approved_db_def prod_eq_iff)
qed

lemma gate_db_facts:
  "nodes_unique gate_db" "unique_on pl_id (plans gate_db)"
  by (simp_all add: nodes_unique_def unique_on_def gate_db_def sample_gate_services_def)

lemma answer_moves_only_its_gate_witness:
  "list_all2 (moved_by ''g'') (nodes gate_db) (nodes approved_db)"
  using answer_moves_only_its_gate [OF gate_approved gate_db_facts(1)] by (simp add: approved_out_def)

lemma bound_answer_replays_witness:
  "apply_gate_answer_for_context sample_gate_services sample_member ''g'' DASHBOARD True (Some ''again'') (Some ''h'') None approved_db
    = (Inr \<lparr>go_status = IDEMPOTENT_REPLAY, go_node = ''g'', go_decision = Some ''decision''\<rparr>, approved_db)"
proof -
  have "CHR '']'' \<notin> set (strip ''h'')" by (simp add: strip_h)
  moreover have "may_approve sample_gate_services approved_db (cs_now (ga_compile sample_gate_services)) sample_member (tk_org sample_member)"
    by (simp add: may_approve_def workflow_permission_def sample_gate_services_def sample_member_def compile_sample_defs)
  moreover have "go_status approved_out = APPLIED_ANSWER" "decisions gate_db = []" by (simp_all add: approved_out_def gate_db_def)
  ultimately show ?thesis
    using bound_answer_replays [OF gate_approved gate_db_facts(1)] by (simp add: approved_out_def)
qed

section \<open>A plan that waits for its policy\<close>

definition waiting_plan :: proposal where
  "waiting_plan = \<lparr>lp_slug = ''app'', lp_org = ''o'', lp_spec_revision = ''s'',
     lp_nodes = [gate_node ''app/e/w/accept'' ''t''], lp_edges = [], lp_epics = [], lp_waves = [], lp_policy = None,
     lp_proposed_policy = Some sample_policy, lp_title = ''t'', lp_product = None, lp_origin = JNull, lp_trackers = JNull\<rparr>"

definition waiting_services :: gate_services where
  "waiting_services = sample_gate_services\<lparr>ga_parse := \<lambda>_. Some waiting_plan\<rparr>"

definition waiting_db :: db where
  "waiting_db = gate_db\<lparr>nodes := [sample_gate\<lparr>nd_ref := ''accept''\<rparr>],
     plans := [sample_plan\<lparr>pl_document := JObj [(''product_id'', JStr ''p''), (''proposed_execution_policy'', JObj [])]\<rparr>]\<rparr>"

definition granted_db :: db where
  "granted_db = snd (apply_gate_answer_for_context waiting_services sample_member ''g'' DASHBOARD True None (Some ''h'') None waiting_db)"

lemma plan_granted:
  "apply_gate_answer_for_context waiting_services sample_member ''g'' DASHBOARD True None (Some ''h'') None waiting_db
    = (Inr approved_out, granted_db)"
  "length (plans granted_db) = 2"
proof -
  have "fst (apply_gate_answer_for_context waiting_services sample_member ''g'' DASHBOARD True None (Some ''h'') None waiting_db)
      = Inr approved_out" by code_simp
  then show "apply_gate_answer_for_context waiting_services sample_member ''g'' DASHBOARD True None (Some ''h'') None waiting_db
    = (Inr approved_out, granted_db)" by (simp add: granted_db_def prod_eq_iff)
  show "length (plans granted_db) = 2" by code_simp
qed

theorem policy_needs_bound_acceptance_witness:
  "grants_reviewed_plan waiting_services sample_member ''g'' (Some ''h'') waiting_db granted_db approved_out"
proof -
  have "plans granted_db \<noteq> plans waiting_db"
  proof
    assume "plans granted_db = plans waiting_db"
    with plan_granted(2) show False by (simp add: waiting_db_def)
  qed
  moreover have "nodes_unique waiting_db" "unique_on pl_id (plans waiting_db)"
    by (simp_all add: nodes_unique_def unique_on_def waiting_db_def waiting_services_def sample_gate_services_def)
  ultimately show ?thesis using policy_needs_bound_acceptance [OF plan_granted(1)] by blast
qed

end
