(* ===== verification/Draft_Laws.thy ===== *)
theory Draft_Laws
  imports Draft_Registration Registration_Laws Gate_Laws
begin

text \<open>
  What compiling a draft into a fresh flow writes: one row for every node of the document, with its
  initial state, an edge for every edge, one decision that is no approval, and nothing else of the
  flow.
\<close>

section \<open>The rows of new nodes\<close>

text \<open>Ids that no row has yet (they are random) and that differ from each other.\<close>

definition fresh_nodes :: "mint \<Rightarrow> db \<Rightarrow> bool" where
  "fresh_nodes mt d \<longleftrightarrow> (\<forall>i j. mt_node mt i = mt_node mt j \<longrightarrow> i = j)
     \<and> (\<forall>i \<ge> length (nodes d). \<forall>n \<in> set (nodes d). nd_id n \<noteq> mt_node mt i)"

definition born :: "string \<Rightarrow> string \<Rightarrow> (string \<times> node_state) list \<Rightarrow> proposed_node \<Rightarrow> node_row \<Rightarrow> bool" where
  "born org fid initial p n \<longleftrightarrow> nd_org n = org \<and> nd_flow n = fid \<and> nd_kind n = pn_kind p \<and> nd_attempts n = 0
     \<and> nd_state n = (case map_of initial (pn_address p) of None \<Rightarrow> ''pending'' | Some s \<Rightarrow> node_state_value s)
     \<and> (\<exists>f. split_address (pn_address p) = Some (f, nd_epic n, nd_wave n, nd_ref n))"

lemma update_fresh:
  assumes "\<forall>n \<in> set ns. nd_id n \<noteq> i" "nd_id m = i"
  shows "update_where (\<lambda>r. nd_id r = i) f (ns @ [m]) = ns @ [f m]"
  using assms by (auto simp: update_where_def intro!: map_idI)

lemma refreshed_id [simp]: "nd_id (refreshed_node p n) = nd_id n"
  by (simp add: refreshed_node_def)

lemma refreshed_born [simp]: "born org fid initial p (refreshed_node p n) \<longleftrightarrow> born org fid initial p n"
  by (simp add: refreshed_node_def born_def)

lemma upsert_fresh:
  assumes "upsert_nodes mt org fid existing initial ps ids created d = (Inr (ids', k), e)"
    and "\<forall>p \<in> set ps. map_of existing (pn_address p) = None" "distinct (map pn_address ps)" "fresh_nodes mt d"
  shows "\<exists>new. e = d\<lparr>nodes := nodes d @ new\<rparr> \<and> list_all2 (born org fid initial) ps new
    \<and> map nd_id new = map (mt_node mt) [length (nodes d)..<length (nodes d) + length ps]
    \<and> (\<forall>a. a \<notin> pn_address ` set ps \<longrightarrow> map_of ids' a = map_of ids a)
    \<and> list_all2 (\<lambda>p n. map_of ids' (pn_address p) = Some (nd_id n)) ps new"
  using assms
proof (induction ps arbitrary: ids created d)
  case Nil
  then show ?case by (intro exI [of _ "[]"]) simp
next
  case (Cons p ps)
  from Cons.prems(1,2) obtain f place where place: "split_address (pn_address p) = Some (f, place)"
    by (auto split: option.splits)
  obtain n d1 where n: "add_node mt org fid place p (map_option node_state_value (map_of initial (pn_address p))) d = (n, d1)"
    by force
  have id: "nd_id n = mt_node mt (length (nodes d))" and d1: "d1 = d\<lparr>nodes := nodes d @ [n]\<rparr>"
    using n by (auto simp: add_node_def Let_def)
  have "born org fid initial p n"
    using n place by (auto simp: add_node_def born_def Let_def split: option.splits)
  then have b: "born org fid initial p (refreshed_node p n)" by simp
  let ?n = "refreshed_node p n"
  let ?d = "d\<lparr>nodes := nodes d @ [?n]\<rparr>"
  have old: "\<forall>m \<in> set (nodes d). nd_id m \<noteq> nd_id n" using Cons.prems(4) by (simp add: fresh_nodes_def id)
  have rest: "upsert_nodes mt org fid existing initial ps (dict_set (pn_address p) (nd_id n) ids) (created + 1) ?d
      = (Inr (ids', k), e)"
    using Cons.prems(1,2) place n update_fresh [OF old refl, of "refreshed_node p"] by (simp add: d1)
  have fresh: "fresh_nodes mt ?d"
    unfolding fresh_nodes_def
  proof (intro conjI allI impI ballI)
    show "i = j" if "mt_node mt i = mt_node mt j" for i j using Cons.prems(4) that by (simp add: fresh_nodes_def)
    show "nd_id m \<noteq> mt_node mt i" if "length (nodes ?d) \<le> i" "m \<in> set (nodes ?d)" for i m
    proof
      assume eq: "nd_id m = mt_node mt i"
      have i: "Suc (length (nodes d)) \<le> i" using that(1) by simp
      from that(2) consider "m \<in> set (nodes d)" | "m = ?n" by auto
      then show False
      proof cases
        case 1
        with Cons.prems(4) eq i show False by (simp add: fresh_nodes_def)
      next
        case 2
        then have "mt_node mt (length (nodes d)) = mt_node mt i" using eq id by simp
        then have "length (nodes d) = i" using Cons.prems(4) unfolding fresh_nodes_def by blast
        with i show False by simp
      qed
    qed
  qed
  from Cons.IH [OF rest _ _ fresh] Cons.prems(2,3) obtain new where new: "e = ?d\<lparr>nodes := nodes ?d @ new\<rparr>"
      "list_all2 (born org fid initial) ps new"
      "map nd_id new = map (mt_node mt) [length (nodes ?d)..<length (nodes ?d) + length ps]"
      "\<forall>a. a \<notin> pn_address ` set ps \<longrightarrow> map_of ids' a = map_of (dict_set (pn_address p) (nd_id n) ids) a"
      "list_all2 (\<lambda>p n. map_of ids' (pn_address p) = Some (nd_id n)) ps new"
    by auto
  have own: "map_of ids' (pn_address p) = Some (nd_id n)" using new(4) Cons.prems(3) by auto
  show ?case
  proof (intro exI [of _ "?n # new"] conjI)
    show "e = d\<lparr>nodes := nodes d @ ?n # new\<rparr>" using new(1) by simp
    show "list_all2 (born org fid initial) (p # ps) (?n # new)" using b new(2) by simp
    have "[length (nodes d)..<length (nodes d) + length (p # ps)]
        = length (nodes d) # [length (nodes ?d)..<length (nodes ?d) + length ps]"
      by (simp add: upt_conv_Cons del: upt_Suc)
    then show "map nd_id (?n # new) = map (mt_node mt) [length (nodes d)..<length (nodes d) + length (p # ps)]"
      using new(3) id by simp
    show "\<forall>a. a \<notin> pn_address ` set (p # ps) \<longrightarrow> map_of ids' a = map_of ids a" using new(4) by simp
    show "list_all2 (\<lambda>p n. map_of ids' (pn_address p) = Some (nd_id n)) (p # ps) (?n # new)"
      using own new(5) by simp
  qed
qed

section \<open>The rows of edges\<close>

definition has_edge :: "string \<Rightarrow> string \<Rightarrow> db \<Rightarrow> string \<Rightarrow> string \<Rightarrow> bool" where
  "has_edge org fid d a b \<longleftrightarrow> (\<exists>x \<in> set (edges d). ed_org x = org \<and> ed_flow x = fid \<and> ed_from x = a \<and> ed_to x = b)"

lemma upsert_edges_effect:
  assumes "upsert_edges mt org fid ids ps present k d = (Inr k', e)" "\<forall>(a, b) \<in> set present. has_edge org fid d a b"
  shows "e = d\<lparr>edges := edges e\<rparr> \<and> set (edges d) \<subseteq> set (edges e)
    \<and> (\<forall>q \<in> set ps. \<exists>a b. map_of ids (pe_from q) = Some a \<and> map_of ids (pe_to q) = Some b \<and> has_edge org fid e a b)"
  using assms
proof (induction ps arbitrary: present k d)
  case (Cons q ps)
  from Cons.prems(1) obtain a b where ab: "map_of ids (pe_from q) = Some a" "map_of ids (pe_to q) = Some b"
    by (auto split: option.splits)
  define d1 where "d1 = (if (a, b) \<in> set present then d else add_edge mt org fid (a, b) d)"
  have mono: "set (edges d) \<subseteq> set (edges d1)" "d1 = d\<lparr>edges := edges d1\<rparr>"
    by (auto simp: d1_def add_edge_def)
  have here: "has_edge org fid d1 a b" using Cons.prems(2) by (auto simp: d1_def add_edge_def has_edge_def)
  have keep: "has_edge org fid d u v \<Longrightarrow> has_edge org fid d1 u v" for u v using mono(1) by (auto simp: has_edge_def)
  from Cons.prems(1) ab obtain k1 present1 where rest: "upsert_edges mt org fid ids ps present1 k1 d1 = (Inr k', e)"
      "set present1 \<subseteq> insert (a, b) (set present)"
    by (cases "(a, b) \<in> set present") (auto simp: d1_def)
  have pres: "\<forall>(u, v) \<in> set present1. has_edge org fid d1 u v"
    using rest(2) here keep Cons.prems(2) by fastforce
  from Cons.IH [OF rest(1) pres] have ih: "e = d1\<lparr>edges := edges e\<rparr>" "set (edges d1) \<subseteq> set (edges e)"
      "\<forall>q \<in> set ps. \<exists>a b. map_of ids (pe_from q) = Some a \<and> map_of ids (pe_to q) = Some b \<and> has_edge org fid e a b"
    by blast+
  have "has_edge org fid e a b" using here ih(2) by (auto simp: has_edge_def)
  moreover have "e = d\<lparr>edges := edges e\<rparr>"
  proof -
    obtain es where "d1 = d\<lparr>edges := es\<rparr>" using mono(2) by blast
    with ih(1) show ?thesis by simp
  qed
  ultimately show ?case using ih mono(1) ab by auto
qed auto

section \<open>A draft compiled into a fresh flow\<close>

definition fresh_flow :: "mint \<Rightarrow> db \<Rightarrow> bool" where
  "fresh_flow mt d \<longleftrightarrow> mt_winner mt = None \<and> (let fid = mt_flow mt (length (flows d)) in
     (\<forall>n \<in> set (nodes d). nd_flow n \<noteq> fid) \<and> (\<forall>p \<in> set (plans d). pl_flow p \<noteq> fid)
     \<and> (\<forall>r \<in> set (decisions d). dc_flow r \<noteq> fid) \<and> (\<forall>f \<in> set (flows d). fl_id f \<noteq> fid))"

text \<open>What the compilation of the draft leaves of its flow.\<close>

definition drafted :: "string \<Rightarrow> string \<Rightarrow> (string \<times> node_state) list \<Rightarrow> proposal \<Rightarrow> node_ids \<Rightarrow> mint \<Rightarrow> db \<Rightarrow> db \<Rightarrow> bool" where
  "drafted org fid initial q ids mt d e \<longleftrightarrow> (\<exists>new r. nodes e = nodes d @ new
     \<and> list_all2 (born org fid initial) (lp_nodes q) new
     \<and> map nd_id new = map (mt_node mt) [length (nodes d)..<length (nodes d) + length (lp_nodes q)]
     \<and> list_all2 (\<lambda>p n. map_of ids (pn_address p) = Some (nd_id n)) (lp_nodes q) new
     \<and> (\<forall>x \<in> set (lp_edges q). \<exists>a b. map_of ids (pe_from x) = Some a \<and> map_of ids (pe_to x) = Some b \<and> has_edge org fid e a b)
     \<and> decisions e = decisions d @ [r] \<and> dc_flow r = fid \<and> dc_kind r = plan_drafted
     \<and> set (edges d) \<subseteq> set (edges e))"

lemma written_draft:
  assumes "write_plan cs q ctx plan_drafted initial fl d = (Inr r, e)"
    and "\<forall>n \<in> set (nodes d). nd_flow n \<noteq> fl_id fl" "fresh_nodes (cs_mint cs) d" "distinct (declared q)"
  shows "cr_flow r = fl_id fl \<and> \<not> cr_already r
    \<and> drafted (pa_org ctx) (fl_id fl) initial q (cr_nodes r) (cs_mint cs) d e"
proof -
  let ?mt = "cs_mint cs" and ?org = "pa_org ctx"
  have "filter (\<lambda>n. nd_org n = ?org \<and> nd_flow n = fl_id fl) (nodes d) = []"
    using assms(2) by (auto simp: filter_empty_conv)
  then have none: "dict_of (map (\<lambda>n. (composed (lp_slug q) n, n)) (list_nodes d ?org (fl_id fl))) = []"
    by (simp add: list_nodes_def dict_of_def)
  from assms(1) none obtain ids k d1 where ns: "upsert_nodes ?mt ?org (fl_id fl) [] initial (lp_nodes q) [] 0 d = (Inr (ids, k), d1)"
    by (auto simp: write_plan_def Let_def split: prod.splits sum.splits)
  with assms(1) none obtain j d2 where es: "upsert_edges ?mt ?org (fl_id fl) ids (lp_edges q)
      (map (\<lambda>e. (ed_from e, ed_to e)) (list_edges d1 ?org (fl_id fl))) 0 d1 = (Inr j, d2)"
    by (auto simp: write_plan_def Let_def split: prod.splits sum.splits)
  obtain row d3 where row: "append_decision ?mt ?org (fl_id fl) None plan_drafted (pa_actor ctx) (pa_role ctx)
      (actor_kind_value (pa_kind ctx)) (pa_reason ctx) None None None d2 = (row, d3)" by force
  then have d3: "d3 = d2\<lparr>decisions := decisions d2 @ [row]\<rparr>" "dc_flow row = fl_id fl" "dc_kind row = plan_drafted"
    by (auto simp: append_decision_def Let_def)
  from assms(1) none ns es row obtain pl where pl: "record_accepted_plan ?mt ?org (fl_id fl) (cs_dump cs q) (cs_hash cs q)
      (Some (dc_id row)) d3 = (Inr pl, e)" and res: "cr_flow r = fl_id fl" "\<not> cr_already r" "cr_nodes r = ids"
    by (auto simp: write_plan_def Let_def split: prod.splits sum.splits)
  have e: "e = d3\<lparr>plans := plans e\<rparr>" using record_accepted_plan_frame [OF pl] .
  have "distinct (map pn_address (lp_nodes q))" using assms(4) by (simp add: declared_def)
  from upsert_fresh [OF ns _ this assms(3)] obtain new where new: "d1 = d\<lparr>nodes := nodes d @ new\<rparr>"
      "list_all2 (born ?org (fl_id fl) initial) (lp_nodes q) new"
      "map nd_id new = map (mt_node ?mt) [length (nodes d)..<length (nodes d) + length (lp_nodes q)]"
      "list_all2 (\<lambda>p n. map_of ids (pn_address p) = Some (nd_id n)) (lp_nodes q) new" by auto
  have "\<forall>(a, b) \<in> set (map (\<lambda>e. (ed_from e, ed_to e)) (list_edges d1 ?org (fl_id fl))). has_edge ?org (fl_id fl) d1 a b"
    by (auto simp: list_edges_def has_edge_def)
  from upsert_edges_effect [OF es this] have d2: "d2 = d1\<lparr>edges := edges d2\<rparr>"
      "\<forall>x \<in> set (lp_edges q). \<exists>a b. map_of ids (pe_from x) = Some a \<and> map_of ids (pe_to x) = Some b \<and> has_edge ?org (fl_id fl) d2 a b"
      "set (edges d1) \<subseteq> set (edges d2)"
    by blast+
  have same: "nodes e = nodes d1" "edges e = edges d2" "decisions e = decisions d @ [row]"
  proof -
    obtain ps where ps: "e = d3\<lparr>plans := ps\<rparr>" using e by blast
    obtain xs where xs: "d2 = d1\<lparr>edges := xs\<rparr>" using d2(1) by blast
    show "nodes e = nodes d1" "edges e = edges d2" "decisions e = decisions d @ [row]"
      by (simp_all add: ps d3(1) xs new(1))
  qed
  have he: "has_edge ?org (fl_id fl) e a b = has_edge ?org (fl_id fl) d2 a b" for a b by (simp add: has_edge_def same(2))
  have "set (edges d) \<subseteq> set (edges e)" using d2(3) by (simp add: same(2) new(1))
  then show ?thesis
    unfolding drafted_def res(3) he
    using res(1,2) new d2(2) same d3(2,3) by (intro conjI exI [of _ new] exI [of _ row]) simp_all
qed

lemma compiled_draft:
  assumes "compile_proposal cs q ctx plan_drafted initial d = (Inr r, e)" "lp_policy q = None"
    and "get_flow_by_slug d (pa_org ctx) (lp_slug q) = None" "fresh_flow (cs_mint cs) d" "fresh_nodes (cs_mint cs) d"
    and "distinct (declared q)"
  shows "cr_flow r = mt_flow (cs_mint cs) (length (flows d)) \<and> \<not> cr_already r
    \<and> drafted (pa_org ctx) (cr_flow r) initial q (cr_nodes r) (cs_mint cs) d e"
proof -
  let ?fid = "mt_flow (cs_mint cs) (length (flows d))"
  have "compile_rows cs q None ctx plan_drafted initial d = (Inr r, e)"
    using assms(1,2) by (auto simp: compile_proposal_def prepare_execution_policy_def legacy_naive_policy_plan_hash_def
        verified_repositories_def nested_def split: if_splits option.splits prod.splits sum.splits)
  moreover obtain fl d1 where fl: "resolve_flow (cs_mint cs) q (pa_org ctx) d = (fl, d1)" by force
  then have d1: "fl_id fl = ?fid" "d1 = d\<lparr>flows := flows d @ [fl]\<rparr>"
    using assms(3,4) by (auto simp: resolve_flow_def create_flow_def fresh_flow_def Let_def)
  moreover have "current_plans d1 (pa_org ctx) (fl_id fl) = []"
    using assms(4) d1 by (auto simp: current_plans_def fresh_flow_def Let_def filter_empty_conv)
  ultimately have w: "write_plan cs q ctx plan_drafted initial fl (set_identity (fl_id fl) q d1) = (Inr r, e)"
    using fl by (auto simp: compile_rows_def Let_def split: option.splits)
  let ?d = "set_identity (fl_id fl) q d1"
  have same: "nodes ?d = nodes d" "decisions ?d = decisions d" "edges ?d = edges d" by (simp_all add: set_identity_def d1(2))
  have "cr_flow r = fl_id fl \<and> \<not> cr_already r
    \<and> drafted (pa_org ctx) (fl_id fl) initial q (cr_nodes r) (cs_mint cs) ?d e"
    using written_draft [OF w _ _ assms(6)] assms(4,5) same by (simp add: fresh_flow_def fresh_nodes_def Let_def d1(1))
  moreover have "drafted org fid initial q ids mt ?d e \<longleftrightarrow> drafted org fid initial q ids mt d e" for org fid ids mt
    unfolding drafted_def same ..
  ultimately show ?thesis using d1(1) by simp
qed

text \<open>The flow and the plan version it leaves.\<close>

definition planned :: "string \<Rightarrow> string \<Rightarrow> compile_result \<Rightarrow> db \<Rightarrow> db \<Rightarrow> bool" where
  "planned org slug r d e \<longleftrightarrow> (\<exists>fl pl. flows e = flows d @ [fl] \<and> fl_id fl = cr_flow r \<and> fl_org fl = org \<and> fl_slug fl = slug
     \<and> fl_archived fl = None \<and> plans e = plans d @ [pl] \<and> pl_org pl = org \<and> pl_flow pl = cr_flow r
     \<and> pl_hash pl = cr_hash r \<and> pl_version pl = cr_version r \<and> pl_decision pl = cr_decision r)"

lemma upsert_nodes_frame: "upsert_nodes mt org fid existing initial ps ids k d = (x, e) \<Longrightarrow> e = d\<lparr>nodes := nodes e\<rparr>"
proof (induction ps arbitrary: ids k d)
  case (Cons p ps)
  have step: "e = d\<lparr>nodes := nodes e\<rparr>"
    if run: "upsert_nodes mt org fid existing initial ps ids' k' (d\<lparr>nodes := ns\<rparr>) = (x, e)" for ids' k' ns
  proof -
    obtain ms where "e = d\<lparr>nodes := ns\<rparr>\<lparr>nodes := ms\<rparr>" using Cons.IH [OF run] by blast
    then show ?thesis by simp
  qed
  show ?case
  proof (cases "map_of existing (pn_address p)")
    case (Some m)
    with Cons.prems show ?thesis by (auto intro: step)
  next
    case None
    show ?thesis
    proof (cases "split_address (pn_address p)")
      case None
      with Cons.prems \<open>map_of existing (pn_address p) = None\<close> show ?thesis by simp
    next
      case (Some fp)
      obtain n d1 where n: "add_node mt org fid (snd fp) p (map_option node_state_value (map_of initial (pn_address p))) d = (n, d1)"
        by force
      then have "d1 = d\<lparr>nodes := nodes d @ [n]\<rparr>" by (auto simp: add_node_def Let_def)
      with Cons.prems n Some \<open>map_of existing (pn_address p) = None\<close> show ?thesis
        by (cases fp) (auto intro: step)
    qed
  qed
qed simp

lemma written_plan:
  assumes "write_plan cs q ctx kind initial fl d = (Inr r, e)" "current_plans d (pa_org ctx) (fl_id fl) = []"
  shows "flows e = flows d \<and> cr_flow r = fl_id fl \<and> cr_hash r = cs_hash cs q \<and> (\<exists>pl. plans e = plans d @ [pl] \<and> pl_org pl = pa_org ctx
    \<and> pl_flow pl = fl_id fl \<and> pl_hash pl = cr_hash r \<and> pl_version pl = cr_version r \<and> pl_decision pl = cr_decision r)"
proof -
  let ?mt = "cs_mint cs" and ?org = "pa_org ctx"
  let ?old = "dict_of (map (\<lambda>n. (composed (lp_slug q) n, n)) (list_nodes d ?org (fl_id fl)))"
  from assms(1) obtain ids k d1 where ns: "upsert_nodes ?mt ?org (fl_id fl) ?old initial (lp_nodes q) [] 0 d = (Inr (ids, k), d1)"
    by (auto simp: write_plan_def Let_def split: prod.splits sum.splits)
  with assms(1) obtain j d2 where es: "upsert_edges ?mt ?org (fl_id fl) ids (lp_edges q)
      (map (\<lambda>e. (ed_from e, ed_to e)) (list_edges d1 ?org (fl_id fl))) 0 d1 = (Inr j, d2)"
    by (auto simp: write_plan_def Let_def split: prod.splits sum.splits)
  obtain row d3 where row: "append_decision ?mt ?org (fl_id fl) None kind (pa_actor ctx) (pa_role ctx)
      (actor_kind_value (pa_kind ctx)) (pa_reason ctx) None None None d2 = (row, d3)" by force
  from assms(1) ns es row obtain pl where pl: "record_accepted_plan ?mt ?org (fl_id fl) (cs_dump cs q) (cs_hash cs q)
      (Some (dc_id row)) d3 = (Inr pl, e)"
    and res: "cr_flow r = fl_id fl" "cr_hash r = cs_hash cs q" "cr_version r = pl_version pl" "cr_decision r = Some (dc_id row)"
    by (auto simp: write_plan_def Let_def split: prod.splits sum.splits)
  have "\<forall>(a, b) \<in> set (map (\<lambda>e. (ed_from e, ed_to e)) (list_edges d1 ?org (fl_id fl))). has_edge ?org (fl_id fl) d1 a b"
    by (auto simp: list_edges_def has_edge_def)
  note d2 = upsert_edges_effect [OF es this]
  obtain xs where xs: "d1 = d\<lparr>nodes := xs\<rparr>" using upsert_nodes_frame [OF ns] by blast
  obtain ys where ys: "d2 = d1\<lparr>edges := ys\<rparr>" using d2 by blast
  have d3: "plans d3 = plans d" "flows d3 = flows d" using append_decision_frame [OF row] by (simp_all add: xs ys)
  have "accepted_plan d3 ?org (fl_id fl) = Inr None" using assms(2) d3(1) by (simp add: accepted_plan_def current_plans_def)
  then have "plans e = plans d @ [pl]" "flows e = flows d" "pl_org pl = ?org" "pl_flow pl = fl_id fl" "pl_hash pl = cs_hash cs q"
      "pl_decision pl = Some (dc_id row)"
    using pl d3 by (auto simp: record_accepted_plan_def Let_def)
  with res show ?thesis by simp
qed

lemma compiled_plan:
  assumes "compile_proposal cs q ctx plan_drafted initial d = (Inr r, e)" "lp_policy q = None"
    and "get_flow_by_slug d (pa_org ctx) (lp_slug q) = None" "fresh_flow (cs_mint cs) d"
  shows "planned (pa_org ctx) (lp_slug q) r d e \<and> cr_hash r = cs_hash cs q
    \<and> cr_flow r = mt_flow (cs_mint cs) (length (flows d))"
proof -
  let ?fid = "mt_flow (cs_mint cs) (length (flows d))"
  have "compile_rows cs q None ctx plan_drafted initial d = (Inr r, e)"
    using assms(1,2) by (auto simp: compile_proposal_def prepare_execution_policy_def legacy_naive_policy_plan_hash_def
        verified_repositories_def nested_def split: if_splits option.splits prod.splits sum.splits)
  moreover obtain fl d1 where fl: "resolve_flow (cs_mint cs) q (pa_org ctx) d = (fl, d1)" by force
  then have d1: "fl_id fl = ?fid" "d1 = d\<lparr>flows := flows d @ [fl]\<rparr>" "fl_org fl = pa_org ctx" "fl_slug fl = lp_slug q"
      "fl_archived fl = None"
    using assms(3,4) by (auto simp: resolve_flow_def create_flow_def fresh_flow_def Let_def)
  moreover have none: "current_plans d1 (pa_org ctx) (fl_id fl) = []"
    using assms(4) d1 by (auto simp: current_plans_def fresh_flow_def Let_def filter_empty_conv)
  ultimately have w: "write_plan cs q ctx plan_drafted initial fl (set_identity (fl_id fl) q d1) = (Inr r, e)"
    using fl by (auto simp: compile_rows_def Let_def split: option.splits)
  let ?f = "fl\<lparr>fl_product := lp_product q, fl_origin := lp_origin q, fl_trackers := lp_trackers q\<rparr>"
  have "flows (set_identity (fl_id fl) q d1) = flows d @ [?f]"
    using assms(4) d1(1) by (auto simp: set_identity_def update_where_def d1(2) fresh_flow_def Let_def intro!: map_idI)
  moreover have "plans (set_identity (fl_id fl) q d1) = plans d" by (simp add: set_identity_def d1(2))
  moreover have "current_plans (set_identity (fl_id fl) q d1) (pa_org ctx) (fl_id fl) = []"
    using none by (simp add: current_plans_def set_identity_def)
  note wp = written_plan [OF w this]
  ultimately show ?thesis
    unfolding planned_def using wp d1 by (intro conjI exI [of _ ?f]) auto
qed

lemma find_append_None: "find P xs = None \<Longrightarrow> find P (xs @ ys) = find P ys"
  by (induction xs) (auto split: if_splits)

end
