(* ===== verification/Dispatch_Laws.thy ===== *)
theory Dispatch_Laws
  imports Dispatch Gate_Laws
begin

text \<open>
  What a dispatch and a continuation write: at most one ready node starts, and what is recorded is
  recorded under the service; the human behind a dispatch is the actor of a stored approval.
\<close>

section \<open>Only a ready node starts\<close>

lemma parse_running: "parse_node_state ''running'' = Some RUNNING" "parse_actor_kind ''service'' = Some SERVICE"
  unfolding parse_node_state_def parse_actor_kind_def node_text.parse_iff actor_text.parse_iff by simp_all

lemma running_needs_ready:
  assumes "transition_raw no_proofs s ''running'' ''service'' why = Inr result"
  shows "allowed result \<longleftrightarrow> s = ''ready''"
proof -
  from assms obtain f where f: "parse_node_state s = Some f" "result = transition no_proofs f RUNNING SERVICE why"
    by (auto simp: transition_raw_def parse_running split: option.splits)
  then have s: "s = node_state_value f" unfolding parse_node_state_def node_text.parse_iff by simp
  show ?thesis unfolding f(2) s by (cases f) (auto simp: transition_unfold no_proofs_def)
qed

lemma ready_runs: "\<exists>result. transition_raw no_proofs ''ready'' ''running'' ''service'' why = Inr result \<and> allowed result"
proof -
  have "parse_node_state ''ready'' = Some READY"
    unfolding parse_node_state_def node_text.parse_iff by simp
  then obtain result where "transition_raw no_proofs ''ready'' ''running'' ''service'' why = Inr result"
    by (simp add: transition_raw_def parse_running)
  then show ?thesis using running_needs_ready by blast
qed

text \<open>The row of the node that starts, with or without a new attempt.\<close>

definition starts_node :: "string \<Rightarrow> string \<Rightarrow> nat \<Rightarrow> db \<Rightarrow> db \<Rightarrow> bool" where
  "starts_node org node k d e \<longleftrightarrow> (\<exists>n \<in> set (nodes d). nd_id n = node \<and> nd_org n = org \<and> nd_state n = ''ready''
     \<and> nodes e = update_where (\<lambda>m. nd_id m = node)
         (\<lambda>m. m\<lparr>nd_state := ''running'', nd_attempts := nd_attempts m + int k\<rparr>) (nodes d))"

lemma observed_rows:
  assumes "unique_on nd_id (nodes d)"
  shows "filter (observed_row node org s) (nodes d) = [] \<and> update_where (observed_row node org s) f (nodes d) = nodes d
    \<or> (\<exists>n \<in> set (nodes d). nd_id n = node \<and> nd_org n = org \<and> nd_state n = s \<and> filter (observed_row node org s) (nodes d) = [n]
        \<and> update_where (observed_row node org s) f (nodes d) = update_where (\<lambda>m. nd_id m = node) f (nodes d))"
proof (cases "\<exists>n \<in> set (nodes d). observed_row node org s n")
  case False
  then show ?thesis by (auto simp: update_where_def filter_empty_conv intro!: map_idI)
next
  case True
  then obtain n where n: "n \<in> set (nodes d)" "observed_row node org s n" by blast
  have same: "observed_row node org s m \<longleftrightarrow> nd_id m = node" if "m \<in> set (nodes d)" for m
    using unique_onD [OF assms that n(1)] n(2) by (auto simp: observed_row_def)
  have "filter (observed_row node org s) (nodes d) = filter (\<lambda>m. nd_id m = nd_id n) (nodes d)"
    using same n(2) by (intro filter_cong) (auto simp: observed_row_def)
  also have "\<dots> = [n]" using filter_key [OF assms [unfolded unique_on_def] n(1)] .
  finally have "filter (observed_row node org s) (nodes d) = [n]" .
  moreover have "update_where (observed_row node org s) f (nodes d) = update_where (\<lambda>m. nd_id m = node) f (nodes d)"
    unfolding update_where_def using same by (intro map_cong) auto
  ultimately show ?thesis using n by (auto simp: observed_row_def)
qed

lemma service_append:
  "append_decision mt org fid node kind act role ''service'' why rej was becomes d = (r, e) \<Longrightarrow> service_adds d e"
  by (auto simp: append_decision_def Let_def service_adds_def)

lemma dispatch_transition_effect:
  assumes "dispatch_transition mt node org fid s why d = (x, e)" "nodes_unique d"
  shows "edges e = edges d \<and> service_adds d e \<and> (case x of Inl _ \<Rightarrow> nodes e = nodes d
    | Inr (k, ok) \<Rightarrow> (ok \<longleftrightarrow> s = ''ready'')
        \<and> (if ok \<and> k \<noteq> 0 then k = 1 \<and> starts_node org node 1 d e else nodes e = nodes d))"
proof (cases "transition_raw no_proofs s ''running'' ''service'' why")
  case (Inl err)
  with assms(1) show ?thesis by (auto simp: dispatch_transition_def)
next
  case (Inr result)
  note ok = running_needs_ready [OF Inr]
  show ?thesis
  proof (cases "s = ''ready''")
    case False
    with assms(1) Inr ok show ?thesis
      by (auto simp: dispatch_transition_def append_decision_def Let_def service_adds_def)
  next
    case True
    let ?f = "\<lambda>n. n\<lparr>nd_state := ''running'', nd_attempts := nd_attempts n + 1\<rparr>"
    have r: "x = Inr (length (filter (observed_row node org s) (nodes d)), True)"
        "e = d\<lparr>nodes := update_where (observed_row node org s) ?f (nodes d)\<rparr>"
      using assms(1) Inr ok True by (simp_all add: dispatch_transition_def Let_def)
    have u: "unique_on nd_id (nodes d)" using assms(2) by (simp add: nodes_unique_def)
    from observed_rows [OF u, of node org s ?f] show ?thesis
    proof
      assume "filter (observed_row node org s) (nodes d) = [] \<and> update_where (observed_row node org s) ?f (nodes d) = nodes d"
      with r True show ?thesis by simp
    next
      assume "\<exists>n \<in> set (nodes d). nd_id n = node \<and> nd_org n = org \<and> nd_state n = s
        \<and> filter (observed_row node org s) (nodes d) = [n]
        \<and> update_where (observed_row node org s) ?f (nodes d) = update_where (\<lambda>m. nd_id m = node) ?f (nodes d)"
      then have "starts_node org node 1 d e" "x = Inr (1, True)"
        using True unfolding starts_node_def r by auto
      moreover have "edges e = edges d" "service_adds d e" by (simp_all add: r(2))
      ultimately show ?thesis using True by simp
    qed
  qed
qed

lemma outcome_of: "dispatch_outcome_of st node run = Inr out \<Longrightarrow> do_status out = st \<and> do_run out = run \<and> do_node out = node"
  by (auto simp: dispatch_outcome_of_def split: if_splits)

lemma dispatch_node_effect:
  assumes "dispatch_node mt sv node g d = (x, e)" "nodes_unique d"
  shows "edges e = edges d \<and> service_adds d e \<and> (case x of Inl _ \<Rightarrow> nodes e = nodes d
    | Inr out \<Rightarrow> if do_status out = DISPATCHED
        then starts_node (eg_org g) node 1 d e \<and> (\<exists>run. do_run out = Some run \<and> dr_node run = node
          \<and> dr_org run = eg_org g \<and> dr_decision run = eg_decision g \<and> dr_human run = eg_human g)
        else nodes e = nodes d \<and> do_run out = None)"
proof -
  have none: "x = dispatch_outcome_of st i None \<Longrightarrow> st \<noteq> DISPATCHED \<Longrightarrow> e = d \<Longrightarrow> ?thesis" for st i
    by (auto simp: dispatch_outcome_of_def)
  show ?thesis
  proof (cases "node_in_org d (eg_org g) node")
    case None
    with assms(1) have "x = dispatch_outcome_of NOT_FOUND node None" "e = d" by (auto simp: dispatch_node_def Let_def)
    from none [OF this(1) _ this(2)] show ?thesis by simp
  next
    case (Some n)
    then have n: "nd_id n = node" "n \<in> set (nodes d)" by (auto simp: node_in_org_def dest!: find_SomeD)
    show ?thesis
    proof (cases "flow_for d (eg_org g) (nd_flow n)")
      case None
      with assms(1) Some have "x = dispatch_outcome_of NOT_FOUND node None" "e = d" by (auto simp: dispatch_node_def Let_def)
      from none [OF this(1) _ this(2)] show ?thesis by simp
    next
      case (Some fl)
      note fl = this
      show ?thesis
      proof (cases "managed_evaluation sv d n")
        case (Inl err)
        then show ?thesis using assms(1) \<open>node_in_org d (eg_org g) node = Some n\<close> fl by (auto simp: dispatch_node_def Let_def)
      next
        case (Inr b)
        obtain y d1 where t: "dispatch_transition mt (nd_id n) (eg_org g) (nd_flow n) (nd_state n) (dispatch_reason g) d = (y, d1)"
          by force
        note eff = dispatch_transition_effect [OF t assms(2)]
        show ?thesis
        proof (cases b)
          case True
          then have "x = dispatch_outcome_of REJECTED (nd_id n) None" "e = d"
            using assms(1) \<open>node_in_org d (eg_org g) node = Some n\<close> fl Inr by (auto simp: dispatch_node_def Let_def)
          from none [OF this(1) _ this(2)] show ?thesis by simp
        next
          case False
          show ?thesis
          proof (cases y)
            case (Inl err)
            with False show ?thesis
              using assms(1) \<open>node_in_org d (eg_org g) node = Some n\<close> fl Inr t eff by (auto simp: dispatch_node_def Let_def)
          next
            case (Inr yr)
            obtain k ok where yr: "yr = (k, ok)" by force
            have e: "e = d1" and x: "x = (if \<not> ok then dispatch_outcome_of REJECTED (nd_id n) None
                else if k \<noteq> 1 then dispatch_outcome_of ALREADY_RUNNING (nd_id n) None
                else dispatch_outcome_of DISPATCHED (nd_id n) (Some \<lparr>dr_node = nd_id n, dr_org = eg_org g, dr_flow = nd_flow n,
                  dr_address = graph_address n (fl_slug fl), dr_decision = eg_decision g, dr_human = eg_human g\<rparr>))"
              using assms(1) \<open>node_in_org d (eg_org g) node = Some n\<close> fl \<open>managed_evaluation sv d n = Inr b\<close> False t Inr yr
              by (auto simp: dispatch_node_def Let_def)
            show ?thesis using eff n(1) unfolding e x Inr yr
              by (auto simp: dispatch_outcome_of_def split: if_splits)
          qed
        qed
      qed
    qed
  qed
qed

lemma continuation_effect:
  assumes "continue_node_execution mt n execution phase claim generation d = (x, e)" "nodes_unique d"
  shows "edges e = edges d \<and> service_adds d e
    \<and> (if x = Inr True then starts_node (nd_org n) (nd_id n) 0 d e else nodes e = nodes d)"
proof -
  obtain result where r: "transition_raw no_proofs ''ready'' ''running'' ''service'' ''execution continuation'' = Inr result"
    "allowed result" using ready_runs by blast
  let ?hit = "observed_row (nd_id n) (nd_org n) ''ready''" and ?f = "\<lambda>r. r\<lparr>nd_state := ''running''\<rparr>"
  have u: "unique_on nd_id (nodes d)" using assms(2) by (simp add: nodes_unique_def)
  have keep: "?f = (\<lambda>m. m\<lparr>nd_state := ''running'', nd_attempts := nd_attempts m + int 0\<rparr>)" by (intro ext) simp
  from observed_rows [OF u, of "nd_id n" "nd_org n" "''ready''" ?f] show ?thesis
  proof
    assume "filter ?hit (nodes d) = [] \<and> update_where ?hit ?f (nodes d) = nodes d"
    with assms(1) r show ?thesis by (auto simp: continue_node_execution_def Let_def)
  next
    assume h: "\<exists>m \<in> set (nodes d). nd_id m = nd_id n \<and> nd_org m = nd_org n \<and> nd_state m = ''ready'' \<and> filter ?hit (nodes d) = [m]
      \<and> update_where ?hit ?f (nodes d) = update_where (\<lambda>m. nd_id m = nd_id n) ?f (nodes d)"
    then have x: "x = Inr True" "nodes e = update_where ?hit ?f (nodes d)" "edges e = edges d" "service_adds d e"
      using assms(1) r by (auto simp: continue_node_execution_def append_decision_def Let_def service_adds_def)
    have "nodes e = update_where (\<lambda>m. nd_id m = nd_id n) ?f (nodes d)" using h x(2) by auto
    then have "starts_node (nd_org n) (nd_id n) 0 d e" using h unfolding starts_node_def keep [symmetric] by blast
    with x show ?thesis by simp
  qed
qed

section \<open>The human root\<close>

lemma resolved_root:
  assumes "resolve_engine_genesis d org i = Inr g"
  shows "\<exists>r \<in> set (decisions d). dc_id r = i \<and> dc_org r = org \<and> dc_actor_kind r = ''human''
    \<and> dc_kind r \<in> {''plan_accepted'', ''plan_amended'', ''gate_approved''} \<and> dc_actor_id r \<noteq> []
    \<and> eg_human g = dc_actor_id r \<and> eg_decision g = i \<and> eg_flow g = dc_flow r \<and> eg_org g = org"
  using assms
  by (auto simp: resolve_engine_genesis_def approval_decision_kinds_def split: if_splits option.splits dest!: find_SomeD)

end
