(* ===== verification/Pr_Bindings.thy ===== *)
theory Pr_Bindings
  imports Evaluation_Waiver Plan_Compile Deployment_Manifest
begin

text \<open>
  Which pull request implements which story (\<open>orchestration/pr_bindings.py\<close>): the target a run may
  register for, the registration with its replacement and adoption of an earlier binding, the repair and
  the recovery that go through it, and the evidence that lets a binding complete its story.

  \<open>binding_services\<close> holds what the module asks other parts of the engine for: \<open>uuid5\<close> over the URL
  namespace, the correction a node belongs to with its validation (\<open>validate_correction\<close>,
  \<open>correction_link\<close>, each the \<open>detail\<close> of the action), the tenant's installation
  (\<open>resolve_installation_id\<close>) and the \<open>created_at\<close> of a plan row. They read the store and may raise. A
  refusal is its code; the texts are left out. \<open>superseded_at\<close> and \<open>updated_at\<close> are not modelled.
\<close>

record binding_services =
  bs_uuid :: "string \<Rightarrow> string"
  bs_correction :: "db \<Rightarrow> node_row \<Rightarrow> pyexc + fields option"
  bs_link :: "db \<Rightarrow> node_row \<Rightarrow> pyexc + fields option"
  bs_installation :: "db \<Rightarrow> string \<Rightarrow> pyexc + int option"
  bs_created :: "plan_row \<Rightarrow> pydt"

datatype binding_role = IMPLEMENTATION | REVIEWER_ARTIFACT

fun role_value :: "binding_role \<Rightarrow> string" where
  "role_value IMPLEMENTATION = ''implementation''"
| "role_value REVIEWER_ARTIFACT = ''reviewer_artifact''"

record pull_request =
  pr_repo_id :: int
  pr_node :: string
  pr_repo :: string
  pr_number :: int
  pr_head :: string

text \<open>The repository id of a target is what the dispatch recorded, any JSON value.\<close>

record registration_target =
  rt_org :: string
  rt_flow :: string
  rt_node :: string
  rt_attempt :: int
  rt_run :: "string option"
  rt_repo :: string
  rt_issue :: int
  rt_installation :: int
  rt_scope :: "jtext option"
  rt_repo_id :: json

definition bind_refusal :: "string \<Rightarrow> pyexc + 'a" where
  "bind_refusal code = Inl (BindingError code)"

definition attempt_run_id :: "(string \<Rightarrow> string) \<Rightarrow> string \<Rightarrow> int \<Rightarrow> string" where
  "attempt_run_id u node attempt =
     ''orch:'' @ u (''adp:orchestration:'' @ node @ '':'' @ int_text attempt)"

section \<open>The accepted scope\<close>

text \<open>\<open>sort_keys\<close>, at every depth.\<close>

primrec key_sorted :: "json \<Rightarrow> json" where
  "key_sorted JNull = JNull"
| "key_sorted (JBool b) = JBool b"
| "key_sorted (JInt n) = JInt n"
| "key_sorted (JStr s) = JStr s"
| "key_sorted (JArr xs) = JArr (map key_sorted xs)"
| "key_sorted (JObj fs) = JObj (sort_key fst (map (map_prod id key_sorted) fs))"

definition ends_with :: "string \<Rightarrow> string \<Rightarrow> bool" where
  "ends_with suf s \<longleftrightarrow> length suf \<le> length s \<and> drop (length s - length suf) s = suf"

text \<open>\<open>d[key]\<close>, with the exception it raises.\<close>

definition item_of :: "json \<Rightarrow> string \<Rightarrow> pyexc + json" where
  "item_of j k = (case jfields j of None \<Rightarrow> Inl TypeError
     | Some fs \<Rightarrow> (case map_of fs k of None \<Rightarrow> Inl KeyError | Some v \<Rightarrow> Inr v))"

text \<open>The first entry whose address ends in the suffix; the entries before it are looked at.\<close>

fun first_ending :: "string \<Rightarrow> json list \<Rightarrow> pyexc + fields option" where
  "first_ending suf [] = Inr None"
| "first_ending suf (x # xs) = and_then (item_of x ''address'') (\<lambda>a.
     case a of JStr s \<Rightarrow> if ends_with suf s then Inr (jfields x) else first_ending suf xs
     | _ \<Rightarrow> Inl AttributeError)"

definition newest_plan :: "binding_services \<Rightarrow> db \<Rightarrow> node_row \<Rightarrow> decision_row option \<Rightarrow> plan_row option" where
  "newest_plan sv d n dec =
     (case rev (sort_key pl_version (filter (\<lambda>p. pl_org p = nd_org n \<and> pl_flow p = nd_flow n
         \<and> (case dec of None \<Rightarrow> True | Some r \<Rightarrow> stamp (bs_created sv p) \<le> stamp (dc_created r))) (plans d))) of
        [] \<Rightarrow> None | p # _ \<Rightarrow> Some p)"

definition scope_definition :: "node_row \<Rightarrow> plan_row option \<Rightarrow> pyexc + json" where
  "scope_definition n plan =
     (case plan of None \<Rightarrow> Inr (node_scope n)
      | Some p \<Rightarrow>
         (case jfields (pl_document p) of None \<Rightarrow> Inl AttributeError
          | Some doc \<Rightarrow> and_then (doc_nodes doc) (\<lambda>items.
              and_then (first_ending (''/'' @ nd_epic n @ ''/'' @ nd_wave n @ ''/'' @ nd_ref n) items) (\<lambda>found.
                Inr (case found of None \<Rightarrow> node_scope n
                     | Some fs \<Rightarrow> JObj (map (\<lambda>k. (k, jget fs k)) [''kind'', ''issue_ref'', ''title'']))))))"

definition correction_keys :: "string list" where
  "correction_keys = [''parent_node_id'', ''evaluation_cycle'', ''failed_evidence_key'', ''source_scope'', ''source_revision'']"

definition correction_scope :: "fields option \<Rightarrow> pyexc + fields" where
  "correction_scope link =
     (case link of None \<Rightarrow> Inr []
      | Some detail \<Rightarrow>
         if list_all (\<lambda>k. map_of detail k \<noteq> None) correction_keys
         then Inr [(''evaluation_correction'', JObj (map (\<lambda>k. (k, jget detail k)) correction_keys))]
         else Inl KeyError)"

definition scope_document :: "json \<Rightarrow> fields \<Rightarrow> decision_row option \<Rightarrow> fields \<Rightarrow> plan_row option \<Rightarrow> json" where
  "scope_document node correction dec dispatch plan = JObj
     ([(''node'', node)] @ correction
      @ [(''dispatch_decision_id'', jopt (map_option dc_id dec)),
         (''root_decision_id'', jget dispatch ''root_decision_id''),
         (''accepted_plan_id'', jopt (map_option pl_id plan)),
         (''accepted_plan_hash'', jopt (map_option pl_hash plan)),
         (''accepted_plan_version'', jnat (map_option pl_version plan))])"

definition accepted_scope :: "binding_services \<Rightarrow> db \<Rightarrow> node_row \<Rightarrow> decision_row option \<Rightarrow> pyexc + jtext" where
  "accepted_scope sv d n dec =
     (let plan = newest_plan sv d n dec in
      and_then (scope_definition n plan) (\<lambda>node.
      and_then (bs_link sv d n) (\<lambda>link.
      and_then (correction_scope link) (\<lambda>correction.
      and_then (case dec of None \<Rightarrow> Inr [] | Some r \<Rightarrow> loads_or_empty (dc_reason r)) (\<lambda>dispatch.
        Inr (dumped (key_sorted (scope_document node correction dec dispatch plan))))))))"

section \<open>The connection a node must have\<close>

text \<open>\<open>accepted_node.requires_verified_repository_connection\<close>.\<close>

definition requires_connection :: "db \<Rightarrow> node_row \<Rightarrow> pyexc + bool" where
  "requires_connection d n =
     (if nd_installation n \<noteq> None then Inr True
      else let flow = flow_for d (nd_org n) (nd_flow n) in
        and_then (accepted_plan d (nd_org n) (nd_flow n)) (\<lambda>plan.
        and_then (case plan of None \<Rightarrow> Inr [] | Some p \<Rightarrow> doc_fields (pl_document p)) (\<lambda>doc.
          if (case flow of None \<Rightarrow> False | Some f \<Rightarrow> fl_product f \<noteq> None) \<or> jget doc ''product_id'' \<noteq> JNull
          then Inr True
          else (case flow of None \<Rightarrow> Inr False
            | Some f \<Rightarrow> and_then (doc_nodes doc) (\<lambda>items.
                Inr (list_ex (\<lambda>fs. jget fs ''address'' = JStr (node_address f n)
                  \<and> jget fs ''repository_connection'' \<noteq> JNull) (List.map_filter jfields items)))))))"

text \<open>\<open>str(node.issue_ref).lstrip("#")\<close>.\<close>

definition issue_text :: "node_row \<Rightarrow> string" where
  "issue_text n = dropWhile (\<lambda>c. c = CHR ''#'') (py_str (jopt (nd_issue n)))"

section \<open>The target of a run\<close>

text \<open>\<open>int(x)\<close> and \<open>int(x or 0)\<close> of a decoded value.\<close>

fun json_int :: "json \<Rightarrow> pyexc + int" where
  "json_int (JInt n) = Inr n"
| "json_int (JBool b) = Inr (if b then 1 else 0)"
| "json_int (JStr s) = (case py_int s of None \<Rightarrow> Inl ValueError | Some n \<Rightarrow> Inr n)"
| "json_int _ = Inl TypeError"

definition int_or_zero :: "json \<Rightarrow> pyexc + int" where
  "int_or_zero v = (if jtruthy v then json_int v else Inr 0)"

definition text_or_empty :: "json \<Rightarrow> string" where
  "text_or_empty v = (if jtruthy v then py_str v else [])"

text \<open>The dispatch record of a decision, when it is one of this run; any other row is passed over.\<close>

definition dispatch_of :: "string \<Rightarrow> decision_row \<Rightarrow> fields option" where
  "dispatch_of run r =
     (case loads_or_empty (dc_reason r) of Inl _ \<Rightarrow> None
      | Inr dispatch \<Rightarrow> if jget dispatch ''run_id'' = JStr run then Some dispatch else None)"

text \<open>A correction keeps the repository its failed source was delivered from.\<close>

definition correction_source_ok :: "binding_services \<Rightarrow> db \<Rightarrow> node_row \<Rightarrow> fields \<Rightarrow> pyexc + bool" where
  "correction_source_ok sv d n dispatch =
     (case bs_correction sv d n of
        Inl e \<Rightarrow> if is_value_error e \<or> e \<in> {KeyError, TypeError}
                    \<or> (case e of CycleBlockedError _ \<Rightarrow> True | _ \<Rightarrow> False)
                 then bind_refusal ''repository_mismatch'' else Inl e
      | Inr None \<Rightarrow> Inr True
      | Inr (Some detail) \<Rightarrow>
          let source = jget detail ''source_authorization'' in
          if source = JNull then Inr True
          else and_then (item_of source ''repository'') (\<lambda>repo.
            and_then (item_of source ''provider_repository_id'') (\<lambda>rid.
            and_then (item_of source ''installation_id'') (\<lambda>inst.
              Inr (jeq (jget dispatch ''repo'') repo \<and> jeq (jget dispatch ''provider_repository_id'') rid
                \<and> jeq (jget dispatch ''installation_id'') inst)))))"

definition assignment_ok :: "node_row \<Rightarrow> bool \<Rightarrow> fields \<Rightarrow> fields \<Rightarrow> bool" where
  "assignment_ok n linked dispatch asg \<longleftrightarrow>
     jeq (jget asg ''repo'') (jget dispatch ''repo'') \<and> jeq (jget asg ''issue'') (jget dispatch ''issue'')
     \<and> jget asg ''flow_id'' = JStr (nd_flow n)
     \<and> jeq (jget asg ''provider_repository_id'') (jnat (nd_repository_id n))
     \<and> jeq (jget dispatch ''provider_repository_id'') (jnat (nd_repository_id n))
     \<and> issue_text n = py_str (jget dispatch ''issue'')
     \<and> jtruthy (jget asg ''installation_id'')
     \<and> jeq (jget asg ''installation_id'') (jget dispatch ''installation_id'')
     \<and> (linked \<longrightarrow> jeq (jget asg ''installation_id'') (jnat (nd_installation n)))"

text \<open>The installation: the assignment's where the repository is accepted, else the tenant's.\<close>

definition target_installation :: "binding_services \<Rightarrow> db \<Rightarrow> node_row \<Rightarrow> fields \<Rightarrow> pyexc + json" where
  "target_installation sv d n dispatch =
     and_then (requires_connection d n) (\<lambda>linked.
       if truthy (nd_repository n) \<or> linked
       then (case (if jtruthy (jget dispatch ''assignment'') then jfields (jget dispatch ''assignment'') else Some []) of
               None \<Rightarrow> Inl AttributeError
             | Some asg \<Rightarrow> if assignment_ok n linked dispatch asg then Inr (jget asg ''installation_id'')
                           else bind_refusal ''repository_mismatch'')
       else and_then (bs_installation sv d (nd_org n)) (\<lambda>i. Inr (jnat i)))"

definition target_for ::
    "binding_services \<Rightarrow> db \<Rightarrow> string \<Rightarrow> string option \<Rightarrow> node_row \<Rightarrow> decision_row \<Rightarrow> fields
     \<Rightarrow> pyexc + registration_target" where
  "target_for sv d run expected n r dispatch =
     (if expected \<noteq> None \<and> expected \<noteq> Some (nd_org n) then bind_refusal ''tenant_mismatch''
      else if \<not> jeq (jget dispatch ''attempt'') (JInt (nd_attempts n))
              \<or> run \<noteq> attempt_run_id (bs_uuid sv) (nd_id n) (nd_attempts n)
      then bind_refusal ''stale_run''
      else if nd_kind n \<noteq> ''story'' then bind_refusal ''not_a_story''
      else and_then (correction_source_ok sv d n dispatch) (\<lambda>same_source.
        if \<not> same_source then bind_refusal ''repository_mismatch''
        else and_then (target_installation sv d n dispatch) (\<lambda>inst.
          and_then (int_or_zero (jget dispatch ''issue'')) (\<lambda>issue.
          and_then (int_or_zero inst) (\<lambda>installation.
          and_then (accepted_scope sv d n (Some r)) (\<lambda>scope.
            Inr \<lparr>rt_org = nd_org n, rt_flow = nd_flow n, rt_node = nd_id n, rt_attempt = nd_attempts n,
              rt_run = Some run, rt_repo = text_or_empty (jget dispatch ''repo''), rt_issue = issue,
              rt_installation = installation, rt_scope = Some scope,
              rt_repo_id = jget dispatch ''provider_repository_id''\<rparr>))))))"

fun first_target ::
    "binding_services \<Rightarrow> db \<Rightarrow> string \<Rightarrow> string option \<Rightarrow> decision_row list \<Rightarrow> pyexc + registration_target" where
  "first_target sv d run expected [] = bind_refusal ''unknown_run''"
| "first_target sv d run expected (r # rs) =
     (case dispatch_of run r of None \<Rightarrow> first_target sv d run expected rs
      | Some dispatch \<Rightarrow>
         (case find (\<lambda>n. dc_node r = Some (nd_id n) \<and> nd_org n = dc_org r) (nodes d) of
            None \<Rightarrow> first_target sv d run expected rs
          | Some n \<Rightarrow> target_for sv d run expected n r dispatch))"

definition newest_decisions :: "decision_row list \<Rightarrow> decision_row list" where
  "newest_decisions rs = rev (sort_key (\<lambda>r. (stamp (dc_created r), dc_id r)) rs)"

definition resolve_registration_target ::
    "binding_services \<Rightarrow> db \<Rightarrow> string option \<Rightarrow> string option \<Rightarrow> pyexc + registration_target" where
  "resolve_registration_target sv d run expected =
     (let asserted = strip (or_else run []) in
      if asserted = [] then bind_refusal ''missing_run_id''
      else first_target sv d asserted expected
             (newest_decisions (filter (\<lambda>r. dc_kind r = ''node_dispatched'') (decisions d))))"

section \<open>Reading bindings\<close>

definition active_rows :: "db \<Rightarrow> string \<Rightarrow> string \<Rightarrow> binding_row list" where
  "active_rows d org node =
     filter (\<lambda>b. pb_org b = org \<and> pb_node b = node \<and> pb_state b = ''active'') (bindings d)"

text \<open>The binding or the refusal listed for each node of a flow.\<close>

definition list_binding ::
    "binding_row \<Rightarrow> (string \<times> (binding_row + string)) list \<Rightarrow> (string \<times> (binding_row + string)) list" where
  "list_binding row found =
     (case map_of found (pb_node row) of
        None \<Rightarrow> dict_set (pb_node row) (Inl row) found
      | Some (Inr _) \<Rightarrow> found
      | Some (Inl b) \<Rightarrow>
          if pb_attempt b = pb_attempt row then dict_set (pb_node row) (Inr ''ambiguous_candidate'') found
          else if pb_attempt b < pb_attempt row then dict_set (pb_node row) (Inl row) found
          else found)"

definition active_bindings_for_flow :: "db \<Rightarrow> string \<Rightarrow> string \<Rightarrow> (string \<times> (binding_row + string)) list" where
  "active_bindings_for_flow d org fid = fold list_binding
     (filter (\<lambda>b. pb_org b = org \<and> pb_flow b = fid \<and> pb_state b = ''active'') (bindings d)) []"

definition completion_candidate :: "binding_row option \<Rightarrow> string option" where
  "completion_candidate b =
     (case b of None \<Rightarrow> Some ''no_binding''
      | Some r \<Rightarrow> if pb_state r = ''superseded'' then Some ''superseded''
                  else if pb_role r \<noteq> role_value IMPLEMENTATION then Some ''not_implementation'' else None)"

record merge_evidence =
  me_merged :: bool
  me_head :: string
  me_checks :: bool
  me_review :: bool
  me_merge_sha :: "string option"
  me_merged_at :: "string option"
  me_url :: "string option"
  me_repo_id :: "int option"
  me_pr_node :: "string option"

text \<open>The URL that completes the story, or the refusal.\<close>

definition evidence_for_binding :: "binding_row \<Rightarrow> merge_evidence option \<Rightarrow> string + string" where
  "evidence_for_binding b evidence =
     (case evidence of None \<Rightarrow> Inr ''not_merged''
      | Some ev \<Rightarrow>
          if \<not> me_merged ev then Inr ''not_merged''
          else if me_repo_id ev \<noteq> Some (pb_repo_id b) \<or> me_pr_node ev \<noteq> Some (pb_pr_node b)
          then Inr ''repository_mismatch''
          else if me_head ev = [] \<or> me_head ev \<noteq> pb_head_sha b then Inr ''head_moved''
          else if \<not> truthy (me_merge_sha ev) \<or> \<not> truthy (me_merged_at ev) then Inr ''not_merged''
          else if \<not> me_checks ev then Inr ''checks_not_green''
          else if \<not> me_review ev then Inr ''no_independent_review''
          else Inl (or_else (me_url ev) (''https://github.com/'' @ pb_repo b @ ''/pull/'' @ int_text (pb_pr_number b))))"

section \<open>Registering a binding\<close>

text \<open>The id of a new row, the ids and time of its decisions, and whether its insert loses a race.\<close>

record binding_env =
  be_id :: string
  be_mint :: mint
  be_race :: bool

definition put_binding :: "binding_row \<Rightarrow> db \<Rightarrow> db" where
  "put_binding b d = d\<lparr>bindings := update_where (\<lambda>x. pb_id x = pb_id b) (\<lambda>_. b) (bindings d)\<rparr>"

definition record_revision :: "mint \<Rightarrow> string \<Rightarrow> actor_kind \<Rightarrow> binding_row \<Rightarrow> db \<Rightarrow> db" where
  "record_revision mt actor_id kind b d =
     snd (append_decision mt (pb_org b) (pb_flow b) (Some (pb_node b)) ''pr_binding_changed'' actor_id
       (actor_kind_value kind) (actor_kind_value kind) (Some (dumped (binding_snapshot b))) None None None d)"

definition successor_may_adopt :: "node_row option \<Rightarrow> node_row \<Rightarrow> binding_row \<Rightarrow> bool" where
  "successor_may_adopt holder n b \<longleftrightarrow>
     (case holder of None \<Rightarrow> False
      | Some h \<Rightarrow> nd_org h = nd_org n \<and> nd_flow h = nd_flow n \<and> nd_state h = ''superseded''
          \<and> truthy (nd_issue h) \<and> nd_issue h = nd_issue n \<and> pb_state b = ''active'')"

definition resolve_role :: "binding_role option \<Rightarrow> binding_role" where
  "resolve_role role = (if role = Some REVIEWER_ARTIFACT then REVIEWER_ARTIFACT else IMPLEMENTATION)"

text \<open>Who registers what for which reason.\<close>

record binding_request =
  br_actor :: string
  br_kind :: actor_kind
  br_role :: "binding_role option"
  br_replaces :: "string option"
  br_recovery :: "string option"

text \<open>What the checks establish: the node, the scope, the row of the pull request, the node it is
  adopted from, and the other active rows of the story.\<close>

record binding_facts =
  bf_node :: node_row
  bf_scope :: jtext
  bf_row :: "binding_row option"
  bf_holder :: "node_row option"
  bf_rivals :: "binding_row list"

definition loaded :: "jtext \<Rightarrow> pyexc + json" where
  "loaded t = (case decoded t of None \<Rightarrow> Inl ValueError | Some j \<Rightarrow> Inr j)"

definition identity_complete :: "pull_request \<Rightarrow> bool" where
  "identity_complete pr \<longleftrightarrow> \<not> blank (pr_node pr) \<and> 0 < pr_repo_id pr \<and> 0 < pr_number pr \<and> \<not> blank (pr_head pr)"

definition same_repository :: "registration_target \<Rightarrow> pull_request \<Rightarrow> bool" where
  "same_repository t pr \<longleftrightarrow> rt_repo t = [] \<or> pr_repo pr = [] \<or> map lower_char (pr_repo pr) = map lower_char (rt_repo t)"

definition assigned_elsewhere :: "node_row \<Rightarrow> bool \<Rightarrow> registration_target \<Rightarrow> pull_request \<Rightarrow> bool" where
  "assigned_elsewhere n linked t pr \<longleftrightarrow>
     (truthy (nd_repository n) \<or> linked)
     \<and> (nd_repository_id n \<noteq> Some (pr_repo_id pr)
        \<or> linked \<and> nd_installation n \<noteq> Some (rt_installation t)
        \<or> issue_text n \<noteq> int_text (rt_issue t))"

definition binding_of_pr :: "db \<Rightarrow> string \<Rightarrow> pull_request \<Rightarrow> binding_row option" where
  "binding_of_pr d org pr =
     find (\<lambda>b. pb_org b = org \<and> pb_repo_id b = pr_repo_id pr \<and> pb_pr_node b = pr_node pr) (bindings d)"

definition rivals_of :: "db \<Rightarrow> registration_target \<Rightarrow> binding_row option \<Rightarrow> binding_row list" where
  "rivals_of d t row =
     filter (\<lambda>b. case row of None \<Rightarrow> True | Some r \<Rightarrow> pb_id b \<noteq> pb_id r) (active_rows d (rt_org t) (rt_node t))"

text \<open>The node as the locked row, its attempt and its repository.\<close>

definition check_target ::
    "db \<Rightarrow> registration_target \<Rightarrow> pull_request \<Rightarrow> binding_request \<Rightarrow> pyexc + node_row" where
  "check_target d t pr q =
     (if \<not> identity_complete pr then bind_refusal ''incomplete_identity''
      else if \<not> same_repository t pr then bind_refusal ''repository_mismatch''
      else (case find (\<lambda>n. nd_id n = rt_node t \<and> nd_org n = rt_org t) (nodes d) of
        None \<Rightarrow> bind_refusal ''stale_run''
      | Some n \<Rightarrow>
          if nd_attempts n \<noteq> rt_attempt t \<or> nd_flow n \<noteq> rt_flow t then bind_refusal ''stale_run''
          else if rt_repo_id t \<noteq> JNull \<and> \<not> jeq (JInt (pr_repo_id pr)) (rt_repo_id t)
          then bind_refusal ''repository_mismatch''
          else and_then (requires_connection d n) (\<lambda>linked.
            if assigned_elsewhere n linked t pr then bind_refusal ''repository_mismatch''
            else if truthy (br_replaces q) \<and> br_kind q \<noteq> HUMAN then bind_refusal ''ambiguous_candidate''
            else Inr n)))"

definition check_row ::
    "db \<Rightarrow> registration_target \<Rightarrow> pull_request \<Rightarrow> binding_request \<Rightarrow> node_row \<Rightarrow> jtext \<Rightarrow> pyexc + binding_facts" where
  "check_row d t pr q n scope =
     (let row = binding_of_pr d (rt_org t) pr;
          moves = (case row of None \<Rightarrow> False | Some r \<Rightarrow> pb_node r \<noteq> rt_node t);
          holder = (case row of None \<Rightarrow> None | Some r \<Rightarrow> if moves then get_node d (pb_node r) else None);
          rivals = rivals_of d t row in
      if moves \<and> \<not> successor_may_adopt holder n (the row) then bind_refusal ''already_bound_elsewhere''
      else if (case row of None \<Rightarrow> False | Some r \<Rightarrow> pb_state r = ''superseded'') then bind_refusal ''superseded''
      else if rivals \<noteq> [] \<and> \<not> truthy (br_replaces q) then bind_refusal ''ambiguous_candidate''
      else Inr \<lparr>bf_node = n, bf_scope = scope, bf_row = row, bf_holder = holder, bf_rivals = rivals\<rparr>)"

definition check_registration ::
    "binding_services \<Rightarrow> db \<Rightarrow> registration_target \<Rightarrow> pull_request \<Rightarrow> binding_request \<Rightarrow> pyexc + binding_facts" where
  "check_registration sv d t pr q =
     and_then (check_target d t pr q) (\<lambda>n.
     and_then (if (case rt_scope t of None \<Rightarrow> False | Some s \<Rightarrow> raw_text s \<noteq> []) then Inr (the (rt_scope t))
               else accepted_scope sv d n None) (\<lambda>scope.
     and_then (loaded scope) (\<lambda>doc.
     and_then (item_of doc ''node'') (\<lambda>node.
       if \<not> jeq node (node_scope n) then bind_refusal ''scope_changed''
       else check_row d t pr q n scope))))"

definition next_role :: "binding_request \<Rightarrow> binding_row option \<Rightarrow> string" where
  "next_role q row =
     (case row of
        Some r \<Rightarrow> if br_role q \<noteq> Some REVIEWER_ARTIFACT
                  then (if br_kind q = HUMAN \<and> truthy (br_recovery q) then role_value IMPLEMENTATION else pb_role r)
                  else role_value (resolve_role (br_role q))
      | None \<Rightarrow> role_value (resolve_role (br_role q)))"

definition changing :: "binding_facts \<Rightarrow> registration_target \<Rightarrow> pull_request \<Rightarrow> binding_request \<Rightarrow> bool" where
  "changing f t pr q \<longleftrightarrow>
     (case bf_row f of None \<Rightarrow> True
      | Some r \<Rightarrow>
          bf_holder f \<noteq> None \<or> pb_head_sha r \<noteq> pr_head pr \<or> pb_attempt r \<noteq> rt_attempt t \<or> pb_run r \<noteq> rt_run t
          \<or> map_option raw_text (pb_scope r) \<noteq> Some (raw_text (bf_scope f)) \<or> pb_role r \<noteq> next_role q (Some r)
          \<or> bf_rivals f \<noteq> []
          \<or> truthy (br_recovery q) \<and> br_kind q = HUMAN
            \<and> (pb_registered_by r, pb_registered_kind r, pb_recovery r)
              \<noteq> (br_actor q, actor_kind_value (br_kind q), br_recovery q))"

definition superseded_rival :: "binding_request \<Rightarrow> binding_row \<Rightarrow> binding_row" where
  "superseded_rival q b = b\<lparr>pb_state := ''superseded'',
     pb_superseded := map_option (take 255) (br_replaces q), pb_revision := pb_revision b + 1\<rparr>"

definition supersede_rivals :: "mint \<Rightarrow> binding_request \<Rightarrow> binding_row list \<Rightarrow> db \<Rightarrow> db" where
  "supersede_rivals mt q rivals =
     fold (\<lambda>b d. record_revision mt (br_actor q) (br_kind q) (superseded_rival q b)
                   (put_binding (superseded_rival q b) d)) rivals"

definition adoption_reason :: "binding_request \<Rightarrow> node_row option \<Rightarrow> string option" where
  "adoption_reason q holder =
     (case holder of None \<Rightarrow> br_recovery q
      | Some h \<Rightarrow> Some (or_else (br_recovery q) (''adopted from superseded story '' @ nd_ref h @ '' ('' @ nd_id h
          @ '') carrying the same issue'')))"

definition rebound :: "binding_facts \<Rightarrow> registration_target \<Rightarrow> pull_request \<Rightarrow> binding_request \<Rightarrow> binding_row \<Rightarrow> binding_row" where
  "rebound f t pr q r =
     (let moved = (if bf_holder f \<noteq> None then r\<lparr>pb_node := rt_node t, pb_flow := rt_flow t\<rparr> else r) in
      moved\<lparr>pb_attempt := rt_attempt t, pb_run := rt_run t, pb_head_sha := pr_head pr, pb_repo := pr_repo pr,
        pb_pr_number := pr_number pr, pb_installation := rt_installation t, pb_scope := Some (bf_scope f),
        pb_registered_by := br_actor q, pb_registered_kind := actor_kind_value (br_kind q),
        pb_recovery := adoption_reason q (bf_holder f), pb_role := next_role q (Some r),
        pb_revision := pb_revision r + 1\<rparr>)"

definition fresh_binding :: "string \<Rightarrow> binding_facts \<Rightarrow> registration_target \<Rightarrow> pull_request \<Rightarrow> binding_request \<Rightarrow> binding_row" where
  "fresh_binding new_id f t pr q =
     \<lparr>pb_id = new_id, pb_org = rt_org t, pb_flow = rt_flow t, pb_node = rt_node t, pb_attempt = rt_attempt t,
      pb_run = rt_run t, pb_repo_id = pr_repo_id pr, pb_pr_node = pr_node pr, pb_repo = pr_repo pr,
      pb_pr_number = pr_number pr, pb_installation = rt_installation t, pb_head_sha = pr_head pr,
      pb_revision = 1, pb_scope = Some (bf_scope f), pb_role = next_role q None, pb_state = ''active'',
      pb_registered_by = br_actor q, pb_registered_kind = actor_kind_value (br_kind q),
      pb_recovery = br_recovery q, pb_superseded = None\<rparr>"

definition register_binding ::
    "binding_services \<Rightarrow> binding_env \<Rightarrow> registration_target \<Rightarrow> pull_request \<Rightarrow> binding_request
     \<Rightarrow> (db, binding_row \<times> bool) op" where
  "register_binding sv env t pr q d =
     (case check_registration sv d t pr q of
        Inl e \<Rightarrow> (Inl e, d)
      | Inr f \<Rightarrow>
          if changing f t pr q \<and> nd_state (bf_node f) \<in> {''passed'', ''superseded''}
          then (bind_refusal ''stale_run'', d)
          else (case bf_row f of
            Some r \<Rightarrow>
              let d1 = supersede_rivals (be_mint env) q (bf_rivals f) d in
              if changing f t pr q
              then let r' = rebound f t pr q r in
                (Inr (r', False), record_revision (be_mint env) (br_actor q) (br_kind q) r' (put_binding r' d1))
              else (Inr (r, False), d1)
          | None \<Rightarrow>
              if be_race env then (bind_refusal ''already_bound_elsewhere'', d)
              else let b = fresh_binding (be_id env) f t pr q;
                  d1 = supersede_rivals (be_mint env) q (bf_rivals f) (d\<lparr>bindings := bindings d @ [b]\<rparr>) in
                (Inr (b, True), record_revision (be_mint env) (br_actor q) (br_kind q) b d1)))"

section \<open>Repair, recovery and a reviewed head\<close>

definition plain_request :: binding_request where
  "plain_request = \<lparr>br_actor = ''system:orchestration-dispatch'', br_kind = SERVICE, br_role = None,
     br_replaces = None, br_recovery = None\<rparr>"

definition same_pull_request :: "node_row \<Rightarrow> int \<Rightarrow> registration_target \<Rightarrow> pull_request \<Rightarrow> binding_row \<Rightarrow> bool" where
  "same_pull_request n previous t pr b \<longleftrightarrow>
     nd_attempts n = previous + 1 \<and> rt_attempt t = nd_attempts n \<and> pb_flow b = nd_flow n
     \<and> pb_installation b = rt_installation t \<and> map lower_char (pb_repo b) = map lower_char (rt_repo t)
     \<and> pb_repo_id b = pr_repo_id pr \<and> pb_pr_node b = pr_node pr \<and> pb_pr_number b = pr_number pr"

definition carry_forward_binding ::
    "binding_services \<Rightarrow> binding_env \<Rightarrow> node_row \<Rightarrow> int \<Rightarrow> registration_target \<Rightarrow> pull_request \<Rightarrow> int
     \<Rightarrow> (db, binding_row) op" where
  "carry_forward_binding sv env n previous t pr expected d =
     (case active_binding_for_node d (nd_org n) (nd_id n) previous of
        Inl e \<Rightarrow> (Inl e, d)
      | Inr None \<Rightarrow> (bind_refusal ''stale_run'', d)
      | Inr (Some b) \<Rightarrow>
          if pb_revision b \<noteq> expected \<or> completion_candidate (Some b) \<noteq> None then (bind_refusal ''stale_run'', d)
          else (case binding_scope_matches b n of
            Inl e \<Rightarrow> (Inl e, d)
          | Inr matches \<Rightarrow>
              if \<not> matches then (bind_refusal ''scope_changed'', d)
              else if \<not> same_pull_request n previous t pr b then (bind_refusal ''repository_mismatch'', d)
              else (case register_binding sv env t pr plain_request d of
                (Inl e, d1) \<Rightarrow> (Inl e, d1) | (Inr (current, _), d1) \<Rightarrow> (Inr current, d1))))"

text \<open>The scope of a recovery: today's accepted scope under the story's dispatch.\<close>

definition recovery_scope :: "binding_services \<Rightarrow> db \<Rightarrow> node_row \<Rightarrow> decision_row option \<Rightarrow> fields \<Rightarrow> pyexc + jtext" where
  "recovery_scope sv d n dec dispatch =
     and_then (accepted_scope sv d n None) (\<lambda>text.
     and_then (loads_dict (Some text)) (\<lambda>scope.
       case dec of None \<Rightarrow> Inl AttributeError
       | Some r \<Rightarrow> Inr (dumped (key_sorted (JObj (dict_set ''root_decision_id'' (jget dispatch ''root_decision_id'')
           (dict_set ''dispatch_decision_id'' (JStr (dc_id r)) scope)))))))"

definition recovery_target ::
    "binding_services \<Rightarrow> db \<Rightarrow> string \<Rightarrow> string \<Rightarrow> int \<Rightarrow> pyexc + registration_target" where
  "recovery_target sv d org node installation =
     (case find (\<lambda>n. nd_id n = node \<and> nd_org n = org) (nodes d) of
        None \<Rightarrow> bind_refusal ''unknown_run''
      | Some n \<Rightarrow>
          if nd_kind n \<noteq> ''story'' then bind_refusal ''not_a_story''
          else let dec = (case newest_decisions (filter (\<lambda>r. dc_org r = org \<and> dc_node r = Some (nd_id n)
                             \<and> dc_kind r = ''node_dispatched'') (decisions d)) of [] \<Rightarrow> None | r # _ \<Rightarrow> Some r);
                  run = attempt_run_id (bs_uuid sv) (nd_id n) (nd_attempts n) in
            and_then (case dec of None \<Rightarrow> Inr [] | Some r \<Rightarrow> loads_or_empty (dc_reason r)) (\<lambda>dispatch.
            if \<not> jeq (jget dispatch ''attempt'') (JInt (nd_attempts n)) \<or> jget dispatch ''run_id'' \<noteq> JStr run
            then bind_refusal ''stale_run''
            else and_then (requires_connection d n) (\<lambda>linked.
              if (truthy (nd_repository n) \<or> linked)
                 \<and> (\<not> jeq (jget dispatch ''provider_repository_id'') (jnat (nd_repository_id n))
                    \<or> linked \<and> \<not> jeq (jget dispatch ''installation_id'') (jnat (nd_installation n))
                    \<or> \<not> jeq (JInt installation) (jget dispatch ''installation_id''))
              then bind_refusal ''repository_mismatch''
              else and_then (recovery_scope sv d n dec dispatch) (\<lambda>scope.
                and_then (int_or_zero (jget dispatch ''issue'')) (\<lambda>issue.
                Inr \<lparr>rt_org = org, rt_flow = nd_flow n, rt_node = nd_id n, rt_attempt = nd_attempts n,
                  rt_run = Some run, rt_repo = text_or_empty (jget dispatch ''repo''), rt_issue = issue,
                  rt_installation = installation, rt_scope = Some scope,
                  rt_repo_id = jget dispatch ''provider_repository_id''\<rparr>)))))"

definition recover_binding ::
    "binding_services \<Rightarrow> binding_env \<Rightarrow> string \<Rightarrow> string \<Rightarrow> pull_request \<Rightarrow> int \<Rightarrow> string \<Rightarrow> string
     \<Rightarrow> string option \<Rightarrow> (db, binding_row) op" where
  "recover_binding sv env org node pr installation actor_id reason_text replaces d =
     (case recovery_target sv d org node installation of
        Inl e \<Rightarrow> (Inl e, d)
      | Inr t \<Rightarrow>
          (case register_binding sv env t pr \<lparr>br_actor = actor_id, br_kind = HUMAN, br_role = None,
                 br_replaces = replaces, br_recovery = Some reason_text\<rparr> d of
             (Inl e, d1) \<Rightarrow> (Inl e, d1) | (Inr (b, _), d1) \<Rightarrow> (Inr b, d1)))"

definition refresh_reviewed_head ::
    "mint \<Rightarrow> execution_identity \<Rightarrow> string \<Rightarrow> int \<Rightarrow> string option \<Rightarrow> string \<Rightarrow> (db, unit) op" where
  "refresh_reviewed_head mt i bid revision scope head d =
     (case active_binding_for_node d (id_org i) (id_node i) (id_cycle i) of
        Inl e \<Rightarrow> (Inl e, d)
      | Inr None \<Rightarrow> (bind_refusal ''stale_run'', d)
      | Inr (Some b) \<Rightarrow>
          if pb_id b \<noteq> bid \<or> pb_role b \<noteq> role_value IMPLEMENTATION \<or> pb_revision b \<noteq> revision
             \<or> map_option raw_text (pb_scope b) \<noteq> scope
          then (bind_refusal ''stale_run'', d)
          else if pb_head_sha b \<noteq> head
          then let b' = b\<lparr>pb_head_sha := head, pb_revision := pb_revision b + 1\<rparr> in
            (Inr (), record_revision mt ''system:review-cycle'' SERVICE b' (put_binding b' d))
          else (Inr (), d))"

end
