(* ===== verification/Handoff.thy ===== *)
theory Handoff
  imports Pr_Bindings
begin

text \<open>
  The receipt a worker gets for handing its work on (\<open>orchestration/handoff.py\<close>), with the route that
  commits or rolls it back (\<open>agentauth/registration_routes.py\<close>), and the adoption of a lane that was
  started outside the engine. The reference itself, \<open>handoff_required\<close> and the reader of outstanding
  continuations are in \<open>Work_Claims\<close>.

  Parameters: \<open>effective_policy\<close>, the parse of an accepted policy with the budget, retry, window and
  concurrency shared with other flows and its enforcement posture (it reads the store and may raise); the
  services of \<open>Pr_Bindings\<close>; what \<open>validate_live_context\<close> answers, before and after the write.
\<close>

section \<open>The policy in force\<close>

record admission_inputs =
  ai_policy :: "execution_policy option"
  ai_version :: int
  ai_refusal :: "deny_reason option"

type_synonym effective_policy = "db \<Rightarrow> plan_row \<Rightarrow> json \<Rightarrow> pyexc + execution_policy"

text \<open>Some version of the flow's plan carried a policy, or is no document at all.\<close>

definition had_policy :: "db \<Rightarrow> string \<Rightarrow> string \<Rightarrow> bool" where
  "had_policy d org fid = list_ex (\<lambda>p. pl_org p = org \<and> pl_flow p = fid
     \<and> (case pl_document p of JObj fs \<Rightarrow> jget fs ''execution_policy'' \<noteq> JNull | JNull \<Rightarrow> False | _ \<Rightarrow> True)) (plans d)"

definition policy_from_plan ::
    "effective_policy \<Rightarrow> db \<Rightarrow> string \<Rightarrow> string \<Rightarrow> plan_row option \<Rightarrow> pyexc + admission_inputs" where
  "policy_from_plan ep d org fid plan =
     and_then (case plan of None \<Rightarrow> Inr JNull
               | Some p \<Rightarrow> and_then (doc_fields (pl_document p)) (\<lambda>fs. Inr (jget fs ''execution_policy''))) (\<lambda>raw.
       case (plan, raw) of
         (Some p, JNull) \<Rightarrow> Inr \<lparr>ai_policy = None, ai_version = pl_version p,
            ai_refusal = (if had_policy d org fid then Some STALE_POLICY_VERSION else None)\<rparr>
       | (Some p, _) \<Rightarrow>
           (case ep d p raw of
              Inr policy \<Rightarrow> Inr \<lparr>ai_policy = Some policy, ai_version = pl_version p, ai_refusal = None\<rparr>
            | Inl e \<Rightarrow> if is_value_error e
                then Inr \<lparr>ai_policy = None, ai_version = pl_version p, ai_refusal = Some SCHEMA_UNSUPPORTED\<rparr>
                else Inl e)
       | (None, _) \<Rightarrow> Inr \<lparr>ai_policy = None, ai_version = 0,
            ai_refusal = (if had_policy d org fid then Some STALE_POLICY_VERSION else None)\<rparr>)"

definition load_in_force_policy :: "effective_policy \<Rightarrow> db \<Rightarrow> string \<Rightarrow> string \<Rightarrow> pyexc + admission_inputs" where
  "load_in_force_policy ep d org fid =
     and_then (accepted_plan d org fid) (\<lambda>plan. policy_from_plan ep d org fid plan)"

section \<open>Receipts and results\<close>

datatype handoff_outcome = HoCOMMITTED | ALREADY_COMMITTED | HoSUPERSEDED | HoSTALE | HoREFUSED

fun handoff_outcome_value :: "handoff_outcome \<Rightarrow> string" where
  "handoff_outcome_value HoCOMMITTED = ''committed''"
| "handoff_outcome_value ALREADY_COMMITTED = ''already_committed''"
| "handoff_outcome_value HoSUPERSEDED = ''superseded''"
| "handoff_outcome_value HoSTALE = ''stale''"
| "handoff_outcome_value HoREFUSED = ''refused''"

record handoff_receipt =
  hr_version :: int
  hr_ref :: string
  hr_execution :: string
  hr_policy :: "string option"
  hr_policy_hash :: "string option"
  hr_org :: string
  hr_flow :: string
  hr_node :: string
  hr_cycle :: int
  hr_plan_version :: int
  hr_claim :: string
  hr_generation :: int
  hr_action :: string
  hr_action_id :: string
  hr_next_check :: pydt

record handoff_result =
  ho_outcome :: handoff_outcome
  ho_ref :: "string option"
  ho_record :: "execution_record option"
  ho_reason :: "string option"
  ho_receipt :: "handoff_receipt option"

definition handoff_accepted :: "handoff_result \<Rightarrow> bool" where
  "handoff_accepted r \<longleftrightarrow>
     ho_outcome r \<in> {HoCOMMITTED, ALREADY_COMMITTED} \<and> truthy (ho_ref r) \<and> ho_receipt r \<noteq> None"

definition unaccepted :: "handoff_outcome \<Rightarrow> execution_record option \<Rightarrow> string option \<Rightarrow> handoff_result" where
  "unaccepted out rec why =
     \<lparr>ho_outcome = out, ho_ref = None, ho_record = rec, ho_reason = why, ho_receipt = None\<rparr>"

definition handoff_action_id :: "execution_identity \<Rightarrow> string \<Rightarrow> string" where
  "handoff_action_id i execution_id = ''handoff-action:'' @ execution_id @ '':'' @ int_text (id_cycle i)
     @ '':'' @ int_text (id_generation i)"

definition receipt_for_record ::
    "effective_policy \<Rightarrow> db \<Rightarrow> execution_identity \<Rightarrow> execution_record \<Rightarrow> string \<Rightarrow> pyexc + handoff_receipt option" where
  "receipt_for_record ep d i rec ref =
     (case er_next_check rec of None \<Rightarrow> Inr None
      | Some due \<Rightarrow> and_then (load_in_force_policy ep d (er_org rec) (er_flow rec)) (\<lambda>inputs.
          if ai_refusal inputs \<noteq> None \<or> ai_version inputs \<noteq> er_plan_version rec then Inr None
          else Inr (Some \<lparr>hr_version = 1, hr_ref = ref, hr_execution = er_id rec,
            hr_policy = (case ai_policy inputs of None \<Rightarrow> None | Some p \<Rightarrow> ep_policy_id p),
            hr_policy_hash = (case ai_policy inputs of None \<Rightarrow> None | Some p \<Rightarrow> ep_policy_hash p),
            hr_org = er_org rec, hr_flow = er_flow rec, hr_node = er_node rec, hr_cycle = er_cycle rec,
            hr_plan_version = er_plan_version rec, hr_claim = er_claim rec, hr_generation = er_generation rec,
            hr_action = ''awaiting_review'', hr_action_id = handoff_action_id i (er_id rec), hr_next_check = due\<rparr>)))"

definition outstanding_block :: "block_code \<Rightarrow> string \<Rightarrow> string \<Rightarrow> string option \<Rightarrow> pyexc + block_record" where
  "outstanding_block code owner required detail = make_block code (Some owner) (Some required) [] None detail"

section \<open>Committing a handoff\<close>

definition continuation_seconds :: int where
  "continuation_seconds = 300"

text \<open>A receipt is stored already: it is this attempt's and still due, or the attempt is superseded.\<close>

definition replay_handoff ::
    "effective_policy \<Rightarrow> db \<Rightarrow> execution_identity \<Rightarrow> execution_record \<Rightarrow> string \<Rightarrow> string \<Rightarrow> pyexc + handoff_result" where
  "replay_handoff ep d i rec stored expected =
     (if stored \<noteq> expected then Inr (unaccepted HoSUPERSEDED (Some rec) (Some ''handoff_receipt_superseded''))
      else and_then (receipt_for_record ep d i rec stored) (\<lambda>receipt.
        case receipt of
          None \<Rightarrow> Inr (unaccepted HoREFUSED (Some rec) (Some ''handoff_continuation_not_due''))
        | Some r \<Rightarrow> Inr \<lparr>ho_outcome = ALREADY_COMMITTED, ho_ref = Some stored, ho_record = Some rec,
              ho_reason = Some ''handoff_already_committed'', ho_receipt = Some r\<rparr>))"

text \<open>What the answer of the advance means for the handoff, with the readback of the committed row.\<close>

definition conclude_handoff ::
    "effective_policy \<Rightarrow> db \<Rightarrow> execution_identity \<Rightarrow> string \<Rightarrow> execution_outcome \<Rightarrow> pyexc + handoff_result" where
  "conclude_handoff ep d i expected out =
     (case oc_kind out of
        STALE \<Rightarrow> Inr (unaccepted HoSTALE (oc_record out) (oc_reason out))
      | CONFLICT \<Rightarrow> Inr (unaccepted HoSUPERSEDED (oc_record out) (oc_reason out))
      | OkBLOCKED \<Rightarrow> Inr (unaccepted HoREFUSED (oc_record out) (oc_reason out))
      | APPLIED \<Rightarrow>
          (case oc_record out of
             None \<Rightarrow> Inr (unaccepted HoREFUSED None (Some ''handoff_readback_mismatch''))
           | Some rec \<Rightarrow>
              if er_handoff rec \<noteq> Some expected
              then Inr (unaccepted HoREFUSED (Some rec) (Some ''handoff_readback_mismatch''))
              else and_then (receipt_for_record ep d i rec expected) (\<lambda>receipt.
                case receipt of
                  None \<Rightarrow> Inr (unaccepted HoREFUSED (Some rec) (Some ''handoff_continuation_not_due''))
                | Some r \<Rightarrow> Inr \<lparr>ho_outcome = HoCOMMITTED, ho_ref = Some expected, ho_record = Some rec,
                      ho_reason = None, ho_receipt = Some r\<rparr>)))"

definition handoff_advance ::
    "execution_phase \<Rightarrow> pydt \<Rightarrow> pydt option \<Rightarrow> string option \<Rightarrow> execution_record \<Rightarrow> pyexc + phase_advance" where
  "handoff_advance phase now next_check note rec =
     make_advance phase AWAITING_EXTERNAL (PyInt (er_revision rec))
       (Some (case next_check of Some t \<Rightarrow> t | None \<Rightarrow> plus_seconds now continuation_seconds)) False None note"

definition write_handoff ::
    "digest \<Rightarrow> effective_policy \<Rightarrow> advance_env \<Rightarrow> execution_identity \<Rightarrow> phase_advance \<Rightarrow> string
     \<Rightarrow> (db, handoff_result) op" where
  "write_handoff dg ep env i adv expected d =
     (case advance_execution dg env i adv (no_args\<lparr>aa_handoff := Some expected\<rparr>) d of
        (Inl e, d1) \<Rightarrow> (Inl e, d1)
      | (Inr out, d1) \<Rightarrow> (conclude_handoff ep d1 i expected out, d1))"

definition commit_handoff ::
    "digest \<Rightarrow> effective_policy \<Rightarrow> advance_env \<Rightarrow> execution_identity \<Rightarrow> execution_phase \<Rightarrow> pydt \<Rightarrow> pydt option
     \<Rightarrow> string option \<Rightarrow> (db, handoff_result) op" where
  "commit_handoff dg ep env i phase now next_check note d =
     (case load_execution dg d i None False of
        Inl e \<Rightarrow> (Inl e, d)
      | Inr None \<Rightarrow> (Inr (unaccepted HoREFUSED None (Some ''unknown_execution'')), d)
      | Inr (Some current) \<Rightarrow>
          if oc_kind current = CONFLICT
          then (Inr (unaccepted HoSUPERSEDED (oc_record current) (oc_reason current)), d)
          else (case oc_record current of
            None \<Rightarrow> (Inr (unaccepted HoREFUSED None (Some (or_else (oc_reason current) ''unreadable_execution''))), d)
          | Some rec \<Rightarrow>
             (case handoff_receipt_ref i (er_id rec) of
                Inl e \<Rightarrow> (Inl e, d)
              | Inr expected \<Rightarrow>
                  if truthy (er_handoff rec)
                  then (replay_handoff ep d i rec (the (er_handoff rec)) expected, d)
                  else if er_status rec \<in> {CONCLUDED, StSUPERSEDED}
                  then (Inr (unaccepted HoREFUSED (Some rec) (Some ''execution_already_terminal'')), d)
                  else (case handoff_advance phase now next_check note rec of
                    Inl e \<Rightarrow> (Inl e, d)
                  | Inr adv \<Rightarrow> write_handoff dg ep env i adv expected d))))"

section \<open>Whose work it is\<close>

definition current_identity :: "db \<Rightarrow> string \<Rightarrow> string \<Rightarrow> pyexc + execution_identity option" where
  "current_identity d org node =
     (case rev (sort_key ex_cycle (filter (\<lambda>r. ex_org r = org \<and> ex_node r = node) (executions d))) of
        [] \<Rightarrow> Inr None | r # _ \<Rightarrow> map_sum id Some (row_identity r))"

definition identity_for_attempt ::
    "db \<Rightarrow> string \<Rightarrow> string \<Rightarrow> int \<Rightarrow> bool \<Rightarrow> pyexc + execution_identity option" where
  "identity_for_attempt d org node attempt lock =
     (if lock \<and> (case find (\<lambda>n. nd_id n = node \<and> nd_org n = org) (nodes d) of
           None \<Rightarrow> True | Some n \<Rightarrow> nd_attempts n \<noteq> attempt)
      then Inr None
      else (case find (\<lambda>r. ex_org r = org \<and> ex_node r = node \<and> ex_cycle r = attempt) (executions d) of
        None \<Rightarrow> Inr None | Some r \<Rightarrow> map_sum id Some (row_identity r)))"

definition receipt_for :: "digest \<Rightarrow> db \<Rightarrow> execution_identity \<Rightarrow> pyexc + string option" where
  "receipt_for dg d i =
     and_then (load_execution dg d i None False) (\<lambda>current.
       case current of None \<Rightarrow> Inr None
       | Some out \<Rightarrow>
           if oc_kind out = CONFLICT then Inr None
           else (case oc_record out of None \<Rightarrow> Inr None
             | Some rec \<Rightarrow>
                 if \<not> truthy (er_handoff rec) then Inr None
                 else and_then (handoff_receipt_ref i (er_id rec)) (\<lambda>expected.
                   Inr (if er_handoff rec = Some expected then Some expected else None))))"

section \<open>Adopting a lane\<close>

definition adoption_enabled :: "string option \<Rightarrow> bool" where
  "adoption_enabled env = (map lower_char (case env of None \<Rightarrow> ''false'' | Some s \<Rightarrow> s) = ''true'')"

fun adoption_error :: "pyexc \<Rightarrow> pyexc" where
  "adoption_error (WorkClaimError code) = AdoptionRefusedError code"
| "adoption_error e = e"

definition adopt_legacy_lane ::
    "string option \<Rightarrow> pydt \<Rightarrow> (string \<Rightarrow> lookup) \<Rightarrow> string \<Rightarrow> string \<Rightarrow> string option \<Rightarrow> bool \<Rightarrow> bool \<Rightarrow> int
     \<Rightarrow> pydt option \<Rightarrow> (db, claim_receipt) op" where
  "adopt_legacy_lane env clock resolve org claim_id decision_id effects credentials version now d =
     (if \<not> adoption_enabled env then (Inl (AdoptionRefusedError ''adoption_disabled''), d)
      else if version < 1 then (Inl (AdoptionRefusedError ''policy_not_accepted''), d)
      else if \<not> effects \<or> \<not> credentials then (Inl (AdoptionRefusedError ''reconciliation_outstanding''), d)
      else (case force_handover clock resolve org claim_id decision_id effects credentials now d of
          (Inl e, d1) \<Rightarrow> (Inl (adoption_error e), d1)
        | (Inr receipt, d1) \<Rightarrow>
            if rc_disposition receipt \<noteq> DADMITTED
            then (Inl (AdoptionRefusedError (or_else (rc_reason receipt) ''handover_refused'')), d1)
            else (Inr receipt, d1)))"

section \<open>The route\<close>

text \<open>A verified caller; \<open>lc_rest\<close> is everything else two contexts are compared by.\<close>

record live_context =
  lc_org :: string
  lc_run :: string
  lc_flow :: string
  lc_grant_flow :: string
  lc_rest :: string

datatype authority = Verified live_context | Unauthorized | Unavailable

record handoff_reply =
  rp_outcome :: string
  rp_ref :: "string option"
  rp_reason :: "string option"
  rp_accepted :: bool
  rp_receipt :: "handoff_receipt option"
  rp_status :: nat

definition handoff_reply_of :: "handoff_result \<Rightarrow> handoff_reply" where
  "handoff_reply_of r =
     \<lparr>rp_outcome = handoff_outcome_value (ho_outcome r),
      rp_ref = (if handoff_accepted r then ho_ref r else None), rp_reason = ho_reason r,
      rp_accepted = handoff_accepted r,
      rp_receipt = (if handoff_accepted r then ho_receipt r else None),
      rp_status = (if ho_outcome r = HoCOMMITTED then 201 else 200)\<rparr>"

text \<open>The exceptions of the session block, as the route answers them.\<close>

fun route_error :: "pyexc \<Rightarrow> pyexc" where
  "route_error (BindingError _) = HTTPException 404"
| "route_error KeyError = HTTPException 404"
| "route_error TypeError = HTTPException 404"
| "route_error e = (if is_value_error e then HTTPException 404 else e)"

definition authority_after :: "live_context \<Rightarrow> authority \<Rightarrow> pyexc + unit" where
  "authority_after initial current =
     (case current of Unauthorized \<Rightarrow> Inl (HTTPException 404) | Unavailable \<Rightarrow> Inl (HTTPException 503)
      | Verified c \<Rightarrow> if c \<noteq> initial then Inl (HTTPException 404) else Inr ())"

text \<open>The identity of the caller's own attempt, under the lock of its node.\<close>

definition caller_identity :: "binding_services \<Rightarrow> db \<Rightarrow> live_context \<Rightarrow> pyexc + execution_identity" where
  "caller_identity sv d c =
     and_then (resolve_registration_target sv d (Some (lc_run c)) (Some (lc_org c))) (\<lambda>t.
       if rt_flow t \<noteq> lc_flow c \<or> rt_flow t \<noteq> lc_grant_flow c then Inl (HTTPException 404)
       else and_then (identity_for_attempt d (rt_org t) (rt_node t) (rt_attempt t) True) (\<lambda>i.
         case i of None \<Rightarrow> Inl (HTTPException 404) | Some i \<Rightarrow> Inr i))"

definition commit_handoff_route ::
    "digest \<Rightarrow> effective_policy \<Rightarrow> binding_services \<Rightarrow> advance_env \<Rightarrow> authority \<Rightarrow> authority \<Rightarrow> pydt
     \<Rightarrow> string option \<Rightarrow> (db, handoff_reply) op" where
  "commit_handoff_route dg ep sv env initial later now summary d =
     (case initial of
        Unauthorized \<Rightarrow> (Inl (HTTPException 404), d)
      | Unavailable \<Rightarrow> (Inl (HTTPException 503), d)
      | Verified c \<Rightarrow>
          (case caller_identity sv d c of
             Inl e \<Rightarrow> (Inl (route_error e), d)
           | Inr i \<Rightarrow>
              (case commit_handoff dg ep env i AWAITING_REVIEW now None (or_none summary) d of
                 (Inl e, _) \<Rightarrow> (Inl (route_error e), d)
               | (Inr r, d1) \<Rightarrow>
                  (case authority_after c later of
                     Inl e \<Rightarrow> (Inl e, d)
                   | Inr _ \<Rightarrow> (Inr (handoff_reply_of r), if handoff_accepted r then d1 else d)))))"

end
