(* ===== verification/Quiet_Laws.thy ===== *)
theory Quiet_Laws
  imports Claim_Laws Handoff Dispatch
begin

text \<open>
  What the ledger, the claims, the bindings and the handoff leave alone: no operation of theirs touches
  a node or an edge, and none records a human approval of a plan or a gate.
\<close>

definition approval_by_human :: "decision_row \<Rightarrow> bool" where
  "approval_by_human r \<longleftrightarrow> dc_actor_kind r = ''human'' \<and> dc_kind r \<in> set approval_decision_kinds"

definition aside :: "db \<Rightarrow> db \<Rightarrow> bool" where
  "aside d e \<longleftrightarrow> nodes e = nodes d \<and> edges e = edges d
     \<and> (\<exists>ds. decisions e = decisions d @ ds \<and> (\<forall>r \<in> set ds. \<not> approval_by_human r))"

lemma aside_refl [simp]: "aside d d"
  by (simp add: aside_def)

lemma aside_trans: "aside d e \<Longrightarrow> aside e f \<Longrightarrow> aside d f"
  unfolding aside_def
proof (elim conjE exE, intro conjI)
  fix xs ys
  assume "decisions e = decisions d @ xs" "\<forall>r \<in> set xs. \<not> approval_by_human r"
    "decisions f = decisions e @ ys" "\<forall>r \<in> set ys. \<not> approval_by_human r"
  then show "\<exists>ds. decisions f = decisions d @ ds \<and> (\<forall>r \<in> set ds. \<not> approval_by_human r)"
    by (intro exI [of _ "xs @ ys"]) auto
qed simp_all

lemma aside_tables [simp]:
  "aside d (e\<lparr>claims := cs\<rparr>) = aside d e" "aside d (e\<lparr>executions := xs\<rparr>) = aside d e"
  "aside d (e\<lparr>actions := as\<rparr>) = aside d e" "aside d (e\<lparr>bindings := bs\<rparr>) = aside d e"
  "aside d (e\<lparr>plans := ps\<rparr>) = aside d e" "aside d (e\<lparr>flows := fs\<rparr>) = aside d e"
  by (simp_all add: aside_def)

lemma aside_puts [simp]:
  "aside d (put_claim c e) = aside d e" "aside d (put_execution x e) = aside d e"
  "aside d (put_action a e) = aside d e" "aside d (put_binding b e) = aside d e"
  by (simp_all add: put_claim_def put_execution_def put_action_def put_binding_def)

lemma aside_decision:
  assumes "aside d e" "\<not> approval_by_human r"
  shows "aside d (e\<lparr>decisions := decisions e @ [r]\<rparr>)"
proof (rule aside_trans [OF assms(1)])
  show "aside e (e\<lparr>decisions := decisions e @ [r]\<rparr>)" using assms(2) by (simp add: aside_def)
qed

section \<open>Claims\<close>

lemma aside_claim_work: "aside d (snd (claim_work now new_id race b owner ev lease d))"
  by (simp add: claim_work_def Let_def split: option.split)

lemma aside_bind_run: "aside d (snd (bind_run now org cid g run d))"
  by (simp add: bind_run_def Let_def split: option.split)

lemma aside_heartbeat: "aside d (snd (heartbeat now org cid g lease d))"
  by (simp add: heartbeat_def Let_def split: option.split)

lemma aside_release: "aside d (snd (release_work env now org cid g why ev d))"
  by (simp add: release_work_def Let_def split: option.split sum.split bool.split)

lemma aside_handover: "aside d (snd (force_handover clk resolve org cid dec eff cred nw d))"
  by (simp add: force_handover_def Let_def split: option.split)

lemma aside_continue: "aside d (snd (continue_run dg u now i ex run key prior rec dev v d))"
  by (simp add: continue_run_def split: sum.split option.split outcome_kind.split)

lemma aside_claim_tx: "claim_tx d e \<Longrightarrow> aside d e"
  by (cases rule: claim_tx.cases)
    (auto intro: aside_claim_work aside_bind_run aside_heartbeat aside_release aside_handover aside_continue)

section \<open>The ledger\<close>

lemma aside_adopt: "aside d (snd (adopt_existing row i e)) = aside d e"
  by (simp add: adopt_existing_def Let_def split: option.split)

lemma aside_create: "aside d (snd (create_execution dg now new_id race i fid phase nc dl d))"
  by (simp add: create_execution_def Let_def aside_adopt split: option.split)

lemma aside_prepare: "aside d e \<Longrightarrow> aside d (snd (prepare_action dg now new_id race i intent e))"
  by (simp add: prepare_action_def Let_def split: option.split)

lemma aside_observe: "aside d (snd (record_observation dg now i ob d))"
  by (simp add: record_observation_def Let_def split: option.split)

lemma aside_written: "written_advance env row adv args nc d = (row', e) \<Longrightarrow> aside d e"
proof -
  assume w: "written_advance env row adv args nc d = (row', e)"
  have "\<not> approval_by_human (phase_changed x t r a s)" for x t r a s
    by (simp add: approval_by_human_def phase_changed_def)
  then show ?thesis
    using w aside_decision [OF aside_refl [of d]] by (auto simp: written_advance_def Let_def split: if_splits)
qed

lemma aside_finish: "aside d e \<Longrightarrow> aside d (snd (finish_advance dg env i args row e))"
proof -
  assume q: "aside d e"
  have "aside d e'" if "prepare_action dg t x rc i intent e = (y, e')" for t x rc intent y e'
    using aside_prepare [OF q] that by (metis snd_conv)
  then show ?thesis
    using q by (auto simp: finish_advance_def Let_def split: sum.split option.split prod.split)
qed

lemma aside_advance: "aside d (snd (advance_execution dg env i adv args d))"
proof -
  have "aside d (snd (finish_advance dg env i args row' d1))"
    if "written_advance env r adv args nc (put_execution r' d) = (row', d1)" for r r' nc row' d1
  proof (rule aside_finish, rule aside_trans)
    show "aside d (put_execution r' d)" by simp
    show "aside (put_execution r' d) d1" using aside_written that .
  qed
  then show ?thesis by (auto simp: advance_execution_def Let_def split: sum.split prod.split)
qed

lemma aside_settle: "aside d (snd (settle_released_merge dg vdg env i er rv ra r v d))"
proof -
  have "aside d e" if "advance_execution dg env i adv args d = (x, e)" for adv args x e
    using aside_advance that by (metis snd_conv)
  then show ?thesis
    by (auto simp: settle_released_merge_def Let_def split: sum.split option.split prod.split)
qed

lemma aside_supersede: "aside d (snd (supersede_replaced_admission now cn i er sid srev scy iss dec d))"
  by (simp add: supersede_replaced_admission_def Let_def split: option.split)

section \<open>Bindings and handoffs\<close>

lemma aside_revision: "aside d e \<Longrightarrow> aside d (record_revision mt who k b e)"
  by (simp add: record_revision_def append_decision_def Let_def)
    (rule aside_decision, simp_all add: approval_by_human_def approval_decision_kinds_def)

lemma aside_rivals: "aside d e \<Longrightarrow> aside d (supersede_rivals mt q rivals e)"
  unfolding supersede_rivals_def by (induction rivals arbitrary: e) (simp_all add: aside_revision)

lemma aside_register: "aside d (snd (register_binding sv env t pr q d))"
  by (auto simp: register_binding_def Let_def intro!: aside_revision aside_rivals split: sum.split option.split prod.split)

lemma aside_carry: "aside d (snd (carry_forward_binding sv env n k t pr rv d))"
proof -
  have "aside d e" if "register_binding sv env t pr q d = (x, e)" for q x e
    using aside_register that by (metis snd_conv)
  then show ?thesis by (auto simp: carry_forward_binding_def Let_def split: sum.split option.split prod.split)
qed

lemma aside_recover: "aside d (snd (recover_binding sv env org node pr inst act why repl d))"
proof -
  have "aside d e" if "register_binding sv env t pr q d = (x, e)" for t q x e
    using aside_register that by (metis snd_conv)
  then show ?thesis by (auto simp: recover_binding_def split: sum.split prod.split)
qed

lemma aside_refresh: "aside d (snd (refresh_reviewed_head mt i bid rv scope head d))"
  by (auto simp: refresh_reviewed_head_def Let_def intro!: aside_revision split: sum.split option.split)

lemma aside_write_handoff: "aside d (snd (write_handoff dg ep env i adv expected d))"
proof -
  have "aside d e" if "advance_execution dg env i adv args d = (x, e)" for args x e
    using aside_advance that by (metis snd_conv)
  then show ?thesis by (auto simp: write_handoff_def split: sum.split prod.split)
qed

lemma aside_handoff: "aside d (snd (commit_handoff dg ep env i phase now nc memo d))"
  by (auto simp: commit_handoff_def aside_write_handoff split: sum.split option.split)

lemma aside_route: "aside d (snd (commit_handoff_route dg ep sv env initial later now summary d))"
proof -
  have "aside d e" if "commit_handoff dg ep env i phase t nc memo d = (x, e)" for i phase t nc memo x e
    using aside_handoff that by (metis snd_conv)
  then show ?thesis
    by (auto simp: commit_handoff_route_def split: authority.split sum.split prod.split)
qed

lemma aside_lane: "aside d (snd (adopt_legacy_lane env clk resolve org cid dec eff cred v nw d))"
proof -
  have "aside d e" if "force_handover clk resolve org cid dec eff cred nw d = (x, e)" for x e
    using aside_handover that by (metis snd_conv)
  then show ?thesis by (auto simp: adopt_legacy_lane_def split: sum.split prod.split)
qed

text \<open>One operation of these components.\<close>

inductive side_step :: "db \<Rightarrow> db \<Rightarrow> bool" where
  side_claim: "claim_tx d e \<Longrightarrow> side_step d e"
| side_create: "side_step d (snd (create_execution dg now new_id race i fid phase nc dl d))"
| side_prepare: "side_step d (snd (prepare_action dg now new_id race i intent d))"
| side_observe: "side_step d (snd (record_observation dg now i ob d))"
| side_advance: "side_step d (snd (advance_execution dg env i adv args d))"
| side_settle: "side_step d (snd (settle_released_merge dg vdg env i er rv ra r v d))"
| side_supersede: "side_step d (snd (supersede_replaced_admission now cn i er sid srev scy iss dec d))"
| side_register: "side_step d (snd (register_binding sv benv t pr q d))"
| side_carry: "side_step d (snd (carry_forward_binding sv benv n k t pr rv d))"
| side_recover: "side_step d (snd (recover_binding sv benv org node pr inst act why repl d))"
| side_refresh: "side_step d (snd (refresh_reviewed_head mt i bid rv scope head d))"
| side_handoff: "side_step d (snd (commit_handoff dg ep env i phase now nc memo d))"
| side_route: "side_step d (snd (commit_handoff_route dg ep sv env initial later now summary d))"
| side_lane: "side_step d (snd (adopt_legacy_lane flag clk resolve org cid dec eff cred ver nw d))"

lemma aside_side_step: "side_step d e \<Longrightarrow> aside d e"
  by (cases rule: side_step.cases)
    (auto intro: aside_claim_tx aside_create aside_prepare aside_observe aside_advance aside_settle aside_supersede
      aside_register aside_carry aside_recover aside_refresh aside_handoff aside_route aside_lane)

end
