(* ===== verification/Lifecycle.thy ===== *)
theory Lifecycle
  imports Draft_Laws Dispatch_Laws Quiet_Laws
begin

text \<open>
  A flow from its registration to the human approval of its acceptance gate, under the operations that
  may happen to the store in between: ticks, dispatches, continuations, answers to gates and waivers of
  any flow, registrations of drafts, and every operation of the claims, the ledger, the bindings and
  the handoffs. A registration either opens a flow, under fresh ids, or names a flow with a plan in force.
\<close>

inductive lifecycle_step :: "db \<Rightarrow> db \<Rightarrow> bool" where
  tick: "lifecycle_step d (snd (run_tick env d))"
| dispatch: "dispatch_node mt sv node g d = (x, e) \<Longrightarrow> lifecycle_step d e"
| continuation: "continue_node_execution mt n execution phase claim generation d = (x, e) \<Longrightarrow> lifecycle_step d e"
| answer: "apply_gate_answer_for_context sv c node path approve why expected preview d = (Inr out, e)
    \<Longrightarrow> lifecycle_step d e"
| waiver: "accept_waiver wsv dg now written fid ap rq d = (x, e) \<Longrightarrow> lifecycle_step d e"
| registers: "register_draft_proposal cs flag p ctx d = (x, e) \<Longrightarrow> get_flow_by_slug d (pa_org ctx) (lp_slug p) = None
    \<Longrightarrow> fresh_flow (cs_mint cs) d \<Longrightarrow> fresh_nodes (cs_mint cs) d \<Longrightarrow> set_order (cs_listing cs) \<Longrightarrow> lifecycle_step d e"
| registers_again: "register_draft_proposal cs flag p ctx d = (x, e) \<Longrightarrow> get_flow_by_slug d (pa_org ctx) (lp_slug p) = Some fl
    \<Longrightarrow> accepted_plan d (pa_org ctx) (fl_id fl) = Inr (Some q) \<Longrightarrow> lifecycle_step d e"
| side: "side_step d e \<Longrightarrow> lifecycle_step d e"

section \<open>What a registration and a waiver do\<close>

lemma all2_left: "list_all2 R xs ys \<Longrightarrow> x \<in> set xs \<Longrightarrow> \<exists>y \<in> set ys. R x y"
  by (metis in_set_conv_nth list_all2_conv_all_nth)

lemma all2_right: "list_all2 R xs ys \<Longrightarrow> y \<in> set ys \<Longrightarrow> \<exists>x \<in> set xs. R x y"
  by (metis in_set_conv_nth list_all2_conv_all_nth)

lemma all2_both: "list_all2 R xs ys \<Longrightarrow> list_all2 Q xs ys \<Longrightarrow> list_all2 (\<lambda>x y. R x y \<and> Q x y) xs ys"
  by (simp add: list_all2_conv_all_nth)

lemma drafted_unique:
  assumes "nodes_unique d" "fresh_nodes mt d" "nodes e = nodes d @ new"
    and "map nd_id new = map (mt_node mt) [length (nodes d)..<length (nodes d) + k]"
  shows "nodes_unique e"
proof -
  have "distinct (map nd_id new)"
    unfolding assms(4) distinct_map using assms(2) by (auto simp: fresh_nodes_def inj_on_def)
  moreover have "nd_id n \<noteq> nd_id m" if "n \<in> set (nodes d)" "m \<in> set new" for n m
  proof -
    have "nd_id m \<in> set (map nd_id new)" using that(2) by simp
    then obtain i where "length (nodes d) \<le> i" "nd_id m = mt_node mt i" unfolding assms(4) by auto
    with that(1) assms(2) show ?thesis by (simp add: fresh_nodes_def)
  qed
  ultimately show ?thesis using assms(1,3) by (auto simp: nodes_unique_def unique_on_def)
qed

lemma registered_compile:
  assumes "register_draft_proposal cs flag p ctx d = (Inr (r, a), e)" "get_flow_by_slug d (pa_org ctx) (lp_slug p) = None"
  shows "\<exists>q. transform_for_registration flag p = (q, a) \<and> lp_slug q = lp_slug p \<and> lp_policy q = None
    \<and> compile_proposal cs q ctx plan_drafted [(a, AWAITING_GATE)] d = (Inr r, e)"
proof -
  obtain q a' where t: "transform_for_registration flag p = (q, a')" by force
  have q: "lp_slug q = lp_slug p" "lp_policy q = None" by (rule transformed_facts [OF t], assumption)+
  then have "compile_proposal cs q ctx plan_drafted [(a', AWAITING_GATE)] d = (Inr r, e) \<and> a' = a"
    using assms t by (auto simp: register_draft_proposal_def Let_def split: option.splits prod.splits sum.splits)
  with t q show ?thesis by blast
qed

lemma compile_error_keeps: "compile_proposal cs p ctx kind initial d = (Inl err, e) \<Longrightarrow> e = d"
  by (auto simp: compile_proposal_def nested_def split: if_splits option.splits prod.splits sum.splits)

text \<open>A registration that opens a flow appends its rows, or does nothing.\<close>

definition opens_flow :: "db \<Rightarrow> db \<Rightarrow> bool" where
  "opens_flow d e \<longleftrightarrow> (\<exists>new fid r. nodes e = nodes d @ new \<and> (\<forall>n \<in> set new. nd_flow n = fid)
     \<and> (\<forall>n \<in> set (nodes d). nd_flow n \<noteq> fid) \<and> set (edges d) \<subseteq> set (edges e) \<and> nodes_unique e
     \<and> decisions e = decisions d @ [r] \<and> dc_kind r = plan_drafted)"

lemma registration_effect:
  assumes "register_draft_proposal cs flag p ctx d = (x, e)" "get_flow_by_slug d (pa_org ctx) (lp_slug p) = None"
    and "fresh_flow (cs_mint cs) d" "fresh_nodes (cs_mint cs) d" "set_order (cs_listing cs)" "nodes_unique d"
  shows "e = d \<or> opens_flow d e"
proof (cases x)
  case (Inl err)
  obtain q a where t: "transform_for_registration flag p = (q, a)" by force
  then have "get_flow_by_slug d (pa_org ctx) (lp_slug q) = None" using transformed_facts [OF t] assms(2) by metis
  then show ?thesis
    using assms(1) t Inl by (auto simp: register_draft_proposal_def Let_def dest: compile_error_keeps
      split: option.splits prod.splits sum.splits)
next
  case (Inr y)
  obtain r a where y: "y = (r, a)" by force
  obtain q where t: "transform_for_registration flag p = (q, a)" and "lp_slug q = lp_slug p" "lp_policy q = None"
    and c: "compile_proposal cs q ctx plan_drafted [(a, AWAITING_GATE)] d = (Inr r, e)"
    using registered_compile [OF assms(1) [unfolded Inr y] assms(2)] by blast
  have v: "validate_proposal (cs_listing cs) (cs_spec cs) (cs_installed cs) {} q = []"
    using c by (auto simp: compile_proposal_def split: if_splits)
  note comp = compiled_draft [OF c \<open>lp_policy q = None\<close> _ assms(3,4) declared_facts(1) [OF assms(5) v]]
  have fid: "cr_flow r = mt_flow (cs_mint cs) (length (flows d))"
    and dr: "drafted (pa_org ctx) (cr_flow r) [(a, AWAITING_GATE)] q (cr_nodes r) (cs_mint cs) d e"
    using comp assms(2) \<open>lp_slug q = lp_slug p\<close> by metis+
  from dr obtain rows dec where rows: "nodes e = nodes d @ rows"
      "list_all2 (born (pa_org ctx) (cr_flow r) [(a, AWAITING_GATE)]) (lp_nodes q) rows"
      "map nd_id rows = map (mt_node (cs_mint cs)) [length (nodes d)..<length (nodes d) + length (lp_nodes q)]"
    and dec: "decisions e = decisions d @ [dec]" "dc_kind dec = plan_drafted" "set (edges d) \<subseteq> set (edges e)"
    unfolding drafted_def by blast
  have "nd_flow n = cr_flow r" if "n \<in> set rows" for n using all2_right [OF rows(2) that] by (auto simp: born_def)
  moreover have "nd_flow n \<noteq> cr_flow r" if "n \<in> set (nodes d)" for n
    using assms(3) that by (simp add: fid fresh_flow_def Let_def)
  moreover have "nodes_unique e" using drafted_unique [OF assms(6,4) rows(1,3)] .
  ultimately show ?thesis unfolding opens_flow_def using rows(1) dec by blast
qed

lemma registration_again:
  assumes "register_draft_proposal cs flag p ctx d = (x, e)" "get_flow_by_slug d (pa_org ctx) (lp_slug p) = Some fl"
    and "accepted_plan d (pa_org ctx) (fl_id fl) = Inr (Some q)"
  shows "e = d"
proof -
  obtain p' a where t: "transform_for_registration flag p = (p', a)" by force
  then have fl: "get_flow_by_slug d (pa_org ctx) (lp_slug p') = Some fl" using transformed_facts [OF t] assms(2) by metis
  have q: "q \<in> set (list_plan_versions d (pa_org ctx) (fl_id fl))"
  proof -
    have "current_plans d (pa_org ctx) (fl_id fl) = [q]"
      using assms(3) by (auto simp: accepted_plan_def split: list.splits)
    then have "q \<in> set (current_plans d (pa_org ctx) (fl_id fl))" by simp
    then show ?thesis by (simp add: list_plan_versions_def current_plans_def)
  qed
  have first: "find (\<lambda>f. fl_slug f = lp_slug p') (filter (\<lambda>f. fl_org f = pa_org ctx) (flows d)) = Some fl"
  proof -
    have "find Q (filter P xs) = find (\<lambda>f. P f \<and> Q f) xs" for P Q and xs :: "flow_row list"
      by (induction xs) auto
    then show ?thesis using fl by (simp add: get_flow_by_slug_def)
  qed
  show ?thesis
  proof (cases "find (\<lambda>r. pl_hash r = cs_hash cs p') (list_plan_versions d (pa_org ctx) (fl_id fl))")
    case None
    then have "pl_hash q \<noteq> cs_hash cs p'" using q by (auto simp: find_None_iff)
    then have "live_flow_refusal d p' (pa_org ctx) (cs_hash cs p') \<noteq> None"
      using assms(3) first by (simp add: live_flow_refusal_def)
    then show ?thesis
      using assms(1) t fl None by (auto simp: register_draft_proposal_def Let_def split: if_splits option.splits)
  next
    case (Some r)
    then show ?thesis using assms(1) t fl by (auto simp: register_draft_proposal_def Let_def split: if_splits)
  qed
qed

text \<open>A waiver writes one evaluation, all of whose parents in its flow have passed.\<close>

lemma waiver_effect:
  assumes "accept_waiver wsv dg now written fid ap rq d = (x, e)"
  shows "e = d \<or> (\<exists>n r fl preds. n \<in> set (nodes d) \<and> nd_state n \<in> {''pending'', ''ready'', ''waived''}
    \<and> waiver_predecessors d n fl = Inr preds \<and> nodes e = nodes (put_node (n\<lparr>nd_state := ''waived''\<rparr>) d) \<and> edges e = edges d
    \<and> decisions e = decisions d @ [r] \<and> \<not> approval_by_human r)"
proof (cases "e = d")
  case False
  then obtain fl p n snapshot content where n: "current_target d fid ap rq = Inr (fl, p, n)"
      "preview_waiver wsv dg now fid ap rq d = Inr (snapshot, content)"
      "e = (put_node (n\<lparr>nd_state := ''waived''\<rparr>) d)\<lparr>decisions := decisions (put_node (n\<lparr>nd_state := ''waived''\<rparr>) d)
        @ [waiver_decision (waiver_identity wsv fid ap rq) written fid ap n content]\<rparr>"
    using assms by (auto simp: accept_waiver_def Let_def split: if_splits sum.splits option.splits prod.splits bool.splits)
  have "n \<in> set (nodes d)"
    using n(1) find_SomeD by (fastforce simp: current_target_def requires_def split: if_splits option.splits list.splits)
  moreover have "nd_state n \<in> {''pending'', ''ready'', ''waived''}" "\<exists>preds. waiver_predecessors d n fl = Inr preds"
    using n(2) by (auto simp: preview_waiver_def n(1) and_then_Inr Let_def)
  moreover have "\<not> approval_by_human (waiver_decision i w f ap n c)" for i w f c
    by (simp add: waiver_decision_def approval_by_human_def waiver_kind_def approval_decision_kinds_def)
  ultimately show ?thesis unfolding n(3) by (intro disjI2) (auto simp: put_node_def)
qed simp

section \<open>A flow that waits behind its gate\<close>

definition flow_rest :: "string \<Rightarrow> string \<Rightarrow> string \<Rightarrow> db \<Rightarrow> node_row list" where
  "flow_rest g org fid d = filter (\<lambda>n. nd_org n = org \<and> nd_flow n = fid \<and> nd_id n \<noteq> g) (nodes d)"

definition gate_closed :: "string \<Rightarrow> string \<Rightarrow> string \<Rightarrow> db \<Rightarrow> bool" where
  "gate_closed g org fid d \<longleftrightarrow> (\<exists>m \<in> set (nodes d). nd_id m = g \<and> nd_org m = org \<and> nd_flow m = fid
     \<and> nd_state m \<in> {''awaiting_gate'', ''rejected_at_gate''})"

text \<open>Every other node is pending and has a predecessor of the flow.\<close>

definition held_back :: "string \<Rightarrow> string \<Rightarrow> string \<Rightarrow> node_row list \<Rightarrow> db \<Rightarrow> bool" where
  "held_back g org fid ns d \<longleftrightarrow> (\<forall>n \<in> set ns. nd_state n = ''pending''
     \<and> (\<exists>a. has_edge org fid d a (nd_id n) \<and> (a = g \<or> a \<in> nd_id ` set ns)))"

definition dormant :: "string \<Rightarrow> string \<Rightarrow> string \<Rightarrow> node_row list \<Rightarrow> db \<Rightarrow> bool" where
  "dormant g org fid ns d \<longleftrightarrow> nodes_unique d \<and> flow_rest g org fid d = ns \<and> gate_closed g org fid d \<and> held_back g org fid ns d"

text \<open>No approval of the flow is on record that could root a dispatch.\<close>

definition rootless :: "string \<Rightarrow> string \<Rightarrow> db \<Rightarrow> bool" where
  "rootless org fid d \<longleftrightarrow> (\<forall>r \<in> set (decisions d). dc_org r = org \<and> dc_flow r = fid \<and> dc_actor_kind r = ''human''
     \<longrightarrow> dc_kind r \<notin> set approval_decision_kinds)"

definition approved_by_human :: "string \<Rightarrow> string \<Rightarrow> string \<Rightarrow> db \<Rightarrow> bool" where
  "approved_by_human g org fid d \<longleftrightarrow> (\<exists>r \<in> set (decisions d). dc_org r = org \<and> dc_flow r = fid \<and> dc_node r = Some g
     \<and> dc_kind r = ''gate_approved'' \<and> dc_actor_kind r = ''human'')"

lemma dormant_member:
  assumes "dormant g org fid ns d" "n \<in> set (nodes d)" "nd_org n = org" "nd_flow n = fid"
  shows "nd_id n = g \<or> n \<in> set ns"
  using assms by (auto simp: dormant_def flow_rest_def)

lemma gate_unique:
  assumes "dormant g org fid ns d" "m \<in> set (nodes d)" "nd_id m = g"
  shows "nd_org m = org \<and> nd_flow m = fid \<and> nd_state m \<in> {''awaiting_gate'', ''rejected_at_gate''}"
proof -
  obtain k where k: "k \<in> set (nodes d)" "nd_id k = g" "nd_org k = org" "nd_flow k = fid"
      "nd_state k \<in> {''awaiting_gate'', ''rejected_at_gate''}"
    using assms(1) unfolding dormant_def gate_closed_def by blast
  have "m = k" using assms(1-3) k(1,2) unique_onD unfolding dormant_def nodes_unique_def by metis
  with k show ?thesis by simp
qed

lemma held_parent:
  assumes "dormant g org fid ns d" "n \<in> set ns"
  shows "\<exists>m \<in> set (nodes d). has_edge org fid d (nd_id m) (nd_id n) \<and> nd_org m = org \<and> nd_flow m = fid
    \<and> nd_state m \<noteq> ''passed'' \<and> nd_state m \<noteq> ''waived''"
proof -
  obtain a where a: "has_edge org fid d a (nd_id n)" "a = g \<or> a \<in> nd_id ` set ns"
    using assms unfolding dormant_def held_back_def by blast
  show ?thesis
  proof (cases "a = g")
    case True
    obtain m where "m \<in> set (nodes d)" "nd_id m = g" "nd_org m = org" "nd_flow m = fid"
        "nd_state m \<in> {''awaiting_gate'', ''rejected_at_gate''}"
      using assms(1) unfolding dormant_def gate_closed_def by blast
    with a(1) True show ?thesis by auto
  next
    case False
    then obtain m where m: "m \<in> set ns" "nd_id m = a" using a(2) by blast
    then have "nd_state m = ''pending'' \<and> nd_org m = org \<and> nd_flow m = fid \<and> m \<in> set (nodes d)"
      using assms(1) by (auto simp: dormant_def held_back_def flow_rest_def)
    with a(1) m(2) show ?thesis by (intro bexI [of _ m]) auto
  qed
qed

lemma dormant_blocks:
  assumes "dormant g org fid ns d" "n \<in> set ns"
  shows "\<not> predecessors_done d n"
proof
  assume done': "predecessors_done d n"
  have n: "nd_org n = org" using assms by (auto simp: dormant_def flow_rest_def)
  obtain m where m: "m \<in> set (nodes d)" "has_edge org fid d (nd_id m) (nd_id n)" "nd_org m = org"
      "nd_state m \<noteq> ''passed''" "nd_state m \<noteq> ''waived''"
    using held_parent [OF assms] by blast
  obtain x where "x \<in> set (edges d)" "ed_org x = org" "ed_from x = nd_id m" "ed_to x = nd_id n"
    using m(2) by (auto simp: has_edge_def)
  with done' m n show False unfolding predecessors_done_def by metis
qed

lemma held_back_edges: "edges e = edges d \<Longrightarrow> held_back g org fid ns e \<longleftrightarrow> held_back g org fid ns d"
  by (simp add: held_back_def has_edge_def)

section \<open>What keeps a flow dormant\<close>

lemma dormant_same: "dormant g org fid ns d \<Longrightarrow> nodes e = nodes d \<Longrightarrow> edges e = edges d \<Longrightarrow> dormant g org fid ns e"
  using held_back_edges [of e d g org fid ns] by (simp add: dormant_def nodes_unique_def flow_rest_def gate_closed_def)

lemma filter_rel:
  assumes "list_all2 R xs ys" "\<And>x y. x \<in> set xs \<Longrightarrow> R x y \<Longrightarrow> P y \<longleftrightarrow> P x" "\<And>x y. x \<in> set xs \<Longrightarrow> R x y \<Longrightarrow> P x \<Longrightarrow> y = x"
  shows "filter P ys = filter P xs"
  using assms
proof (induction xs ys rule: list_all2_induct)
  case (Cons x xs y ys)
  have "filter P ys = filter P xs" using Cons.IH Cons.prems by (meson list.set_intros(2))
  moreover have "P y \<longleftrightarrow> P x" "P x \<Longrightarrow> y = x" using Cons.hyps(1) Cons.prems by (meson list.set_intros(1))+
  ultimately show ?case by (cases "P x") simp_all
qed simp

lemma dormant_tick:
  assumes "dormant g org fid ns d" "tick_grows d e"
  shows "dormant g org fid ns e"
proof -
  have l: "list_all2 (node_grows d) (nodes d) (nodes e)" and ed: "edges e = edges d"
    using assms(2) by (simp_all add: tick_grows_def rest_kept_def)
  have still: "m = n" if "n \<in> set (nodes d)" "node_grows d n m" "nd_org n = org" "nd_flow n = fid" for n m
  proof -
    have "nd_state m = nd_state n"
    proof (cases "nd_id n = g")
      case True
      then have "nd_state n \<in> {''awaiting_gate'', ''rejected_at_gate''}" using gate_unique [OF assms(1) that(1)] by blast
      then show ?thesis using that(2) by (auto simp: node_grows_def forward_def)
    next
      case False
      then have "n \<in> set ns" using dormant_member [OF assms(1) that(1,3,4)] by blast
      then show ?thesis using dormant_blocks [OF assms(1)] that(2) by (auto simp: node_grows_def)
    qed
    with that(2) show ?thesis unfolding node_grows_def by (metis node_row.surjective node_row.update_convs(8) node_row.select_convs(8))
  qed
  have "flow_rest g org fid e = flow_rest g org fid d"
    unfolding flow_rest_def
  proof (rule filter_rel [OF l])
    fix n m assume nm: "n \<in> set (nodes d)" "node_grows d n m"
    note fixed = node_grows_fixed [OF nm(2)]
    show "(nd_org m = org \<and> nd_flow m = fid \<and> nd_id m \<noteq> g) \<longleftrightarrow> (nd_org n = org \<and> nd_flow n = fid \<and> nd_id n \<noteq> g)"
      using fixed by simp
    show "m = n" if "nd_org n = org \<and> nd_flow n = fid \<and> nd_id n \<noteq> g" using still [OF nm] that by blast
  qed
  moreover have "gate_closed g org fid e"
  proof -
    obtain m where m: "m \<in> set (nodes d)" "nd_id m = g" "nd_org m = org" "nd_flow m = fid"
        "nd_state m \<in> {''awaiting_gate'', ''rejected_at_gate''}"
      using assms(1) unfolding dormant_def gate_closed_def by blast
    from m(1) l obtain k where "k \<in> set (nodes e)" "node_grows d m k" by (metis in_set_conv_nth list_all2_conv_all_nth)
    with m still [OF m(1) _ m(3,4)] show ?thesis unfolding gate_closed_def by blast
  qed
  ultimately show ?thesis
    using assms grown_unique [OF assms(2)] held_back_edges [OF ed] by (simp add: dormant_def)
qed

text \<open>A write to one row that is not of the flow.\<close>

lemma dormant_other_row:
  assumes "dormant g org fid ns d" "n \<in> set (nodes d)" "\<not> (nd_org n = org \<and> nd_flow n = fid)"
    and f: "\<And>m. nd_id (f m) = nd_id m" "\<And>m. nd_org (f m) = nd_org m" "\<And>m. nd_flow (f m) = nd_flow m"
    and e: "nodes e = update_where (\<lambda>m. nd_id m = nd_id n) f (nodes d)" "edges e = edges d"
  shows "dormant g org fid ns e"
proof -
  let ?h = "\<lambda>m. if nd_id m = nd_id n then f m else m"
  have u: "unique_on nd_id (nodes d)" using assms(1) by (simp add: dormant_def nodes_unique_def)
  have other: "nd_id m \<noteq> nd_id n" if "m \<in> set (nodes d)" "nd_org m = org" "nd_flow m = fid" for m
    using unique_onD [OF u that(1) assms(2)] that(2,3) assms(3) by blast
  have ns: "nodes e = map ?h (nodes d)" using e(1) by (simp add: update_where_def)
  have "list_all2 (\<lambda>m m'. m' = ?h m) (nodes d) (nodes e)" unfolding ns by (simp add: list_all2_map2 list_all2_same)
  then have "flow_rest g org fid e = flow_rest g org fid d"
    unfolding flow_rest_def by (rule filter_rel) (use f other in \<open>auto split: if_splits\<close>)
  moreover have "gate_closed g org fid e"
  proof -
    obtain m where m: "m \<in> set (nodes d)" "nd_id m = g" "nd_org m = org" "nd_flow m = fid"
        "nd_state m \<in> {''awaiting_gate'', ''rejected_at_gate''}"
      using assms(1) unfolding dormant_def gate_closed_def by blast
    have "m \<in> set (nodes e)" using m(1) other [OF m(1,3,4)] by (force simp: ns)
    with m show ?thesis unfolding gate_closed_def by blast
  qed
  moreover have "map nd_id (nodes e) = map nd_id (nodes d)" by (simp add: ns f(1))
  then have "nodes_unique e" using assms(1) by (simp add: dormant_def nodes_unique_def unique_on_def)
  ultimately show ?thesis using assms(1) held_back_edges [OF e(2)] by (simp add: dormant_def)
qed

lemma dormant_start:
  assumes "dormant g org fid ns d" "starts_node o' node k d e" "edges e = edges d"
  shows "dormant g org fid ns e"
proof -
  let ?f = "\<lambda>m. m\<lparr>nd_state := ''running'', nd_attempts := nd_attempts m + int k\<rparr>"
  from assms(2) obtain n where n: "n \<in> set (nodes d)" "nd_id n = node" "nd_state n = ''ready''"
      "nodes e = update_where (\<lambda>m. nd_id m = node) ?f (nodes d)"
    unfolding starts_node_def by blast
  have out: "\<not> (nd_org n = org \<and> nd_flow n = fid)"
  proof
    assume f: "nd_org n = org \<and> nd_flow n = fid"
    then consider "nd_id n = g" | "n \<in> set ns" using dormant_member [OF assms(1) n(1)] by blast
    then show False
    proof cases
      case 1
      then show False using gate_unique [OF assms(1) n(1)] n(3) by auto
    next
      case 2
      then show False using assms(1) n(3) by (auto simp: dormant_def held_back_def)
    qed
  qed
  show ?thesis by (rule dormant_other_row [OF assms(1) n(1) out _ _ _ _ assms(3), of ?f]) (simp_all add: n(2,4))
qed

lemma dormant_rejected:
  assumes "dormant g org fid ns d" "nodes e = set_state g ''rejected_at_gate'' (nodes d)" "edges e = edges d"
  shows "dormant g org fid ns e"
proof -
  let ?h = "\<lambda>m. if nd_id m = g then m\<lparr>nd_state := ''rejected_at_gate''\<rparr> else m"
  have ns: "nodes e = map ?h (nodes d)" using assms(2) by (simp add: set_state_def update_where_def)
  have "list_all2 (\<lambda>m m'. m' = ?h m) (nodes d) (nodes e)" unfolding ns by (simp add: list_all2_map2 list_all2_same)
  then have "flow_rest g org fid e = flow_rest g org fid d"
    unfolding flow_rest_def by (rule filter_rel) (auto split: if_splits)
  moreover have "gate_closed g org fid e"
  proof -
    obtain m where m: "m \<in> set (nodes d)" "nd_id m = g" "nd_org m = org" "nd_flow m = fid"
      using assms(1) unfolding dormant_def gate_closed_def by blast
    then have "m\<lparr>nd_state := ''rejected_at_gate''\<rparr> \<in> set (nodes e)" unfolding ns by (auto intro!: image_eqI [of _ _ m])
    then show ?thesis using m(2-4) unfolding gate_closed_def
      by (intro bexI [of _ "m\<lparr>nd_state := ''rejected_at_gate''\<rparr>"]) simp_all
  qed
  moreover have "map nd_id (nodes e) = map nd_id (nodes d)" by (simp add: ns)
  then have "nodes_unique e" using assms(1) by (simp add: dormant_def nodes_unique_def unique_on_def)
  ultimately show ?thesis using assms(1) held_back_edges [OF assms(3)] by (simp add: dormant_def)
qed

text \<open>Another flow is opened.\<close>

lemma dormant_opens:
  assumes "dormant g org fid ns d" "opens_flow d e"
  shows "dormant g org fid ns e"
proof -
  obtain new fid' where new: "nodes e = nodes d @ new" "\<forall>n \<in> set new. nd_flow n = fid'" "\<forall>n \<in> set (nodes d). nd_flow n \<noteq> fid'"
      "set (edges d) \<subseteq> set (edges e)" "nodes_unique e"
    using assms(2) unfolding opens_flow_def by blast
  have gate: "gate_closed g org fid d" using assms(1) by (simp add: dormant_def)
  then have "fid \<noteq> fid'" using new(3) unfolding gate_closed_def by blast
  then have "flow_rest g org fid e = flow_rest g org fid d"
    using new(2) by (auto simp: flow_rest_def new(1) filter_empty_conv)
  moreover have "gate_closed g org fid e" using gate new(1) unfolding gate_closed_def by auto
  moreover have "has_edge org fid d a b \<Longrightarrow> has_edge org fid e a b" for a b using new(4) by (auto simp: has_edge_def)
  then have "held_back g org fid ns e" using assms(1) unfolding dormant_def held_back_def by blast
  ultimately show ?thesis using assms(1) new(5) by (simp add: dormant_def)
qed

text \<open>A waiver needs parents that have passed, so the evaluation it writes is not of the flow.\<close>

lemma waiver_parent_passed:
  assumes "waiver_predecessors d n fl = Inr preds" "m \<in> set (nodes d)" "nd_org m = nd_org n" "nd_flow m = nd_flow n"
    and "has_edge (nd_org n) (nd_flow n) d (nd_id m) (nd_id n)"
  shows "nd_state m = ''passed''"
proof -
  let ?all = "sort_key nd_id (map snd (filter (\<lambda>(e, m). nd_id m = ed_from e \<and> ed_org e = nd_org n
        \<and> ed_flow e = nd_flow n \<and> ed_to e = nd_id n \<and> nd_org m = nd_org n \<and> nd_flow m = nd_flow n)
       (List.product (edges d) (nodes d))))"
  have par: "length (waiver_parents d n) \<le> 128" "\<forall>m \<in> set (waiver_parents d n). nd_state m = ''passed''"
    using assms(1) by (auto simp: waiver_predecessors_def Let_def requires_def list_all_iff split: if_splits)
  have "waiver_parents d n = take 129 ?all" unfolding waiver_parents_def ..
  moreover from this par(1) have "length ?all \<le> 129" by (simp only: length_take)
  ultimately have "waiver_parents d n = ?all" by (simp only: take_all)
  moreover have "m \<in> set ?all"
    using assms(2-5) unfolding has_edge_def by (fastforce simp: image_iff)
  ultimately show ?thesis using par(2) by metis
qed

lemma dormant_waiver:
  assumes "dormant g org fid ns d" "n \<in> set (nodes d)" "nd_state n \<in> {''pending'', ''ready'', ''waived''}"
    and "waiver_predecessors d n fl = Inr preds" "nodes e = nodes (put_node (n\<lparr>nd_state := ''waived''\<rparr>) d)" "edges e = edges d"
  shows "dormant g org fid ns e"
proof -
  have u: "unique_on nd_id (nodes d)" using assms(1) by (simp add: dormant_def nodes_unique_def)
  have out: "\<not> (nd_org n = org \<and> nd_flow n = fid)"
  proof
    assume f: "nd_org n = org \<and> nd_flow n = fid"
    then consider "nd_id n = g" | "n \<in> set ns" using dormant_member [OF assms(1,2)] by blast
    then show False
    proof cases
      case 1
      then show False using gate_unique [OF assms(1,2)] assms(3) by auto
    next
      case 2
      then show False using held_parent [OF assms(1) 2] waiver_parent_passed [OF assms(4)] f by auto
    qed
  qed
  have "nodes e = update_where (\<lambda>m. nd_id m = nd_id n) (\<lambda>m. m\<lparr>nd_state := ''waived''\<rparr>) (nodes d)"
    unfolding assms(5) put_node_def update_where_def using unique_onD [OF u _ assms(2)] by fastforce
  then show ?thesis by (rule dormant_other_row [OF assms(1,2) out _ _ _ _ assms(6), rotated -1]) simp_all
qed

section \<open>What an answer does\<close>

definition applied_answer_effect ::
    "gate_services \<Rightarrow> token_context \<Rightarrow> input_path \<Rightarrow> bool \<Rightarrow> string option \<Rightarrow> string option \<Rightarrow> db \<Rightarrow> db \<Rightarrow> bool" where
  "applied_answer_effect sv c path approve why expected d e \<longleftrightarrow> (
     \<exists>n ds r xs x. n \<in> set (nodes d) \<and> nd_org n = tk_org c \<and> nd_state n = ''awaiting_gate''
       \<and> answer_row sv c n path approve why expected r \<and> (\<forall>y \<in> set ds. dc_kind y \<in> side_kinds)
       \<and> (\<forall>y \<in> set xs. dc_actor_kind y = ''service'') \<and> decisions e = decisions d @ ds @ r # xs
       \<and> nodes x = set_state (nd_id n) (answered_state approve) (nodes d) \<and> edges x = edges d \<and> tick_grows x (e\<lparr>plans := plans x\<rparr>))"

lemma applied_answerE:
  assumes "applied_answer_effect sv c path approve why expected d e"
  obtains n ds r xs x where "n \<in> set (nodes d)" "nd_org n = tk_org c" "nd_state n = ''awaiting_gate''"
    "answer_row sv c n path approve why expected r" "\<forall>y \<in> set ds. dc_kind y \<in> side_kinds"
    "\<forall>y \<in> set xs. dc_actor_kind y = ''service''" "decisions e = decisions d @ ds @ r # xs"
    "nodes x = set_state (nd_id n) (answered_state approve) (nodes d)" "edges x = edges d"
    "tick_grows x (e\<lparr>plans := plans x\<rparr>)"
  using assms unfolding applied_answer_effect_def by (elim exE conjE) (rule that)

lemma answer_effect:
  assumes "apply_gate_answer_for_context sv c node path approve why expected preview d = (Inr out, e)"
    and "nodes_unique d"
  shows "nodes e = nodes d \<and> edges e = edges d
      \<and> (\<exists>ds. decisions e = decisions d @ ds \<and> (\<forall>r \<in> set ds. dc_kind r = ''transition_rejected''))
    \<or> applied_answer_effect sv c path approve why expected d e"
  using answer_cases [OF assms(1,2)]
proof
  assume "answer_refused c node d e out"
  then show ?thesis by (auto simp: answer_refused_def)
next
  assume "\<exists>n \<in> set (nodes d). nd_id n = node \<and> nd_org n = tk_org c \<and> nd_state n = ''awaiting_gate''
    \<and> may_approve sv d (cs_now (ga_compile sv)) c (tk_org c) \<and> bound_to d n expected
    \<and> after_answer sv c n path approve why expected preview (gate_answered n approve d) = (Inr out, e)"
  then obtain n where n: "n \<in> set (nodes d)" "nd_org n = tk_org c" "nd_state n = ''awaiting_gate''"
      "after_answer sv c n path approve why expected preview (gate_answered n approve d) = (Inr out, e)" by blast
  have "nodes_unique (gate_answered n approve d)" using assms(2) by (simp add: nodes_unique_def gate_answered_def)
  from after_answer_effect [OF n(4) this] obtain ds ex r d3 where r: "answer_row sv c n path approve why expected r"
      "\<forall>x \<in> set ds. dc_kind x \<in> side_kinds"
      and g: "tick_grows ((gate_answered n approve d)\<lparr>executions := ex,
        decisions := decisions (gate_answered n approve d) @ ds @ [r]\<rparr>) d3"
      and sv: "service_adds ((gate_answered n approve d)\<lparr>executions := ex,
        decisions := decisions (gate_answered n approve d) @ ds @ [r]\<rparr>) d3"
      and e: "e = d3\<lparr>plans := plans e\<rparr>" by blast
  let ?x = "(gate_answered n approve d)\<lparr>executions := ex, decisions := decisions (gate_answered n approve d) @ ds @ [r]\<rparr>"
  obtain ps where ps: "e = d3\<lparr>plans := ps\<rparr>" using e by blast
  have "plans d3 = plans ?x" using g by (simp add: tick_grows_def rest_kept_def)
  then have restored: "e\<lparr>plans := plans ?x\<rparr> = d3" unfolding ps by simp
  obtain xs where xs: "decisions d3 = decisions d @ ds @ r # xs" "\<forall>y \<in> set xs. dc_actor_kind y = ''service''"
    using sv by (auto simp: service_adds_def gate_answered_def)
  have "decisions e = decisions d @ ds @ r # xs" using xs(1) by (simp add: ps)
  moreover have "nodes ?x = set_state (nd_id n) (answered_state approve) (nodes d)" "edges ?x = edges d"
    by (simp_all add: gate_answered_def)
  ultimately show ?thesis
    unfolding applied_answer_effect_def using n(1-3) r xs(2) g [folded restored] by (intro disjI2) blast
qed

section \<open>The invariant\<close>

lemma ids_kept: "(\<And>m. nd_id (f m) = nd_id m) \<Longrightarrow> map nd_id (update_where P f ns) = map nd_id ns"
  by (simp add: update_where_def)

lemma unique_ids: "map nd_id (nodes e) = map nd_id (nodes d) \<Longrightarrow> nodes_unique d \<Longrightarrow> nodes_unique e"
  by (simp add: nodes_unique_def unique_on_def)

lemma starts_unique: "starts_node org node k d e \<Longrightarrow> nodes_unique d \<Longrightarrow> nodes_unique e"
  by (auto simp: starts_node_def ids_kept intro: unique_ids [of e d])

lemma started_cases:
  assumes "dispatch_node mt sv node g d = (x, e)" "nodes_unique d"
  shows "nodes e = nodes d \<or> starts_node (eg_org g) node 1 d e"
  using dispatch_node_effect [OF assms] by (auto split: sum.splits if_splits)

lemma lifecycle_basic:
  assumes "lifecycle_step d e" "nodes_unique d"
  shows "nodes_unique e \<and> (\<exists>ds. decisions e = decisions d @ ds)"
  using assms(1)
proof cases
  case (tick env)
  have "service_adds d e" unfolding tick by (rule engine_run_service [OF run_tick_step [OF assms(2)]])
  moreover have "nodes_unique e" unfolding tick by (rule engine.run_inv [OF run_tick_step [OF assms(2)] assms(2)])
  ultimately show ?thesis by (auto simp: service_adds_def)
next
  case (dispatch mt sv node g x)
  then show ?thesis
    using dispatch_node_effect [OF dispatch assms(2)] started_cases [OF dispatch assms(2)] starts_unique assms(2)
    by (auto simp: service_adds_def nodes_unique_def)
next
  case (continuation mt n execution phase claim generation x)
  have "nodes e = nodes d \<or> starts_node (nd_org n) (nd_id n) 0 d e"
    using continuation_effect [OF continuation assms(2)] by presburger
  then show ?thesis
    using continuation_effect [OF continuation assms(2)] starts_unique assms(2) by (auto simp: service_adds_def nodes_unique_def)
next
  case (answer sv c node path approve why expected preview out)
  from answer_effect [OF answer assms(2)] show ?thesis
  proof
    assume "applied_answer_effect sv c path approve why expected d e"
    then show ?thesis
    proof (rule applied_answerE)
      fix n ds r xs x
      assume x: "decisions e = decisions d @ ds @ r # xs" "nodes x = set_state (nd_id n) (answered_state approve) (nodes d)"
        "tick_grows x (e\<lparr>plans := plans x\<rparr>)"
      have "nodes_unique x" using assms(2) x(2) by (simp add: nodes_unique_def)
      from grown_unique [OF x(3) this] x(1) show ?thesis by (simp add: nodes_unique_def)
    qed
  qed (use assms(2) in \<open>auto simp: nodes_unique_def\<close>)
next
  case (waiver wsv dg now written fid ap rq x)
  have "map nd_id (nodes (put_node m d)) = map nd_id (nodes d)" for m by (simp add: put_node_def update_where_def)
  then show ?thesis using waiver_effect [OF waiver] assms(2) unique_ids [of e d] by auto
next
  case (registers cs flag p ctx x)
  from registration_effect [OF this assms(2)] show ?thesis using assms(2) by (auto simp: opens_flow_def)
next
  case (registers_again cs flag p ctx x fl q)
  from registration_again [OF this] show ?thesis using assms(2) by simp
next
  case side
  from aside_side_step [OF this] show ?thesis using assms(2) by (auto simp: aside_def nodes_unique_def)
qed

lemma rootless_append:
  "rootless org fid d \<Longrightarrow> decisions e = decisions d @ ds \<Longrightarrow> \<forall>r \<in> set ds. \<not> approval_by_human r \<Longrightarrow> rootless org fid e"
  by (auto simp: rootless_def approval_by_human_def)

lemma service_rootless: "service_adds d e \<Longrightarrow> rootless org fid d \<Longrightarrow> rootless org fid e"
  by (auto simp: service_adds_def rootless_def)

lemma dormant_answer:
  assumes "apply_gate_answer_for_context sv c node path approve why expected preview d = (Inr out, e)"
    and "dormant g org fid ns d" "rootless org fid d"
  shows "approved_by_human g org fid e \<or> dormant g org fid ns e \<and> rootless org fid e"
proof -
  have "nodes_unique d" using assms(2) by (simp add: dormant_def)
  from answer_effect [OF assms(1) this] show ?thesis
  proof
    assume "nodes e = nodes d \<and> edges e = edges d
      \<and> (\<exists>ds. decisions e = decisions d @ ds \<and> (\<forall>r \<in> set ds. dc_kind r = ''transition_rejected''))"
    then show ?thesis using dormant_same [OF assms(2)] assms(3) by (auto simp: rootless_def approval_decision_kinds_def)
  next
    assume "applied_answer_effect sv c path approve why expected d e"
    then obtain n ds r xs x where n: "n \<in> set (nodes d)" "nd_org n = tk_org c" "nd_state n = ''awaiting_gate''"
        and r: "answer_row sv c n path approve why expected r" "\<forall>y \<in> set ds. dc_kind y \<in> side_kinds"
        "\<forall>y \<in> set xs. dc_actor_kind y = ''service''" "decisions e = decisions d @ ds @ r # xs"
        and x: "nodes x = set_state (nd_id n) (answered_state approve) (nodes d)" "edges x = edges d"
        "tick_grows x (e\<lparr>plans := plans x\<rparr>)" by (rule applied_answerE)
    have later: "dormant g org fid ns x \<Longrightarrow> dormant g org fid ns e"
      using dormant_same [OF dormant_tick [OF _ x(3)], of _ _ _ _ e] by simp
    have quiet: "rootless org fid e" if "dc_kind r \<in> set approval_decision_kinds \<longrightarrow> \<not> (dc_org r = org \<and> dc_flow r = fid)"
      unfolding rootless_def r(4)
    proof (intro ballI impI)
      fix y assume y: "y \<in> set (decisions d @ ds @ r # xs)" "dc_org y = org \<and> dc_flow y = fid \<and> dc_actor_kind y = ''human''"
      then consider "y \<in> set (decisions d)" | "dc_kind y \<in> side_kinds" | "y = r" using r(2,3) by fastforce
      then show "dc_kind y \<notin> set approval_decision_kinds"
      proof cases
        case 1
        with assms(3) y(2) show ?thesis by (simp add: rootless_def)
      next
        case 2
        then show ?thesis by (auto simp: side_kinds_def renewal_kind_def acceptance_kind_def approval_decision_kinds_def)
      next
        case 3
        with that y(2) show ?thesis by blast
      qed
    qed
    show ?thesis
    proof (cases "nd_org n = org \<and> nd_flow n = fid")
      case False
      have "dormant g org fid ns x"
        by (rule dormant_other_row [OF assms(2) n(1) False _ _ _ _ x(2), of "\<lambda>m. m\<lparr>nd_state := answered_state approve\<rparr>"])
          (simp_all add: x(1) set_state_def)
      moreover have "\<not> (dc_org r = org \<and> dc_flow r = fid)" using r(1) n(2) False by (auto simp: answer_row_def)
      ultimately show ?thesis using later quiet by blast
    next
      case True
      have id: "nd_id n = g"
      proof (rule ccontr)
        assume "nd_id n \<noteq> g"
        then have "n \<in> set ns" using dormant_member [OF assms(2) n(1)] True by blast
        then show False using assms(2) n(3) by (auto simp: dormant_def held_back_def)
      qed
      show ?thesis
      proof (cases approve)
        case True
        have "approved_by_human g org fid e"
          unfolding approved_by_human_def r(4)
          using r(1) id n(2) \<open>nd_org n = org \<and> nd_flow n = fid\<close> True by (auto simp: answer_row_def answer_kind_def)
        then show ?thesis ..
      next
        case False
        have "dormant g org fid ns x"
          using dormant_rejected [OF assms(2) _ x(2)] x(1) False by (simp add: id answered_state_value)
        moreover have "dc_kind r \<notin> set approval_decision_kinds"
          using r(1) False by (simp add: answer_row_def answer_kind_def approval_decision_kinds_def)
        ultimately show ?thesis using later quiet by blast
      qed
    qed
  qed
qed

definition behind_gate :: "string \<Rightarrow> string \<Rightarrow> string \<Rightarrow> node_row list \<Rightarrow> db \<Rightarrow> bool" where
  "behind_gate g org fid ns d \<longleftrightarrow> nodes_unique d
     \<and> (approved_by_human g org fid d \<or> dormant g org fid ns d \<and> rootless org fid d)"

lemma dormant_step:
  assumes "lifecycle_step d e" "dormant g org fid ns d" "rootless org fid d"
  shows "approved_by_human g org fid e \<or> dormant g org fid ns e \<and> rootless org fid e"
proof -
  have u: "nodes_unique d" using assms(2) by (simp add: dormant_def)
  from assms(1) show ?thesis
  proof cases
    case (tick env)
    then show ?thesis
      using dormant_tick [OF assms(2) engine.run_grows [OF run_tick_step [OF u] u]]
        service_rootless [OF engine_run_service [OF run_tick_step [OF u]] assms(3)] by blast
  next
    case (dispatch mt sv node gen x)
    note eff = dispatch_node_effect [OF dispatch u]
    from started_cases [OF dispatch u] have "dormant g org fid ns e"
      using dormant_same [OF assms(2)] dormant_start [OF assms(2)] eff by blast
    then show ?thesis using service_rootless assms(3) eff by blast
  next
    case (continuation mt n execution phase claim generation x)
    note eff = continuation_effect [OF continuation u]
    have "nodes e = nodes d \<or> starts_node (nd_org n) (nd_id n) 0 d e" using eff by presburger
    then have "dormant g org fid ns e" using dormant_same [OF assms(2)] dormant_start [OF assms(2)] eff by blast
    then show ?thesis using service_rootless assms(3) eff by blast
  next
    case (answer sv c node path approve why expected preview out)
    then show ?thesis using dormant_answer [OF answer assms(2,3)] by blast
  next
    case (waiver wsv dg now written fid' ap rq x)
    from waiver_effect [OF waiver] show ?thesis
      using assms(2,3) dormant_waiver [OF assms(2)] rootless_append [OF assms(3)] by fastforce
  next
    case (registers cs flag p ctx x)
    from registration_effect [OF this u] show ?thesis
    proof
      assume o': "opens_flow d e"
      then obtain r where r: "decisions e = decisions d @ [r]" "dc_kind r = plan_drafted" unfolding opens_flow_def by blast
      have "rootless org fid e"
        by (rule rootless_append [OF assms(3) r(1)])
          (simp add: r(2) approval_by_human_def plan_drafted_def approval_decision_kinds_def)
      with dormant_opens [OF assms(2) o'] show ?thesis by blast
    qed (use assms(2,3) in simp)
  next
    case (registers_again cs flag p ctx x fl q)
    from registration_again [OF this] show ?thesis using assms(2,3) by simp
  next
    case side
    from aside_side_step [OF this] show ?thesis
      using dormant_same [OF assms(2)] rootless_append [OF assms(3)] unfolding aside_def by blast
  qed
qed

interpretation behind: step_invariant lifecycle_step "behind_gate g org fid ns" for g org fid ns
proof
  fix d e assume step: "lifecycle_step d e" and inv: "behind_gate g org fid ns d"
  have b: "nodes_unique e" "\<exists>ds. decisions e = decisions d @ ds"
    using lifecycle_basic [OF step] inv by (auto simp: behind_gate_def)
  have "approved_by_human g org fid d \<Longrightarrow> approved_by_human g org fid e"
    using b(2) by (auto simp: approved_by_human_def)
  with inv b(1) dormant_step [OF step] show "behind_gate g org fid ns e" by (auto simp: behind_gate_def)
qed

end
