(* ===== verification/Flow_Guarantees.thy ===== *)
theory Flow_Guarantees
  imports Lifecycle Compile_Samples Tick_Guarantees
begin

text \<open>
  The guarantees from registration to dispatch: a registered draft stays where it is until a human
  approves its acceptance gate, whatever the engine and other humans do meanwhile, and a dispatch
  starts one ready node once, under the human of a stored approval.
\<close>

section \<open>A registered draft is dormant\<close>

lemma registered_dormant:
  assumes reg: "register_draft_proposal cs flag p ctx d = (Inr (r, a), e)"
    and new: "get_flow_by_slug d (pa_org ctx) (lp_slug p) = None" "fresh_flow (cs_mint cs) d" "fresh_nodes (cs_mint cs) d"
    and u: "nodes_unique d" and so: "set_order (cs_listing cs)"
  shows "\<exists>g. map_of (cr_nodes r) a = Some g
    \<and> dormant g (pa_org ctx) (cr_flow r) (flow_rest g (pa_org ctx) (cr_flow r) e) e \<and> rootless (pa_org ctx) (cr_flow r) e"
proof -
  let ?org = "pa_org ctx" and ?fid = "cr_flow r" and ?mt = "cs_mint cs"
  obtain q where t: "transform_for_registration flag p = (q, a)" and "lp_slug q = lp_slug p" "lp_policy q = None"
    and c: "compile_proposal cs q ctx plan_drafted [(a, AWAITING_GATE)] d = (Inr r, e)"
    using registered_compile [OF reg new(1)] by blast
  have v: "validate_proposal (cs_listing cs) (cs_spec cs) (cs_installed cs) {} q = []"
    using c by (auto simp: compile_proposal_def split: if_splits)
  note comp = compiled_draft [OF c \<open>lp_policy q = None\<close> _ new(2,3) declared_facts(1) [OF so v]]
  have fid: "?fid = mt_flow ?mt (length (flows d))"
    and dr: "drafted ?org ?fid [(a, AWAITING_GATE)] q (cr_nodes r) ?mt d e"
    using comp new(1) \<open>lp_slug q = lp_slug p\<close> by metis+
  from dr obtain rows dec where rows: "nodes e = nodes d @ rows" "list_all2 (born ?org ?fid [(a, AWAITING_GATE)]) (lp_nodes q) rows"
      "map nd_id rows = map (mt_node ?mt) [length (nodes d)..<length (nodes d) + length (lp_nodes q)]"
      "list_all2 (\<lambda>p n. map_of (cr_nodes r) (pn_address p) = Some (nd_id n)) (lp_nodes q) rows"
    and edge: "\<forall>x \<in> set (lp_edges q). \<exists>u v. map_of (cr_nodes r) (pe_from x) = Some u \<and> map_of (cr_nodes r) (pe_to x) = Some v
        \<and> has_edge ?org ?fid e u v"
    and dec: "decisions e = decisions d @ [dec]" "dc_kind dec = plan_drafted"
    unfolding drafted_def by blast
  note row = all2_both [OF rows(2,4)]
  have old: "nd_flow n \<noteq> ?fid" if "n \<in> set (nodes d)" for n
    using new(2) that by (simp add: fid fresh_flow_def Let_def)
  obtain gate where gate: "gate \<in> set (lp_nodes q)" "pn_address gate = a"
  proof (rule transformed_facts [OF t])
    fix b assume "lp_nodes q = gate_node a ''Human gate: accept this plan to start execution'' # lp_nodes b"
    then show thesis using that [of "gate_node a ''Human gate: accept this plan to start execution''"] by simp
  qed
  obtain m where m: "m \<in> set rows" "born ?org ?fid [(a, AWAITING_GATE)] gate m" "map_of (cr_nodes r) a = Some (nd_id m)"
    using all2_left [OF row gate(1)] gate(2) by blast
  let ?g = "nd_id m"
  let ?ns = "flow_rest ?g ?org ?fid e"
  have in_rows: "n \<in> set rows \<and> nd_id n \<noteq> ?g" if "n \<in> set ?ns" for n
    using that old by (auto simp: flow_rest_def rows(1))
  have from_rows: "n \<in> set ?ns" if "n \<in> set rows" "nd_id n \<noteq> ?g" for n
    using that all2_right [OF row that(1)] by (auto simp: flow_rest_def rows(1) born_def)
  have "held_back ?g ?org ?fid ?ns e"
    unfolding held_back_def
  proof (intro ballI conjI)
    fix n assume n: "n \<in> set ?ns"
    obtain x where x: "x \<in> set (lp_nodes q)" "born ?org ?fid [(a, AWAITING_GATE)] x n"
        "map_of (cr_nodes r) (pn_address x) = Some (nd_id n)"
      using all2_right [OF row] in_rows [OF n] by blast
    have other: "pn_address x \<noteq> a" using x(3) m(3) in_rows [OF n] by auto
    then show "nd_state n = ''pending''" using x(2) by (simp add: born_def)
    obtain w where w: "w \<in> set (lp_edges q)" "pe_to w = pn_address x" using gate_before_all [OF t x(1) other] by blast
    then obtain b where b: "map_of (cr_nodes r) (pe_from w) = Some b" "has_edge ?org ?fid e b (nd_id n)"
      using edge x(3) by fastforce
    have "pe_from w \<in> set (declared q)" using edge_depends(2) [OF so v w(1)] .
    then obtain y where "y \<in> set (lp_nodes q)" "pn_address y = pe_from w" by (auto simp: declared_def)
    then obtain k where "k \<in> set rows" "nd_id k = b" using all2_left [OF row] b(1) by fastforce
    then have "b = ?g \<or> b \<in> nd_id ` set ?ns" using from_rows by blast
    with b(2) show "\<exists>b. has_edge ?org ?fid e b (nd_id n) \<and> (b = ?g \<or> b \<in> nd_id ` set ?ns)" by blast
  qed
  moreover have "gate_closed ?g ?org ?fid e"
    using m(1,2) gate(2) by (auto simp: gate_closed_def rows(1) born_def)
  moreover have "nodes_unique e" using drafted_unique [OF u new(3) rows(1,3)] .
  moreover have "rootless ?org ?fid e"
    using new(2) by (auto simp: rootless_def dec fid fresh_flow_def Let_def plan_drafted_def approval_decision_kinds_def)
  ultimately show ?thesis using m(3) by (auto simp: dormant_def)
qed

text \<open>
  C9: After a draft has been registered as a new flow, nothing of it runs before a human approves its
  acceptance gate. Take any sequence of ticks, dispatches, continuations, answers to gates and waivers
  in whatever flow, registrations of drafts, and operations of the claims, the ledger, the bindings and
  the handoffs. After it, either that approval is on record, or every other node of the flow is the
  untouched pending row it was registered as, the gate is still waiting or rejected, and no decision
  of the flow can root a dispatch. A direct acceptance or amendment of the plan, which is a human's own
  approval of it, and the operations of a human or a controller outside this list are not steps here.
\<close>

theorem nothing_runs_before_approval:
  assumes "register_draft_proposal cs flag p ctx d = (Inr (r, a), e)"
    and "get_flow_by_slug d (pa_org ctx) (lp_slug p) = None" "fresh_flow (cs_mint cs) d" "fresh_nodes (cs_mint cs) d"
    and "nodes_unique d" "set_order (cs_listing cs)" "lifecycle_step\<^sup>*\<^sup>* e f"
  shows "\<exists>g. map_of (cr_nodes r) a = Some g \<and> (approved_by_human g (pa_org ctx) (cr_flow r) f
    \<or> flow_rest g (pa_org ctx) (cr_flow r) f = flow_rest g (pa_org ctx) (cr_flow r) e
      \<and> (\<forall>n \<in> set (flow_rest g (pa_org ctx) (cr_flow r) f). nd_state n = ''pending'')
      \<and> gate_closed g (pa_org ctx) (cr_flow r) f
      \<and> (\<forall>i h. resolve_engine_genesis f (pa_org ctx) i = Inr h \<longrightarrow> eg_flow h \<noteq> cr_flow r))"
proof -
  let ?org = "pa_org ctx" and ?fid = "cr_flow r"
  obtain g where g: "map_of (cr_nodes r) a = Some g" "dormant g ?org ?fid (flow_rest g ?org ?fid e) e" "rootless ?org ?fid e"
    using registered_dormant [OF assms(1-6)] by blast
  then have "behind_gate g ?org ?fid (flow_rest g ?org ?fid e) e" by (simp add: behind_gate_def dormant_def)
  from behind.run_inv [OF assms(7) this] have f: "approved_by_human g ?org ?fid f
      \<or> dormant g ?org ?fid (flow_rest g ?org ?fid e) f \<and> rootless ?org ?fid f"
    by (simp add: behind_gate_def)
  have "eg_flow h \<noteq> ?fid" if "rootless ?org ?fid f" "resolve_engine_genesis f ?org i = Inr h" for i h
    using resolved_root [OF that(2)] that(1) by (auto simp: rootless_def approval_decision_kinds_def)
  with f g(1) show ?thesis by (auto simp: dormant_def held_back_def)
qed

section \<open>Registering again\<close>

text \<open>
  C14: A worker that lost the response and registers the same draft again, at a later time and in
  whatever name within the tenant, is given the flow, the version, the decision and the hash of the
  first registration, and nothing is written.
\<close>

theorem registration_is_idempotent:
  assumes "register_draft_proposal cs flag p ctx d = (Inr (r, a), e)"
    and "get_flow_by_slug d (pa_org ctx) (lp_slug p) = None" "fresh_flow (cs_mint cs) d"
    and "cs_hash cs' = cs_hash cs" "pa_org ctx' = pa_org ctx"
  shows "\<exists>r'. register_draft_proposal cs' flag p ctx' e = (Inr (r', a), e) \<and> cr_already r'
    \<and> cr_flow r' = cr_flow r \<and> cr_version r' = cr_version r \<and> cr_decision r' = cr_decision r \<and> cr_hash r' = cr_hash r"
proof -
  obtain q where q: "transform_for_registration flag p = (q, a)" "lp_slug q = lp_slug p" "lp_policy q = None"
      "compile_proposal cs q ctx plan_drafted [(a, AWAITING_GATE)] d = (Inr r, e)"
    using registered_compile [OF assms(1,2)] by blast
  have "get_flow_by_slug d (pa_org ctx) (lp_slug q) = None" using assms(2) q(2) by simp
  note comp = compiled_plan [OF q(4,3) this assms(3)]
  then obtain fl pl where fl: "flows e = flows d @ [fl]" "fl_id fl = cr_flow r" "fl_org fl = pa_org ctx" "fl_slug fl = lp_slug q"
      "fl_archived fl = None" and pl: "plans e = plans d @ [pl]" "pl_org pl = pa_org ctx" "pl_flow pl = cr_flow r"
      "pl_hash pl = cr_hash r" "pl_version pl = cr_version r" "pl_decision pl = cr_decision r"
    unfolding planned_def by blast
  have fid: "cr_flow r = mt_flow (cs_mint cs) (length (flows d))" using comp by blast
  have f: "get_flow_by_slug e (pa_org ctx) (lp_slug q) = Some fl"
    using assms(2) fl(1,3,4) q(2) by (simp add: get_flow_by_slug_def find_append_None)
  have "filter (\<lambda>p. pl_org p = pa_org ctx \<and> pl_flow p = cr_flow r) (plans e) = [pl]"
    using assms(3) pl(1-3) by (auto simp: fid fresh_flow_def Let_def filter_empty_conv)
  then have v: "list_plan_versions e (pa_org ctx) (fl_id fl) = [pl]" by (simp add: list_plan_versions_def fl(2))
  have "register_draft_proposal cs' flag p ctx' e = (Inr (existing_result e fl pl (pl_decision pl), a), e)"
    using q(1) f v fl(5) pl(4) comp assms(4,5) by (simp add: register_draft_proposal_def)
  then show ?thesis using fl(2) pl(4-6) by (simp add: existing_result_def)
qed

section \<open>Dispatch\<close>

text \<open>
  C10: A dispatch that starts a node was authorised by a human whose approval is stored in the tenant,
  started exactly that ready node with one more attempt, and names the human and the decision in its
  run. Once it has run, neither a second dispatch under any authority nor one that had read the node
  as ready before starts it again.
\<close>

theorem dispatch_is_human_rooted_and_single:
  assumes "resolve_engine_genesis d org i = Inr g" "dispatch_node mt sv node g d = (Inr out, e)"
    and "do_status out = DISPATCHED" "nodes_unique d"
  shows "(\<exists>r \<in> set (decisions d). \<exists>run. dc_id r = i \<and> dc_org r = org \<and> dc_actor_kind r = ''human''
      \<and> dc_kind r \<in> {''plan_accepted'', ''plan_amended'', ''gate_approved''} \<and> do_run out = Some run
      \<and> dr_node run = node \<and> dr_human run = dc_actor_id r \<and> dr_decision run = i)
    \<and> (\<exists>n \<in> set (nodes d). nd_id n = node \<and> nd_org n = org \<and> nd_state n = ''ready''
      \<and> nodes e = update_where (\<lambda>m. nd_id m = node)
          (\<lambda>m. m\<lparr>nd_state := ''running'', nd_attempts := nd_attempts m + 1\<rparr>) (nodes d))
    \<and> nodes (snd (dispatch_node mt' sv' node g' e)) = nodes e
    \<and> nodes (snd (dispatch_transition mt' node org fid ''ready'' why e)) = nodes e"
proof -
  obtain r where r: "r \<in> set (decisions d)" "dc_id r = i" "dc_org r = org" "dc_actor_kind r = ''human''"
      "dc_kind r \<in> {''plan_accepted'', ''plan_amended'', ''gate_approved''}" "eg_human g = dc_actor_id r"
      "eg_decision g = i" "eg_org g = org"
    using resolved_root [OF assms(1)] by blast
  from dispatch_node_effect [OF assms(2,4)] assms(3) r(6-8) obtain run where run: "do_run out = Some run" "dr_node run = node"
      "dr_decision run = i" "dr_human run = dc_actor_id r" and st: "starts_node org node 1 d e"
    by auto
  from st obtain n where n: "n \<in> set (nodes d)" "nd_id n = node" "nd_org n = org" "nd_state n = ''ready''"
      "nodes e = update_where (\<lambda>m. nd_id m = node) (\<lambda>m. m\<lparr>nd_state := ''running'', nd_attempts := nd_attempts m + 1\<rparr>) (nodes d)"
    by (auto simp: starts_node_def)
  have u: "nodes_unique e" by (rule starts_unique [OF st assms(4)])
  have running: "nd_state m = ''running''" if m: "m \<in> set (nodes e)" "nd_id m = node" for m
  proof -
    obtain x where x: "m = (if nd_id x = node then x\<lparr>nd_state := ''running'', nd_attempts := nd_attempts x + 1\<rparr> else x)"
      using m(1) unfolding n(5) update_where_def set_map by (elim imageE) (rule that)
    show ?thesis
    proof (cases "nd_id x = node")
      case True
      then show ?thesis unfolding x by simp
    next
      case False
      then show ?thesis using m(2) unfolding x by simp
    qed
  qed
  have no_start: "\<not> starts_node o' node k e f" for o' k f
    using running by (auto simp: starts_node_def)
  have "nodes (snd (dispatch_node mt' sv' node g' e)) = nodes e"
  proof -
    obtain x f where f: "dispatch_node mt' sv' node g' e = (x, f)" by force
    from started_cases [OF f u] no_start show ?thesis by (auto simp: f)
  qed
  moreover have "nodes (snd (dispatch_transition mt' node org fid ''ready'' why e)) = nodes e"
  proof -
    obtain x f where f: "dispatch_transition mt' node org fid ''ready'' why e = (x, f)" by force
    from dispatch_transition_effect [OF f u] no_start have "nodes f = nodes e"
      by (auto split: sum.splits prod.splits if_splits)
    then show ?thesis by (simp add: f)
  qed
  moreover have "\<exists>r \<in> set (decisions d). \<exists>run. dc_id r = i \<and> dc_org r = org \<and> dc_actor_kind r = ''human''
      \<and> dc_kind r \<in> {''plan_accepted'', ''plan_amended'', ''gate_approved''} \<and> do_run out = Some run
      \<and> dr_node run = node \<and> dr_human run = dc_actor_id r \<and> dr_decision run = i"
    using r(1-5) run by blast
  moreover have "\<exists>n \<in> set (nodes d). nd_id n = node \<and> nd_org n = org \<and> nd_state n = ''ready''
      \<and> nodes e = update_where (\<lambda>m. nd_id m = node)
          (\<lambda>m. m\<lparr>nd_state := ''running'', nd_attempts := nd_attempts m + 1\<rparr>) (nodes d)"
    using n by blast
  ultimately show ?thesis by blast
qed

section \<open>A registered draft and a ready node\<close>

definition sample_author :: approval_context where
  "sample_author = \<lparr>pa_org = ''o'', pa_actor = ''agent'', pa_role = ''engine'', pa_username = [], pa_kind = SERVICE, pa_reason = None\<rparr>"

definition small_plan :: proposal where
  "small_plan = Proposal_Properties.sample_plan\<lparr>lp_nodes := [Proposal_Properties.sample_node ''f/e/w/a'' ''story'' None,
       Proposal_Properties.sample_node ''f/e/w/v'' ''eval'' None],
     lp_edges := [\<lparr>pe_from = ''f/e/w/a'', pe_to = ''f/e/w/v''\<rparr>]\<rparr>"

definition drafted_db :: db where
  "drafted_db = snd (register_draft_proposal sample_compile None small_plan sample_author sample_db)"

definition drafted_result :: compile_result where
  "drafted_result = fst (projr (fst (register_draft_proposal sample_compile None small_plan sample_author sample_db)))"

lemma draft_registered:
  "register_draft_proposal sample_compile None small_plan sample_author sample_db
    = (Inr (drafted_result, ''f/e/w/accept''), drafted_db)"
proof -
  let ?r = "register_draft_proposal sample_compile None small_plan sample_author sample_db"
  have "case fst ?r of Inl _ \<Rightarrow> False | Inr x \<Rightarrow> snd x = ''f/e/w/accept''" by code_simp
  then have "fst ?r = Inr (drafted_result, ''f/e/w/accept'')"
    unfolding drafted_result_def by (auto split: sum.splits)
  then show ?thesis by (simp add: drafted_db_def prod_eq_iff)
qed

lemma draft_fresh:
  "get_flow_by_slug sample_db (pa_org sample_author) (lp_slug small_plan) = None"
  "fresh_flow (cs_mint sample_compile) sample_db" "fresh_nodes (cs_mint sample_compile) sample_db"
  "nodes_unique sample_db" "set_order (cs_listing sample_compile)"
proof -
  show "get_flow_by_slug sample_db (pa_org sample_author) (lp_slug small_plan) = None" by code_simp
  show "fresh_flow (cs_mint sample_compile) sample_db" "fresh_nodes (cs_mint sample_compile) sample_db"
    by (auto simp: fresh_flow_def fresh_nodes_def compile_sample_defs fresh_id_def sample_db_def sample_flow_def Samples.sample_node_def
        Samples.sample_plan_def)
  show "nodes_unique sample_db" "set_order (cs_listing sample_compile)"
    by (simp_all add: nodes_unique_def unique_on_def sample_db_def sample_compile_def remdups_set_order)
qed

theorem nothing_runs_before_approval_witness:
  "\<exists>g. gate_closed g ''o'' (cr_flow drafted_result) (snd (run_tick tick_env0 drafted_db))
    \<and> flow_rest g ''o'' (cr_flow drafted_result) (snd (run_tick tick_env0 drafted_db))
      = flow_rest g ''o'' (cr_flow drafted_result) drafted_db"
proof -
  let ?f = "snd (run_tick tick_env0 drafted_db)"
  have "lifecycle_step\<^sup>*\<^sup>* drafted_db ?f" using tick by (rule r_into_rtranclp)
  from nothing_runs_before_approval [OF draft_registered draft_fresh this] obtain g where
    g: "approved_by_human g ''o'' (cr_flow drafted_result) ?f
      \<or> flow_rest g ''o'' (cr_flow drafted_result) ?f = flow_rest g ''o'' (cr_flow drafted_result) drafted_db
        \<and> gate_closed g ''o'' (cr_flow drafted_result) ?f"
    by (auto simp: sample_author_def)
  have "map dc_kind (decisions drafted_db) = [''plan_drafted'']" by code_simp
  moreover have "nodes_unique drafted_db"
    using registered_dormant [OF draft_registered draft_fresh] by (auto simp: dormant_def)
  then have "service_adds drafted_db ?f" using engine_run_service [OF run_tick_step] by blast
  ultimately have "\<not> approved_by_human g ''o'' (cr_flow drafted_result) ?f"
    by (auto simp: approved_by_human_def service_adds_def)
  with g show ?thesis by blast
qed

definition approved_ready_db :: db where
  "approved_ready_db = sample_db\<lparr>nodes := [Samples.sample_node\<lparr>nd_state := ''ready''\<rparr>],
     decisions := [\<lparr>dc_id = ''d0'', dc_org = ''o'', dc_flow = ''f'', dc_node = None, dc_kind = ''plan_accepted'', dc_actor_id = ''u'',
       dc_actor_role = ''member'', dc_actor_kind = ''human'', dc_reason = None, dc_rejection = None, dc_from = None, dc_to = None,
       dc_created = Aware 1\<rparr>]\<rparr>"

definition sample_genesis :: engine_genesis where
  "sample_genesis = \<lparr>eg_human = ''u'', eg_role = ''member'', eg_decision = ''d0'', eg_flow = ''f'', eg_org = ''o'', eg_kind = ''plan_accepted''\<rparr>"

theorem registration_is_idempotent_witness:
  "\<exists>r'. register_draft_proposal (sample_compile\<lparr>cs_now := Aware 50\<rparr>) None small_plan sample_author drafted_db
      = (Inr (r', ''f/e/w/accept''), drafted_db) \<and> cr_already r' \<and> cr_flow r' = cr_flow drafted_result"
  using registration_is_idempotent [OF draft_registered draft_fresh(1,2), of "sample_compile\<lparr>cs_now := Aware 50\<rparr>" sample_author]
  by (auto simp: sample_compile_def)

theorem dispatch_is_human_rooted_and_single_witness:
  "\<exists>out e. dispatch_node sample_mint idle_evals ''n'' sample_genesis approved_ready_db = (Inr out, e)
    \<and> nodes e = [Samples.sample_node\<lparr>nd_state := ''running'', nd_attempts := 2\<rparr>]
    \<and> nodes (snd (dispatch_node sample_mint idle_evals ''n'' sample_genesis e)) = nodes e"
proof -
  have g: "resolve_engine_genesis approved_ready_db ''o'' ''d0'' = Inr sample_genesis" by code_simp
  obtain x e where r: "dispatch_node sample_mint idle_evals ''n'' sample_genesis approved_ready_db = (x, e)" by force
  have "case fst (dispatch_node sample_mint idle_evals ''n'' sample_genesis approved_ready_db) of Inl _ \<Rightarrow> False
    | Inr out \<Rightarrow> do_status out = DISPATCHED" by code_simp
  then obtain out where out: "x = Inr out" "do_status out = DISPATCHED" using r by (auto split: sum.splits)
  have u: "nodes_unique approved_ready_db" by (simp add: approved_ready_db_def nodes_unique_def unique_on_def)
  note claim = dispatch_is_human_rooted_and_single [OF g r [unfolded out(1)] out(2) u]
  have "nodes e = [Samples.sample_node\<lparr>nd_state := ''running'', nd_attempts := 2\<rparr>]"
    using claim by (auto simp: approved_ready_db_def update_where_def Samples.sample_node_def)
  with claim r out(1) show ?thesis by blast
qed

end
