(* ===== verification/Binding_Laws.thy ===== *)
theory Binding_Laws
  imports Pr_Bindings
begin

text \<open>
  What a registration does to the table of bindings: the rows it rewrites, what every row keeps, and the
  invariant that no pull request has two rows and no story two active ones.
\<close>

section \<open>Frames\<close>

lemma put_binding_simps [simp]:
  "flows (put_binding b d) = flows d" "nodes (put_binding b d) = nodes d" "edges (put_binding b d) = edges d"
  "plans (put_binding b d) = plans d" "decisions (put_binding b d) = decisions d"
  "claims (put_binding b d) = claims d" "executions (put_binding b d) = executions d"
  "actions (put_binding b d) = actions d"
  by (simp_all add: put_binding_def)

definition revision_decision :: "mint \<Rightarrow> nat \<Rightarrow> binding_request \<Rightarrow> binding_row \<Rightarrow> decision_row" where
  "revision_decision mt k q b = \<lparr>dc_id = mt_decision mt k, dc_org = pb_org b, dc_flow = pb_flow b,
     dc_node = Some (pb_node b), dc_kind = ''pr_binding_changed'', dc_actor_id = br_actor q,
     dc_actor_role = actor_kind_value (br_kind q), dc_actor_kind = actor_kind_value (br_kind q),
     dc_reason = Some (dumped (binding_snapshot b)), dc_rejection = None, dc_from = None, dc_to = None,
     dc_created = mt_now mt\<rparr>"

lemma record_revision_eq:
  "record_revision mt (br_actor q) (br_kind q) b d
   = d\<lparr>decisions := decisions d @ [revision_decision mt (length (decisions d)) q b]\<rparr>"
  by (simp add: record_revision_def append_decision_def revision_decision_def Let_def)

lemma record_revision_bindings [simp]:
  "bindings (record_revision mt actor_id kind b d) = bindings d" "nodes (record_revision mt actor_id kind b d) = nodes d"
  "flows (record_revision mt actor_id kind b d) = flows d" "plans (record_revision mt actor_id kind b d) = plans d"
  "claims (record_revision mt actor_id kind b d) = claims d" "edges (record_revision mt actor_id kind b d) = edges d"
  "executions (record_revision mt actor_id kind b d) = executions d"
  "actions (record_revision mt actor_id kind b d) = actions d"
  by (simp_all add: record_revision_def append_decision_def Let_def)

lemma supersede_rivals_frame [simp]:
  "nodes (supersede_rivals mt q rs d) = nodes d" "flows (supersede_rivals mt q rs d) = flows d"
  "plans (supersede_rivals mt q rs d) = plans d" "claims (supersede_rivals mt q rs d) = claims d"
  "edges (supersede_rivals mt q rs d) = edges d" "executions (supersede_rivals mt q rs d) = executions d"
  "actions (supersede_rivals mt q rs d) = actions d"
  by (induction rs arbitrary: d) (simp_all add: supersede_rivals_def)

lemma supersede_rivals_Nil [simp]: "supersede_rivals mt q [] d = d"
  by (simp add: supersede_rivals_def)

lemma put_binding_rows:
  assumes "unique_on pb_id (bindings d)" "r \<in> set (bindings d)" "pb_id r' = pb_id r"
  shows "bindings (put_binding r' d) = map (\<lambda>b. if b = r then r' else b) (bindings d)"
  using assms by (auto simp: put_binding_def update_where_def dest: unique_onD)

lemma superseded_rival_simps [simp]:
  "pb_id (superseded_rival q b) = pb_id b" "pb_org (superseded_rival q b) = pb_org b"
  "pb_repo_id (superseded_rival q b) = pb_repo_id b" "pb_pr_node (superseded_rival q b) = pb_pr_node b"
  "pb_node (superseded_rival q b) = pb_node b" "pb_state (superseded_rival q b) = ''superseded''"
  "pb_revision (superseded_rival q b) = pb_revision b + 1"
  by (simp_all add: superseded_rival_def)

lemma unique_on_map: "(\<And>r. r \<in> set rows \<Longrightarrow> key (g r) = key r) \<Longrightarrow> unique_on key (map g rows) = unique_on key rows"
  unfolding unique_on_def by (metis (mono_tags, lifting) map_map comp_apply map_eq_conv)

lemma supersede_rivals_rows:
  assumes "unique_on pb_id (bindings d)" "set rs \<subseteq> set (bindings d)" "distinct rs"
  shows "bindings (supersede_rivals mt q rs d)
    = map (\<lambda>b. if b \<in> set rs then superseded_rival q b else b) (bindings d)"
  using assms
proof (induction rs arbitrary: d)
  case Nil
  show ?case by simp
next
  case (Cons r rs)
  let ?s = "superseded_rival q r"
  let ?d = "record_revision mt (br_actor q) (br_kind q) ?s (put_binding ?s d)"
  have rows: "bindings ?d = map (\<lambda>b. if b = r then ?s else b) (bindings d)"
    using Cons.prems by (simp add: put_binding_rows [of d r])
  have u: "unique_on pb_id (bindings ?d)"
    using Cons.prems(1) unfolding rows by (subst unique_on_map) auto
  have other: "b \<in> set rs \<Longrightarrow> b \<noteq> ?s" for b
    using Cons.prems unique_onD [OF Cons.prems(1), of b r] by auto
  have "set rs \<subseteq> set (bindings ?d)" using Cons.prems unfolding rows by auto
  with Cons.IH [OF u] Cons.prems(3)
  have "bindings (supersede_rivals mt q rs ?d)
      = map (\<lambda>b. if b \<in> set rs then superseded_rival q b else b) (bindings ?d)" by simp
  also have "\<dots> = map (\<lambda>b. if b \<in> set (r # rs) then superseded_rival q b else b) (bindings d)"
    unfolding rows using other Cons.prems(3) by auto
  finally show ?case by (simp add: supersede_rivals_def)
qed

section \<open>What the checks establish\<close>

lemma bind_refusal_not_Inr [simp]: "bind_refusal c \<noteq> Inr x" "Inr x \<noteq> bind_refusal c"
  by (simp_all add: bind_refusal_def)

lemma check_target_node:
  "check_target d t pr q = Inr n \<Longrightarrow> find (\<lambda>n. nd_id n = rt_node t \<and> nd_org n = rt_org t) (nodes d) = Some n
   \<and> nd_attempts n = rt_attempt t \<and> nd_flow n = rt_flow t \<and> (truthy (br_replaces q) \<longrightarrow> br_kind q = HUMAN)"
  by (auto simp: check_target_def and_then_Inr split: if_splits option.splits)

lemma check_rowD:
  assumes "check_row d t pr q n scope = Inr f"
  shows "bf_node f = n" "bf_scope f = scope" "bf_row f = binding_of_pr d (rt_org t) pr"
    "bf_rivals f = rivals_of d t (bf_row f)" "bf_rivals f \<noteq> [] \<Longrightarrow> truthy (br_replaces q)"
    "bf_row f = Some r \<Longrightarrow> pb_state r \<noteq> ''superseded''"
    "bf_row f = Some r \<Longrightarrow> bf_holder f = (if pb_node r \<noteq> rt_node t then get_node d (pb_node r) else None)"
    "bf_row f = Some r \<Longrightarrow> pb_node r \<noteq> rt_node t \<Longrightarrow> successor_may_adopt (bf_holder f) n r"
    "bf_row f = None \<Longrightarrow> bf_holder f = None"
  using assms by (auto simp: check_row_def Let_def split: if_splits option.splits)

lemma check_registrationD:
  assumes "check_registration sv d t pr q = Inr f"
  shows "check_target d t pr q = Inr (bf_node f)" "check_row d t pr q (bf_node f) (bf_scope f) = Inr f"
    "rt_scope t = Some s \<Longrightarrow> raw_text s \<noteq> [] \<Longrightarrow> bf_scope f = s"
proof -
  obtain n scope where n: "check_target d t pr q = Inr n" "check_row d t pr q n scope = Inr f"
    and s: "(if (case rt_scope t of None \<Rightarrow> False | Some s \<Rightarrow> raw_text s \<noteq> []) then Inr (the (rt_scope t))
               else accepted_scope sv d n None) = Inr scope"
    using assms unfolding check_registration_def and_then_Inr by (metis bind_refusal_not_Inr(1))
  then show "check_target d t pr q = Inr (bf_node f)" "check_row d t pr q (bf_node f) (bf_scope f) = Inr f"
    using check_rowD(1,2) [OF n(2)] by simp_all
  show "rt_scope t = Some s \<Longrightarrow> raw_text s \<noteq> [] \<Longrightarrow> bf_scope f = s"
    using check_rowD(2) [OF n(2)] s by simp
qed

lemma rivals_rows: "set (rivals_of d t row) \<subseteq> set (bindings d)"
  by (auto simp: rivals_of_def active_rows_def)

lemma rivals_iff: "b \<in> set (rivals_of d t row) \<longleftrightarrow> b \<in> set (bindings d) \<and> pb_org b = rt_org t
    \<and> pb_node b = rt_node t \<and> pb_state b = ''active'' \<and> (case row of None \<Rightarrow> True | Some r \<Rightarrow> pb_id b \<noteq> pb_id r)"
  by (auto simp: rivals_of_def active_rows_def)

lemma binding_of_pr_SomeD: "binding_of_pr d org pr = Some r \<Longrightarrow>
   r \<in> set (bindings d) \<and> pb_org r = org \<and> pb_repo_id r = pr_repo_id pr \<and> pb_pr_node r = pr_node pr"
  unfolding binding_of_pr_def by (drule find_SomeD) simp

section \<open>The rows after a registration\<close>

definition rewritten :: "binding_facts \<Rightarrow> registration_target \<Rightarrow> pull_request \<Rightarrow> binding_request \<Rightarrow> binding_row \<Rightarrow> binding_row" where
  "rewritten f t pr q b =
     (if changing f t pr q \<and> bf_row f = Some b then rebound f t pr q b
      else if b \<in> set (bf_rivals f) then superseded_rival q b else b)"

lemma rewritten_row:
  assumes "changing f t pr q" "bf_row f = Some r" "r \<notin> set (bf_rivals f)"
  shows "rewritten f t pr q b = (if b = r then rebound f t pr q r
    else if b \<in> set (bf_rivals f) then superseded_rival q b else b)"
  using assms by (cases "b = r") (auto simp: rewritten_def)

lemma rebound_simps [simp]:
  "pb_id (rebound f t pr q r) = pb_id r" "pb_org (rebound f t pr q r) = pb_org r"
  "pb_repo_id (rebound f t pr q r) = pb_repo_id r" "pb_pr_node (rebound f t pr q r) = pb_pr_node r"
  "pb_state (rebound f t pr q r) = pb_state r" "pb_revision (rebound f t pr q r) = pb_revision r + 1"
  "pb_node (rebound f t pr q r) = (if bf_holder f \<noteq> None then rt_node t else pb_node r)"
  by (simp_all add: rebound_def Let_def)

lemma rewritten_simps [simp]:
  "pb_id (rewritten f t pr q b) = pb_id b" "pb_org (rewritten f t pr q b) = pb_org b"
  "pb_repo_id (rewritten f t pr q b) = pb_repo_id b" "pb_pr_node (rewritten f t pr q b) = pb_pr_node b"
  by (simp_all add: rewritten_def)

lemma unchanged_rivals: "\<not> changing f t pr q \<Longrightarrow> bf_rivals f = [] \<and> bf_row f \<noteq> None"
  by (auto simp: changing_def split: option.splits)

text \<open>A registration is refused and changes nothing, or it rewrites the rows and adds at most one.\<close>

lemma register_refused: "fst (register_binding sv env t pr q d) = Inl err \<Longrightarrow> snd (register_binding sv env t pr q d) = d"
  by (auto simp: register_binding_def Let_def split: sum.splits option.splits if_splits)

lemma rebound_rows:
  assumes u: "unique_on pb_id (bindings d)" and rv: "set (bf_rivals f) \<subseteq> set (bindings d)" "distinct (bf_rivals f)"
    and r: "r \<in> set (bindings d)" "r \<notin> set (bf_rivals f)" "bf_row f = Some r" and ch: "changing f t pr q"
  shows "bindings (put_binding (rebound f t pr q r) (supersede_rivals mt q (bf_rivals f) d))
    = map (rewritten f t pr q) (bindings d)"
proof -
  let ?d1 = "supersede_rivals mt q (bf_rivals f) d" and ?r = "rebound f t pr q r"
  let ?sup = "\<lambda>b. if b \<in> set (bf_rivals f) then superseded_rival q b else b"
  note sup = supersede_rivals_rows [OF u rv, of mt q]
  have u1: "unique_on pb_id (bindings ?d1)" unfolding sup using u by (subst unique_on_map) auto
  have r1: "r \<in> set (bindings ?d1)" unfolding sup using r by force
  have "bindings (put_binding ?r ?d1) = map (\<lambda>b. if b = r then ?r else b) (bindings ?d1)"
    using put_binding_rows [OF u1 r1, of ?r] by simp
  also have "\<dots> = map (rewritten f t pr q) (bindings d)"
    unfolding sup map_map
  proof (rule map_cong [OF refl])
    fix b assume b: "b \<in> set (bindings d)"
    have other: "superseded_rival q b \<noteq> r" if "b \<in> set (bf_rivals f)"
      using that r(2) unique_onD [OF u b r(1)] by (metis superseded_rival_simps(1))
    show "((\<lambda>b. if b = r then ?r else b) \<circ> ?sup) b = rewritten f t pr q b"
    proof (cases "b \<in> set (bf_rivals f)")
      case True
      with r(2) have "r \<noteq> b" by blast
      with True other [OF True] r(3) show ?thesis by (simp add: rewritten_def)
    next
      case False
      then show ?thesis unfolding rewritten_row [OF ch r(3) r(2)] comp_apply by (simp only: if_False)
    qed
  qed
  finally show ?thesis .
qed

lemma fresh_rows:
  assumes u: "unique_on pb_id (bindings d)" and rv: "set (bf_rivals f) \<subseteq> set (bindings d)" "distinct (bf_rivals f)"
    and b: "pb_id b \<notin> pb_id ` set (bindings d)" and f: "bf_row f = None"
  shows "bindings (supersede_rivals mt q (bf_rivals f) (d\<lparr>bindings := bindings d @ [b]\<rparr>))
    = map (rewritten f t pr q) (bindings d) @ [b]"
proof -
  let ?d0 = "d\<lparr>bindings := bindings d @ [b]\<rparr>"
  have nb: "b \<notin> set (bf_rivals f)" using b rv(1) by blast
  have u0: "unique_on pb_id (bindings ?d0)" using u b by simp
  have "set (bf_rivals f) \<subseteq> set (bindings ?d0)" using rv(1) by auto
  from supersede_rivals_rows [OF u0 this rv(2)] nb f show ?thesis by (simp add: rewritten_def)
qed

lemma register_rows:
  assumes "register_binding sv env t pr q d = (Inr res, e)" "unique_on pb_id (bindings d)"
    and fresh: "be_id env \<notin> pb_id ` set (bindings d)"
  obtains f where "check_registration sv d t pr q = Inr f"
    "bindings e = map (rewritten f t pr q) (bindings d)
       @ (case bf_row f of None \<Rightarrow> [fresh_binding (be_id env) f t pr q] | Some _ \<Rightarrow> [])"
    "fst res = (case bf_row f of None \<Rightarrow> fresh_binding (be_id env) f t pr q
                | Some r \<Rightarrow> if changing f t pr q then rebound f t pr q r else r)"
    "snd res \<longleftrightarrow> bf_row f = None"
    "changing f t pr q \<Longrightarrow> nd_state (bf_node f) \<notin> {''passed'', ''superseded''}"
    "\<not> changing f t pr q \<Longrightarrow> e = d"
proof -
  obtain f where c: "check_registration sv d t pr q = Inr f"
    and s: "changing f t pr q \<Longrightarrow> nd_state (bf_node f) \<notin> {''passed'', ''superseded''}"
    using assms(1) by (auto simp: register_binding_def split: sum.splits if_splits)
  have ns: "\<not> (changing f t pr q \<and> nd_state (bf_node f) \<in> {''passed'', ''superseded''})" using s by blast
  note run = assms(1) [unfolded register_binding_def Let_def c sum.case if_not_P [OF ns]]
  note row = check_rowD [OF check_registrationD(2) [OF c]]
  have rv: "set (bf_rivals f) \<subseteq> set (bindings d)" "distinct (bf_rivals f)"
    using assms(2) rivals_rows unfolding row(4) rivals_of_def active_rows_def unique_on_def
    by (auto simp: distinct_map)
  show ?thesis
  proof (cases "bf_row f")
    case (Some r)
    have r: "r \<in> set (bindings d)" using row(3) Some binding_of_pr_SomeD by metis
    have notrival: "r \<notin> set (bf_rivals f)" using Some by (simp add: row(4) rivals_iff)
    show ?thesis
    proof (cases "changing f t pr q")
      case False
      then have e: "e = d" "res = (r, False)"
        using run unchanged_rivals [OF False] unfolding Some option.case by simp_all
      have "map (rewritten f t pr q) (bindings d) = bindings d"
        using unchanged_rivals [OF False] False by (intro map_idI) (simp add: rewritten_def)
      then show ?thesis using that [OF c] False Some e by simp
    next
      case True
      from run True rebound_rows [OF assms(2) rv r notrival Some True, of "be_mint env"] that [OF c] Some s
      show ?thesis by auto
    qed
  next
    case None
    have "pb_id (fresh_binding (be_id env) f t pr q) \<notin> pb_id ` set (bindings d)"
      using fresh by (simp add: fresh_binding_def)
    from run fresh_rows [OF assms(2) rv this None, of "be_mint env" q t pr] that [OF c] None s
    show ?thesis by (auto split: if_splits simp: changing_def)
  qed
qed

end
