(* ===== verification/Binding_Properties.thy ===== *)
theory Binding_Properties
  imports Binding_Laws Samples
begin

text \<open>
  The guarantees of the table of bindings: one row for a pull request and one active row for a story
  along every run, what a row keeps, who may replace or move one, and that a repeated registration
  changes nothing.
\<close>

section \<open>The invariant and what a row keeps\<close>

definition binding_key :: "binding_row \<Rightarrow> string \<times> int \<times> string" where
  "binding_key b = (pb_org b, pb_repo_id b, pb_pr_node b)"

definition story_key :: "binding_row \<Rightarrow> string \<times> string" where
  "story_key b = (pb_org b, pb_node b)"

definition active_binding :: "binding_row \<Rightarrow> bool" where
  "active_binding b \<longleftrightarrow> pb_state b = ''active''"

definition bindings_ok :: "db \<Rightarrow> bool" where
  "bindings_ok d \<longleftrightarrow> unique_on pb_id (bindings d) \<and> unique_on binding_key (bindings d)
     \<and> unique_on story_key (filter active_binding (bindings d))"

definition binding_evolves :: "binding_row \<Rightarrow> binding_row \<Rightarrow> bool" where
  "binding_evolves b b' \<longleftrightarrow> pb_id b' = pb_id b \<and> binding_key b' = binding_key b
     \<and> (b' = b \<or> pb_state b \<noteq> ''superseded'' \<and> pb_revision b < pb_revision b')"

definition bindings_grow :: "db \<Rightarrow> db \<Rightarrow> bool" where
  "bindings_grow d e \<longleftrightarrow> (\<forall>b \<in> set (bindings d). \<exists>b' \<in> set (bindings e). binding_evolves b b')"

lemma binding_evolves_refl [simp]: "binding_evolves b b"
  by (simp add: binding_evolves_def)

lemma bindings_grow_refl: "bindings_grow d d"
  unfolding bindings_grow_def by (meson binding_evolves_refl)

lemma binding_evolves_trans: "binding_evolves a b \<Longrightarrow> binding_evolves b c \<Longrightarrow> binding_evolves a c"
  by (auto simp: binding_evolves_def)

text \<open>The invariant as a statement about two rows of the table.\<close>

lemma bindings_okI:
  assumes "unique_on pb_id (bindings d)" "unique_on binding_key (bindings d)"
    and same: "\<And>a b. a \<in> set (bindings d) \<Longrightarrow> b \<in> set (bindings d) \<Longrightarrow> active_binding a \<Longrightarrow> active_binding b
      \<Longrightarrow> story_key a = story_key b \<Longrightarrow> pb_id a = pb_id b"
  shows "bindings_ok d"
proof -
  have "distinct (bindings d)" using assms(1) by (simp add: unique_on_def distinct_map)
  moreover have "inj_on story_key (set (filter active_binding (bindings d)))"
    using same unique_onD [OF assms(1)] by (intro inj_onI) simp
  ultimately have "unique_on story_key (filter active_binding (bindings d))"
    by (simp add: unique_on_def distinct_map)
  with assms(1,2) show ?thesis by (simp add: bindings_ok_def)
qed

lemma bindings_okD:
  assumes "bindings_ok d" "a \<in> set (bindings d)" "b \<in> set (bindings d)"
  shows "pb_id a = pb_id b \<Longrightarrow> a = b" "binding_key a = binding_key b \<Longrightarrow> a = b"
    "active_binding a \<Longrightarrow> active_binding b \<Longrightarrow> story_key a = story_key b \<Longrightarrow> a = b"
proof -
  have ok: "unique_on pb_id (bindings d)" "unique_on binding_key (bindings d)"
    "unique_on story_key (filter active_binding (bindings d))"
    using assms(1) by (simp_all add: bindings_ok_def)
  show "pb_id a = pb_id b \<Longrightarrow> a = b" "binding_key a = binding_key b \<Longrightarrow> a = b"
    using unique_onD [OF ok(1)] unique_onD [OF ok(2)] assms(2,3) by blast+
  show "active_binding a \<Longrightarrow> active_binding b \<Longrightarrow> story_key a = story_key b \<Longrightarrow> a = b"
    using unique_onD [OF ok(3)] assms(2,3) by simp
qed

section \<open>Registrations keep it\<close>

lemma rewritten_evolves:
  assumes "check_row d t pr q n scope = Inr f" "b \<in> set (bindings d)"
  shows "binding_evolves b (rewritten f t pr q b)"
proof -
  have "pb_state b \<noteq> ''superseded''" if "bf_row f = Some b" using check_rowD(6) [OF assms(1) that] .
  moreover have "pb_state b = ''active''" if "b \<in> set (bf_rivals f)"
    using that by (simp add: check_rowD(4) [OF assms(1)] rivals_iff)
  ultimately show ?thesis
    by (auto simp: binding_evolves_def rewritten_def binding_key_def)
qed

text \<open>After the rewriting, an active row of the target story is the registered one.\<close>

lemma rewritten_rival:
  assumes "check_row d t pr q n scope = Inr f" "b \<in> set (bindings d)"
    and "active_binding (rewritten f t pr q b)" "story_key (rewritten f t pr q b) = (rt_org t, rt_node t)"
  shows "\<exists>r. bf_row f = Some r \<and> pb_id b = pb_id r"
proof (rule ccontr)
  assume no: "\<nexists>r. bf_row f = Some r \<and> pb_id b = pb_id r"
  then have "bf_row f \<noteq> Some b" by blast
  then have eq: "rewritten f t pr q b = (if b \<in> set (bf_rivals f) then superseded_rival q b else b)"
    by (simp add: rewritten_def)
  with assms(3) have "b \<notin> set (bf_rivals f)" by (auto simp: active_binding_def split: if_splits)
  with eq assms(2-4) no show False
    by (auto simp: check_rowD(4) [OF assms(1)] rivals_iff active_binding_def story_key_def split: option.splits)
qed

lemma rewritten_story:
  assumes "check_row d t pr q n scope = Inr f"
  shows "story_key (rewritten f t pr q b) = story_key b
    \<or> story_key (rewritten f t pr q b) = (pb_org b, rt_node t) \<and> bf_row f = Some b"
  by (auto simp: story_key_def rewritten_def)

lemma rewritten_active: "active_binding (rewritten f t pr q b) \<Longrightarrow> active_binding b"
  by (auto simp: active_binding_def rewritten_def split: if_splits)

lemma rewritten_stories:
  assumes c: "check_row d t pr q n scope = Inr f" and ok: "bindings_ok d"
    and a: "a \<in> set (bindings d)" and b: "b \<in> set (bindings d)"
    and act: "active_binding (rewritten f t pr q a)" "active_binding (rewritten f t pr q b)"
    and key: "story_key (rewritten f t pr q a) = story_key (rewritten f t pr q b)"
  shows "a = b"
proof (cases "story_key (rewritten f t pr q a) = (rt_org t, rt_node t)")
  case True
  with key rewritten_rival [OF c a act(1)] rewritten_rival [OF c b act(2)]
  show ?thesis using bindings_okD(1) [OF ok a b] by auto
next
  case False
  have org: "pb_org r = rt_org t" if "bf_row f = Some r" for r
    using that binding_of_pr_SomeD [of d "rt_org t" pr r] by (simp add: check_rowD(3) [OF c])
  have "story_key (rewritten f t pr q a) = story_key a"
    using rewritten_story [OF c, of a] False org by auto
  moreover have "story_key (rewritten f t pr q b) = story_key b"
    using rewritten_story [OF c, of b] False org key by auto
  ultimately show ?thesis
    using key bindings_okD(3) [OF ok a b] act rewritten_active by simp
qed

lemma register_keeps:
  assumes ok: "bindings_ok d" and fresh: "be_id env \<notin> pb_id ` set (bindings d)"
    and reg: "register_binding sv env t pr q d = (Inr res, e)"
  shows "bindings_ok e" "bindings_grow d e"
proof -
  have u: "unique_on pb_id (bindings d)" "unique_on binding_key (bindings d)" using ok by (simp_all add: bindings_ok_def)
  obtain f where f: "check_registration sv d t pr q = Inr f"
    "bindings e = map (rewritten f t pr q) (bindings d)
       @ (case bf_row f of None \<Rightarrow> [fresh_binding (be_id env) f t pr q] | Some _ \<Rightarrow> [])"
    using register_rows [OF reg u(1) fresh] by metis
  note c = check_registrationD(2) [OF f(1)]
  let ?b = "fresh_binding (be_id env) f t pr q" and ?g = "rewritten f t pr q"
  have new: "pb_id ?b = be_id env" "story_key ?b = (rt_org t, rt_node t)" "binding_key ?b = (rt_org t, pr_repo_id pr, pr_node pr)"
    by (simp_all add: fresh_binding_def story_key_def binding_key_def)
  have nokey: "binding_key ?b \<notin> binding_key ` set (bindings d)" if "bf_row f = None"
  proof -
    have "find (\<lambda>b. pb_org b = rt_org t \<and> pb_repo_id b = pr_repo_id pr \<and> pb_pr_node b = pr_node pr) (bindings d) = None"
      using that check_rowD(3) [OF c] by (simp add: binding_of_pr_def)
    then show ?thesis using new(3) by (auto simp: find_None_iff' binding_key_def)
  qed
  have map_ok: "unique_on pb_id (map ?g (bindings d))" "unique_on binding_key (map ?g (bindings d))"
    using u by (subst unique_on_map; simp add: binding_key_def)+
  have unew: "unique_on pb_id (bindings e)" "unique_on binding_key (bindings e)"
    unfolding f(2) using map_ok fresh nokey new
    by (auto split: option.split simp: image_iff binding_key_def)
  have stories: "pb_id x = pb_id y"
    if "x \<in> set (bindings e)" "y \<in> set (bindings e)" "active_binding x" "active_binding y" "story_key x = story_key y" for x y
    using that rewritten_stories [OF c ok] rewritten_rival [OF c] new(2)
    unfolding f(2) by (auto split: option.splits) metis+
  show "bindings_ok e" using unew stories by (rule bindings_okI)
  show "bindings_grow d e"
    unfolding bindings_grow_def f(2) using rewritten_evolves [OF c] by auto
qed

section \<open>Every writer of the table\<close>

lemma rewritten_rows_keep:
  assumes ok: "bindings_ok d" and e: "bindings e = map g (bindings d)"
    and g: "\<And>b. b \<in> set (bindings d) \<Longrightarrow> binding_evolves b (g b) \<and> story_key (g b) = story_key b \<and> pb_state (g b) = pb_state b"
  shows "bindings_ok e \<and> bindings_grow d e"
proof
  have "unique_on pb_id (map g (bindings d))" "unique_on binding_key (map g (bindings d))"
    using ok g by (subst unique_on_map; simp add: bindings_ok_def binding_evolves_def)+
  moreover have "pb_id x = pb_id y"
    if xy: "x \<in> set (bindings e)" "y \<in> set (bindings e)" "active_binding x" "active_binding y" "story_key x = story_key y"
    for x y
  proof -
    obtain a b where ab: "a \<in> set (bindings d)" "x = g a" "b \<in> set (bindings d)" "y = g b"
      using xy(1,2) unfolding e by auto
    with xy(3-5) g bindings_okD(3) [OF ok ab(1,3)] show ?thesis by (simp add: active_binding_def)
  qed
  ultimately show "bindings_ok e" unfolding e [symmetric] by (rule bindings_okI)
  show "bindings_grow d e" unfolding bindings_grow_def e using g by auto
qed

lemma active_binding_for_node_SomeD:
  "active_binding_for_node d org node k = Inr (Some b) \<Longrightarrow> b \<in> set (bindings d) \<and> pb_org b = org \<and> pb_node b = node
     \<and> pb_attempt b = k \<and> pb_state b = ''active''"
proof -
  assume a: "active_binding_for_node d org node k = Inr (Some b)"
  then have "filter (\<lambda>b. pb_org b = org \<and> pb_node b = node \<and> pb_attempt b = k \<and> pb_state b = ''active'') (bindings d) = [b]"
    unfolding active_binding_for_node_def by (simp split: list.splits)
  then have "b \<in> set (filter (\<lambda>b. pb_org b = org \<and> pb_node b = node \<and> pb_attempt b = k \<and> pb_state b = ''active'') (bindings d))"
    by simp
  then show ?thesis by simp
qed

lemma refresh_keeps:
  assumes ok: "bindings_ok d"
  shows "bindings_ok (snd (refresh_reviewed_head mt i bid rv scope head d))
    \<and> bindings_grow d (snd (refresh_reviewed_head mt i bid rv scope head d))"
proof -
  note grow = bindings_grow_refl [of d]
  have "bindings_ok (record_revision mt k ak b' (put_binding b' d)) \<and> bindings_grow d (record_revision mt k ak b' (put_binding b' d))"
    if b: "active_binding_for_node d (id_org i) (id_node i) (id_cycle i) = Inr (Some b)"
      and b': "b' = b\<lparr>pb_head_sha := head, pb_revision := pb_revision b + 1\<rparr>" for b b' k ak
  proof -
    note mem = active_binding_for_node_SomeD [OF b]
    have "bindings (record_revision mt k ak b' (put_binding b' d)) = map (\<lambda>x. if x = b then b' else x) (bindings d)"
      using put_binding_rows [of d b b'] ok mem b' by (simp add: bindings_ok_def)
    then show ?thesis
      by (rule rewritten_rows_keep [OF ok])
        (use b' mem in \<open>auto simp: binding_evolves_def binding_key_def story_key_def\<close>)
  qed
  with ok grow show ?thesis
    by (auto simp: refresh_reviewed_head_def Let_def split: sum.splits option.splits)
qed

text \<open>The registrations and refreshes of the engine, and whatever leaves the table alone.\<close>

inductive binding_step :: "db \<Rightarrow> db \<Rightarrow> bool" where
  registers: "be_id env \<notin> pb_id ` set (bindings d) \<Longrightarrow> binding_step d (snd (register_binding sv env t pr q d))"
| refreshes: "binding_step d (snd (refresh_reviewed_head mt i bid rv scope head d))"
| elsewhere: "bindings e = bindings d \<Longrightarrow> binding_step d e"

lemma carry_forward_steps:
  "be_id env \<notin> pb_id ` set (bindings d) \<Longrightarrow> binding_step d (snd (carry_forward_binding sv env n k t pr rv d))"
  using registers [of env d sv t pr plain_request] elsewhere [of d d]
  by (cases "register_binding sv env t pr plain_request d")
    (auto simp: carry_forward_binding_def split: sum.split option.split)

lemma recover_steps:
  "be_id env \<notin> pb_id ` set (bindings d) \<Longrightarrow> binding_step d (snd (recover_binding sv env org node pr inst act why repl d))"
  using registers [of env d sv] elsewhere [of d d]
  by (auto simp: recover_binding_def split: sum.split prod.split) (metis snd_conv)+

lemma binding_step_keeps:
  assumes "binding_step d e" "bindings_ok d"
  shows "bindings_ok e \<and> bindings_grow d e"
  using assms
proof (induction rule: binding_step.induct)
  case (registers env d sv t pr q)
  note same = bindings_grow_refl [of d]
  show ?case
  proof (cases "register_binding sv env t pr q d")
    case (Pair x e)
    then show ?thesis
      using registers same register_refused [of sv env t pr q d] register_keeps [of d env sv t pr q]
      by (cases x) auto
  qed
next
  case (refreshes d mt i bid rv scope head)
  then show ?case by (rule refresh_keeps)
next
  case (elsewhere e d)
  then show ?case using bindings_grow_refl [of d] by (simp add: bindings_ok_def bindings_grow_def)
qed

lemma bindings_grow_trans: "bindings_grow d e \<Longrightarrow> bindings_grow e f \<Longrightarrow> bindings_grow d f"
  unfolding bindings_grow_def by (meson binding_evolves_trans)

interpretation bound: growing binding_step bindings_ok bindings_grow
proof
  show "bindings_grow d d" for d by (rule bindings_grow_refl)
  show "binding_step d e \<Longrightarrow> bindings_ok d \<Longrightarrow> bindings_ok e" for d e using binding_step_keeps by blast
  show "binding_step d e \<Longrightarrow> bindings_ok d \<Longrightarrow> bindings_grow d e" for d e using binding_step_keeps by blast
  show "bindings_grow d e \<Longrightarrow> bindings_grow e f \<Longrightarrow> bindings_grow d f" for d e f by (rule bindings_grow_trans)
qed

section \<open>What a merge is credited to\<close>

lemma evidence_names_binding:
  "evidence_for_binding b (Some ev) = Inl url \<Longrightarrow> me_merged ev \<and> me_repo_id ev = Some (pb_repo_id b)
     \<and> me_pr_node ev = Some (pb_pr_node b) \<and> me_head ev = pb_head_sha b \<and> me_checks ev \<and> me_review ev"
  by (auto simp: evidence_for_binding_def split: if_splits)

text \<open>
  C15: A merged pull request completes at most one story, and a story rests on at most one active
  binding. After any run of registrations, repairs, recoveries, head refreshes and steps elsewhere, two
  bindings of a tenant that the same merge evidence completes are the same binding, and two active
  bindings of one story are the same; every binding there was before the run is still there under its
  pull request, unchanged or in a later revision, and a superseded one is unchanged.
\<close>

theorem merge_credits_one_story:
  assumes run: "binding_step\<^sup>*\<^sup>* d e" and ok: "bindings_ok d"
    and b: "b1 \<in> set (bindings e)" "b2 \<in> set (bindings e)" "pb_org b1 = pb_org b2"
  shows "(evidence_for_binding b1 (Some ev) = Inl u1 \<and> evidence_for_binding b2 (Some ev) = Inl u2 \<longrightarrow> b1 = b2)
    \<and> (pb_state b1 = ''active'' \<and> pb_state b2 = ''active'' \<and> pb_node b1 = pb_node b2 \<longrightarrow> b1 = b2)
    \<and> (\<forall>b \<in> set (bindings d). \<exists>b' \<in> set (bindings e). pb_id b' = pb_id b \<and> binding_key b' = binding_key b
      \<and> (b' = b \<or> pb_state b \<noteq> ''superseded'' \<and> pb_revision b < pb_revision b'))"
proof (intro conjI impI)
  have oke: "bindings_ok e" using bound.run_inv [OF run ok] .
  note same = bindings_okD [OF oke b(1,2)]
  show "b1 = b2" if "evidence_for_binding b1 (Some ev) = Inl u1 \<and> evidence_for_binding b2 (Some ev) = Inl u2"
    using same(2) b(3) that evidence_names_binding [of b1 ev u1] evidence_names_binding [of b2 ev u2]
    by (simp add: binding_key_def)
  show "b1 = b2" if "pb_state b1 = ''active'' \<and> pb_state b2 = ''active'' \<and> pb_node b1 = pb_node b2"
    using same(3) b(3) that by (simp add: active_binding_def story_key_def)
  show "\<forall>b \<in> set (bindings d). \<exists>b' \<in> set (bindings e). pb_id b' = pb_id b \<and> binding_key b' = binding_key b
      \<and> (b' = b \<or> pb_state b \<noteq> ''superseded'' \<and> pb_revision b < pb_revision b')"
    using bound.run_grows [OF run ok] by (simp add: bindings_grow_def binding_evolves_def)
qed

section \<open>Who may replace or move a binding\<close>

text \<open>The two ways in which a registration takes a binding: from its own story, or from a replaced one.\<close>

definition replaced_by_human :: "registration_target \<Rightarrow> binding_request \<Rightarrow> binding_row \<Rightarrow> binding_row \<Rightarrow> bool" where
  "replaced_by_human t q b b' \<longleftrightarrow>
     pb_state b = ''active'' \<and> pb_org b = rt_org t \<and> pb_node b = rt_node t \<and> br_kind q = HUMAN
     \<and> truthy (br_replaces q) \<and> pb_superseded b' = map_option (take 255) (br_replaces q)"

definition inherited_from_superseded :: "db \<Rightarrow> registration_target \<Rightarrow> binding_row \<Rightarrow> binding_row \<Rightarrow> bool" where
  "inherited_from_superseded d t b b' \<longleftrightarrow>
     (\<exists>h \<in> set (nodes d). \<exists>n \<in> set (nodes d). nd_id h = pb_node b \<and> nd_state h = ''superseded''
        \<and> nd_id n = rt_node t \<and> pb_node b' = nd_id n \<and> truthy (nd_issue n)
        \<and> nd_issue h = nd_issue n \<and> nd_flow h = nd_flow n \<and> nd_org h = nd_org n)"

lemma rewritten_rightly:
  assumes c: "check_registration sv d t pr q = Inr f" and b: "b \<in> set (bindings d)"
  shows "pb_state (rewritten f t pr q b) = pb_state b \<or> replaced_by_human t q b (rewritten f t pr q b)"
    "pb_node (rewritten f t pr q b) = pb_node b \<or> inherited_from_superseded d t b (rewritten f t pr q b)"
proof -
  note row = check_rowD [OF check_registrationD(2) [OF c]]
  note target = check_target_node [OF check_registrationD(1) [OF c]]
  note node = find_SomeD [OF conjunct1 [OF target]]
  have human: "br_kind q = HUMAN" "truthy (br_replaces q)" "pb_state b = ''active''" "pb_org b = rt_org t" "pb_node b = rt_node t"
    if "b \<in> set (bf_rivals f)"
  proof -
    have "truthy (br_replaces q)" using row(5) that by force
    moreover have "b \<in> set (rivals_of d t (bf_row f))" using that row(4) by simp
    ultimately show "br_kind q = HUMAN" "truthy (br_replaces q)" "pb_state b = ''active''" "pb_org b = rt_org t" "pb_node b = rt_node t"
      using target by (simp_all add: rivals_iff)
  qed
  then show "pb_state (rewritten f t pr q b) = pb_state b \<or> replaced_by_human t q b (rewritten f t pr q b)"
    by (auto simp: rewritten_def replaced_by_human_def superseded_rival_def)
  show "pb_node (rewritten f t pr q b) = pb_node b \<or> inherited_from_superseded d t b (rewritten f t pr q b)"
  proof (cases "pb_node (rewritten f t pr q b) = pb_node b")
    case False
    then have f: "bf_row f = Some b" "bf_holder f \<noteq> None" "pb_node (rewritten f t pr q b) = rt_node t"
      by (auto simp: rewritten_def split: if_splits)
    have moves: "pb_node b \<noteq> rt_node t" using False f(3) by simp
    obtain h where h: "bf_holder f = Some h" using f(2) by blast
    then have "get_node d (pb_node b) = Some h" using row(7) [OF f(1)] moves by simp
    then have "h \<in> set (nodes d)" "nd_id h = pb_node b" unfolding get_node_def using find_SomeD by fastforce+
    moreover have "nd_state h = ''superseded'' \<and> truthy (nd_issue (bf_node f)) \<and> nd_issue h = nd_issue (bf_node f)
        \<and> nd_flow h = nd_flow (bf_node f) \<and> nd_org h = nd_org (bf_node f)"
      using row(8) [OF f(1) moves] by (auto simp: h successor_may_adopt_def)
    moreover have "bf_node f \<in> set (nodes d)" "nd_id (bf_node f) = rt_node t" using node by simp_all
    ultimately show ?thesis unfolding inherited_from_superseded_def using f(3) by metis
  qed simp
qed

text \<open>
  C17: A registration takes nothing from another story without right. It is refused and changes nothing,
  or every binding there was is still there under its pull request; one that it superseded was another
  active binding of the registering story, replaced by a human with a reason; one that moved to
  another story came from a story of the flow that was itself superseded and carried the same issue.
\<close>

theorem replacement_needs_human:
  assumes ok: "bindings_ok d" and fresh: "be_id env \<notin> pb_id ` set (bindings d)"
  shows "case register_binding sv env t pr q d of
      (Inl _, e) \<Rightarrow> e = d
    | (Inr _, e) \<Rightarrow> \<forall>b \<in> set (bindings d). \<exists>b' \<in> set (bindings e). pb_id b' = pb_id b \<and> binding_key b' = binding_key b
        \<and> (pb_state b' = pb_state b \<or> replaced_by_human t q b b')
        \<and> (pb_node b' = pb_node b \<or> inherited_from_superseded d t b b')"
proof (cases "register_binding sv env t pr q d")
  case (Pair x e)
  show ?thesis
  proof (cases x)
    case (Inl err)
    then show ?thesis using register_refused [of sv env t pr q d] Pair by simp
  next
    case (Inr res)
    obtain f where f: "check_registration sv d t pr q = Inr f"
      "bindings e = map (rewritten f t pr q) (bindings d)
         @ (case bf_row f of None \<Rightarrow> [fresh_binding (be_id env) f t pr q] | Some _ \<Rightarrow> [])"
      using register_rows [OF Pair [unfolded Inr] _ fresh] ok unfolding bindings_ok_def by metis
    have "\<exists>b' \<in> set (bindings e). pb_id b' = pb_id b \<and> binding_key b' = binding_key b
        \<and> (pb_state b' = pb_state b \<or> replaced_by_human t q b b')
        \<and> (pb_node b' = pb_node b \<or> inherited_from_superseded d t b b')" if "b \<in> set (bindings d)" for b
      using that rewritten_rightly [OF f(1) that]
      by (intro bexI [of _ "rewritten f t pr q b"]) (simp_all add: f(2) binding_key_def)
    then show ?thesis using Pair Inr by simp
  qed
qed

section \<open>Repeating a registration\<close>

lemma register_same_row:
  assumes c: "check_registration sv d t pr q = Inr f" and "bf_row f = Some r" "\<not> changing f t pr q"
  shows "register_binding sv env t pr q d = (Inr (r, False), d)"
  using assms unchanged_rivals [OF assms(3)] by (simp add: register_binding_def Let_def)

text \<open>The same checks pass again, with the registered row as the row of the pull request.\<close>

lemma check_registered:
  assumes c: "check_registration sv d t pr q = Inr f" and scope: "rt_scope t = Some s" "raw_text s \<noteq> []"
    and e: "nodes e = nodes d" "flows e = flows d" "plans e = plans d"
    and row: "binding_of_pr e (rt_org t) pr = Some r" "pb_node r = rt_node t" "pb_state r \<noteq> ''superseded''"
    and rivals: "rivals_of e t (Some r) = []"
  shows "check_registration sv e t pr q
    = Inr \<lparr>bf_node = bf_node f, bf_scope = s, bf_row = Some r, bf_holder = None, bf_rivals = []\<rparr>"
proof -
  have conn: "requires_connection e = requires_connection d"
    by (rule ext) (simp add: requires_connection_def accepted_plan_def current_plans_def flow_for_def e)
  have same: "check_target e t pr q = check_target d t pr q"
    unfolding check_target_def conn e ..
  note n = check_registrationD(1) [OF c]
  have "check_row e t pr q (bf_node f) s
      = Inr \<lparr>bf_node = bf_node f, bf_scope = s, bf_row = Some r, bf_holder = None, bf_rivals = []\<rparr>"
    using row rivals by (simp add: check_row_def Let_def)
  with c n scope show ?thesis
    unfolding check_registration_def same by (auto simp: and_then_Inr split: if_splits)
qed

lemma register_frame:
  "nodes (snd (register_binding sv env t pr q d)) = nodes d" "flows (snd (register_binding sv env t pr q d)) = flows d"
  "plans (snd (register_binding sv env t pr q d)) = plans d"
  by (simp_all add: register_binding_def Let_def split: sum.split option.split)

text \<open>The row a changing registration returns is the row of its pull request afterwards, without rivals.\<close>

lemma registered_row:
  assumes ok: "bindings_ok d" and fresh: "be_id env \<notin> pb_id ` set (bindings d)"
    and reg: "register_binding sv env t pr q d = (Inr res, e)"
    and c: "check_registration sv d t pr q = Inr f" and ch: "changing f t pr q"
  shows "fst res = (case bf_row f of None \<Rightarrow> fresh_binding (be_id env) f t pr q | Some r \<Rightarrow> rebound f t pr q r)"
    "binding_of_pr e (rt_org t) pr = Some (fst res)" "pb_node (fst res) = rt_node t"
    "pb_state (fst res) \<noteq> ''superseded''"
    "bindings e = map (rewritten f t pr q) (bindings d)
       @ (case bf_row f of None \<Rightarrow> [fresh_binding (be_id env) f t pr q] | Some _ \<Rightarrow> [])"
proof -
  note row = check_rowD [OF check_registrationD(2) [OF c]]
  have u: "unique_on pb_id (bindings d)" using ok by (simp add: bindings_ok_def)
  have rows: "bindings e = map (rewritten f t pr q) (bindings d)
       @ (case bf_row f of None \<Rightarrow> [fresh_binding (be_id env) f t pr q] | Some _ \<Rightarrow> [])"
    and res: "fst res = (case bf_row f of None \<Rightarrow> fresh_binding (be_id env) f t pr q | Some r \<Rightarrow> rebound f t pr q r)"
  proof -
    obtain f' where f': "check_registration sv d t pr q = Inr f'"
      "bindings e = map (rewritten f' t pr q) (bindings d)
         @ (case bf_row f' of None \<Rightarrow> [fresh_binding (be_id env) f' t pr q] | Some _ \<Rightarrow> [])"
      "fst res = (case bf_row f' of None \<Rightarrow> fresh_binding (be_id env) f' t pr q
                  | Some r \<Rightarrow> if changing f' t pr q then rebound f' t pr q r else r)"
      by (rule register_rows [OF reg u fresh]) (rule that)
    have eq: "f' = f" using c f'(1) by simp
    from f'(2,3) ch show "bindings e = map (rewritten f t pr q) (bindings d)
       @ (case bf_row f of None \<Rightarrow> [fresh_binding (be_id env) f t pr q] | Some _ \<Rightarrow> [])"
      "fst res = (case bf_row f of None \<Rightarrow> fresh_binding (be_id env) f t pr q | Some r \<Rightarrow> rebound f t pr q r)"
      unfolding eq by (simp_all cong: option.case_cong)
  qed
  show "fst res = (case bf_row f of None \<Rightarrow> fresh_binding (be_id env) f t pr q | Some r \<Rightarrow> rebound f t pr q r)" by (rule res)
  have old: "r \<in> set (bindings d)" "binding_key r = (rt_org t, pr_repo_id pr, pr_node pr)" if "bf_row f = Some r" for r
    using that binding_of_pr_SomeD [of d "rt_org t" pr r] by (simp_all add: row(3) binding_key_def)
  have mem: "fst res \<in> set (bindings e)"
  proof (cases "bf_row f")
    case None
    then show ?thesis by (simp add: rows res)
  next
    case (Some r)
    then have "rewritten f t pr q r = fst res" using ch by (simp add: rewritten_def res)
    then show ?thesis using old(1) [OF Some] unfolding rows by force
  qed
  have key: "binding_key (fst res) = (rt_org t, pr_repo_id pr, pr_node pr)"
    using old by (cases "bf_row f") (auto simp: res fresh_binding_def binding_key_def)
  have "unique_on binding_key (bindings e)"
    using register_keeps(1) [OF ok fresh reg] by (simp add: bindings_ok_def)
  then show "binding_of_pr e (rt_org t) pr = Some (fst res)"
    unfolding binding_of_pr_def using mem key
    by (intro find_unique_mem [of binding_key]) (auto simp: binding_key_def)
  show "pb_node (fst res) = rt_node t"
  proof (cases "bf_row f")
    case (Some r)
    have "pb_node r = rt_node t \<or> bf_holder f \<noteq> None"
    proof (cases "pb_node r = rt_node t")
      case False
      with row(8) [OF Some False] show ?thesis by (auto simp: successor_may_adopt_def split: option.splits)
    qed simp
    then show ?thesis by (auto simp: res Some)
  qed (simp add: res fresh_binding_def)
  show "pb_state (fst res) \<noteq> ''superseded''"
    using row(6) by (cases "bf_row f") (auto simp: res fresh_binding_def)
  show "bindings e = map (rewritten f t pr q) (bindings d)
       @ (case bf_row f of None \<Rightarrow> [fresh_binding (be_id env) f t pr q] | Some _ \<Rightarrow> [])" by (rule rows)
qed

lemma registered_alone:
  assumes ok: "bindings_ok d" and fresh: "be_id env \<notin> pb_id ` set (bindings d)"
    and reg: "register_binding sv env t pr q d = (Inr res, e)"
    and c: "check_registration sv d t pr q = Inr f" and ch: "changing f t pr q"
  shows "rivals_of e t (Some (fst res)) = []"
proof -
  note r = registered_row [OF ok fresh reg c ch]
  have "pb_id x = pb_id (fst res)" if x: "x \<in> set (bindings e)" "pb_org x = rt_org t" "pb_node x = rt_node t" "pb_state x = ''active''" for x
  proof (cases "x \<in> set (map (rewritten f t pr q) (bindings d))")
    case True
    then obtain b where b: "b \<in> set (bindings d)" "x = rewritten f t pr q b" by auto
    with rewritten_rival [OF check_registrationD(2) [OF c] b(1)] x
    obtain r where "bf_row f = Some r" "pb_id b = pb_id r" by (auto simp: active_binding_def story_key_def)
    with b(2) show ?thesis by (simp add: r(1))
  next
    case False
    with x(1) show ?thesis unfolding r(5) by (auto simp: r(1) split: option.splits)
  qed
  then show "rivals_of e t (Some (fst res)) = []"
    unfolding rivals_of_def active_rows_def by (auto simp: filter_empty_conv)
qed

lemma adoption_reason_given: "truthy (br_recovery q) \<Longrightarrow> adoption_reason q h = br_recovery q"
  by (cases "br_recovery q") (auto simp: adoption_reason_def or_else_def split: option.split)

text \<open>Nothing is left to change on a row that a registration has just written.\<close>

lemma settled_rebound:
  "\<not> changing \<lparr>bf_node = n, bf_scope = bf_scope f, bf_row = Some (rebound f t pr q r), bf_holder = None, bf_rivals = []\<rparr> t pr q"
proof -
  have "next_role q (Some (rebound f t pr q r)) = next_role q (Some r)"
    "pb_role (rebound f t pr q r) = next_role q (Some r)"
    by (auto simp: next_role_def rebound_def Let_def)
  then show ?thesis
    by (auto simp: changing_def adoption_reason_given rebound_def Let_def)
qed

lemma settled_fresh:
  "\<not> changing \<lparr>bf_node = n, bf_scope = bf_scope f, bf_row = Some (fresh_binding i f t pr q), bf_holder = None, bf_rivals = []\<rparr> t pr q"
proof -
  have "next_role q (Some (fresh_binding i f t pr q)) = pb_role (fresh_binding i f t pr q)"
    by (auto simp: next_role_def fresh_binding_def resolve_role_def)
  then show ?thesis by (auto simp: changing_def fresh_binding_def)
qed

text \<open>
  C18: A registration that is reported twice registers once. After an accepted registration whose target
  carries its scope, the same request, whatever ids it would use, is accepted again with the same row
  and changes nothing: no second binding, no new revision and no decision.
\<close>

theorem registration_repeats:
  assumes ok: "bindings_ok d" and fresh: "be_id env \<notin> pb_id ` set (bindings d)"
    and scope: "rt_scope t = Some s" "raw_text s \<noteq> []"
  shows "case register_binding sv env t pr q d of
      (Inl _, _) \<Rightarrow> True
    | (Inr res, e) \<Rightarrow> register_binding sv env' t pr q e = (Inr (fst res, False), e)"
proof (cases "register_binding sv env t pr q d")
  case (Pair x e)
  show ?thesis
  proof (cases x)
    case (Inl err)
    with Pair show ?thesis by simp
  next
    case (Inr res)
    note reg = Pair [unfolded Inr]
    have u: "unique_on pb_id (bindings d)" using ok by (simp add: bindings_ok_def)
    obtain f where c: "check_registration sv d t pr q = Inr f"
      and same: "\<not> changing f t pr q \<Longrightarrow> e = d"
      and res: "fst res = (case bf_row f of None \<Rightarrow> fresh_binding (be_id env) f t pr q
                | Some r \<Rightarrow> if changing f t pr q then rebound f t pr q r else r)"
      by (rule register_rows [OF reg u fresh]) (rule that)
    have "register_binding sv env' t pr q e = (Inr (fst res, False), e)"
    proof (cases "changing f t pr q")
      case False
      then obtain r where "bf_row f = Some r" using unchanged_rivals by blast
      with False same res register_same_row [OF c] show ?thesis by simp
    next
      case True
      note r = registered_row [OF ok fresh reg c True]
      have e: "nodes e = nodes d" "flows e = flows d" "plans e = plans d"
        using register_frame [of sv env t pr q d] reg by simp_all
      note again = check_registered [OF c scope e r(2-4) registered_alone [OF ok fresh reg c True]]
      have sc: "bf_scope f = s" using check_registrationD(3) [OF c scope] .
      have "\<not> changing \<lparr>bf_node = bf_node f, bf_scope = bf_scope f, bf_row = Some (fst res), bf_holder = None, bf_rivals = []\<rparr> t pr q"
      proof (cases "bf_row f")
        case None
        show ?thesis unfolding r(1) None option.case by (rule settled_fresh)
      next
        case (Some r0)
        show ?thesis unfolding r(1) Some option.case by (rule settled_rebound)
      qed
      from register_same_row [OF again _ this [unfolded sc]] show ?thesis by simp
    qed
    then show ?thesis using Pair Inr by simp
  qed
qed

section \<open>What a change leaves in the history\<close>

lemma supersede_rivals_Cons:
  "supersede_rivals mt q (a # rs) d = supersede_rivals mt q rs
     (record_revision mt (br_actor q) (br_kind q) (superseded_rival q a) (put_binding (superseded_rival q a) d))"
  by (simp add: supersede_rivals_def)

lemma supersede_rivals_append: "\<exists>ds. decisions (supersede_rivals mt q rs d) = decisions d @ ds"
proof (induction rs arbitrary: d)
  case (Cons a rs)
  let ?d = "record_revision mt (br_actor q) (br_kind q) (superseded_rival q a) (put_binding (superseded_rival q a) d)"
  obtain ds where "decisions (supersede_rivals mt q rs ?d) = decisions ?d @ ds" using Cons.IH by blast
  then have "decisions (supersede_rivals mt q (a # rs) d)
      = decisions d @ revision_decision mt (length (decisions d)) q (superseded_rival q a) # ds"
    by (simp add: record_revision_eq supersede_rivals_Cons)
  then show ?case by blast
qed simp

lemma supersede_rivals_recorded:
  "r \<in> set rs \<Longrightarrow> \<exists>k. revision_decision mt k q (superseded_rival q r) \<in> set (decisions (supersede_rivals mt q rs d))"
proof (induction rs arbitrary: d)
  case (Cons a rs)
  let ?d = "record_revision mt (br_actor q) (br_kind q) (superseded_rival q a) (put_binding (superseded_rival q a) d)"
  obtain ds where "decisions (supersede_rivals mt q rs ?d) = decisions ?d @ ds" using supersede_rivals_append by blast
  then have "revision_decision mt (length (decisions d)) q (superseded_rival q a) \<in> set (decisions (supersede_rivals mt q rs ?d))"
    by (simp add: record_revision_eq)
  then show ?case using Cons.IH [of ?d] Cons.prems unfolding supersede_rivals_Cons by auto
qed simp

text \<open>
  No binding changes silently: after an accepted registration every binding that was not there before in
  this form has a decision that names its story, the registering actor, and holds its whole snapshot.
\<close>

theorem binding_changes_are_recorded:
  assumes ok: "bindings_ok d" and fresh: "be_id env \<notin> pb_id ` set (bindings d)"
    and reg: "register_binding sv env t pr q d = (Inr res, e)" and b: "b \<in> set (bindings e)" "b \<notin> set (bindings d)"
  shows "\<exists>r \<in> set (decisions e). dc_kind r = ''pr_binding_changed'' \<and> dc_node r = Some (pb_node b)
    \<and> dc_actor_id r = br_actor q \<and> dc_actor_kind r = actor_kind_value (br_kind q)
    \<and> dc_reason r = Some (dumped (binding_snapshot b))"
proof -
  have u: "unique_on pb_id (bindings d)" using ok by (simp add: bindings_ok_def)
  obtain f where c: "check_registration sv d t pr q = Inr f"
    and s: "changing f t pr q \<Longrightarrow> nd_state (bf_node f) \<notin> {''passed'', ''superseded''}"
    and same: "\<not> changing f t pr q \<Longrightarrow> e = d"
    by (rule register_rows [OF reg u fresh]) (rule that)
  have ch: "changing f t pr q" using same b by blast
  then have ns: "\<not> (changing f t pr q \<and> nd_state (bf_node f) \<in> {''passed'', ''superseded''})" using s by blast
  note run = reg [unfolded register_binding_def Let_def c sum.case if_not_P [OF ns]]
  note r = registered_row [OF ok fresh reg c ch]
  obtain d1 where e: "e = record_revision (be_mint env) (br_actor q) (br_kind q) (fst res) d1"
    and d1: "\<And>x. x \<in> set (bf_rivals f) \<Longrightarrow> \<exists>k. revision_decision (be_mint env) k q (superseded_rival q x) \<in> set (decisions d1)"
    using run ch supersede_rivals_recorded by (auto split: option.splits if_splits)
  have "b = fst res \<or> (\<exists>x \<in> set (bf_rivals f). b = superseded_rival q x)"
    using b ch unfolding r(5) by (auto simp: r(1) rewritten_def split: option.splits if_splits)
  then obtain k where "revision_decision (be_mint env) k q b \<in> set (decisions e)"
    using d1 unfolding e record_revision_eq by auto
  then show ?thesis by (intro bexI) (simp_all add: revision_decision_def)
qed

section \<open>Instances\<close>

definition sample_services :: binding_services where
  "sample_services = \<lparr>bs_uuid = id, bs_correction = \<lambda>_ _. Inr None, bs_link = \<lambda>_ _. Inr None,
     bs_installation = \<lambda>_ _. Inr (Some 1), bs_created = \<lambda>_. Aware 0\<rparr>"

definition sample_target :: registration_target where
  "sample_target = \<lparr>rt_org = ''o'', rt_flow = ''f'', rt_node = ''n'', rt_attempt = 1, rt_run = Some ''run2'',
     rt_repo = ''a/b'', rt_issue = 7, rt_installation = 1,
     rt_scope = Some (dumped (JObj [(''node'', node_scope sample_node)])), rt_repo_id = JInt 1\<rparr>"

definition sample_pr :: pull_request where
  "sample_pr = \<lparr>pr_repo_id = 1, pr_node = ''PR_3'', pr_repo = ''A/b'', pr_number = 3, pr_head = ''abc''\<rparr>"

definition sample_binding_env :: binding_env where
  "sample_binding_env = \<lparr>be_id = ''b2'', be_mint = \<lparr>mt_flow = nat_text, mt_node = nat_text, mt_edge = nat_text,
     mt_plan = nat_text, mt_decision = nat_text, mt_now = Aware 9, mt_winner = None\<rparr>, be_race = False\<rparr>"

text \<open>Another pull request holds the story; a human replaces it.\<close>

definition earlier_binding :: binding_row where
  "earlier_binding = \<lparr>pb_id = ''b1'', pb_org = ''o'', pb_flow = ''f'', pb_node = ''n'', pb_attempt = 1,
     pb_run = Some ''run1'', pb_repo_id = 1, pb_pr_node = ''PR_2'', pb_repo = ''a/b'', pb_pr_number = 2,
     pb_installation = 1, pb_head_sha = ''aaa'', pb_revision = 4, pb_scope = None, pb_role = ''implementation'',
     pb_state = ''active'', pb_registered_by = ''run1'', pb_registered_kind = ''service'', pb_recovery = None,
     pb_superseded = None\<rparr>"

definition replacing_request :: binding_request where
  "replacing_request = \<lparr>br_actor = ''ann'', br_kind = HUMAN, br_role = None, br_replaces = Some ''wrong PR'',
     br_recovery = None\<rparr>"

definition bound_db :: db where
  "bound_db = sample_db\<lparr>bindings := [earlier_binding]\<rparr>"

definition replaced_sample :: "(pyexc + binding_row \<times> bool) \<times> db" where
  "replaced_sample = register_binding sample_services sample_binding_env sample_target sample_pr replacing_request bound_db"

lemma bound_db_ok: "bindings_ok bound_db" "be_id sample_binding_env \<notin> pb_id ` set (bindings bound_db)"
  by (simp_all add: bindings_ok_def bound_db_def unique_on_def sample_binding_env_def earlier_binding_def)

definition sample_facts :: binding_facts where
  "sample_facts = \<lparr>bf_node = sample_node, bf_scope = dumped (JObj [(''node'', node_scope sample_node)]), bf_row = None,
     bf_holder = None, bf_rivals = [earlier_binding]\<rparr>"

lemma sample_checked:
  "check_registration sample_services bound_db sample_target sample_pr replacing_request = Inr sample_facts"
  by code_simp

abbreviation sample_bound :: binding_row where
  "sample_bound \<equiv> fresh_binding ''b2'' sample_facts sample_target sample_pr replacing_request"

lemma replaced_run:
  "fst replaced_sample = Inr (sample_bound, True)"
  "bindings (snd replaced_sample) = [superseded_rival replacing_request earlier_binding, sample_bound]"
  unfolding replaced_sample_def register_binding_def sample_checked
  by (simp_all add: sample_facts_def changing_def sample_node_def sample_binding_env_def supersede_rivals_def Let_def
      bound_db_def put_binding_def update_where_def earlier_binding_def fresh_binding_def)

definition sample_merge :: merge_evidence where
  "sample_merge = \<lparr>me_merged = True, me_head = ''abc'', me_checks = True, me_review = True,
     me_merge_sha = Some ''def'', me_merged_at = Some ''2026-01-01'', me_url = Some ''u'', me_repo_id = Some 1,
     me_pr_node = Some ''PR_3''\<rparr>"

theorem merge_credits_one_story_witness:
  "case bindings (snd replaced_sample) of [old, new] \<Rightarrow>
     evidence_for_binding new (Some sample_merge) = Inl ''u''
     \<and> (\<forall>u. evidence_for_binding old (Some sample_merge) \<noteq> Inl u)
   | _ \<Rightarrow> False"
proof -
  let ?e = "snd replaced_sample" and ?old = "superseded_rival replacing_request earlier_binding"
  have run: "binding_step\<^sup>*\<^sup>* bound_db ?e"
    unfolding replaced_sample_def by (intro r_into_rtranclp registers bound_db_ok(2))
  have mem: "sample_bound \<in> set (bindings ?e)" "?old \<in> set (bindings ?e)" "pb_org sample_bound = pb_org ?old"
    unfolding replaced_run by (simp_all add: fresh_binding_def sample_target_def earlier_binding_def)
  have "pb_id sample_bound \<noteq> pb_id ?old" by (simp add: fresh_binding_def earlier_binding_def)
  moreover have "evidence_for_binding sample_bound (Some sample_merge) = Inl ''u''"
    by (simp add: evidence_for_binding_def fresh_binding_def sample_merge_def sample_pr_def or_else_def)
  ultimately show ?thesis
    using merge_credits_one_story [OF run bound_db_ok(1) mem] unfolding replaced_run by fastforce
qed

theorem replacement_needs_human_witness:
  "\<exists>b' \<in> set (bindings (snd replaced_sample)). pb_id b' = ''b1''
     \<and> (pb_state b' = ''active'' \<or> replaced_by_human sample_target replacing_request earlier_binding b')"
proof -
  have b: "earlier_binding \<in> set (bindings bound_db)" "pb_id earlier_binding = ''b1''" "pb_state earlier_binding = ''active''"
    by (simp_all add: bound_db_def earlier_binding_def)
  obtain e where r: "replaced_sample = (Inr (sample_bound, True), e)"
    using replaced_run(1) by (metis prod.collapse)
  from replacement_needs_human [OF bound_db_ok, where sv = sample_services and t = sample_target and pr = sample_pr
      and q = replacing_request] b
  show ?thesis unfolding replaced_sample_def [symmetric] r by fastforce
qed

theorem registration_repeats_witness:
  "register_binding sample_services (sample_binding_env\<lparr>be_id := ''b3''\<rparr>) sample_target sample_pr replacing_request
     (snd replaced_sample) = (Inr (sample_bound, False), snd replaced_sample)"
proof -
  obtain e where r: "replaced_sample = (Inr (sample_bound, True), e)"
    using replaced_run(1) by (metis prod.collapse)
  have s: "rt_scope sample_target = Some (dumped (JObj [(''node'', node_scope sample_node)]))"
    "raw_text (dumped (JObj [(''node'', node_scope sample_node)])) \<noteq> []"
    by (simp_all add: sample_target_def dumped_def)
  from registration_repeats [OF bound_db_ok s, where sv = sample_services and pr = sample_pr and q = replacing_request
      and env' = "sample_binding_env\<lparr>be_id := ''b3''\<rparr>"]
  show ?thesis unfolding replaced_sample_def [symmetric] r by simp
qed

end
