(* ===== verification/Handoff_Properties.thy ===== *)
theory Handoff_Properties
  imports Handoff Claim_Properties Ledger_Properties Binding_Properties
begin

text \<open>
  What an accepted handoff means: the receipt is on the row of the attempt that asked for it, the lane
  behind it cannot be released, it is minted once, and the route makes nothing else durable.
\<close>

section \<open>Loading\<close>

lemma conflict_kind: "conflict row why = Inr out \<Longrightarrow> oc_kind out = CONFLICT"
  by (auto simp: conflict_def unbound_conflict_def dest: outcome_of_kind split: if_splits)

lemma live_refusal_kind: "live_refusal d i why = Inr out \<Longrightarrow> oc_kind out = CONFLICT"
  by (auto simp: live_refusal_def unbound_conflict_def dest: conflict_kind split: if_splits option.splits)

lemma map_some_Inr: "map_sum id Some x = Inr (Some y) \<longleftrightarrow> x = Inr y"
  by (cases x) auto

lemma loaded_row:
  assumes "load_execution dg d i run closing = Inr (Some out)" "oc_kind out \<noteq> CONFLICT"
  obtains row fid where "resolve_flow_id d i None = Some fid"
    "live_authority_conflict dg d i fid run False closing = None"
    "execution_for d i = Some row" "binding_conflict row i = None" "outcome_of APPLIED row None None = Inr out"
  using assms
  by (auto simp: load_execution_def map_some_Inr dest: live_refusal_kind conflict_kind split: option.splits)

lemma outcome_record: "outcome_of k row a why = Inr out \<Longrightarrow> \<exists>rec. oc_record out = Some rec \<and> to_record row = Inr rec"
  by (auto simp: outcome_of_def split: sum.splits option.splits)

lemma to_record_fields:
  assumes "to_record row = Inr rec"
  shows "er_id rec = ex_id row" "er_org rec = ex_org row" "er_flow rec = ex_flow row" "er_node rec = ex_node row"
    "er_cycle rec = ex_cycle row" "er_plan_version rec = ex_plan_version row" "er_claim rec = ex_claim row"
    "er_generation rec = ex_generation row" "er_handoff rec = ex_handoff row"
    "er_next_check rec = as_aware (ex_next_check row)" "er_revision rec = ex_revision row"
  using assms by (auto simp: to_record_def split: option.splits sum.splits)

lemma receipt_ref_nonempty: "handoff_receipt_ref i k = Inr ref \<Longrightarrow> ref \<noteq> []"
  by (auto simp: handoff_receipt_ref_def Let_def split: if_splits)

section \<open>The two ways a handoff is accepted\<close>

text \<open>A row under a receipt of this attempt, as it was read.\<close>

definition receipt_on_row :: "execution_identity \<Rightarrow> handoff_result \<Rightarrow> execution_row \<Rightarrow> bool" where
  "receipt_on_row i r row \<longleftrightarrow>
     (\<exists>ref receipt. handoff_receipt_ref i (ex_id row) = Inr ref \<and> ex_handoff row = Some ref \<and> ho_ref r = Some ref
        \<and> ho_receipt r = Some receipt \<and> hr_ref receipt = ref \<and> hr_execution receipt = ex_id row
        \<and> hr_node receipt = ex_node row \<and> hr_cycle receipt = ex_cycle row
        \<and> hr_generation receipt = ex_generation row \<and> hr_plan_version receipt = ex_plan_version row
        \<and> Some (hr_next_check receipt) = as_aware (ex_next_check row))"

lemma receipt_for_record_fields:
  assumes "receipt_for_record ep d i rec ref = Inr (Some receipt)"
  shows "hr_ref receipt = ref" "hr_execution receipt = er_id rec" "hr_node receipt = er_node rec"
    "hr_cycle receipt = er_cycle rec" "hr_generation receipt = er_generation rec"
    "hr_plan_version receipt = er_plan_version rec" "er_next_check rec = Some (hr_next_check receipt)"
proof -
  obtain due inputs where "er_next_check rec = Some due" "load_in_force_policy ep d (er_org rec) (er_flow rec) = Inr inputs"
    using assms by (auto simp: receipt_for_record_def and_then_Inr split: option.splits)
  with assms have r: "er_next_check rec = Some due" "receipt = \<lparr>hr_version = 1, hr_ref = ref, hr_execution = er_id rec,
      hr_policy = (case ai_policy inputs of None \<Rightarrow> None | Some p \<Rightarrow> ep_policy_id p),
      hr_policy_hash = (case ai_policy inputs of None \<Rightarrow> None | Some p \<Rightarrow> ep_policy_hash p),
      hr_org = er_org rec, hr_flow = er_flow rec, hr_node = er_node rec, hr_cycle = er_cycle rec,
      hr_plan_version = er_plan_version rec, hr_claim = er_claim rec, hr_generation = er_generation rec,
      hr_action = ''awaiting_review'', hr_action_id = handoff_action_id i (er_id rec), hr_next_check = due\<rparr>"
    by (simp_all add: receipt_for_record_def split: if_splits)
  show "hr_ref receipt = ref" "hr_execution receipt = er_id rec" "hr_node receipt = er_node rec"
    "hr_cycle receipt = er_cycle rec" "hr_generation receipt = er_generation rec"
    "hr_plan_version receipt = er_plan_version rec" "er_next_check rec = Some (hr_next_check receipt)"
    using r(1) by (simp_all add: r(2))
qed

lemma replay_accepted:
  assumes "replay_handoff ep d i rec stored expected = Inr r" "handoff_accepted r"
  shows "stored = expected" "ho_outcome r = ALREADY_COMMITTED" "ho_ref r = Some expected"
    "\<exists>receipt. receipt_for_record ep d i rec expected = Inr (Some receipt) \<and> ho_receipt r = Some receipt"
proof -
  show eq: "stored = expected"
    using assms by (rule_tac ccontr) (auto simp: replay_handoff_def handoff_accepted_def unaccepted_def)
  have r: "\<not> handoff_accepted (unaccepted out rc why)" for out rc why
    by (simp add: handoff_accepted_def unaccepted_def)
  obtain receipt where receipt: "receipt_for_record ep d i rec expected = Inr receipt"
    using assms(1) by (auto simp: replay_handoff_def eq and_then_Inr)
  obtain x where x: "receipt = Some x"
    using assms r by (cases receipt) (auto simp: replay_handoff_def eq receipt)
  have "r = \<lparr>ho_outcome = ALREADY_COMMITTED, ho_ref = Some expected, ho_record = Some rec,
      ho_reason = Some ''handoff_already_committed'', ho_receipt = Some x\<rparr>"
    using assms(1) by (simp add: replay_handoff_def eq receipt x)
  then show "ho_outcome r = ALREADY_COMMITTED" "ho_ref r = Some expected"
    "\<exists>receipt. receipt_for_record ep d i rec expected = Inr (Some receipt) \<and> ho_receipt r = Some receipt"
    using receipt x by simp_all
qed

lemma conclude_accepted:
  assumes "conclude_handoff ep d i expected out = Inr r" "handoff_accepted r"
  obtains rec receipt where "oc_kind out = APPLIED" "oc_record out = Some rec" "er_handoff rec = Some expected"
    "receipt_for_record ep d i rec expected = Inr (Some receipt)"
    "ho_outcome r = HoCOMMITTED" "ho_ref r = Some expected" "ho_receipt r = Some receipt"
  using assms
  by (auto simp: conclude_handoff_def handoff_accepted_def unaccepted_def and_then_Inr
      split: outcome_kind.splits option.splits if_splits)

text \<open>An accepted commit has either replayed the receipt on the row or written it there.\<close>

lemma commit_accepted:
  assumes run: "commit_handoff dg ep env i phase now nc note d = (Inr r, e)" and ok: "handoff_accepted r"
  obtains (replayed) row rec where "e = d" "execution_for d i = Some row" "to_record row = Inr rec"
      "handoff_receipt_ref i (ex_id row) = Inr (the (ho_ref r))" "ex_handoff row = ho_ref r"
      "\<exists>receipt. receipt_for_record ep d i rec (the (ho_ref r)) = Inr (Some receipt) \<and> ho_receipt r = Some receipt"
      "ho_outcome r = ALREADY_COMMITTED" "ho_ref r \<noteq> None"
  | (written) row expected adv out where "execution_for d i = Some row" "\<not> truthy (ex_handoff row)"
      "handoff_receipt_ref i (ex_id row) = Inr expected" "ad_status adv = AWAITING_EXTERNAL"
      "advance_execution dg env i adv (no_args\<lparr>aa_handoff := Some expected\<rparr>) d = (Inr out, e)"
      "conclude_handoff ep e i expected out = Inr r"
proof -
  obtain cur where cur: "load_execution dg d i None False = Inr (Some cur)" "oc_kind cur \<noteq> CONFLICT"
    using run ok by (auto simp: commit_handoff_def handoff_accepted_def unaccepted_def split: sum.splits option.splits if_splits)
  obtain row fid where row: "execution_for d i = Some row" "outcome_of APPLIED row None None = Inr cur"
    using loaded_row [OF cur] by metis
  obtain rec where rec: "oc_record cur = Some rec" "to_record row = Inr rec" using outcome_record [OF row(2)] by blast
  note run1 = run [unfolded commit_handoff_def cur(1) sum.case option.case if_not_P [OF cur(2)] rec(1)]
  obtain expected where ref: "handoff_receipt_ref i (er_id rec) = Inr expected"
    using run1 by (auto split: sum.splits)
  note run2 = run1 [unfolded ref sum.case]
  note fields = to_record_fields [OF rec(2)]
  show thesis
  proof (cases "truthy (er_handoff rec)")
    case True
    have both: "replay_handoff ep d i rec (the (er_handoff rec)) expected = Inr r \<and> d = e"
      using run2 unfolding if_P [OF True] prod.inject .
    note r = replay_accepted [OF conjunct1 [OF both] ok]
    have "er_handoff rec = Some expected" using True r(1) by (cases "er_handoff rec") auto
    then show thesis using replayed row(1) rec(2) ref r both fields by simp
  next
    case False
    then obtain adv where adv: "handoff_advance phase now nc note rec = Inr adv"
        "write_handoff dg ep env i adv expected d = (Inr r, e)"
      using run2 ok by (auto simp: handoff_accepted_def unaccepted_def split: if_splits sum.splits)
    then have "ad_status adv = AWAITING_EXTERNAL"
      by (auto simp: handoff_advance_def make_advance_def split: if_splits)
    then show thesis using adv(2) written [OF row(1)] False ref fields
      by (auto simp: write_handoff_def split: prod.splits sum.splits)
  qed
qed

section \<open>What the written row is\<close>

lemma owner_generation:
  assumes "live_authority_conflict dg d i fid None un False = None"
  obtains c where "get_claim d (id_org i) (id_claim i) = Some c" "cl_generation c = id_generation i" "cl_state c = ''held''"
  using assms
  by (auto simp: live_authority_conflict_def claim_refusal_def released_failure_def Let_def split: option.splits if_splits)

lemma row_identity_iff:
  assumes "id_ok i" "ex_org row = id_org i" "ex_node row = id_node i" "ex_cycle row = id_cycle i"
    "ex_plan_version row = id_plan_version i" "ex_claim row = id_claim i" "ex_generation row = id_generation i"
  shows "row_identity row = Inr i"
  using assms by (cases i) (simp add: row_identity_def make_identity_def id_ok_def)

text \<open>The row an advance with a receipt leaves: due, under the receipt, of the identity's generation.\<close>

lemma written_receipt:
  assumes adv: "advance_execution dg env i adv (no_args\<lparr>aa_handoff := Some ref\<rparr>) d = (Inr out, e)"
    and out: "oc_kind out = APPLIED" and st: "ad_status adv = AWAITING_EXTERNAL" and ref: "ref \<noteq> []" and ok: "id_ok i"
  obtains row old c where "execution_for d i = Some old" "execution_for e i = Some row" "ex_id row = ex_id old"
    "oc_record out = Some rec \<Longrightarrow> to_record row = Inr rec" "ex_handoff row = Some ref" "live_status row"
    "row_identity row = Inr i" "get_claim e (id_org i) (id_claim i) = Some c" "cl_generation c = id_generation i"
proof -
  let ?args = "no_args\<lparr>aa_handoff := Some ref\<rparr>"
  have w: "wrote (fst (advance_execution dg env i adv ?args d))" using adv out by (simp add: wrote_def)
  obtain old where old: "advance_check dg i adv ?args d = Inr old" "schedulable adv ?args" "execution_for d i = Some old"
    "advance_execution dg env i adv ?args d
      = finish_advance dg env i ?args (advanced_to env i adv ?args old) (advanced_db env i adv ?args old d)"
    "execution_for (snd (advance_execution dg env i adv ?args d)) i = Some (advanced_to env i adv ?args old)"
    using advance_wroteD [OF w] by metis
  let ?row = "advanced_to env i adv ?args old"
  have none: "aa_intent ?args = None" "aa_block ?args = None" "aa_released_run ?args = None" "\<not> aa_closing ?args"
    by (simp_all add: no_args_def)
  note check = advance_check_row [OF old(1)]
  obtain fid where "live_authority_conflict dg d i fid None False False = None"
    using check(6) none(3,4) by auto
  then obtain c where c: "get_claim d (id_org i) (id_claim i) = Some c" "cl_generation c = id_generation i"
    by (rule owner_generation)
  have e: "e = advanced_db env i adv ?args old d" using adv old(4) none(1) by (metis finish_no_intent snd_conv)
  have "get_claim e (id_org i) (id_claim i) = Some c" using c(1) unfolding e get_claim_def by simp
  moreover have "execution_for e i = Some ?row" using old(5) adv by simp
  moreover have "to_record ?row = Inr rec" if "oc_record out = Some rec" for rec
    using adv that unfolding old(4) finish_advance_def Let_def none by (auto split: sum.splits)
  moreover have "ex_handoff ?row = Some ref" "live_status ?row" "ex_id ?row = ex_id old"
    using ref st none by (simp_all add: advanced_row_def Let_def no_args_def or_none_def live_status_def
        effective_status_def terminal_execution_statuses_def)
  moreover have "row_identity ?row = Inr i"
  proof (rule row_identity_iff [OF ok])
    have f: "ex_node old = id_node i" "ex_cycle old = id_cycle i" using execution_for_SomeD [OF old(3)] by auto
    have b: "ex_org old = id_org i" "ex_claim old = id_claim i" "\<not> id_generation i < ex_generation old"
      "ex_plan_version old = id_plan_version i"
      using check(2) by (auto simp: binding_conflict_def split: if_splits)
    show "ex_org ?row = id_org i" "ex_node ?row = id_node i" "ex_cycle ?row = id_cycle i"
      "ex_plan_version ?row = id_plan_version i" "ex_claim ?row = id_claim i" "ex_generation ?row = id_generation i"
      using f b none by (simp_all add: advanced_row_def Let_def adopt_generation_def)
  qed
  ultimately show thesis using that [OF old(3)] c(2) by blast
qed

section \<open>What an accepted handoff guarantees\<close>

lemma receipt_on_rowI:
  assumes "to_record row = Inr rec" "handoff_receipt_ref i (ex_id row) = Inr ref" "ex_handoff row = Some ref"
    "ho_ref r = Some ref" "receipt_for_record ep d i rec ref = Inr (Some receipt)" "ho_receipt r = Some receipt"
  shows "receipt_on_row i r row"
  using assms(2-4,6) receipt_for_record_fields [OF assms(5)] to_record_fields [OF assms(1)]
  unfolding receipt_on_row_def by metis

text \<open>The lane of a claim, and a release of it that changes nothing.\<close>

definition lane_is_kept :: "db \<Rightarrow> execution_identity \<Rightarrow> bool" where
  "lane_is_kept d i \<longleftrightarrow> (\<forall>env now generation why evidence.
     snd (release_work env now (id_org i) (id_claim i) generation why evidence d) = d)"

text \<open>
  C36: An accepted handoff is durable and keeps its lane. When a handoff is accepted, the row of the
  asking identity holds the receipt that this identity mints, and the typed receipt says what the row
  says. Either it was there and nothing is written, or it has just been written on a row that had none:
  then the row is still live, and the claim behind it cannot be released, for whatever reason and with
  whatever evidence.
\<close>

theorem accepted_handoff_keeps_lane:
  assumes ok: "id_ok i"
  shows "case commit_handoff dg ep env i phase now nc note d of
      (Inl _, _) \<Rightarrow> True
    | (Inr r, e) \<Rightarrow> handoff_accepted r \<longrightarrow> (\<exists>row. execution_for e i = Some row \<and> receipt_on_row i r row
        \<and> (ho_outcome r = ALREADY_COMMITTED \<and> e = d
           \<or> ho_outcome r = HoCOMMITTED \<and> live_status row \<and> lane_is_kept e i
             \<and> (\<exists>old. execution_for d i = Some old \<and> \<not> truthy (ex_handoff old))))"
proof -
  have "\<exists>row. execution_for e i = Some row \<and> receipt_on_row i r row
        \<and> (ho_outcome r = ALREADY_COMMITTED \<and> e = d
           \<or> ho_outcome r = HoCOMMITTED \<and> live_status row \<and> lane_is_kept e i
             \<and> (\<exists>old. execution_for d i = Some old \<and> \<not> truthy (ex_handoff old)))"
    if run: "commit_handoff dg ep env i phase now nc note d = (Inr r, e)" and acc: "handoff_accepted r" for r e
  using run acc
  proof (cases rule: commit_accepted)
    case (replayed row rec)
    then obtain ref where "ho_ref r = Some ref" by blast
    with replayed show ?thesis using receipt_on_rowI [of row rec i ref r ep d] by auto
  next
    case (written old expected adv out)
    note nonempty = receipt_ref_nonempty [OF written(3)]
    obtain rec receipt where out: "oc_kind out = APPLIED" "oc_record out = Some rec"
        "receipt_for_record ep e i rec expected = Inr (Some receipt)"
        "ho_outcome r = HoCOMMITTED" "ho_ref r = Some expected" "ho_receipt r = Some receipt"
      by (rule conclude_accepted [OF written(6) acc])
    obtain row old' c where row: "execution_for d i = Some old'" "execution_for e i = Some row" "ex_id row = ex_id old'"
        "to_record row = Inr rec" "ex_handoff row = Some expected" "live_status row"
        "row_identity row = Inr i" "get_claim e (id_org i) (id_claim i) = Some c" "cl_generation c = id_generation i"
      using written_receipt [OF written(5) out(1) written(4) nonempty ok] out(2) by metis
    have ref: "handoff_receipt_ref i (ex_id row) = Inr expected" using written(1,3) row(1,3) by simp
    have id: "ex_org row = id_org i" "ex_claim row = id_claim i" "ex_generation row = cl_generation c"
      using row(7,9) make_identity_outcome by (auto simp: row_identity_def make_identity_def split: if_splits)
    have "lane_is_kept e i"
      unfolding lane_is_kept_def
      using outstanding_lane_is_kept [OF row(8) conjunct1 [OF execution_for_SomeD [OF row(2)]] id row(6,7) ref row(5)] by blast
    moreover have "receipt_on_row i r row" using receipt_on_rowI [OF row(4) ref row(5) out(5,3,6)] .
    ultimately show ?thesis using row(2,6) out(4) written(1,2) by blast
  qed
  then show ?thesis by (auto split: prod.split sum.split)
qed

text \<open>
  A receipt is minted once. On an execution that holds a receipt, a commit writes nothing, whoever asks
  and whatever the phase and the time, and if it is accepted the answer is the stored receipt.
\<close>

theorem handoff_is_minted_once:
  assumes "execution_for d i = Some row" "ex_handoff row = Some stored" "stored \<noteq> []"
  shows "case commit_handoff dg ep env i phase now nc note d of (x, e) \<Rightarrow>
    e = d \<and> (case x of Inl _ \<Rightarrow> True | Inr r \<Rightarrow> handoff_accepted r \<longrightarrow> ho_ref r = Some stored \<and> ho_outcome r = ALREADY_COMMITTED)"
proof -
  have e: "snd (commit_handoff dg ep env i phase now nc note d) = d"
  proof (cases "load_execution dg d i None False")
    case (Inr cur)
    have "er_handoff rec = Some stored"
      if "cur = Some out" "oc_kind out \<noteq> CONFLICT" "oc_record out = Some rec" for out rec
      using loaded_row [OF Inr [unfolded that(1)] that(2)] assms(1,2) that(3)
      by (metis option.inject outcome_record to_record_fields(9))
    then show ?thesis using assms(3)
      by (auto simp: commit_handoff_def Inr split: option.split sum.split)
  qed (simp add: commit_handoff_def)
  have "ho_ref r = Some stored \<and> ho_outcome r = ALREADY_COMMITTED"
    if "commit_handoff dg ep env i phase now nc note d = (Inr r, e)" "handoff_accepted r" for r e
    using that
  proof (cases rule: commit_accepted)
    case (replayed row' rec)
    then show ?thesis using assms by simp
  next
    case (written row' expected adv out)
    then show ?thesis using assms by simp
  qed
  with e show ?thesis by (auto split: prod.split sum.split)
qed

section \<open>The route\<close>

lemma target_for_own:
  assumes "target_for sv d run expected n r dispatch = Inr t" "expected = Some org"
  shows "rt_org t = org \<and> nd_org n = org \<and> rt_node t = nd_id n \<and> rt_attempt t = nd_attempts n \<and> rt_flow t = nd_flow n
    \<and> nd_kind n = ''story'' \<and> run = attempt_run_id (bs_uuid sv) (nd_id n) (nd_attempts n)"
  using assms by (auto simp: target_for_def and_then_Inr split: if_splits)

lemma first_target_own:
  assumes "first_target sv d run (Some org) rs = Inr t"
  shows "\<exists>n \<in> set (nodes d). rt_org t = org \<and> nd_org n = org \<and> rt_node t = nd_id n \<and> rt_attempt t = nd_attempts n
    \<and> rt_flow t = nd_flow n \<and> nd_kind n = ''story'' \<and> run = attempt_run_id (bs_uuid sv) (nd_id n) (nd_attempts n)"
  using assms
proof (induction rs)
  case (Cons r rs)
  show ?case
  proof (cases "dispatch_of run r")
    case (Some dispatch)
    show ?thesis
    proof (cases "find (\<lambda>n. dc_node r = Some (nd_id n) \<and> nd_org n = dc_org r) (nodes d)")
      case None
      then show ?thesis using Cons Some by simp
    next
      case (Some n)
      then have "target_for sv d run (Some org) n r dispatch = Inr t"
        using Cons.prems \<open>dispatch_of run r = Some dispatch\<close> by simp
      with find_SomeD [OF Some] target_for_own show ?thesis by blast
    qed
  qed (use Cons in simp)
qed simp

text \<open>The identity is of the story's current attempt, and the caller's run is the run of this attempt.\<close>

definition own_attempt :: "binding_services \<Rightarrow> db \<Rightarrow> live_context \<Rightarrow> execution_identity \<Rightarrow> bool" where
  "own_attempt sv d c i \<longleftrightarrow> id_org i = lc_org c
     \<and> strip (lc_run c) = attempt_run_id (bs_uuid sv) (id_node i) (id_cycle i)
     \<and> (\<exists>n \<in> set (nodes d). nd_id n = id_node i \<and> nd_org n = lc_org c \<and> nd_kind n = ''story''
          \<and> nd_flow n = lc_flow c \<and> nd_flow n = lc_grant_flow c \<and> nd_attempts n = id_cycle i)"

lemma row_identity_fields:
  "row_identity row = Inr i \<Longrightarrow> id_org i = ex_org row \<and> id_node i = ex_node row \<and> id_cycle i = ex_cycle row \<and> id_ok i"
  by (auto simp: row_identity_def make_identity_def id_ok_def split: if_splits)

lemma caller_identity_own:
  assumes "caller_identity sv d c = Inr i"
  shows "own_attempt sv d c i \<and> id_ok i"
proof -
  obtain t where t: "resolve_registration_target sv d (Some (lc_run c)) (Some (lc_org c)) = Inr t"
    "rt_flow t = lc_flow c" "rt_flow t = lc_grant_flow c"
    "identity_for_attempt d (rt_org t) (rt_node t) (rt_attempt t) True = Inr (Some i)"
    using assms by (auto simp: caller_identity_def and_then_Inr split: if_splits option.splits)
  have run: "strip (or_else (Some (lc_run c)) []) = strip (lc_run c)" by (simp add: or_else_def)
  let ?rs = "newest_decisions (filter (\<lambda>r. dc_kind r = ''node_dispatched'') (decisions d))"
  have ft: "first_target sv d (strip (lc_run c)) (Some (lc_org c)) ?rs = Inr t"
    using t(1) unfolding resolve_registration_target_def run Let_def by (simp split: if_splits)
  obtain n where n: "n \<in> set (nodes d)" "rt_org t = lc_org c" "nd_org n = lc_org c" "rt_node t = nd_id n"
    "rt_attempt t = nd_attempts n" "rt_flow t = nd_flow n" "nd_kind n = ''story''"
    "strip (lc_run c) = attempt_run_id (bs_uuid sv) (nd_id n) (nd_attempts n)"
    using first_target_own [OF ft] by blast
  obtain row where row: "find (\<lambda>r. ex_org r = rt_org t \<and> ex_node r = rt_node t \<and> ex_cycle r = rt_attempt t) (executions d) = Some row"
    "row_identity row = Inr i"
    using t(4) by (auto simp: identity_for_attempt_def map_some_Inr split: if_splits option.splits)
  from find_SomeD [OF row(1)] row_identity_fields [OF row(2)] n t(2,3) show ?thesis
    unfolding own_attempt_def by auto
qed

text \<open>
  C16: The route makes durable only an accepted handoff of the caller's own attempt. Whatever it
  raises, and whenever the handoff is not accepted, the store is as before. A reply is only given to a
  caller whose authority is the same after the write as before; what was handed over is the story's
  current attempt, whose run the caller is; the reply carries a receipt exactly when it is accepted; and
  if something was written, it is accepted.
\<close>

theorem route_commits_own_attempt:
  "case commit_handoff_route dg ep sv env initial later now summary d of
      (Inl _, e) \<Rightarrow> e = d
    | (Inr reply, e) \<Rightarrow> (\<exists>c i r d1. initial = Verified c \<and> later = Verified c \<and> own_attempt sv d c i \<and> id_ok i
        \<and> commit_handoff dg ep env i AWAITING_REVIEW now None (or_none summary) d = (Inr r, d1)
        \<and> rp_accepted reply = handoff_accepted r
        \<and> rp_receipt reply = (if rp_accepted reply then ho_receipt r else None)
        \<and> (rp_receipt reply \<noteq> None) = rp_accepted reply \<and> (rp_ref reply \<noteq> None) = rp_accepted reply
        \<and> e = (if rp_accepted reply then d1 else d))"
proof -
  have reply: "rp_accepted (handoff_reply_of r) = handoff_accepted r
      \<and> rp_receipt (handoff_reply_of r) = (if handoff_accepted r then ho_receipt r else None)
      \<and> (rp_receipt (handoff_reply_of r) \<noteq> None) = handoff_accepted r
      \<and> (rp_ref (handoff_reply_of r) \<noteq> None) = handoff_accepted r" for r
    by (cases "ho_ref r") (auto simp: handoff_reply_of_def handoff_accepted_def)
  show ?thesis
  proof (cases initial)
    case (Verified c)
    show ?thesis
    proof (cases "caller_identity sv d c")
      case (Inr i)
      note own = caller_identity_own [OF Inr]
      obtain x d1 where run: "commit_handoff dg ep env i AWAITING_REVIEW now None (or_none summary) d = (x, d1)"
        by (cases "commit_handoff dg ep env i AWAITING_REVIEW now None (or_none summary) d")
      note r = commit_handoff_route_def [of dg ep sv env initial later now summary d,
        unfolded Verified authority.case Inr sum.case run prod.case]
      show ?thesis
      proof (cases x)
        case (Inl err)
        then show ?thesis using r Verified by simp
      next
        case x: (Inr res)
        show ?thesis
        proof (cases "later = Verified c")
          case False
          then obtain err where "authority_after c later = Inl err"
            by (cases later) (auto simp: authority_after_def)
          then show ?thesis using r x Verified by simp
        next
          case True
          then have route: "commit_handoff_route dg ep sv env initial later now summary d
              = (Inr (handoff_reply_of res), if handoff_accepted res then d1 else d)"
            using r x Verified by (simp add: authority_after_def)
          have "handoff_accepted res \<Longrightarrow> ho_receipt res \<noteq> None" by (simp add: handoff_accepted_def)
          then show ?thesis
            unfolding route prod.case sum.case
            using own run x reply [of res] Verified True
            by (intro exI [of _ c] exI [of _ i] exI [of _ res] exI [of _ d1]) auto
        qed
      qed
    qed (simp add: commit_handoff_route_def Verified)
  qed (simp_all add: commit_handoff_route_def)
qed

section \<open>Adoption\<close>

text \<open>
  A lane is adopted only where the deployment allows it, under an accepted policy version, with a
  decision and with both reconciliations attested; anything else changes nothing.
\<close>

theorem adoption_is_deliberate:
  "case adopt_legacy_lane switch clk resolve org k dec effects credentials version now d of
      (Inl _, e) \<Rightarrow> e = d
    | (Inr receipt, e) \<Rightarrow> adoption_enabled switch \<and> 1 \<le> version \<and> effects \<and> credentials \<and> \<not> blank_opt dec
        \<and> force_handover clk resolve org k dec effects credentials now d = (Inr receipt, e)"
proof -
  have kept: "e = d" if "force_handover clk resolve org k dec effects credentials now d = (x, e)"
    "case x of Inl _ \<Rightarrow> True | Inr r \<Rightarrow> rc_disposition r \<noteq> DADMITTED" for x e
    using that by (auto simp: force_handover_def Let_def receipt_of_def split: if_splits option.splits)
  have dec: "\<not> blank_opt dec" if "force_handover clk resolve org k dec effects credentials now d = (Inr r, e)" for r e
    using that by (auto simp: force_handover_def Let_def split: if_splits)
  show ?thesis
  proof (cases "adoption_enabled switch \<and> 1 \<le> version \<and> effects \<and> credentials")
    case True
    obtain x e where run: "force_handover clk resolve org k dec effects credentials now d = (x, e)"
      by (cases "force_handover clk resolve org k dec effects credentials now d")
    show ?thesis
    proof (cases x)
      case (Inl err)
      with True run kept [OF run] show ?thesis by (simp add: adopt_legacy_lane_def)
    next
      case (Inr receipt)
      show ?thesis
        using True run Inr kept [OF run] dec [OF run [unfolded Inr]]
        by (cases "rc_disposition receipt = DADMITTED") (simp_all add: adopt_legacy_lane_def)
    qed
  qed (auto simp: adopt_legacy_lane_def)
qed

section \<open>Instances\<close>

definition no_policy :: effective_policy where
  "no_policy d p raw = Inl ValueError"

definition sample_commit :: "(pyexc + handoff_result) \<times> db" where
  "sample_commit = commit_handoff sample_digest no_policy sample_env sample_identity AWAITING_REVIEW (Aware 5) None None started_db"

lemma sample_commit_accepted:
  "case fst sample_commit of Inr r \<Rightarrow> handoff_accepted r \<and> ho_outcome r = HoCOMMITTED | Inl _ \<Rightarrow> False"
  by code_simp

theorem accepted_handoff_keeps_lane_witness:
  "handoff_accepted (projr (fst sample_commit)) \<and> lane_is_kept (snd sample_commit) sample_identity"
proof -
  obtain x e where xe: "sample_commit = (x, e)" by (cases sample_commit)
  obtain r where r: "x = Inr r" "handoff_accepted r" "ho_outcome r = HoCOMMITTED"
    using sample_commit_accepted [unfolded xe fst_conv] by (cases x) simp_all
  note c = xe [unfolded r(1)]
  have ok: "id_ok sample_identity" by code_simp
  from accepted_handoff_keeps_lane [OF ok, of started_db sample_digest no_policy sample_env AWAITING_REVIEW "Aware 5" None None]
  have "lane_is_kept e sample_identity"
    unfolding sample_commit_def [symmetric] c prod.case sum.case using r(2,3) by auto
  with r(2) show ?thesis by (simp add: c)
qed

text \<open>A caller that is the story's dispatched run gets its receipt from the route.\<close>

definition dispatched_db :: db where
  "dispatched_db = started_db\<lparr>decisions := [\<lparr>dc_id = ''d0'', dc_org = ''o'', dc_flow = ''f'', dc_node = Some ''n'',
     dc_kind = ''node_dispatched'', dc_actor_id = ''system'', dc_actor_role = ''engine'', dc_actor_kind = ''service'',
     dc_reason = Some (dumped (JObj [(''attempt'', JInt 1), (''run_id'', JStr ''orch:adp:orchestration:n:1''), (''issue'', JInt 7)])),
     dc_rejection = None, dc_from = None, dc_to = None, dc_created = Aware 1\<rparr>]\<rparr>"

definition sample_caller :: live_context where
  "sample_caller = \<lparr>lc_org = ''o'', lc_run = ''orch:adp:orchestration:n:1'', lc_flow = ''f'', lc_grant_flow = ''f'', lc_rest = ''k''\<rparr>"

lemma route_accepts_caller:
  "case commit_handoff_route sample_digest no_policy sample_services sample_env (Verified sample_caller)
      (Verified sample_caller) (Aware 5) None dispatched_db of
     (Inr reply, e) \<Rightarrow> rp_status reply = 201
       \<and> rp_ref reply = Some ''handoff:execution=x:cycle=1:plan=1:claim=c:generation=2''
   | _ \<Rightarrow> False"
  by code_simp

end
