(* ===== verification/Spec2Isabelle.thy ===== *)
theory Spec2Isabelle
  imports Prelude Node_State Execution_State Tables Plan_Lineage Execution_Store Ledger Samples
    Ledger_Properties Ledger_Actions Liveness Work_Claims Claim_Laws Claim_Properties
    Deployment_Manifest Manifest_Properties Environment_Leases Lease_Laws Lease_Properties
    Graph_Address Plan_Graph Plan_Cycle Execution_Policy Policy_Properties Loop_Proposal Proposal_Properties
    Accepted_Node Evaluation_Plan Evaluation_Waiver Tick Tick_Laws
    Tick_Properties Tick_Progress Tick_Guarantees Plan_Progress
    Tick_Decisions Repository Plan_Change Registration Registration_Laws Plan_Compile Draft_Registration Compile_Samples
    Dispatch Gate_Execution Gate_Answer Gate_Laws Gate_Properties Draft_Laws Dispatch_Laws Quiet_Laws Lifecycle Flow_Guarantees
    Pr_Bindings Binding_Laws Binding_Properties Handoff Handoff_Properties
begin

text \<open>
  A model of the orchestration engine of the agentic developer platform, the part of the gateway under
  \<open>src/modules/gateway/src/orchestration\<close> that turns a plan into rows, releases its nodes one after the
  other, hands their work to agents and records what they did. File names below are relative to that
  directory.

  \<^bold>\<open>The program.\<close> A draft is registered and compiled into a flow of nodes and edges behind an acceptance
  gate (\<open>registration.py\<close>, \<open>proposal.py\<close>, \<open>compile.py\<close>, \<open>amend.py\<close>). A human answers the gate
  (\<open>adapters/github_comments.py\<close>, \<open>controls.py\<close>), which may bring the proposed execution policy into
  force (\<open>execution_policy.py\<close>). The tick (\<open>tick.py\<close>) releases nodes whose predecessors are done
  (\<open>evaluation_plan.py\<close>, \<open>evaluation_waiver.py\<close>, \<open>accepted_node.py\<close>) along the transitions of
  \<open>state.py\<close>; a dispatch under a human root (\<open>dispatch.py\<close>, \<open>genesis.py\<close>) starts one of them. The
  worker owns its issue by a claim with a generation (\<open>work_claims.py\<close>), which fences every write to
  the ledger of executions and actions (\<open>execution_store.py\<close>), and a deployment holds its target by a
  lease (\<open>environment_leases.py\<close>, \<open>deployment_manifest.py\<close>).

  \<^bold>\<open>How it is modelled.\<close> A table is a list of rows, a row a record with the columns the modelled code
  touches, the store the record \<open>db\<close> (\<open>Tables\<close>); the lease table stands alone (\<open>lease_db\<close>). An operation that may raise and that writes through a
  session is a function from the store to a pair of a result, \<open>Inl\<close> an exception or \<open>Inr\<close> a value, and
  the store at that point; \<open>nested\<close> is a savepoint, which a raise inside it undoes. Row locks are not
  represented: an operation is one atomic function, and where the code handles a race (an insert that
  loses, a conditional update that hits no row) the race is an argument or the row itself. Clocks, new
  ids and the pages that cannot be read are arguments; SHA-256, the pydantic parsers and dumps, and the
  checks made at GitHub or in other modules are parameters, gathered in records of services. Texts are
  lists of 8-bit characters, decoded JSON is a datatype, and strings are compared as Python compares
  them; messages that no code reads are left out.

  \<^bold>\<open>Theories and sources.\<close>

  \<^item> \<open>Prelude\<close>: Python values, savepoints, table updates, and the contracts \<open>text_enum\<close>,
    \<open>step_invariant\<close>, \<open>growing\<close> and \<open>monotone_counter\<close>. \<open>Tables\<close>: \<open>models.py\<close>. \<open>Samples\<close>: a small
    store for the witnesses.
  \<^item> \<open>Node_State\<close> (\<open>state.py\<close>): the transition table and the guard \<open>transition\<close>.
  \<^item> \<open>Execution_State\<close>, \<open>Execution_Store\<close> (\<open>execution_state.py\<close>, \<open>execution_store.py\<close>): the ledger;
    \<open>Ledger\<close>, \<open>Ledger_Actions\<close>, \<open>Ledger_Properties\<close>: its write relation \<open>ledger_write\<close>, its step
    relation \<open>ledger_step\<close>, its invariant, and what follows. \<open>Plan_Lineage\<close> (\<open>plan_lineage.py\<close>): which
    earlier plan still authorizes a node.
  \<^item> \<open>Liveness\<close> (\<open>activity/liveness.py\<close>), \<open>Work_Claims\<close> (\<open>work_claims.py\<close> and the readers it decides
    by); \<open>Claim_Laws\<close>, \<open>Claim_Properties\<close>: the refinement of an abstract lock by \<open>claim_step\<close>.
  \<^item> \<open>Environment_Leases\<close> (\<open>environment_leases.py\<close>), \<open>Lease_Laws\<close>, \<open>Lease_Properties\<close>;
    \<open>Deployment_Manifest\<close> (\<open>deployment_manifest.py\<close>), \<open>Manifest_Properties\<close>.
  \<^item> \<open>Pr_Bindings\<close> (\<open>pr_bindings.py\<close>), \<open>Binding_Laws\<close>, \<open>Binding_Properties\<close>: which pull request
    implements which story, with the step relation \<open>binding_step\<close> of every writer of the table.
    \<open>Handoff\<close> (\<open>handoff.py\<close>, \<open>load_in_force_policy\<close> of \<open>policy_admission.py\<close>, the handoff route of
    \<open>agentauth/registration_routes.py\<close>), \<open>Handoff_Properties\<close>.
  \<^item> \<open>Execution_Policy\<close> (\<open>execution_policy.py\<close>), \<open>Policy_Properties\<close>.
  \<^item> \<open>Graph_Address\<close> (\<open>address.py\<close>), \<open>Plan_Graph\<close>, \<open>Plan_Cycle\<close>, \<open>Loop_Proposal\<close> (\<open>proposal.py\<close>):
    addresses, the graph searches, and every rule of \<open>validate_proposal\<close>; \<open>Proposal_Properties\<close>.
  \<^item> \<open>Registration\<close>, \<open>Draft_Registration\<close> (\<open>registration.py\<close>), \<open>Repository\<close> (\<open>repository.py\<close>),
    \<open>Plan_Change\<close> (\<open>amend.py\<close>), \<open>Plan_Compile\<close> (\<open>compile.py\<close>); \<open>Registration_Laws\<close>, \<open>Draft_Laws\<close>,
    \<open>Compile_Samples\<close>.
  \<^item> \<open>Accepted_Node\<close>, \<open>Evaluation_Plan\<close>, \<open>Evaluation_Waiver\<close>, \<open>Tick\<close> (the modules of the same names);
    \<open>Tick_Laws\<close>, \<open>Tick_Properties\<close>, \<open>Tick_Decisions\<close>, \<open>Tick_Progress\<close>, \<open>Tick_Guarantees\<close>,
    \<open>Plan_Progress\<close>.
  \<^item> \<open>Gate_Execution\<close>: what an approval may set in motion before it is recorded, the renewal of a
    delivery window and the acceptance of an evaluation (\<open>gate_execution.py\<close>, the writes of
    \<open>shared_window.py\<close> and \<open>evaluation_acceptance.py\<close>; the records they build are parameters).
    \<open>Gate_Answer\<close> (\<open>adapters/github_comments.py\<close>, the route of \<open>controls.py\<close>, the permission of
    \<open>admin/access_control.py\<close>), \<open>Gate_Laws\<close>, \<open>Gate_Properties\<close>; \<open>Dispatch\<close> (\<open>dispatch.py\<close>,
    \<open>genesis.py\<close>), \<open>Dispatch_Laws\<close>; \<open>Quiet_Laws\<close>: what the claims, the ledger, the bindings and the
    handoff leave alone; \<open>Lifecycle\<close>, \<open>Flow_Guarantees\<close>: the flow as a whole.

  \<^bold>\<open>What is shown.\<close>

  \<^item> Claims refine a lock whose generations have one owner each and never fall; a handover needs
    evidence, and no lane is released while a continuation rests on it. Composed with the ledger: once a
    generation is freed, no process of it writes to the ledger again (this theory).
  \<^item> The ledger keeps its invariant on every step, consumes each revision once, never reopens a settled
    action, and records on an execution exactly what an advance asks for.
  \<^item> Leases are exclusive: a hold that nobody disturbs stays, and is taken over on evidence only.
  \<^item> A merged pull request completes at most one story; a binding is replaced by a human only and moves
    only from a superseded story to its successor; a repeated registration changes nothing, and every
    change is recorded with the whole row.
  \<^item> An accepted handoff leaves its receipt on the row of the attempt and keeps the lane from being
    released; the route makes nothing else durable, and only for the run of the current attempt.
  \<^item> A validated plan is acyclic, its addresses unique and its same-issue work ordered; the verdict does
    not depend on Python's set order, and the two searches agree. A flow whose rows realise such a plan
    never deadlocks: as long as nodes are pending, one has all its predecessors passed, and a tick moves
    it if it is free otherwise (this theory).
  \<^item> The tick moves only nodes whose predecessors have passed or hold a verified human waiver, moves every
    free story and gate, contains a failing node, effects nothing twice when two ticks overlap, and is
    bounded; on one node the engine makes a bounded number of moves between two authorised recoveries.
  \<^item> An action is admitted exactly under the stated conditions, the
    credential's among them; gates hold, narrowing a policy adds no
    authority, and a stamp binds the content.
  \<^item> The acceptance gate of a registered draft is its only root and is recognised as such; wave gates
    separate waves. Registering again changes nothing. Until a human approves that gate, nothing of the
    flow moves, whatever ticks, dispatches, continuations, answers to other gates, waivers,
    registrations and operations of the claims, the ledger, the bindings and the handoff do. An answer
    moves only its gate, can be replayed, and grants a policy only bound to the reviewed revision; a
    comment cannot forge the binding as long as lowercasing keeps its positions. A dispatch has a human root and starts its node once.

  \<^bold>\<open>How the proofs are built.\<close> What an operation does to the store is stated once, as a closed form or a
  frame (\<open>Claim_Laws\<close>, \<open>Lease_Laws\<close>, \<open>Binding_Laws\<close>, \<open>Ledger\<close>, \<open>Tick_Laws\<close>, \<open>Gate_Laws\<close>, \<open>Draft_Laws\<close>,
  \<open>Dispatch_Laws\<close>), the operations of a component are the steps of a relation, and the contracts of
  \<open>Prelude\<close> are interpreted on these relations: \<open>claim_runs\<close>, \<open>claim_gens\<close>, \<open>lease_runs\<close>,
  \<open>lease_revisions\<close>, \<open>hold\<close>, \<open>writes\<close>, \<open>ledger\<close>, \<open>generations\<close>, \<open>revisions\<close>, \<open>bound\<close>, \<open>engine\<close> and \<open>behind\<close>; the
  graph searches meet \<open>cycle_check\<close> and \<open>ranking\<close>, the stored enumerations \<open>text_enum\<close>.

  \<^bold>\<open>Bounds.\<close> No definition runs on fuel that the code does not have. The search of a plan's ancestors
  stops after the code's own \<open>max_hops\<close> of 100; a tick reads pages of 500 nodes up to 10000 nodes, so at
  most 20 full pages, after which the code itself stops and says so; the loops of the graph searches
  terminate by measures.

  \<^bold>\<open>Assumptions of the theorems.\<close> Ids of rows are unique, and freshly minted ids are fresh. Python
  enumerates a set in some order without repetition (\<open>set_order\<close>). Each theorem with a
  hypothesis has a witness on which it holds.

  \<^bold>\<open>Not modelled.\<close> The loaders of the manifest (YAML, packages), the rest of \<open>plan_lineage.py\<close> and
  \<open>amend.py\<close> (removal of nodes, settlement of superseded lanes, receipt dispositions), the dispatch pass,
  results and stall detection, the
  collection of evaluation evidence, budgets, the merge, review, deployment and evaluation controllers:
  their steps are calls to GitHub, agents and clouds, around the operations modelled here. Views, routes
  and projections only read. The pool, the tasks, the other gateway services and the other modules of
  the repository (harness, tools, agents, connectors, infrastructure, price migrations) are outside the
  engine.
\<close>

section \<open>The claim fences the ledger\<close>

text \<open>A generation that the lock has been freed in is over: nobody is its live owner any more.\<close>

lemma freed_not_owner:
  assumes "claims_ok d" "lock_of d (id_org i) (id_claim i) = Some (Free h)" "id_generation i \<le> h"
    and "claim_step\<^sup>*\<^sup>* d e"
  shows "\<not> live_owner dg e i"
proof
  assume live: "live_owner dg e i"
  obtain c where c: "get_claim d (id_org i) (id_claim i) = Some c" "lock_view c = Free h"
    using assms(2) by (auto simp: lock_of_def)
  have released: "cl_state c = ''released''" "cl_generation c = h"
    using c(2) by (auto simp: lock_view_def split: if_splits)
  have "claims_grow d e" "claims_ok e"
    using claim_runs.run_grows [OF assms(4,1)] claim_runs.run_inv [OF assms(4,1)] by auto
  from grown_claim [OF this c(1)] obtain c'
    where c': "get_claim e (id_org i) (id_claim i) = Some c'" "claim_evolves c c'" by blast
  have held: "cl_state c' = ''held''" "cl_generation c' = id_generation i"
    using live c'(1) by (auto simp: live_owner_def split: option.splits)
  then have "cl_generation c' = cl_generation c"
    using c'(2) released(2) assms(3) by (simp add: claim_evolves_def)
  then have "c' = c" using c'(2) released(1) by (simp add: claim_evolves_def)
  then show False using held(1) released(1) by simp
qed

text \<open>
  C1: Releasing or handing over a claim fences the ledger. Once the claim an identity names has been
  freed in its generation or a later one, then after any further claim operations, and whatever else
  happens to the other tables, preparing, observing and advancing (without a settlement exception)
  under that identity are refused and write nothing, whoever holds the claim by then.
\<close>

theorem freed_generation_never_writes:
  assumes "claims_ok d" "lock_of d (id_org i) (id_claim i) = Some (Free h)" "id_generation i \<le> h"
    and "claim_step\<^sup>*\<^sup>* d e" "aa_released_run args = None" "\<not> aa_closing args"
  shows "(refused (fst (prepare_action dg now nid race i intent e)) \<and> snd (prepare_action dg now nid race i intent e) = e)
     \<and> (refused (fst (record_observation dg now i ob e)) \<and> snd (record_observation dg now i ob e) = e)
     \<and> (refused (fst (advance_execution dg env i adv args e)) \<and> snd (advance_execution dg env i adv args e) = e)"
  using refused_without_owner [OF freed_not_owner [OF assms(1-4)]] assms(5,6) by blast

definition released_db :: db where
  "released_db = sample_db\<lparr>claims := [released (Aware 9) RrCOMPLETED sample_claim]\<rparr>"

theorem freed_generation_never_writes_witness:
  "refused (fst (prepare_action sample_digest (Aware 1) ''a'' None sample_identity sample_intent released_db))"
proof -
  have "claims_ok released_db"
    "lock_of released_db (id_org sample_identity) (id_claim sample_identity) = Some (Free 2)"
    "id_generation sample_identity \<le> 2"
    by code_simp+
  moreover have "aa_released_run no_args = None" "\<not> aa_closing no_args" by code_simp+
  ultimately show ?thesis using freed_generation_never_writes [OF _ _ _ rtranclp.rtrancl_refl] by blast
qed

section \<open>A validated plan never deadlocks\<close>

text \<open>
  C5: A flow that runs a validated plan never deadlocks. When the stored edges into its nodes are
  dependencies of a plan that passed validation, and every node of the flow is pending or has passed,
  then as long as one is pending there is a pending node all of whose stored predecessors have
  passed; and one tick makes that node ready, or presents it if it is a gate, provided it is no
  evaluation, its flow is not archived, every input its accepted plan requires is available (the
  output of another node is, once that node has passed and a verifier of the release binding, if one
  is asked, stays content with it during the tick), and the scan reaches its row: the pages can be
  read, no other transaction holds the row, and fewer than 10000 nodes are candidates.
\<close>

theorem validated_plan_never_deadlocks:
  assumes "set_order listing" "validate_proposal listing parse installed answered p = []"
    and "nodes_unique d" "realises d fl p"
    and "\<forall>n \<in> set (nodes d). in_flow fl n \<longrightarrow> nd_state n = ''pending'' \<or> nd_state n = ''passed''"
    and "n0 \<in> set (nodes d)" "in_flow fl n0" "nd_state n0 = ''pending''"
  shows "\<exists>n \<in> set (nodes d). in_flow fl n \<and> nd_state n = ''pending''
    \<and> (\<forall>r \<in> set (predecessor_rows d (nd_org n) (nd_id n)). snd r = ''passed'')
    \<and> (nd_kind n \<noteq> ''eval'' \<and> unarchived d n \<and> inputs_met env d n \<and> scan_reaches env d (nd_id n) \<longrightarrow>
         row_of (snd (run_tick env d)) (nd_id n) = [moved n])"
proof -
  have "acyclic (depends p)" using validate_nil [OF assms(1)] assms(2) by blast
  from first_pending [OF this assms(4-8)] obtain n where n: "n \<in> set (nodes d)" "in_flow fl n"
      "nd_state n = ''pending''" "\<forall>r \<in> set (predecessor_rows d (nd_org n) (nd_id n)). snd r = ''passed''"
    by blast
  have "row_of (snd (run_tick env d)) (nd_id n) = [moved n]"
    if "nd_kind n \<noteq> ''eval'' \<and> unarchived d n \<and> inputs_met env d n \<and> scan_reaches env d (nd_id n)"
    using run_tick_moves [OF assms(3) n(1)] that n(3,4) by (simp add: free_to_move_def)
  with n show ?thesis by blast
qed

definition plan_flow :: flow_row where
  "plan_flow = sample_flow\<lparr>fl_slug := ''f''\<rparr>"

definition plan_node :: "string \<Rightarrow> string \<Rightarrow> string \<Rightarrow> node_row" where
  "plan_node ref kind st = Samples.sample_node\<lparr>nd_id := ref, nd_ref := ref, nd_kind := kind, nd_state := st\<rparr>"

definition plan_db :: db where
  "plan_db = sample_db\<lparr>flows := [plan_flow],
     nodes := [plan_node ''a'' ''story'' ''passed'', plan_node ''b'' ''story'' ''pending'', plan_node ''v'' ''eval'' ''pending''],
     edges := [\<lparr>ed_id = ''1'', ed_org = ''o'', ed_flow = ''f'', ed_from = ''a'', ed_to = ''b''\<rparr>,
       \<lparr>ed_id = ''2'', ed_org = ''o'', ed_flow = ''f'', ed_from = ''b'', ed_to = ''v''\<rparr>], plans := []\<rparr>"

lemmas plan_db_defs = plan_db_def plan_flow_def plan_node_def sample_flow_def Samples.sample_node_def sample_db_def

theorem validated_plan_never_deadlocks_witness:
  "\<exists>n \<in> set (nodes plan_db). nd_state n = ''pending''
    \<and> (\<forall>r \<in> set (predecessor_rows plan_db (nd_org n) (nd_id n)). snd r = ''passed'')"
proof -
  have u: "nodes_unique plan_db" by (simp add: nodes_unique_def unique_on_def plan_db_defs)
  have d: "(''f/e/w/a'', ''f/e/w/b'') \<in> depends Proposal_Properties.sample_plan"
      "(''f/e/w/b'', ''f/e/w/v'') \<in> depends Proposal_Properties.sample_plan"
    by (simp_all add: depends_def plan_edges_def Proposal_Properties.sample_plan_def Proposal_Properties.sample_node_def
      declared_def Let_def)
  have "realises plan_db plan_flow Proposal_Properties.sample_plan"
    using d by (simp add: realises_def in_flow_def plan_db_defs node_address_def)
  moreover have "\<forall>n \<in> set (nodes plan_db). in_flow plan_flow n \<longrightarrow> nd_state n = ''pending'' \<or> nd_state n = ''passed''"
    by (simp add: plan_db_defs)
  moreover have "plan_node ''b'' ''story'' ''pending'' \<in> set (nodes plan_db)" by (simp add: plan_db_def)
  moreover have "in_flow plan_flow (plan_node ''b'' ''story'' ''pending'')" "nd_state (plan_node ''b'' ''story'' ''pending'') = ''pending''"
    by (simp_all add: in_flow_def plan_db_defs)
  ultimately show ?thesis
    using validated_plan_never_deadlocks [OF remdups_set_order sample_plan_valid u] by blast
qed

end
